(* ===== verification/Prelude.thy ===== *)
theory Prelude
  imports Main
begin

text \<open>
  Shared vocabulary of the development.

  \<^item> \<open>outcome\<close>: how a call of a C function ends.  A stored procedure either returns
    (\<open>Ok\<close>), or leaves through \<open>ereport(ERROR)\<close> (\<open>Fail Sql_Error\<close>: PostgreSQL unwinds the
    stack and aborts the transaction), or executes something the C language gives no
    meaning to (\<open>Fail Crash\<close>: a read of an uninitialised slot, a dereference of a null
    pointer or of one to an array that no longer exists, a write past the end of a buffer).
  \<^item> \<open>obind\<close>: sequencing of calls; nothing after a failure is executed.
  \<^item> keyed tables: generic facts on lists of rows with a key, which is what the SQL
    statements of the stored procedures work on.
\<close>

section \<open>Outcomes of C calls\<close>

datatype fault = Sql_Error | Crash

datatype 'a outcome = Ok 'a | Fail fault

primrec obind :: "'a outcome \<Rightarrow> ('a \<Rightarrow> 'b outcome) \<Rightarrow> 'b outcome" where
  "obind (Ok x) k = k x"
| "obind (Fail e) k = Fail e"

primrec from_ptr :: "'a option \<Rightarrow> 'a outcome" where
  "from_ptr None = Fail Crash"
| "from_ptr (Some x) = Ok x"

lemma obind_eq_Ok: "obind m k = Ok y \<longleftrightarrow> (\<exists>x. m = Ok x \<and> k x = Ok y)"
  by (cases m) auto

lemma obind_eq_Fail: "obind m k = Fail e \<longleftrightarrow> m = Fail e \<or> (\<exists>x. m = Ok x \<and> k x = Fail e)"
  by (cases m) auto

lemma obind_assoc: "obind (obind m k) h = obind m (\<lambda>x. obind (k x) h)"
  by (cases m) auto

lemma from_ptr_eq_Ok [simp]: "from_ptr p = Ok x \<longleftrightarrow> p = Some x"
  by (cases p) auto

lemma from_ptr_eq_Fail [simp]: "from_ptr p = Fail e \<longleftrightarrow> p = None \<and> e = Crash"
  by (cases p) auto

named_theorems frame_simps \<open>definitions and evaluation rules of the frame bodies\<close>

named_theorems sql_simps \<open>evaluation rules of the SQL statements\<close>

section \<open>Lists of rows\<close>

text \<open>\<open>UPDATE t SET \<dots> WHERE p\<close> rewrites the rows that satisfy \<open>p\<close> in place.\<close>

definition update_where :: "('r \<Rightarrow> bool) \<Rightarrow> ('r \<Rightarrow> 'r) \<Rightarrow> 'r list \<Rightarrow> 'r list" where
  "update_where p f rs = map (\<lambda>r. if p r then f r else r) rs"

definition delete_where :: "('r \<Rightarrow> bool) \<Rightarrow> 'r list \<Rightarrow> 'r list" where
  "delete_where p rs = filter (\<lambda>r. \<not> p r) rs"

lemma update_where_simps [simp]:
  "update_where p f [] = []"
  "update_where p f (r # rs) = (if p r then f r else r) # update_where p f rs"
  by (simp_all add: update_where_def)

lemma delete_where_simps [simp]:
  "delete_where p [] = []"
  "delete_where p (r # rs) = (if p r then delete_where p rs else r # delete_where p rs)"
  by (simp_all add: delete_where_def)

lemma length_update_where [simp]: "length (update_where p f rs) = length rs"
  by (simp add: update_where_def)

lemma set_update_where:
  "set (update_where p f rs) = f ` {r \<in> set rs. p r} \<union> {r \<in> set rs. \<not> p r}"
  by (auto simp: update_where_def)

lemma set_delete_where [simp]: "set (delete_where p rs) = {r \<in> set rs. \<not> p r}"
  by (auto simp: delete_where_def)

lemma map_update_where:
  "(\<And>r. r \<in> set rs \<Longrightarrow> p r \<Longrightarrow> g (f r) = g r) \<Longrightarrow> map g (update_where p f rs) = map g rs"
  by (induction rs) auto

lemma update_where_none:
  "(\<And>r. r \<in> set rs \<Longrightarrow> \<not> p r) \<Longrightarrow> update_where p f rs = rs"
  by (induction rs) auto

lemma delete_where_none:
  "(\<And>r. r \<in> set rs \<Longrightarrow> \<not> p r) \<Longrightarrow> delete_where p rs = rs"
  by (induction rs) auto

lemma filter_update_where:
  "(\<And>r. r \<in> set rs \<Longrightarrow> p r \<Longrightarrow> q (f r) = q r) \<Longrightarrow>
   filter q (update_where p f rs) = update_where p f (filter q rs)"
  by (induction rs) auto

lemma filter_delete_where: "filter q (delete_where p rs) = delete_where p (filter q rs)"
  by (induction rs) auto

lemma distinct_map_delete_where:
  "distinct (map k rs) \<Longrightarrow> distinct (map k (delete_where p rs))"
  by (simp add: delete_where_def distinct_map_filter)

text \<open>In a table whose key is unique a statement on one key value touches one row.\<close>

lemma keyed_filter_single:
  "distinct (map k rs) \<Longrightarrow> r \<in> set rs \<Longrightarrow> filter (\<lambda>x. k x = k r) rs = [r]"
proof (induction rs)
  case Nil
  then show ?case by simp
next
  case (Cons a rs)
  show ?case
  proof (cases "a = r")
    case True
    with Cons.prems have "\<And>x. x \<in> set rs \<Longrightarrow> k x \<noteq> k r" by (auto simp: image_iff)
    then have "filter (\<lambda>x. k x = k r) rs = []" by (simp add: filter_empty_conv)
    with True show ?thesis by simp
  next
    case False
    with Cons.prems have "r \<in> set rs" by simp
    with Cons.prems have "k a \<noteq> k r" by (auto simp: image_iff)
    with Cons \<open>r \<in> set rs\<close> show ?thesis by simp
  qed
qed

text \<open>Looking a row up by its key after an update and after an insertion.\<close>

lemma find_update_where:
  "(\<And>r. k (g r) = k r) \<Longrightarrow> find (\<lambda>r. k r = v) (update_where (\<lambda>r. k r = w) g rs) =
     (if v = w then map_option g (find (\<lambda>r. k r = v) rs) else find (\<lambda>r. k r = v) rs)"
  by (induction rs) auto

lemma find_delete_where:
  "find (\<lambda>r. k r = v) (delete_where (\<lambda>r. k r = w) rs) =
     (if v = w then None else find (\<lambda>r. k r = v) rs)"
  by (induction rs) auto

lemma find_append:
  "find p (xs @ ys) = (case find p xs of None \<Rightarrow> find p ys | Some x \<Rightarrow> Some x)"
  by (induction xs) auto

lemma find_none_key: "find (\<lambda>r. k r = v) rs = None \<longleftrightarrow> v \<notin> k ` set rs"
  by (auto simp: find_None_iff)

lemma find_filter: "find P xs = Some x \<Longrightarrow> \<exists>ys. filter P xs = x # ys"
  by (induction xs) (auto split: if_splits)

lemma keyed_filter_none: "v \<notin> k ` set rs \<Longrightarrow> filter (\<lambda>x. k x = v) rs = []"
  by (auto simp: filter_empty_conv)

lemma sum_list_delete_where:
  "sum_list (map f (delete_where p rs)) = sum_list (map f rs) - sum_list (map f (filter p rs))"
  for f :: "'r \<Rightarrow> 'v::ab_group_add"
  by (induction rs) (auto simp: algebra_simps)

lemma sum_list_update_where:
  "sum_list (map f (update_where p g rs)) =
     sum_list (map f rs) - sum_list (map f (filter p rs)) + sum_list (map (f \<circ> g) (filter p rs))"
  for f :: "'r \<Rightarrow> 'v::ab_group_add"
  by (induction rs) (auto simp: algebra_simps)

end
