(* ===== verification/C_Runtime.thy ===== *)
theory C_Runtime
  imports Prelude
begin

text \<open>
  What the stored procedures use of the C language and its library: 32 and 64 bit
  integers, C strings in fixed buffers (\<open>strncpy\<close>), text to number (\<open>atoi\<close>, \<open>atoll\<close>)
  and number to text (\<open>snprintf\<close> with \<open>%d\<close>).

  A C string is the list of its characters before the terminating NUL.  A buffer is the
  list of its bytes.  PostgreSQL and its extensions are compiled with \<open>-fwrapv\<close>, so \<open>int\<close>
  arithmetic wraps; \<open>i32\<close> and \<open>i64\<close> write the wrap-around out.
\<close>

section \<open>Machine integers\<close>

definition i32 :: "int \<Rightarrow> int" where
  "i32 x = (x + 2147483648) mod 4294967296 - 2147483648"

definition i64 :: "int \<Rightarrow> int" where
  "i64 x = (x + 9223372036854775808) mod 18446744073709551616 - 9223372036854775808"

definition i16 :: "int \<Rightarrow> int" where
  "i16 x = (x + 2 ^ 15) mod 2 ^ 16 - 2 ^ 15"

definition in_i32 :: "int \<Rightarrow> bool" where
  "in_i32 x \<longleftrightarrow> - 2147483648 \<le> x \<and> x < 2147483648"

definition in_i64 :: "int \<Rightarrow> bool" where
  "in_i64 x \<longleftrightarrow> - 9223372036854775808 \<le> x \<and> x < 9223372036854775808"

lemma i32_id [simp]: "in_i32 x \<Longrightarrow> i32 x = x"
  by (simp add: i32_def in_i32_def)

lemma i64_id [simp]: "in_i64 x \<Longrightarrow> i64 x = x"
  by (simp add: i64_def in_i64_def)

lemma in_i32_i32 [simp]: "in_i32 (i32 x)"
proof -
  have "0 \<le> (x + 2147483648) mod 4294967296" "(x + 2147483648) mod 4294967296 < 4294967296"
    by simp_all
  then show ?thesis unfolding i32_def in_i32_def by linarith
qed

lemma in_i32_in_i64: "in_i32 x \<Longrightarrow> in_i64 x"
  by (simp add: in_i32_def in_i64_def)

section \<open>Buffers and C strings\<close>

abbreviation NUL :: char where
  "NUL \<equiv> CHR 0x00"

text \<open>\<open>c_str\<close> is the string a buffer holds; \<open>is_cstr\<close> says a string has no NUL of its own.\<close>

definition c_str :: "char list \<Rightarrow> string" where
  "c_str buf = takeWhile (\<lambda>c. c \<noteq> NUL) buf"

definition is_cstr :: "string \<Rightarrow> bool" where
  "is_cstr s \<longleftrightarrow> NUL \<notin> set s"

text \<open>The \<open>n\<close> bytes \<open>strncpy(dst, s, n)\<close> writes: the string, padded with NULs.\<close>

definition strncpy :: "string \<Rightarrow> nat \<Rightarrow> char list" where
  "strncpy s n = take n s @ replicate (n - length s) NUL"

lemma length_strncpy [simp]: "length (strncpy s n) = n"
  by (simp add: strncpy_def)

text \<open>
  The two idioms of the stored procedures for an argument of type \<open>text\<close>:
  \<open>strncpy(b, s, LEN); b[LEN] = 0\<close> and
  \<open>strncpy(b, s, sizeof(b)); b[sizeof(b) - 1] = 0\<close>.
\<close>

definition copy_len :: "nat \<Rightarrow> string \<Rightarrow> string" where
  "copy_len len s = c_str (strncpy s len @ [NUL])"

definition copy_sizeof :: "nat \<Rightarrow> string \<Rightarrow> string" where
  "copy_sizeof sz s = c_str ((strncpy s sz)[sz - 1 := NUL])"

lemma takeWhile_no_NUL: "is_cstr s \<Longrightarrow> takeWhile (\<lambda>c. c \<noteq> NUL) (take n s @ NUL # r) = take n s"
  by (subst takeWhile_tail) (auto simp: is_cstr_def takeWhile_eq_all_conv dest: in_set_takeD)

lemma copy_len_eq [simp]: "is_cstr s \<Longrightarrow> copy_len len s = take len s"
proof -
  assume s: "is_cstr s"
  have "strncpy s len @ [NUL] = take len s @ NUL # replicate (len - length s) NUL"
    by (simp add: strncpy_def replicate_append_same)
  with s show ?thesis
    by (simp add: copy_len_def c_str_def takeWhile_no_NUL)
qed

lemma copy_sizeof_eq [simp]: "is_cstr s \<Longrightarrow> 0 < sz \<Longrightarrow> copy_sizeof sz s = take (sz - 1) s"
proof -
  assume s: "is_cstr s" and "0 < sz"
  then obtain n where n: "sz = Suc n" by (cases sz) auto
  show ?thesis
  proof (cases "length s \<le> n")
    case True
    then have "strncpy s sz = s @ replicate (n - length s) NUL @ [NUL]"
      by (simp add: strncpy_def n Suc_diff_le replicate_append_same)
    then have "(strncpy s sz)[sz - 1 := NUL] = s @ replicate (n - length s) NUL @ [NUL]"
      using True by (simp add: n list_update_append)
    then have "(strncpy s sz)[sz - 1 := NUL] = take n s @ NUL # replicate (n - length s) NUL"
      using True by (simp add: replicate_append_same)
    with s n show ?thesis by (simp add: copy_sizeof_def c_str_def takeWhile_no_NUL)
  next
    case False
    then have "(strncpy s sz)[sz - 1 := NUL] = take n s @ NUL # []"
      by (simp add: strncpy_def n take_Suc_conv_app_nth list_update_append)
    with s n show ?thesis
      using takeWhile_no_NUL [OF s, of n "[]"] by (simp add: copy_sizeof_def c_str_def)
  qed
qed

lemma length_copy_len: "length (copy_len len s) \<le> len"
proof -
  have "length (takeWhile (\<lambda>c. c \<noteq> NUL) (strncpy s len @ [NUL])) \<le> len"
    using length_takeWhile_le [of "\<lambda>c. c \<noteq> NUL" "strncpy s len"]
    by (cases "\<exists>x \<in> set (strncpy s len). x = NUL") (auto simp: takeWhile_append)
  then show ?thesis by (simp add: copy_len_def c_str_def)
qed

section \<open>Decimal text\<close>

definition digit_char :: "nat \<Rightarrow> char" where
  "digit_char n = ''0123456789'' ! n"

definition digit_val :: "char \<Rightarrow> nat option" where
  "digit_val = map_of (zip ''0123456789'' [0, 1, 2, 3, 4, 5, 6, 7, 8, 9])"

fun show_nat :: "nat \<Rightarrow> string" where
  "show_nat n = (if n < 10 then [digit_char n] else show_nat (n div 10) @ [digit_char (n mod 10)])"

declare show_nat.simps [simp del]

definition show_int :: "int \<Rightarrow> string" where
  "show_int x = (if x < 0 then CHR ''-'' # show_nat (nat (- x)) else show_nat (nat x))"

text \<open>Reading digits from the left, as \<open>strtol\<close> does: the value and the rest.\<close>

fun read_nat :: "nat \<Rightarrow> string \<Rightarrow> nat \<times> string" where
  "read_nat acc [] = (acc, [])"
| "read_nat acc (c # cs) =
     (case digit_val c of None \<Rightarrow> (acc, c # cs) | Some d \<Rightarrow> read_nat (acc * 10 + d) cs)"

definition is_space :: "char \<Rightarrow> bool" where
  "is_space c \<longleftrightarrow> c = CHR '' '' \<or> c = CHR 0x09 \<or> c = CHR 0x0A \<or> c = CHR 0x0B
     \<or> c = CHR 0x0C \<or> c = CHR 0x0D"

definition skip_space :: "string \<Rightarrow> string" where
  "skip_space s = dropWhile is_space s"

text \<open>The sign and the remaining text.\<close>

fun read_sign :: "string \<Rightarrow> int \<times> string" where
  "read_sign [] = (1, [])"
| "read_sign (c # cs) =
     (if c = CHR ''-'' then (-1, cs) else if c = CHR ''+'' then (1, cs) else (1, c # cs))"

definition clamp_i64 :: "int \<Rightarrow> int" where
  "clamp_i64 x = max (- 9223372036854775808) (min 9223372036854775807 x)"

definition strtol10 :: "string \<Rightarrow> int" where
  "strtol10 s = (case read_sign (skip_space s) of (sg, r) \<Rightarrow> clamp_i64 (sg * int (fst (read_nat 0 r))))"

definition atoll :: "string \<Rightarrow> int" where
  "atoll s = strtol10 s"

definition atoi :: "string \<Rightarrow> int" where
  "atoi s = i32 (strtol10 s)"

text \<open>\<open>snprintf(buf, size, "%d", x)\<close> leaves at most \<open>size - 1\<close> characters.\<close>

definition snprintf_d :: "nat \<Rightarrow> int \<Rightarrow> string" where
  "snprintf_d sz x = take (sz - 1) (show_int x)"

subsection \<open>Round trip of decimal text\<close>

lemma digit_cases:
  assumes "(n::nat) < 10"
  obtains "n = 0" | "n = 1" | "n = 2" | "n = 3" | "n = 4" | "n = 5" | "n = 6" | "n = 7"
    | "n = 8" | "n = 9"
proof -
  from assms have "n \<in> {0, 1, 2, 3, 4, 5, 6, 7, 8, 9}" by auto
  with that show ?thesis by blast
qed

lemma digit_val_char [simp]: "n < 10 \<Longrightarrow> digit_val (digit_char n) = Some n"
proof -
  assume "n < 10"
  then show ?thesis by (rule digit_cases) (simp_all add: digit_val_def digit_char_def)
qed

lemma digit_char_plain:
  "n < 10 \<Longrightarrow> digit_char n \<noteq> CHR ''-'' \<and> digit_char n \<noteq> CHR ''+'' \<and> digit_char n \<noteq> NUL
     \<and> \<not> is_space (digit_char n)"
proof -
  assume "n < 10"
  then show ?thesis by (rule digit_cases) (simp_all add: digit_char_def is_space_def)
qed

definition no_digit_head :: "string \<Rightarrow> bool" where
  "no_digit_head r \<longleftrightarrow> (case r of [] \<Rightarrow> True | c # _ \<Rightarrow> digit_val c = None)"

lemma read_nat_stop: "no_digit_head r \<Longrightarrow> read_nat acc r = (acc, r)"
  by (cases r) (auto simp: no_digit_head_def)

lemma read_show_nat_gen:
  "\<exists>k. \<forall>acc r. read_nat acc (show_nat n @ r) = read_nat (acc * 10 ^ k + n) r"
proof (induction n rule: show_nat.induct)
  case (1 n)
  show ?case
  proof (cases "n < 10")
    case True
    then have "\<forall>acc r. read_nat acc (show_nat n @ r) = read_nat (acc * 10 ^ 1 + n) r"
      by (simp add: show_nat.simps [of n])
    then show ?thesis by blast
  next
    case False
    with "1.IH" obtain k where k:
      "\<And>acc r. read_nat acc (show_nat (n div 10) @ r) = read_nat (acc * 10 ^ k + n div 10) r"
      by blast
    have "read_nat acc (show_nat n @ r) = read_nat (acc * 10 ^ Suc k + n) r" for acc r
      using False by (simp add: show_nat.simps [of n] k algebra_simps)
    then show ?thesis by blast
  qed
qed

lemma read_show_nat: "no_digit_head r \<Longrightarrow> read_nat 0 (show_nat n @ r) = (n, r)"
proof -
  assume r: "no_digit_head r"
  obtain k where "\<forall>acc r. read_nat acc (show_nat n @ r) = read_nat (acc * 10 ^ k + n) r"
    using read_show_nat_gen by blast
  then have "read_nat 0 (show_nat n @ r) = read_nat n r" by simp
  with r show ?thesis by (simp add: read_nat_stop)
qed

lemma read_show_nat_nil [simp]: "read_nat 0 (show_nat n) = (n, [])"
  using read_show_nat [of "[]" n] by (simp add: no_digit_head_def)

lemma show_nat_nonempty [simp]: "show_nat n \<noteq> []"
  by (subst show_nat.simps) simp

lemma show_nat_chars: "c \<in> set (show_nat n) \<Longrightarrow> \<exists>d < 10. c = digit_char d"
proof (induction n rule: show_nat.induct)
  case (1 n)
  show ?case
  proof (cases "n < 10")
    case True
    with "1.prems" show ?thesis by (auto simp: show_nat.simps [of n])
  next
    case False
    with "1.prems" have "c \<in> set (show_nat (n div 10)) \<or> c = digit_char (n mod 10)"
      by (auto simp: show_nat.simps [of n])
    with "1.IH" False show ?thesis
      by (metis mod_less_divisor zero_less_numeral)
  qed
qed

lemma show_nat_hd: "\<exists>d cs. d < 10 \<and> show_nat n = digit_char d # cs"
  using show_nat_chars [of "hd (show_nat n)" n] by (cases "show_nat n") auto

lemma read_sign_show_int:
  "read_sign (skip_space (show_int x @ r)) =
     (if x < 0 then (-1, show_nat (nat (- x)) @ r) else (1, show_nat (nat x) @ r))"
proof (cases "x < 0")
  case True
  then show ?thesis by (simp add: show_int_def skip_space_def is_space_def)
next
  case False
  obtain d cs where "d < 10" "show_nat (nat x) = digit_char d # cs" using show_nat_hd by blast
  with False digit_char_plain [of d] show ?thesis by (simp add: show_int_def skip_space_def)
qed

lemma strtol10_show_int [simp]: "in_i64 x \<Longrightarrow> strtol10 (show_int x) = x"
  using read_sign_show_int [of x "[]"]
  by (simp add: strtol10_def clamp_i64_def in_i64_def split: if_splits)

lemma atoll_show_int [simp]: "in_i64 x \<Longrightarrow> atoll (show_int x) = x"
  by (simp add: atoll_def)

lemma atoi_show_int [simp]: "in_i32 x \<Longrightarrow> atoi (show_int x) = x"
  by (simp add: atoi_def in_i32_in_i64)

lemma is_cstr_show_int [simp]: "is_cstr (show_int x)"
  using show_nat_chars digit_char_plain by (fastforce simp: is_cstr_def show_int_def)

subsection \<open>Width of decimal text\<close>

lemma length_show_nat: "n < 10 ^ k \<Longrightarrow> 0 < k \<Longrightarrow> length (show_nat n) \<le> k"
proof (induction k arbitrary: n)
  case 0
  then show ?case by simp
next
  case (Suc k)
  show ?case
  proof (cases "n < 10")
    case True
    then show ?thesis by (simp add: show_nat.simps [of n])
  next
    case False
    with Suc.prems have "0 < k" by (cases k) auto
    moreover from Suc.prems have "n div 10 < 10 ^ k" by (simp add: less_mult_imp_div_less)
    ultimately have "length (show_nat (n div 10)) \<le> k" by (rule Suc.IH [rotated])
    with False show ?thesis by (simp add: show_nat.simps [of n])
  qed
qed

lemma length_show_int:
  "\<bar>x\<bar> < 10 ^ k \<Longrightarrow> 0 < k \<Longrightarrow> length (show_int x) \<le> (if x < 0 then Suc k else k)"
proof -
  assume x: "\<bar>x\<bar> < 10 ^ k" and k: "0 < k"
  have "nat \<bar>x\<bar> < 10 ^ k" using x by (simp add: nat_less_iff)
  with k have "length (show_nat (nat \<bar>x\<bar>)) \<le> k" by (rule length_show_nat [rotated])
  then show ?thesis by (cases "x < 0") (simp_all add: show_int_def)
qed

lemma length_show_nat_ge: "10 ^ k \<le> n \<Longrightarrow> k < length (show_nat n)"
proof (induction k arbitrary: n)
  case 0
  show ?case by simp
next
  case (Suc k)
  then have "10 ^ k \<le> n div 10" by (simp add: less_eq_div_iff_mult_less_eq mult.commute)
  with Suc.IH have "k < length (show_nat (n div 10))" .
  moreover have "10 \<le> n" using Suc.prems by (meson le_trans one_le_power power_Suc mult_le_mono2 one_le_numeral nat_mult_1_right le_numeral_extra(4) self_le_power zero_less_Suc)
  ultimately show ?case by (simp add: show_nat.simps [of n])
qed

lemma length_show_int_i64: "in_i64 x \<Longrightarrow> length (show_int x) \<le> 20"
proof -
  assume "in_i64 x"
  then have "\<bar>x\<bar> < 10 ^ 19" by (simp add: in_i64_def abs_less_iff)
  from length_show_int [OF this] show ?thesis by (simp split: if_splits)
qed

lemma length_show_int_i32: "in_i32 x \<Longrightarrow> length (show_int x) \<le> 11"
proof -
  assume "in_i32 x"
  then have "\<bar>x\<bar> < 10 ^ 10" by (simp add: in_i32_def abs_less_iff)
  from length_show_int [OF this] show ?thesis by (simp split: if_splits)
qed

text \<open>\<open>strstr\<close> as the position of the first occurrence.\<close>

fun strstr :: "string \<Rightarrow> string \<Rightarrow> nat option" where
  "strstr s p = (if take (length p) s = p then Some 0 else
     (case s of [] \<Rightarrow> None | c # cs \<Rightarrow> map_option Suc (strstr cs p)))"

declare strstr.simps [simp del]

end
