(* ===== verification/Doubles.thy ===== *)
theory Doubles
  imports C_Runtime Complex_Main "HOL-Library.Log_Nat"
begin

text \<open>
  The C type \<open>double\<close>.  A finite IEEE 754 binary64 value is represented by the rational
  number it denotes, and every operation of the source rounds its exact result with
  \<open>rnd64\<close>: to nearest, ties to even, 53 significant bits, gradual underflow below
  \<open>2 ^ -1022\<close>.  The amounts of the program are \<open>NUMERIC(15,2)\<close> at most, so results
  beyond \<open>2 ^ 1024\<close> (infinities and NaN) do not arise and are not represented.

  Also here: text to double (\<open>atof\<close>), the \<open>%w.2f\<close> conversion of \<open>snprintf\<close>, and \<open>rint\<close>.
\<close>

type_synonym double = rat

section \<open>Rounding\<close>

text \<open>Round half to even, on integers; this is also the C function \<open>rint\<close>.\<close>

definition rne :: "rat \<Rightarrow> int" where
  "rne x = (let f = \<lfloor>x\<rfloor>; d = x - of_int f in
     if d < 1/2 then f else if d > 1/2 then f + 1 else if even f then f else f + 1)"

definition pow2 :: "int \<Rightarrow> rat" where
  "pow2 e = (if 0 \<le> e then 2 ^ nat e else 1 / 2 ^ nat (- e))"

text \<open>The binary exponent of a non-zero rational: \<open>2 ^ ilog2 x \<le> \<bar>x\<bar> < 2 ^ (ilog2 x + 1)\<close>.\<close>

definition ilog2 :: "rat \<Rightarrow> int" where
  "ilog2 x = (let (a, b) = quotient_of \<bar>x\<bar>; k = bitlen a - bitlen b in
     if pow2 k \<le> \<bar>x\<bar> then k else k - 1)"

definition rnd64 :: "rat \<Rightarrow> double" where
  "rnd64 x = (if x = 0 then 0
     else let e = max (ilog2 x - 52) (- 1074) in of_int (rne (x / pow2 e)) * pow2 e)"

definition fadd :: "double \<Rightarrow> double \<Rightarrow> double" where
  "fadd a b = rnd64 (a + b)"

definition fsub :: "double \<Rightarrow> double \<Rightarrow> double" where
  "fsub a b = rnd64 (a - b)"

definition fmul :: "double \<Rightarrow> double \<Rightarrow> double" where
  "fmul a b = rnd64 (a * b)"

definition fdiv :: "double \<Rightarrow> double \<Rightarrow> double" where
  "fdiv a b = rnd64 (a / b)"

text \<open>The conversion \<open>(double) i\<close> of an \<open>int\<close>.\<close>

definition of_cint :: "int \<Rightarrow> double" where
  "of_cint i = rnd64 (of_int i)"

section \<open>Text\<close>

text \<open>The last \<open>k\<close> decimal digits of a number, leading zeros kept.\<close>

primrec frac_digits :: "nat \<Rightarrow> nat \<Rightarrow> string" where
  "frac_digits 0 m = []"
| "frac_digits (Suc k) m = digit_char (m div 10 ^ k mod 10) # frac_digits k m"

text \<open>
  The text of a \<open>NUMERIC(_, s)\<close> value with \<open>s > 0\<close>; the value is given as the integer
  number of units \<open>10 ^ -s\<close>.
\<close>

definition numeric_out :: "nat \<Rightarrow> int \<Rightarrow> string" where
  "numeric_out s n = (let m = nat \<bar>n\<bar> in
     (if n < 0 then ''-'' else '''') @ show_nat (m div 10 ^ s) @ ''.'' @ frac_digits s (m mod 10 ^ s))"

text \<open>\<open>%.2f\<close>: the exact value rounded to cents (ties to even), with its sign.\<close>

definition fmt_2f :: "double \<Rightarrow> string" where
  "fmt_2f x = (let c = nat \<bar>rne (x * 100)\<bar> in
     (if x < 0 then ''-'' else '''') @ show_nat (c div 100) @ ''.'' @ frac_digits 2 (c mod 100))"

definition pad_left :: "nat \<Rightarrow> string \<Rightarrow> string" where
  "pad_left w s = replicate (w - length s) (CHR '' '') @ s"

definition snprintf_2f :: "nat \<Rightarrow> nat \<Rightarrow> double \<Rightarrow> string" where
  "snprintf_2f sz w x = take (sz - 1) (pad_left w (fmt_2f x))"

text \<open>
  \<open>atof\<close> on decimal text: optional sign, digits, optional fraction.  The digits after the
  point are read together with those before it and scaled.
\<close>

definition strtod_exact :: "string \<Rightarrow> rat" where
  "strtod_exact s =
     (case read_sign (skip_space s) of (sg, r) \<Rightarrow>
      case read_nat 0 r of (n, r1) \<Rightarrow>
      (case r1 of
         [] \<Rightarrow> of_int sg * of_nat n
       | c # r2 \<Rightarrow>
           if c = CHR ''.'' then
             (case read_nat n r2 of (m, r3) \<Rightarrow>
                of_int sg * of_nat m / 10 ^ (length r2 - length r3))
           else of_int sg * of_nat n))"

definition atof :: "string \<Rightarrow> double" where
  "atof s = rnd64 (strtod_exact s)"

section \<open>Exactness and error of rounding\<close>

lemma rne_of_int [simp]: "rne (of_int n) = n"
  by (simp add: rne_def)

lemma rne_error: "\<bar>of_int (rne x) - x\<bar> \<le> 1/2"
proof -
  let ?d = "x - of_int \<lfloor>x\<rfloor>"
  have "0 \<le> ?d" "?d < 1" by linarith+
  then show ?thesis by (auto simp: rne_def Let_def abs_le_iff)
qed

lemma rne_unique: "\<bar>x - of_int n\<bar> < 1/2 \<Longrightarrow> rne x = n"
proof -
  assume "\<bar>x - of_int n\<bar> < 1/2"
  with rne_error [of x] have "\<bar>of_int (rne x) - of_int n :: rat\<bar> < 1" by linarith
  then have "\<bar>rne x - n\<bar> < 1" by (metis of_int_1 of_int_abs of_int_diff of_int_less_iff)
  then show ?thesis by simp
qed

lemma rne_mono: "x \<le> y \<Longrightarrow> rne x \<le> rne y"
proof (cases "\<lfloor>x\<rfloor> = \<lfloor>y\<rfloor>")
  case True
  assume "x \<le> y"
  with True show ?thesis by (auto simp: rne_def Let_def)
next
  case False
  assume "x \<le> y"
  with False have "\<lfloor>x\<rfloor> + 1 \<le> \<lfloor>y\<rfloor>" using floor_mono [of x y] by linarith
  moreover have "rne x \<le> \<lfloor>x\<rfloor> + 1" "\<lfloor>y\<rfloor> \<le> rne y" by (auto simp: rne_def Let_def)
  ultimately show ?thesis by linarith
qed

lemma pow2_pos [simp]: "0 < pow2 e"
  by (simp add: pow2_def)

lemma pow2_nonzero [simp]: "pow2 e \<noteq> 0"
  using pow2_pos [of e] by linarith

lemma pow2_add: "pow2 (a + b) = pow2 a * pow2 b"
proof -
  have "pow2 e = 2 powi e" for e by (simp add: pow2_def power_int_def field_simps)
  then show ?thesis by (simp add: power_int_add)
qed

lemma pow2_nonneg_int: "0 \<le> e \<Longrightarrow> pow2 e = of_int (2 ^ nat e)"
  by (simp add: pow2_def)

lemma pow2_mono: "a \<le> b \<Longrightarrow> pow2 a \<le> pow2 b"
proof -
  assume "a \<le> b"
  then have "1 \<le> pow2 (b - a)" by (simp add: pow2_def)
  then have "pow2 a * 1 \<le> pow2 a * pow2 (b - a)" by (intro mult_left_mono) (simp_all add: less_imp_le)
  then show ?thesis using pow2_add [of a "b - a"] by simp
qed

lemma bitlen_pow2:
  assumes "0 < a"
  shows "pow2 (bitlen a - 1) \<le> of_int a" "of_int a < pow2 (bitlen a)"
proof -
  have b: "2 ^ nat (bitlen a - 1) \<le> a" "a < 2 ^ nat (bitlen a)" and pos: "1 \<le> bitlen a"
    using bitlen_bounds [OF assms] bitlen_nonneg [of a] bitlen_eq_zero_iff [of a] assms by auto
  from b(1) have "of_int (2 ^ nat (bitlen a - 1)) \<le> (of_int a :: rat)" by (simp only: of_int_le_iff)
  then show "pow2 (bitlen a - 1) \<le> of_int a" using pos by (simp add: pow2_nonneg_int)
  from b(2) have "(of_int a :: rat) < of_int (2 ^ nat (bitlen a))" by (simp only: of_int_less_iff)
  then show "of_int a < pow2 (bitlen a)" using pos by (simp add: pow2_nonneg_int)
qed

lemma ilog2_bounds:
  assumes "x \<noteq> 0"
  shows "pow2 (ilog2 x) \<le> \<bar>x\<bar>" "\<bar>x\<bar> < pow2 (ilog2 x + 1)"
proof -
  obtain a b where q: "quotient_of \<bar>x\<bar> = (a, b)" by (cases "quotient_of \<bar>x\<bar>")
  then have b: "0 < b" and x: "\<bar>x\<bar> = of_int a / of_int b"
    using quotient_of_denom_pos quotient_of_div by auto
  have "0 < \<bar>x\<bar>" using assms by simp
  with b have a: "0 < a" unfolding x by (simp add: zero_less_divide_iff)
  let ?k = "bitlen a - bitlen b"
  have "of_int a < pow2 (bitlen a)" "pow2 (bitlen b - 1) \<le> of_int b"
    using bitlen_pow2 a b by auto
  then have "of_int a / of_int b < pow2 (bitlen a) / pow2 (bitlen b - 1)"
    using a b by (intro frac_less) auto
  also have "\<dots> = pow2 (?k + 1)"
    using pow2_add [of "?k + 1" "bitlen b - 1"] by (simp add: field_simps)
  finally have hi: "\<bar>x\<bar> < pow2 (?k + 1)" using x by simp
  have "pow2 (bitlen a - 1) \<le> of_int a" "of_int b < pow2 (bitlen b)"
    using bitlen_pow2 a b by auto
  then have "pow2 (bitlen a - 1) / pow2 (bitlen b) < of_int a / of_int b"
    using a b by (intro frac_less2) auto
  moreover have "pow2 (bitlen a - 1) / pow2 (bitlen b) = pow2 (?k - 1)"
    using pow2_add [of "?k - 1" "bitlen b"] by (simp add: field_simps)
  ultimately have lo: "pow2 (?k - 1) < \<bar>x\<bar>" using x by simp
  have l: "ilog2 x = (if pow2 ?k \<le> \<bar>x\<bar> then ?k else ?k - 1)" by (simp add: ilog2_def q)
  show "pow2 (ilog2 x) \<le> \<bar>x\<bar>" using l lo by simp
  show "\<bar>x\<bar> < pow2 (ilog2 x + 1)" using l hi by simp
qed

lemma rnd64_0 [simp]: "rnd64 0 = 0"
  by (simp add: rnd64_def)

text \<open>Integers of at most 53 bits are doubles.\<close>

lemma rnd64_of_int:
  assumes "\<bar>n\<bar> \<le> 9007199254740992"
  shows "rnd64 (of_int n) = of_int n"
proof (cases "n = 0")
  case True
  then show ?thesis by simp
next
  case False
  let ?l = "ilog2 (of_int n)" and ?e = "max (ilog2 (of_int n) - 52) (- 1074)"
  have lo: "pow2 ?l \<le> of_int \<bar>n\<bar>" using ilog2_bounds(1) [of "of_int n"] False by simp
  have "of_int \<bar>n\<bar> \<le> (of_int 9007199254740992 :: rat)" using assms by (simp only: of_int_le_iff)
  also have "\<dots> = pow2 53" by (simp add: pow2_def)
  finally have "pow2 ?l \<le> pow2 53" using lo by simp
  then have l: "?l \<le> 53"
    using pow2_mono [of 54 ?l] by (cases "?l \<le> 53") (auto simp: pow2_def)
  show ?thesis
  proof (cases "?l = 53")
    case True
    with lo have "9007199254740992 \<le> \<bar>n\<bar>"
      by (simp add: pow2_def flip: of_int_abs)
    with assms have "n = 9007199254740992 \<or> n = - 9007199254740992" by linarith
    moreover have "rne (of_int n / pow2 ?e) = n div 2"
      using True calculation rne_of_int [of 4503599627370496] rne_of_int [of "- 4503599627370496"]
      by (auto simp: pow2_def)
    ultimately show ?thesis using True False by (auto simp: rnd64_def pow2_def)
  next
    case F: False
    with l have e: "?e \<le> 0" by simp
    have "of_int n / pow2 ?e = of_int (n * 2 ^ nat (- ?e))"
      using e by (cases "?e = 0") (simp_all add: pow2_def)
    then have "rne (of_int n / pow2 ?e) = n * 2 ^ nat (- ?e)" by (simp only: rne_of_int)
    with False e show ?thesis by (cases "?e = 0") (simp_all add: rnd64_def Let_def pow2_def)
  qed
qed

lemma of_cint_i32 [simp]: "in_i32 i \<Longrightarrow> of_cint i = of_int i"
  unfolding of_cint_def by (rule rnd64_of_int) (simp add: in_i32_def abs_le_iff)

text \<open>Away from the subnormal range the relative error is at most \<open>2 ^ -53\<close>.\<close>

lemma rnd64_error:
  assumes "pow2 (- 1022) \<le> \<bar>x\<bar>"
  shows "\<bar>rnd64 x - x\<bar> \<le> \<bar>x\<bar> * pow2 (- 53)"
proof -
  have "0 < \<bar>x\<bar>" using assms pow2_pos [of "- 1022"] by linarith
  then have x: "x \<noteq> 0" by simp
  let ?l = "ilog2 x"
  have "pow2 (- 1022) < pow2 (?l + 1)" using assms ilog2_bounds(2) [OF x] by linarith
  then have l: "- 1022 \<le> ?l"
    using pow2_mono [of "?l + 1" "- 1022"] by (cases "- 1022 \<le> ?l") auto
  then have e: "max (?l - 52) (- 1074) = ?l - 52" by simp
  let ?u = "pow2 (?l - 52)"
  have r: "rnd64 x - x = (of_int (rne (x / ?u)) - x / ?u) * ?u"
    using x by (simp add: rnd64_def e Let_def algebra_simps)
  have "\<bar>rnd64 x - x\<bar> \<le> 1/2 * ?u"
    unfolding r abs_mult using rne_error [of "x / ?u"] by (intro mult_mono) (auto simp: less_imp_le)
  also have "\<dots> = pow2 ?l * pow2 (- 53)"
    using pow2_add [of ?l "- 53"] pow2_add [of "?l - 53" 1]
    by (simp add: pow2_def [of 1] field_simps)
  also have "\<dots> \<le> \<bar>x\<bar> * pow2 (- 53)"
    using ilog2_bounds(1) [OF x] by (intro mult_right_mono) (auto simp: less_imp_le)
  finally show ?thesis .
qed

section \<open>Decimal text and doubles\<close>


lemma frac_digits_mod: "k \<le> j \<Longrightarrow> frac_digits k (m mod 10 ^ j) = frac_digits k m"
proof (induction k)
  case 0 then show ?case by simp
next
  case (Suc k)
  have "m mod 10 ^ j div 10 ^ k mod 10 = m div 10 ^ k mod 10"
  proof -
    obtain i where j: "j = k + Suc i" using Suc.prems by (metis add_Suc_right less_eqE add_Suc)
    have "m mod 10 ^ j div 10 ^ k = m div 10 ^ k mod 10 ^ Suc i"
      unfolding j power_add by (simp add: mod_mult2_eq)
    then show ?thesis by (simp add: mod_mult2_eq)
  qed
  with Suc show ?case by simp
qed

lemma read_nat_frac_digits:
  "m < 10 ^ k \<Longrightarrow> read_nat acc (frac_digits k m) = (acc * 10 ^ k + m, [])"
proof (induction k arbitrary: acc m)
  case 0
  then show ?case by simp
next
  case (Suc k)
  have d: "m div 10 ^ k < 10" using Suc.prems by (simp add: less_mult_imp_div_less mult.commute)
  have f: "frac_digits k (m mod 10 ^ k) = frac_digits k m"
    by (rule frac_digits_mod) simp
  have "read_nat (acc * 10 + m div 10 ^ k) (frac_digits k m) =
          ((acc * 10 + m div 10 ^ k) * 10 ^ k + m mod 10 ^ k, [])"
    using Suc.IH [of "m mod 10 ^ k" "acc * 10 + m div 10 ^ k"] f by simp
  moreover have "(acc * 10 + m div 10 ^ k) * 10 ^ k + m mod 10 ^ k = acc * 10 ^ Suc k + m"
    by (simp add: algebra_simps)
  ultimately show ?case using d by simp
qed

lemma length_frac_digits [simp]: "length (frac_digits k m) = k"
  by (induction k) auto

lemma skip_read_sign:
  "read_sign (skip_space ((if (n::'a::linordered_idom) < 0 then ''-'' else '''') @ show_nat k @ r)) =
     (if n < 0 then -1 else 1, show_nat k @ r)"

proof (cases "n < 0")
  case True
  then show ?thesis by (simp add: skip_space_def is_space_def)
next
  case False
  obtain d cs where "d < 10" "show_nat k = digit_char d # cs" using show_nat_hd by blast
  with False digit_char_plain [of d] show ?thesis by (simp add: skip_space_def)
qed

lemma strtod_decimal:
  assumes "f < 10 ^ s"
  shows "strtod_exact ((if (n::'a::linordered_idom) < 0 then ''-'' else '''') @ show_nat q @ ''.'' @ frac_digits s f) =
    (if n < 0 then -1 else 1) * of_nat (q * 10 ^ s + f) / 10 ^ s"

  using read_show_nat [of "''.'' @ frac_digits s f" q] read_nat_frac_digits [OF assms, of q]
    skip_read_sign [of n q "''.'' @ frac_digits s f"]
  by (simp add: strtod_exact_def no_digit_head_def digit_val_def split: if_splits)

lemma strtod_numeric_out: "strtod_exact (numeric_out s n) = of_int n / 10 ^ s"
proof -
  have "nat \<bar>n\<bar> div 10 ^ s * 10 ^ s + nat \<bar>n\<bar> mod 10 ^ s = nat \<bar>n\<bar>"
    by (rule div_mult_mod_eq)
  then show ?thesis
    using strtod_decimal [of "nat \<bar>n\<bar> mod 10 ^ s" s n "nat \<bar>n\<bar> div 10 ^ s"]
    by (auto simp: numeric_out_def Let_def)
qed

lemma atof_numeric_out: "atof (numeric_out s n) = rnd64 (of_int n / 10 ^ s)"
  by (simp add: atof_def strtod_numeric_out)

lemma atof_show_int: "atof (show_int n) = rnd64 (of_int n)"
  using read_sign_show_int [of n "[]"] by (auto simp: atof_def strtod_exact_def split: if_splits)

lemma fmt_2f_cents:
  assumes x: "\<bar>x - of_int c / 100\<bar> < 1 / 200" and s: "c = 0 \<Longrightarrow> 0 \<le> x"
  shows "fmt_2f x = numeric_out 2 c"
proof -
  have "\<bar>x * 100 - of_int c\<bar> < 1 / 2" using x by linarith
  then have r: "rne (x * 100) = c" by (rule rne_unique)
  have "(x < 0) = (c < 0)"
  proof (cases "c = 0")
    case True
    with s show ?thesis by simp
  next
    case False
    then consider "1 \<le> c" | "c \<le> -1" by linarith
    then show ?thesis
    proof cases
      case 1
      then have "(1::rat) \<le> of_int c" by simp
      with x have "0 < x" by linarith
      with 1 show ?thesis by simp
    next
      case 2
      then have "of_int c \<le> (of_int (-1) :: rat)" by (simp only: of_int_le_iff)
      then have "of_int c / 100 \<le> (- 1 / 100 :: rat)" by simp
      with x have "x < 0" by linarith
      with 2 show ?thesis by simp
    qed
  qed
  with r show ?thesis by (simp add: fmt_2f_def numeric_out_def)
qed

lemma digit_char_not_NUL: "n < 10 \<Longrightarrow> digit_char n \<noteq> NUL"
  using digit_char_plain by blast

lemma is_cstr_frac_digits [simp]: "is_cstr (frac_digits k m)"
  by (induction k) (use digit_char_not_NUL [symmetric] in \<open>auto simp: is_cstr_def\<close>)

lemma length_numeric_out:
  assumes "\<bar>v\<bar> < 10 ^ p" "3 \<le> p"
  shows "length (numeric_out 2 v) \<le> (if v < 0 then p + 2 else p + 1)"
proof -
  obtain k where p: "p = k + 2" using assms(2) le_Suc_ex [of 2 p] by (auto simp: add.commute)
  have "nat \<bar>v\<bar> < 10 ^ p" using assms(1) by (simp add: nat_less_iff)
  then have "nat \<bar>v\<bar> div 10 ^ 2 < 10 ^ k" by (simp add: p power_add div_less_iff_less_mult)
  then have "length (show_nat (nat \<bar>v\<bar> div 10 ^ 2)) \<le> k" using assms(2) by (intro length_show_nat) (simp_all add: p)
  then show ?thesis by (cases "v < 0") (simp_all add: numeric_out_def Let_def p)
qed

lemma is_cstr_numeric_out [simp]: "is_cstr (numeric_out s n)"
  using is_cstr_show_int [of "int (nat \<bar>n\<bar> div 10 ^ s)"] is_cstr_frac_digits [of s "nat \<bar>n\<bar> mod 10 ^ s"]
  by (auto simp: numeric_out_def is_cstr_def show_int_def Let_def)

end
