(* ===== verification/SPI.thy ===== *)
theory SPI
  imports Doubles
begin

text \<open>
  The Server Programming Interface as the frames of \<^verbatim>\<open>storedproc/pgsql/c\<close> use it, and the
  two headers they share (\<^verbatim>\<open>frame.h\<close>, \<^verbatim>\<open>dbt5common.h\<close>).

  \<^item> \<open>datum\<close>: the typed arguments of a prepared statement.
  \<^item> \<open>spi_result\<close>: what \<open>SPI_execute_plan\<close> leaves behind.  A successful \<open>SELECT\<close> leaves
    its rows in \<open>SPI_tuptable\<close>; every other return code leaves that pointer null.
    A row is the list of its columns as \<open>SPI_getvalue\<close> returns them, text or a null pointer.
  \<^item> \<open>fctx\<close>: the state one call of a frame works on: the database session, the cached
    plans, the \<open>elog(WARNING)\<close> messages of \<open>FAIL_FRAME\<close> by statement, and
    \<open>funcctx->max_calls\<close>.
  \<^item> The database itself is a parameter \<open>spi\<close> of every frame.  The theories of the
    transactions supply one that executes their SQL statements on tables.
\<close>

section \<open>Buffer widths\<close>

text \<open>The widths of \<^verbatim>\<open>frame.h\<close> the frames use.\<close>

abbreviation (input) "BIGINT_LEN \<equiv> 20 :: nat"
abbreviation (input) "SMALLINT_LEN \<equiv> 5 :: nat"
abbreviation (input) "B_NAME_LEN \<equiv> 100 :: nat"
abbreviation (input) "INTEGER_LEN \<equiv> 10 :: nat"
abbreviation (input) "S_PRICE_T_LEN \<equiv> 14 :: nat"
abbreviation (input) "S_SYMB_LEN \<equiv> 15 :: nat"
abbreviation (input) "S_NAME_LEN \<equiv> 70 :: nat"
abbreviation (input) "ST_ID_LEN \<equiv> 4 :: nat"
abbreviation (input) "TT_ID_LEN \<equiv> 3 :: nat"
abbreviation (input) "TT_NAME_LEN \<equiv> 12 :: nat"
abbreviation (input) "AP_F_NAME_LEN \<equiv> 30 :: nat"
abbreviation (input) "AP_L_NAME_LEN \<equiv> 30 :: nat"
abbreviation (input) "AP_TAX_ID_LEN \<equiv> 20 :: nat"
abbreviation (input) "AP_ACL_LEN \<equiv> 4 :: nat"
abbreviation (input) "CO_NAME_LEN \<equiv> 60 :: nat"
abbreviation (input) "FIN_AGG_T_LEN \<equiv> 17 :: nat"
abbreviation (input) "IN_NAME_LEN \<equiv> 50 :: nat"
abbreviation (input) "T_EXEC_NAME_LEN \<equiv> 64 :: nat"
abbreviation (input) "MAXDATELEN \<equiv> 128 :: nat" \<comment> \<open>of the server's \<^verbatim>\<open>utils/datetime.h\<close>\<close>
abbreviation (input) "IDENT_T_LEN \<equiv> BIGINT_LEN"
abbreviation (input) "BALANCE_T_LEN \<equiv> 14 :: nat"
abbreviation (input) "S_COUNT_T_LEN \<equiv> BIGINT_LEN"
abbreviation (input) "NI_AUTHOR_LEN \<equiv> 30 :: nat"
abbreviation (input) "NI_ITEM_LEN \<equiv> 100000 * 5 :: nat"
abbreviation (input) "NI_SOURCE_LEN \<equiv> 30 :: nat"
abbreviation (input) "NI_HEADLINE_LEN \<equiv> 80 :: nat"
abbreviation (input) "NI_SUMMARY_LEN \<equiv> 255 :: nat"
abbreviation (input) "VALUE_T_LEN \<equiv> 12 :: nat"
abbreviation (input) "ST_NAME_LEN \<equiv> 10 :: nat"
abbreviation (input) "EX_NAME_LEN \<equiv> 100 :: nat"

section \<open>Arguments and results of statements\<close>

datatype datum =
    DInt16 int
  | DInt32 int
  | DInt64 int
  | DBool bool
  | DFloat8 double
  | DText string
  | DTimestamp int
  | DDate int
  | DTextArray "string list"

type_synonym spi_row = "string option list"

datatype spi_result =
    SPI_OK_SELECT "spi_row list"
  | SPI_OK_INSERT nat
  | SPI_OK_INSERT_RETURNING "spi_row list"
  | SPI_OK_UPDATE nat
  | SPI_OK_DELETE nat
  | SPI_ERROR int

abbreviation SPI_ERROR_ARGUMENT :: spi_result where
  "SPI_ERROR_ARGUMENT \<equiv> SPI_ERROR (- 6)"

text \<open>\<open>SPI_getvalue(tuple, tupdesc, k)\<close>: column numbers start at 1.\<close>

definition SPI_getvalue :: "spi_row \<Rightarrow> nat \<Rightarrow> string option" where
  "SPI_getvalue row k = (if 1 \<le> k \<and> k \<le> length row then row ! (k - 1) else None)"

text \<open>\<open>SPI_processed\<close> after a statement (0 after one that was refused).\<close>

fun SPI_processed :: "spi_result \<Rightarrow> int" where
  "SPI_processed (SPI_OK_SELECT rows) = int (length rows)"
| "SPI_processed (SPI_OK_INSERT_RETURNING rows) = int (length rows)"
| "SPI_processed (SPI_OK_INSERT n) = int n"
| "SPI_processed (SPI_OK_UPDATE n) = int n"
| "SPI_processed (SPI_OK_DELETE n) = int n"
| "SPI_processed (SPI_ERROR e) = 0"

text \<open>\<open>SPI_tuptable->vals\<close>: a null pointer unless the last statement returned rows.\<close>

fun SPI_tuptable :: "spi_result \<Rightarrow> spi_row list outcome" where
  "SPI_tuptable (SPI_OK_SELECT rows) = Ok rows"
| "SPI_tuptable (SPI_OK_INSERT_RETURNING rows) = Ok rows"
| "SPI_tuptable _ = Fail Crash"

text \<open>\<open>atoi(SPI_getvalue(\<dots>))\<close> and its kin: the pointer is read without a check.\<close>

definition getvalue_atoi :: "spi_row \<Rightarrow> nat \<Rightarrow> int outcome" where
  "getvalue_atoi row k = obind (from_ptr (SPI_getvalue row k)) (\<lambda>s. Ok (atoi s))"

definition getvalue_atoll :: "spi_row \<Rightarrow> nat \<Rightarrow> int outcome" where
  "getvalue_atoll row k = obind (from_ptr (SPI_getvalue row k)) (\<lambda>s. Ok (atoll s))"

definition getvalue_atof :: "spi_row \<Rightarrow> nat \<Rightarrow> double outcome" where
  "getvalue_atof row k = obind (from_ptr (SPI_getvalue row k)) (\<lambda>s. Ok (atof s))"

section \<open>The context of a frame\<close>

record ('s, 'd) fctx =
  session :: 'd
  plans :: "'s list"
  warnings :: "'s list"
  max_calls :: nat

type_synonym ('s, 'd) spi = "'s \<Rightarrow> datum list \<Rightarrow> bool \<Rightarrow> 'd \<Rightarrow> (spi_result \<times> 'd) outcome"

definition FAIL_FRAME :: "'s \<Rightarrow> ('s, 'd) fctx \<Rightarrow> ('s, 'd) fctx" where
  "FAIL_FRAME stmt f = f\<lparr>warnings := warnings f @ [stmt]\<rparr>"

definition FAIL_FRAME_SET :: "'s \<Rightarrow> ('s, 'd) fctx \<Rightarrow> ('s, 'd) fctx" where
  "FAIL_FRAME_SET stmt f = f\<lparr>warnings := warnings f @ [stmt], max_calls := 0\<rparr>"

text \<open>
  \<open>plan_queries\<close>: walk the statement array up to its terminator; prepare and keep the
  plan of every statement that has none.  \<open>prepare\<close> stands for \<open>SPI_prepare\<close> returning a
  plan; its failure is reported with \<open>elog(ERROR)\<close>.
\<close>

fun plan_queries :: "('s \<Rightarrow> bool) \<Rightarrow> 's list \<Rightarrow> ('s, 'd) fctx \<Rightarrow> ('s, 'd) fctx outcome" where
  "plan_queries prepare [] f = Ok f"
| "plan_queries prepare (s # ss) f =
     (if s \<in> set (plans f) then plan_queries prepare ss f
      else if \<not> prepare s then Fail Sql_Error
      else plan_queries prepare ss (f\<lparr>plans := s # plans f\<rparr>))"

text \<open>Executing a statement that has no plan is refused with \<open>SPI_ERROR_ARGUMENT\<close>.\<close>

definition SPI_execute_plan ::
    "('s, 'd) spi \<Rightarrow> 's \<Rightarrow> datum list \<Rightarrow> bool \<Rightarrow> ('s, 'd) fctx \<Rightarrow> (spi_result \<times> ('s, 'd) fctx) outcome" where
  "SPI_execute_plan spi stmt args read_only f =
     (if stmt \<in> set (plans f) then
        obind (spi stmt args read_only (session f)) (\<lambda>(r, d). Ok (r, f\<lparr>session := d\<rparr>))
      else Ok (SPI_ERROR_ARGUMENT, f))"

text \<open>
  The idiom \<open>ret = SPI_execute_plan(\<dots>, false, 0); if (ret != SPI_OK_\<dots>) FAIL_FRAME_SET(\<dots>)\<close>
  of the frames that return a row, and its variant with \<open>FAIL_FRAME\<close> of those that
  return a scalar.
\<close>

datatype dml = Insert | Update | Delete

fun dml_ok :: "dml \<Rightarrow> spi_result \<Rightarrow> bool" where
  "dml_ok Insert (SPI_OK_INSERT n) = True"
| "dml_ok Update (SPI_OK_UPDATE n) = True"
| "dml_ok Delete (SPI_OK_DELETE n) = True"
| "dml_ok _ _ = False"

definition exec_dml_set ::
    "('s, 'd) spi \<Rightarrow> dml \<Rightarrow> 's \<Rightarrow> datum list \<Rightarrow> ('s, 'd) fctx \<Rightarrow> ('s, 'd) fctx outcome" where
  "exec_dml_set spi k stmt args f = obind (SPI_execute_plan spi stmt args False f)
     (\<lambda>(r, f). Ok (if dml_ok k r then f else FAIL_FRAME_SET stmt f))"

definition exec_dml ::
    "('s, 'd) spi \<Rightarrow> dml \<Rightarrow> 's \<Rightarrow> datum list \<Rightarrow> ('s, 'd) fctx \<Rightarrow> ('s, 'd) fctx outcome" where
  "exec_dml spi k stmt args f = obind (SPI_execute_plan spi stmt args False f)
     (\<lambda>(r, f). Ok (if dml_ok k r then f else FAIL_FRAME stmt f))"

text \<open>
  The idiom \<open>ret = SPI_execute_plan(\<dots>, true, 0); if (ret == SPI_OK_SELECT && SPI_processed > 0)
  tuple = SPI_tuptable->vals[0]; else \<dots>\<close>: the first row of a query, if there is one.
\<close>

definition first_row ::
    "('s, 'd) spi \<Rightarrow> 's \<Rightarrow> datum list \<Rightarrow> ('s, 'd) fctx \<Rightarrow> (spi_row option \<times> ('s, 'd) fctx) outcome" where
  "first_row spi stmt args f = obind (SPI_execute_plan spi stmt args True f)
     (\<lambda>(r, f). Ok (case r of SPI_OK_SELECT (row # _) \<Rightarrow> Some row | _ \<Rightarrow> None, f))"

section \<open>Set-returning functions\<close>

text \<open>
  The array \<open>char **values\<close> of a frame is allocated without being cleared: a slot is
  uninitialised until it is assigned, and then holds a C string or a null pointer.
\<close>

datatype slot = Uninit | Ptr "string option"

abbreviation Str :: "string \<Rightarrow> slot" where
  "Str s \<equiv> Ptr (Some s)"

fun read_slot :: "slot \<Rightarrow> string option outcome" where
  "read_slot Uninit = Fail Crash"
| "read_slot (Ptr p) = Ok p"

definition read_str :: "slot \<Rightarrow> string outcome" where
  "read_str v = obind (read_slot v) from_ptr"

text \<open>\<open>BuildTupleFromCStrings\<close> reads every slot; a null pointer becomes an SQL null.\<close>

fun BuildTupleFromCStrings :: "slot list \<Rightarrow> spi_row outcome" where
  "BuildTupleFromCStrings [] = Ok []"
| "BuildTupleFromCStrings (v # vs) =
     obind (read_slot v) (\<lambda>p. obind (BuildTupleFromCStrings vs) (\<lambda>ps. Ok (p # ps)))"

text \<open>
  One call of the executor per row.  The local \<open>values\<close> is assigned on the first call
  only; on a later call it is the null pointer it was initialised with.
\<close>

function srf_calls :: "nat \<Rightarrow> nat \<Rightarrow> slot list option \<Rightarrow> spi_row list outcome" where
  "srf_calls call_cntr mc vals =
     (if call_cntr < mc then
        obind (from_ptr vals) (\<lambda>vs.
        obind (BuildTupleFromCStrings vs) (\<lambda>row.
        obind (srf_calls (Suc call_cntr) mc None) (\<lambda>rows. Ok (row # rows))))
      else Ok [])"
  by pat_completeness auto
termination
  by (relation "measure (\<lambda>(c, m, v). m - c)") auto

declare srf_calls.simps [simp del]

definition srf_return :: "slot list \<Rightarrow> ('s, 'd) fctx \<Rightarrow> (spi_row list \<times> ('s, 'd) fctx) outcome" where
  "srf_return vals f = obind (srf_calls 0 (max_calls f) (Some vals)) (\<lambda>rows. Ok (rows, f))"

section \<open>Facts\<close>

lemma SPI_getvalue_simps [simp]:
  "SPI_getvalue (v # r) (Suc 0) = v"
  "SPI_getvalue (v # r) (numeral n) = (if numeral n = (1::nat) then v else SPI_getvalue r (pred_numeral n))"
proof -
  show "SPI_getvalue (v # r) (Suc 0) = v" by (simp add: SPI_getvalue_def)
  show "SPI_getvalue (v # r) (numeral n) =
      (if numeral n = (1::nat) then v else SPI_getvalue r (pred_numeral n))"
  proof (cases "numeral n = (1::nat)")
    case True
    then show ?thesis by (simp add: SPI_getvalue_def)
  next
    case False
    obtain k where k: "numeral n = Suc (Suc k)"
      using False by (metis One_nat_def not0_implies_Suc numeral_eq_Suc zero_neq_numeral nat.inject)
    then have "pred_numeral n = Suc k" by (simp add: numeral_eq_Suc)
    with k False show ?thesis by (simp add: SPI_getvalue_def)
  qed
qed

lemma FAIL_FRAME_sel [simp]:
  "session (FAIL_FRAME s f) = session f" "plans (FAIL_FRAME s f) = plans f"
  "warnings (FAIL_FRAME s f) = warnings f @ [s]" "max_calls (FAIL_FRAME s f) = max_calls f"
  by (simp_all add: FAIL_FRAME_def)

lemma FAIL_FRAME_SET_sel [simp]:
  "session (FAIL_FRAME_SET s f) = session f" "plans (FAIL_FRAME_SET s f) = plans f"
  "warnings (FAIL_FRAME_SET s f) = warnings f @ [s]" "max_calls (FAIL_FRAME_SET s f) = 0"
  by (simp_all add: FAIL_FRAME_SET_def)

lemma plan_queries_ok:
  "(\<And>s. s \<in> set ss \<Longrightarrow> prepare s) \<Longrightarrow>
   \<exists>ps. plan_queries prepare ss f = Ok (f\<lparr>plans := ps\<rparr>) \<and> set ps = set ss \<union> set (plans f)"
proof (induction ss arbitrary: f)
  case Nil
  show ?case by (rule exI [of _ "plans f"]) simp
next
  case (Cons s ss)
  show ?case
  proof (cases "s \<in> set (plans f)")
    case True
    with Cons.IH [of f] Cons.prems show ?thesis by auto
  next
    case False
    with Cons.IH [of "f\<lparr>plans := s # plans f\<rparr>"] Cons.prems show ?thesis by auto
  qed
qed

lemma plan_queries_Ok_iff:
  "(\<exists>f'. plan_queries prepare ss f = Ok f') \<longleftrightarrow> (\<forall>s \<in> set ss. s \<in> set (plans f) \<or> prepare s)"
  by (induction ss arbitrary: f) auto

lemma plan_queries_result:
  "plan_queries prepare ss f = Ok f' \<Longrightarrow>
   (\<exists>ps. f' = f\<lparr>plans := ps\<rparr>) \<and> set (plans f') = set ss \<union> set (plans f)"
proof (induction ss arbitrary: f)
  case Nil
  then have "f' = f\<lparr>plans := plans f\<rparr>" by simp
  moreover have "set (plans f') = set [] \<union> set (plans f)" using Nil by simp
  ultimately show ?case by blast
next
  case (Cons s ss)
  then show ?case by (fastforce split: if_splits)
qed

lemma plan_queries_planned:
  "set ss \<subseteq> set (plans f) \<Longrightarrow> plan_queries prepare ss f = Ok f"
  by (induction ss) auto

lemma SPI_execute_plan_planned [simp]:
  "stmt \<in> set (plans f) \<Longrightarrow> SPI_execute_plan spi stmt args ro f =
     obind (spi stmt args ro (session f)) (\<lambda>(r, d). Ok (r, f\<lparr>session := d\<rparr>))"
  by (simp add: SPI_execute_plan_def)

lemma SPI_execute_plan_frame:
  "SPI_execute_plan spi stmt args ro f = Ok (r, f') \<Longrightarrow> \<exists>d. f' = f\<lparr>session := d\<rparr>"
proof -
  assume e: "SPI_execute_plan spi stmt args ro f = Ok (r, f')"
  show ?thesis
  proof (cases "stmt \<in> set (plans f)")
    case True
    with e show ?thesis by (auto simp: obind_eq_Ok)
  next
    case False
    with e have "f' = f\<lparr>session := session f\<rparr>" by (simp add: SPI_execute_plan_def)
    then show ?thesis ..
  qed
qed

lemma srf_calls_0 [simp]: "srf_calls 0 0 vals = Ok []"
  by (simp add: srf_calls.simps)

lemma srf_calls_1 [simp]:
  "srf_calls 0 (Suc 0) (Some vs) = obind (BuildTupleFromCStrings vs) (\<lambda>row. Ok [row])"
  by (simp add: srf_calls.simps [of 0] srf_calls.simps [of "Suc 0"])

lemma BuildTuple_ok:
  "BuildTupleFromCStrings vs = Ok row \<longleftrightarrow> vs = map Ptr row"
proof (induction vs arbitrary: row)
  case Nil
  show ?case by (cases row) auto
next
  case (Cons v vs)
  then show ?case by (cases v; cases row) (auto simp: obind_eq_Ok)
qed

lemma BuildTuple_map_Ptr [simp]: "BuildTupleFromCStrings (map Ptr row) = Ok row"
  by (simp add: BuildTuple_ok)

section \<open>Computations that leave the session alone\<close>

text \<open>
  \<open>reads s m\<close>: if \<open>m\<close> returns, the session of its context is \<open>s\<close>.  The rules follow the shape of
  the frames, so that a frame built from queries only is discharged by \<open>intro reads_intros\<close>.
\<close>

definition reads :: "'d \<Rightarrow> ('a \<times> ('s, 'd) fctx) outcome \<Rightarrow> bool" where
  "reads s m \<longleftrightarrow> (\<forall>x f. m = Ok (x, f) \<longrightarrow> session f = s)"

named_theorems reads_intros \<open>rules for computations that leave the session alone\<close>

lemma readsD: "reads s m \<Longrightarrow> m = Ok (x, f) \<Longrightarrow> session f = s"
  by (simp add: reads_def)

lemma reads_bind [reads_intros]:
  "reads s m \<Longrightarrow> (\<And>x f. session f = s \<Longrightarrow> reads s (k x f)) \<Longrightarrow> reads s (obind m (\<lambda>(x, f). k x f))"
  by (auto simp: reads_def obind_eq_Ok)

lemma reads_bind3 [reads_intros]:
  "reads s (obind m (\<lambda>(x, y, f). Ok ((x, y), f))) \<Longrightarrow> (\<And>x y f. session f = s \<Longrightarrow> reads s (k x y f)) \<Longrightarrow>
   reads s (obind m (\<lambda>(x, y, f). k x y f))"
  by (auto simp: reads_def obind_eq_Ok)

lemma reads_bind_value:
  "(\<And>x. reads s (k x)) \<Longrightarrow> reads s (obind m k)"
  by (auto simp: reads_def obind_eq_Ok)

lemmas reads_bind_values [reads_intros] =
  reads_bind_value [where m = "m :: rat outcome" for m] reads_bind_value [where m = "m :: int outcome" for m]
  reads_bind_value [where m = "m :: string outcome" for m] reads_bind_value [where m = "m :: bool outcome" for m]
  reads_bind_value [where m = "m :: string option outcome" for m]
  reads_bind_value [where m = "m :: spi_row list outcome" for m]
  reads_bind_value [where m = "m :: (int \<times> rat \<times> rat) outcome" for m]

lemma reads_plan [reads_intros]:
  "session f = s \<Longrightarrow> (\<And>f. session f = s \<Longrightarrow> reads s (k f)) \<Longrightarrow> reads s (obind (plan_queries p ss f) k)"
proof -
  assume s: "session f = s" and k: "\<And>f. session f = s \<Longrightarrow> reads s (k f)"
  have "session f' = s" if "plan_queries p ss f = Ok f'" for f'
    using plan_queries_result [OF that] s by auto
  with k show ?thesis by (auto simp: reads_def obind_eq_Ok)
qed

lemma reads_Ok [reads_intros]: "session f = s \<Longrightarrow> reads s (Ok (x, f))"
  by (simp add: reads_def)

lemma reads_Fail [reads_intros]: "reads s (Fail e)"
  by (simp add: reads_def)

lemma reads_srf_return [reads_intros]: "session f = s \<Longrightarrow> reads s (srf_return vs f)"
  by (auto simp: reads_def srf_return_def obind_eq_Ok)

lemma reads_if [reads_intros]: "(b \<Longrightarrow> reads s m) \<Longrightarrow> (\<not> b \<Longrightarrow> reads s m') \<Longrightarrow> reads s (if b then m else m')"
  by simp

lemma reads_case_option [reads_intros]:
  "reads s a \<Longrightarrow> (\<And>x. reads s (b x)) \<Longrightarrow> reads s (case p of None \<Rightarrow> a | Some x \<Rightarrow> b x)"
  by (simp split: option.split)

lemma reads_case_prod [reads_intros]:
  "(\<And>x y. reads s (k x y)) \<Longrightarrow> reads s (case p of (x, y) \<Rightarrow> k x y)"
  by (simp split: prod.split)

lemma reads_Ok_option [reads_intros]:
  "reads s (Ok a) \<Longrightarrow> (\<And>x. reads s (Ok (b x))) \<Longrightarrow> reads s (Ok (case p of None \<Rightarrow> a | Some x \<Rightarrow> b x))"
  by (simp split: option.split)

lemma reads_case_list [reads_intros]:
  "reads s a \<Longrightarrow> (\<And>x xs. reads s (b x xs)) \<Longrightarrow> reads s (case p of [] \<Rightarrow> a | x # xs \<Rightarrow> b x xs)"
  by (simp split: list.split)

lemma reads_Ok_list [reads_intros]:
  "reads s (Ok a) \<Longrightarrow> (\<And>x xs. reads s (Ok (b x xs))) \<Longrightarrow> reads s (Ok (case p of [] \<Rightarrow> a | x # xs \<Rightarrow> b x xs))"
  by (simp split: list.split)

lemma reads_case_spi [reads_intros]:
  assumes "\<And>x. reads s (a x)" "\<And>x. reads s (b x)" "\<And>x. reads s (c x)" "\<And>x. reads s (d x)"
    "\<And>x. reads s (e x)" "\<And>x. reads s (g x)"
  shows "reads s (case r of SPI_OK_SELECT x \<Rightarrow> a x | SPI_OK_INSERT x \<Rightarrow> b x | SPI_OK_INSERT_RETURNING x \<Rightarrow> c x
    | SPI_OK_UPDATE x \<Rightarrow> d x | SPI_OK_DELETE x \<Rightarrow> e x | SPI_ERROR x \<Rightarrow> g x)"
  using assms by (simp split: spi_result.split)

lemma reads_Ok_spi [reads_intros]:
  assumes "\<And>x. reads s (Ok (a x))" "\<And>x. reads s (Ok (b x))" "\<And>x. reads s (Ok (c x))" "\<And>x. reads s (Ok (d x))"
    "\<And>x. reads s (Ok (e x))" "\<And>x. reads s (Ok (g x))"
  shows "reads s (Ok (case r of SPI_OK_SELECT x \<Rightarrow> a x | SPI_OK_INSERT x \<Rightarrow> b x | SPI_OK_INSERT_RETURNING x \<Rightarrow> c x
    | SPI_OK_UPDATE x \<Rightarrow> d x | SPI_OK_DELETE x \<Rightarrow> e x | SPI_ERROR x \<Rightarrow> g x))"
  using assms by (simp split: spi_result.split)

lemma reads_sel [reads_intros]:
  "session f = s \<Longrightarrow> session (FAIL_FRAME_SET st f) = s" "session f = s \<Longrightarrow> session (FAIL_FRAME st f) = s"
  "session f = s \<Longrightarrow> session (f\<lparr>max_calls := n\<rparr>) = s"
  by simp_all

end
