(* ===== verification/CTime.thy ===== *)
theory CTime
  imports Doubles
begin

text \<open>
  Calendar time in C: \<open>struct tm\<close>, \<open>strptime\<close> for the one format the program uses
  (\<open>"%Y-%m-%d %H:%M:%S"\<close>), and PostgreSQL's \<open>struct pg_tm\<close>.

  The two structures disagree on two fields.  In \<open>struct tm\<close> the year counts from 1900 and
  January is month 0; in \<open>struct pg_tm\<close> the year is the calendar year and January is
  month 1.
\<close>

record ctm =
  tm_year :: int
  tm_mon :: int
  tm_mday :: int
  tm_hour :: int
  tm_min :: int
  tm_sec :: int
  tm_isdst :: int
  tm_gmtoff :: int

record pg_tm =
  pg_year :: int
  pg_mon :: int
  pg_mday :: int
  pg_hour :: int
  pg_min :: int
  pg_sec :: int
  pg_isdst :: int
  pg_gmtoff :: int

section \<open>strptime\<close>

text \<open>At most \<open>k\<close> digits, stopping before the value could exceed the upper bound.\<close>

fun get_digits :: "nat \<Rightarrow> nat \<Rightarrow> nat \<Rightarrow> string \<Rightarrow> nat \<times> string" where
  "get_digits to 0 v s = (v, s)"
| "get_digits to (Suc k) v [] = (v, [])"
| "get_digits to (Suc k) v (c # cs) =
     (case digit_val c of
        None \<Rightarrow> (v, c # cs)
      | Some d \<Rightarrow> if v * 10 \<le> to then get_digits to k (v * 10 + d) cs else (v, c # cs))"

definition get_number :: "nat \<Rightarrow> nat \<Rightarrow> nat \<Rightarrow> string \<Rightarrow> (nat \<times> string) option" where
  "get_number lo hi k s =
     (case skip_space s of
        [] \<Rightarrow> None
      | c # cs \<Rightarrow>
          if digit_val c = None then None
          else (case get_digits hi k 0 (c # cs) of (v, r) \<Rightarrow>
                  if lo \<le> v \<and> v \<le> hi then Some (v, r) else None))"

definition match_char :: "char \<Rightarrow> string \<Rightarrow> string option" where
  "match_char c s = (case s of [] \<Rightarrow> None | x # xs \<Rightarrow> if x = c then Some xs else None)"

definition strptime :: "string \<Rightarrow> ctm option" where
  "strptime s =
     Option.bind (get_number 0 9999 4 s) (\<lambda>(y, s).
     Option.bind (match_char (CHR ''-'') s) (\<lambda>s.
     Option.bind (get_number 1 12 2 s) (\<lambda>(mo, s).
     Option.bind (match_char (CHR ''-'') s) (\<lambda>s.
     Option.bind (get_number 1 31 2 s) (\<lambda>(d, s).
     Option.bind (get_number 0 23 2 (skip_space s)) (\<lambda>(h, s).
     Option.bind (match_char (CHR '':'') s) (\<lambda>s.
     Option.bind (get_number 0 59 2 s) (\<lambda>(mi, s).
     Option.bind (match_char (CHR '':'') s) (\<lambda>s.
     Option.bind (get_number 0 61 2 s) (\<lambda>(sc, s).
       Some \<lparr>tm_year = int y - 1900, tm_mon = int mo - 1, tm_mday = int d, tm_hour = int h,
             tm_min = int mi, tm_sec = int sc, tm_isdst = 0, tm_gmtoff = 0\<rparr>))))))))))"

text \<open>The text \<open>SELECT now()::timestamp(0)\<close> returns under \<open>DateStyle = ISO\<close>.\<close>

definition iso_timestamp :: "nat \<Rightarrow> nat \<Rightarrow> nat \<Rightarrow> nat \<Rightarrow> nat \<Rightarrow> nat \<Rightarrow> string" where
  "iso_timestamp y mo d h mi sc =
     frac_digits 4 y @ ''-'' @ frac_digits 2 mo @ ''-'' @ frac_digits 2 d @ '' '' @
     frac_digits 2 h @ '':'' @ frac_digits 2 mi @ '':'' @ frac_digits 2 sc"

lemma frac_digits_2: "frac_digits 2 m = [digit_char (m div 10 mod 10), digit_char (m mod 10)]"
  by (simp add: numeral_2_eq_2)

lemma frac_digits_4:
  "frac_digits 4 m = [digit_char (m div 1000 mod 10), digit_char (m div 100 mod 10),
     digit_char (m div 10 mod 10), digit_char (m mod 10)]"
proof -
  have four: "(4::nat) = Suc (Suc (Suc (Suc 0)))" by simp
  show ?thesis unfolding four frac_digits.simps by simp
qed

lemma skip_space_digit [simp]: "n < 10 \<Longrightarrow> skip_space (digit_char n # cs) = digit_char n # cs"
  using digit_char_plain [of n] by (simp add: skip_space_def)

lemma get_number_2:
  assumes "lo \<le> v" "v \<le> hi" "hi < 100" "v div 10 * 10 \<le> hi"
  shows "get_number lo hi 2 (frac_digits 2 v @ r) = Some (v, r)"
proof -
  have "v < 100" using assms by linarith
  then have "v div 10 mod 10 = v div 10" "v div 10 * 10 + v mod 10 = v" by simp_all
  with assms(1,2) show ?thesis
    by (simp add: get_number_def frac_digits_2 numeral_2_eq_2 assms(4))
qed

lemma get_number_4:
  assumes "v \<le> 9999"
  shows "get_number 0 9999 4 (frac_digits 4 v @ r) = Some (v, r)"
proof -
  define q1 q2 q3 where q: "q1 = v div 10" "q2 = q1 div 10" "q3 = q2 div 10"
  have d: "v div 100 = q2" "v div 1000 = q3" by (simp_all add: q div_mult2_eq [symmetric])
  have b: "q1 \<le> 999" "q2 \<le> 99" "q3 \<le> 9" using assms by (simp_all add: q)
  then have q3: "q3 mod 10 = q3" by simp
  have steps: "q3 * 10 + q2 mod 10 = q2" "q2 * 10 + q1 mod 10 = q1" "q1 * 10 + v mod 10 = v"
    using div_mult_mod_eq [of _ 10] by (simp_all only: q)
  have four: "(4::nat) = Suc (Suc (Suc (Suc 0)))" by simp
  show ?thesis
    unfolding get_number_def frac_digits_4 d q(1) [symmetric] q3 unfolding four
    using b assms by (simp add: steps)
qed

text \<open>\<open>strptime\<close> recovers every field of an ISO timestamp, in the conventions of \<open>struct tm\<close>.\<close>

lemma strptime_iso:
  assumes "y \<le> 9999" "1 \<le> mo" "mo \<le> 12" "1 \<le> d" "d \<le> 31" "h \<le> 23" "mi \<le> 59" "sc \<le> 59"
  shows "strptime (iso_timestamp y mo d h mi sc) =
    Some \<lparr>tm_year = int y - 1900, tm_mon = int mo - 1, tm_mday = int d, tm_hour = int h,
          tm_min = int mi, tm_sec = int sc, tm_isdst = 0, tm_gmtoff = 0\<rparr>"
proof -
  have tens: "v div 10 * 10 \<le> hi" if "v \<le> hi" for v hi :: nat
    using that by (meson div_times_less_eq_dividend le_trans)
  have sp: "skip_space ('' '' @ frac_digits 2 h @ r) = frac_digits 2 h @ r" for r
    using digit_char_plain [of "h div 10 mod 10"]
    by (simp add: skip_space_def frac_digits_2 is_space_def)
  have sc: "get_number 0 61 2 (frac_digits 2 sc) = Some (sc, [])"
    using get_number_2 [of 0 sc 61 "[]"] tens [of sc 61] assms by simp
  show ?thesis
    unfolding strptime_def iso_timestamp_def
    using assms sc sp
    by (simp add: get_number_4 get_number_2 tens match_char_def)
qed

end
