(* ===== verification/Schema.thy ===== *)
theory Schema
  imports SPI CTime "HOL-Library.Multiset"
begin

text \<open>
  The tables of \<^verbatim>\<open>scripts/pgsql/dbt5-pgsql-create-tables.in\<close>, one record type per table
  with the columns of the script, and what the SQL statements of the stored procedures
  share.

  Representation of column values: integers, dates and timestamps are \<open>int\<close> (dates in
  days, timestamps in microseconds); a \<open>NUMERIC(p, s)\<close> is the number of units of
  \<open>10 ^ -s\<close> as an \<open>int\<close> (so money is in cents, a tax rate in \<open>10 ^ -5\<close>); text is
  \<open>string\<close>; a column without \<open>NOT NULL\<close> is an \<open>option\<close>.  A table is the list of its
  rows in storage order.

  \<open>pgapi\<close> collects the functions of the PostgreSQL server that the frames or the
  statements call and that are not part of the repository.  \<open>pgsession\<close> is the state of
  the session during one call of a stored procedure: the snapshot taken when the call
  started, which statements run with \<open>read_only = true\<close> see, and the current contents.
\<close>

section \<open>Tables\<close>

record account_permission_row =
  ap_ca_id :: int
  ap_acl :: string
  ap_tax_id :: string
  ap_l_name :: string
  ap_f_name :: string

record customer_row =
  c_id :: int
  c_tax_id :: string
  c_st_id :: string
  c_l_name :: string
  c_f_name :: string
  c_m_name :: "string option"
  c_gndr :: "string option"
  c_tier :: int
  c_dob :: int
  c_ad_id :: int
  c_ctry_1 :: "string option"
  c_area_1 :: "string option"
  c_local_1 :: "string option"
  c_ext_1 :: "string option"
  c_ctry_2 :: "string option"
  c_area_2 :: "string option"
  c_local_2 :: "string option"
  c_ext_2 :: "string option"
  c_ctry_3 :: "string option"
  c_area_3 :: "string option"
  c_local_3 :: "string option"
  c_ext_3 :: "string option"
  c_email_1 :: "string option"
  c_email_2 :: "string option"

record customer_account_row =
  ca_id :: int
  ca_b_id :: int
  ca_c_id :: int
  ca_name :: "string option"
  ca_tax_st :: int
  ca_bal :: int

record customer_taxrate_row =
  cx_tx_id :: string
  cx_c_id :: int

record holding_row =
  h_t_id :: int
  h_ca_id :: int
  h_s_symb :: string
  h_dts :: int
  h_price :: int
  h_qty :: int

record holding_history_row =
  hh_h_t_id :: int
  hh_t_id :: int
  hh_before_qty :: int
  hh_after_qty :: int

record holding_summary_row =
  hs_ca_id :: int
  hs_s_symb :: string
  hs_qty :: int

record watch_item_row =
  wi_wl_id :: int
  wi_s_symb :: string

record watch_list_row =
  wl_id :: int
  wl_c_id :: int

record broker_row =
  b_id :: int
  b_st_id :: string
  b_name :: string
  b_num_trades :: int
  b_comm_total :: int

record cash_transaction_row =
  ct_t_id :: int
  ct_dts :: int
  ct_amt :: int
  ct_name :: "string option"

record charge_row =
  ch_tt_id :: string
  ch_c_tier :: int
  ch_chrg :: "int option"

record commission_rate_row =
  cr_c_tier :: int
  cr_tt_id :: string
  cr_ex_id :: string
  cr_from_qty :: int
  cr_to_qty :: int
  cr_rate :: int

record settlement_row =
  se_t_id :: int
  se_cash_type :: string
  se_cash_due_date :: int
  se_amt :: int

record trade_row =
  t_id :: int
  t_dts :: int
  t_st_id :: string
  t_tt_id :: string
  t_is_cash :: bool
  t_s_symb :: string
  t_qty :: int
  t_bid_price :: int
  t_ca_id :: int
  t_exec_name :: string
  t_trade_price :: "int option"
  t_chrg :: int
  t_comm :: int
  t_tax :: int
  t_lifo :: bool

record trade_history_row =
  th_t_id :: int
  th_dts :: int
  th_st_id :: string

record trade_request_row =
  tr_t_id :: int
  tr_tt_id :: string
  tr_s_symb :: string
  tr_qty :: int
  tr_bid_price :: int
  tr_b_id :: int

record trade_type_row =
  tt_id :: string
  tt_name :: string
  tt_is_sell :: bool
  tt_is_mrkt :: bool

record company_row =
  co_id :: int
  co_st_id :: string
  co_name :: string
  co_in_id :: string
  co_sp_rate :: string
  co_ceo :: string
  co_ad_id :: int
  co_desc :: string
  co_open_date :: int

record company_competitor_row =
  cp_co_id :: int
  cp_comp_co_id :: int
  cp_in_id :: string

record daily_market_row =
  dm_date :: int
  dm_s_symb :: string
  dm_close :: int
  dm_high :: int
  dm_low :: int
  dm_vol :: int

record exchange_row =
  ex_id :: string
  ex_name :: string
  ex_num_symb :: int
  ex_open :: int
  ex_close :: int
  ex_desc :: "string option"
  ex_ad_id :: int

record financial_row =
  fi_co_id :: int
  fi_year :: int
  fi_qtr :: int
  fi_qtr_start_date :: int
  fi_revenue :: int
  fi_net_earn :: int
  fi_basic_eps :: int
  fi_dilut_eps :: int
  fi_margin :: int
  fi_inventory :: int
  fi_assets :: int
  fi_liability :: int
  fi_out_basic :: int
  fi_out_dilut :: int

record industry_row =
  in_id :: string
  in_name :: string
  in_sc_id :: string

record last_trade_row =
  lt_s_symb :: string
  lt_dts :: int
  lt_price :: int
  lt_open_price :: int
  lt_vol :: int

record news_item_row =
  ni_id :: int
  ni_headline :: string
  ni_summary :: string
  ni_item :: string
  ni_dts :: int
  ni_source :: string
  ni_author :: "string option"

record news_xref_row =
  nx_ni_id :: int
  nx_co_id :: int

record sector_row =
  sc_id :: string
  sc_name :: string

record security_row =
  s_symb :: string
  s_issue :: string
  s_st_id :: string
  s_name :: string
  s_ex_id :: string
  s_co_id :: int
  s_num_out :: int
  s_start_date :: int
  s_exch_date :: int
  s_pe :: int
  s_52wk_high :: int
  s_52wk_high_date :: int
  s_52wk_low :: int
  s_52wk_low_date :: int
  s_dividend :: int
  s_yield :: int

record address_row =
  ad_id :: int
  ad_line1 :: "string option"
  ad_line2 :: "string option"
  ad_zc_code :: string
  ad_ctry :: "string option"

record status_type_row =
  st_id :: string
  st_name :: string

record taxrate_row =
  tx_id :: string
  tx_name :: string
  tx_rate :: int

record zip_code_row =
  zc_code :: string
  zc_town :: string
  zc_div :: string

record db =
  account_permission_tbl :: "account_permission_row list"
  customer_tbl :: "customer_row list"
  customer_account_tbl :: "customer_account_row list"
  customer_taxrate_tbl :: "customer_taxrate_row list"
  holding_tbl :: "holding_row list"
  holding_history_tbl :: "holding_history_row list"
  holding_summary_tbl :: "holding_summary_row list"
  watch_item_tbl :: "watch_item_row list"
  watch_list_tbl :: "watch_list_row list"
  broker_tbl :: "broker_row list"
  cash_transaction_tbl :: "cash_transaction_row list"
  charge_tbl :: "charge_row list"
  commission_rate_tbl :: "commission_rate_row list"
  settlement_tbl :: "settlement_row list"
  trade_tbl :: "trade_row list"
  trade_history_tbl :: "trade_history_row list"
  trade_request_tbl :: "trade_request_row list"
  trade_type_tbl :: "trade_type_row list"
  company_tbl :: "company_row list"
  company_competitor_tbl :: "company_competitor_row list"
  daily_market_tbl :: "daily_market_row list"
  exchange_tbl :: "exchange_row list"
  financial_tbl :: "financial_row list"
  industry_tbl :: "industry_row list"
  last_trade_tbl :: "last_trade_row list"
  news_item_tbl :: "news_item_row list"
  news_xref_tbl :: "news_xref_row list"
  sector_tbl :: "sector_row list"
  security_tbl :: "security_row list"
  address_tbl :: "address_row list"
  status_type_tbl :: "status_type_row list"
  taxrate_tbl :: "taxrate_row list"
  zip_code_tbl :: "zip_code_row list"
  seq_trade_id :: int

definition empty_db :: db where
  "empty_db = \<lparr>account_permission_tbl = [],
     customer_tbl = [],
     customer_account_tbl = [],
     customer_taxrate_tbl = [],
     holding_tbl = [],
     holding_history_tbl = [],
     holding_summary_tbl = [],
     watch_item_tbl = [],
     watch_list_tbl = [],
     broker_tbl = [],
     cash_transaction_tbl = [],
     charge_tbl = [],
     commission_rate_tbl = [],
     settlement_tbl = [],
     trade_tbl = [],
     trade_history_tbl = [],
     trade_request_tbl = [],
     trade_type_tbl = [],
     company_tbl = [],
     company_competitor_tbl = [],
     daily_market_tbl = [],
     exchange_tbl = [],
     financial_tbl = [],
     industry_tbl = [],
     last_trade_tbl = [],
     news_item_tbl = [],
     news_xref_tbl = [],
     sector_tbl = [],
     security_tbl = [],
     address_tbl = [],
     status_type_tbl = [],
     taxrate_tbl = [],
     zip_code_tbl = [],
     seq_trade_id = 1\<rparr>"

section \<open>Server functions and the session\<close>

record pgapi =
  float8_numeric2 :: "double \<Rightarrow> int" \<comment> \<open>a float8 assigned to a \<open>NUMERIC(_,2)\<close> column, in cents\<close>
  timestamp_out :: "int \<Rightarrow> string"
  date_out :: "int \<Rightarrow> string"
  date_in :: "string \<Rightarrow> int outcome"
  timestamp2tm :: "int \<Rightarrow> pg_tm option"
  tm2timestamp :: "pg_tm \<Rightarrow> int option"
  EncodeDateTime :: "pg_tm \<Rightarrow> string"
  now_ts :: int \<comment> \<open>\<open>now()\<close>\<close>
  now_text :: string \<comment> \<open>\<open>now()::timestamp(0)\<close> as text\<close>
  now_char :: string \<comment> \<open>\<open>to_char(now(), 'YYYY-MM-DD HH24:MI:SS')\<close>\<close>
  day_of :: "int \<Rightarrow> int" \<comment> \<open>\<open>extract(DAY FROM d)\<close> of a date\<close>

record pgsession =
  snapshot :: db
  current :: db

definition start_call :: "db \<Rightarrow> pgsession" where
  "start_call d = \<lparr>snapshot = d, current = d\<rparr>"

type_synonym sql = "db \<Rightarrow> (spi_result \<times> db) outcome"

text \<open>
  With \<open>read_only = true\<close> a statement sees the snapshot of the call, and a statement other
  than a query is refused; with \<open>read_only = false\<close> it sees and changes the current
  contents.
\<close>

definition run_sql :: "sql \<Rightarrow> bool \<Rightarrow> pgsession \<Rightarrow> (spi_result \<times> pgsession) outcome" where
  "run_sql q read_only s =
     (if read_only then
        obind (q (snapshot s)) (\<lambda>(r, d).
          case r of SPI_OK_SELECT rows \<Rightarrow> Ok (r, s) | _ \<Rightarrow> Fail Sql_Error)
      else obind (q (current s)) (\<lambda>(r, d). Ok (r, s\<lparr>current := d\<rparr>)))"

section \<open>Statement forms\<close>

text \<open>Text of column values, as \<open>SPI_getvalue\<close> delivers it.\<close>

abbreviation int_txt :: "int \<Rightarrow> string option" where
  "int_txt n \<equiv> Some (show_int n)"

abbreviation num_txt :: "nat \<Rightarrow> int \<Rightarrow> string option" where
  "num_txt s n \<equiv> Some (numeric_out s n)"

abbreviation bool_txt :: "bool \<Rightarrow> string option" where
  "bool_txt b \<equiv> Some (if b then ''t'' else ''f'')"

text \<open>\<open>CASE WHEN b = true THEN 1 ELSE 0 END\<close>\<close>

abbreviation case_txt :: "bool \<Rightarrow> string option" where
  "case_txt b \<equiv> Some (if b then ''1'' else ''0'')"

definition sql_select :: "spi_row list \<Rightarrow> sql" where
  "sql_select rows d = Ok (SPI_OK_SELECT rows, d)"

text \<open>A \<open>LIMIT\<close> must not be negative.\<close>

definition sql_limit :: "int \<Rightarrow> spi_row list \<Rightarrow> sql" where
  "sql_limit n rows d = (if n < 0 then Fail Sql_Error else sql_select (take (nat n) rows) d)"

text \<open>A statement that violates a constraint of the schema raises an error.\<close>

definition sql_check :: "bool \<Rightarrow> (spi_result \<times> db) outcome \<Rightarrow> (spi_result \<times> db) outcome" where
  "sql_check b q = (if b then q else Fail Sql_Error)"

definition numeric_ok :: "nat \<Rightarrow> int \<Rightarrow> bool" where
  "numeric_ok p n \<longleftrightarrow> \<bar>n\<bar> < 10 ^ p"

text \<open>
  Text assigned to a \<open>VARCHAR(n)\<close> column: what is too long is an error, unless the excess
  is blanks, which are cut.  (For a text a frame has already cut to the width of the column
  the statements below only state the width.)
\<close>

definition varchar :: "nat \<Rightarrow> string \<Rightarrow> string option" where
  "varchar n s = (if length s \<le> n then Some s
     else if list_all (\<lambda>c. c = CHR '' '') (drop n s) then Some (take n s) else None)"

text \<open>\<open>ORDER BY k DESC\<close>; rows with equal keys keep their storage order.\<close>

definition order_desc :: "('r \<Rightarrow> int) \<Rightarrow> 'r list \<Rightarrow> 'r list" where
  "order_desc k rs = sort_key (\<lambda>r. - k r) rs"

definition order_asc :: "('r \<Rightarrow> int) \<Rightarrow> 'r list \<Rightarrow> 'r list" where
  "order_asc k rs = sort_key k rs"

text \<open>\<open>SELECT k, sum(v) \<dots> GROUP BY k\<close>, a group per key that occurs.\<close>

definition group_sum :: "('k \<times> int) list \<Rightarrow> ('k \<times> int) list" where
  "group_sum xs = map (\<lambda>k. (k, sum_list (map snd (filter (\<lambda>x. fst x = k) xs)))) (remdups (map fst xs))"

section \<open>Facts\<close>

lemma sql_select_apply [simp]: "sql_select rows d = Ok (SPI_OK_SELECT rows, d)"
  by (simp add: sql_select_def)

lemma sql_check_simps [simp]: "sql_check True q = q" "sql_check False q = Fail Sql_Error"
  by (simp_all add: sql_check_def)

lemma varchar_fits [simp]: "length s \<le> n \<Longrightarrow> varchar n s = Some s"
  by (simp add: varchar_def)

lemma sql_check_Ok: "sql_check b q = Ok x \<longleftrightarrow> b \<and> q = Ok x"
  by (simp add: sql_check_def)

lemma run_sql_read_select [simp]:
  "q (snapshot s) = Ok (SPI_OK_SELECT rows, d) \<Longrightarrow> run_sql q True s = Ok (SPI_OK_SELECT rows, s)"
  by (simp add: run_sql_def)

lemma run_sql_write [simp]:
  "run_sql q False s = obind (q (current s)) (\<lambda>(r, d). Ok (r, s\<lparr>current := d\<rparr>))"
  by (simp add: run_sql_def)

lemma run_sql_read_unchanged: "run_sql q True s = Ok (r, s') \<Longrightarrow> s' = s"
proof -
  assume "run_sql q True s = Ok (r, s')"
  then obtain r0 d where "q (snapshot s) = Ok (r0, d)"
    and "(case r0 of SPI_OK_SELECT rows \<Rightarrow> Ok (r0, s) | _ \<Rightarrow> Fail Sql_Error) = Ok (r, s')"
    by (auto simp: run_sql_def obind_eq_Ok)
  then show ?thesis by (cases r0) auto
qed

lemma start_call_sel [simp]: "snapshot (start_call d) = d" "current (start_call d) = d"
  by (simp_all add: start_call_def)

lemma mset_order_desc: "mset (order_desc k rs) = mset rs"
  by (simp add: order_desc_def)

lemma mset_order_asc: "mset (order_asc k rs) = mset rs"
  by (simp add: order_asc_def)

section \<open>Frames on tables\<close>

text \<open>The current contents of the database seen from the context of a frame.\<close>

definition db_of :: "('s, pgsession) fctx \<Rightarrow> db" where
  "db_of f = current (session f)"

definition set_db :: "db \<Rightarrow> ('s, pgsession) fctx \<Rightarrow> ('s, pgsession) fctx" where
  "set_db d f = f\<lparr>session := (session f)\<lparr>current := d\<rparr>\<rparr>"

definition snap_of :: "('s, pgsession) fctx \<Rightarrow> db" where
  "snap_of f = snapshot (session f)"

lemma set_db_simps [simp]:
  "db_of (set_db d f) = d" "set_db d (set_db d' f) = set_db d f" "set_db (db_of f) f = f"
  "snap_of (set_db d f) = snap_of f"
  "plans (set_db d f) = plans f" "warnings (set_db d f) = warnings f"
  "max_calls (set_db d f) = max_calls f"
  by (simp_all add: db_of_def set_db_def snap_of_def)

lemma ctx_update_simps [simp]:
  "db_of (f\<lparr>max_calls := n\<rparr>) = db_of f" "db_of (f\<lparr>plans := ps\<rparr>) = db_of f"
  "snap_of (f\<lparr>max_calls := n\<rparr>) = snap_of f" "snap_of (f\<lparr>plans := ps\<rparr>) = snap_of f"
  "db_of (FAIL_FRAME s f) = db_of f" "db_of (FAIL_FRAME_SET s f) = db_of f"
  "snap_of (FAIL_FRAME s f) = snap_of f" "snap_of (FAIL_FRAME_SET s f) = snap_of f"
  by (simp_all add: db_of_def snap_of_def FAIL_FRAME_def FAIL_FRAME_SET_def)

text \<open>
  The contract between a frame and its statements: the interface runs the statement that
  the array names, on the snapshot or on the current contents.
\<close>

locale sql_provider =
  fixes spi :: "('s, pgsession) spi" and sql :: "datum list \<Rightarrow> 's \<Rightarrow> sql"
  assumes spi_runs: "spi stmt as ro s = run_sql (sql as stmt) ro s"
begin

lemma exec_read:
  assumes "stmt \<in> set (plans f)" "sql as stmt (snap_of f) = Ok (SPI_OK_SELECT rows, d)"
  shows "SPI_execute_plan spi stmt as True f = Ok (SPI_OK_SELECT rows, f)"
  using assms by (simp add: spi_runs snap_of_def)

lemma exec_write:
  assumes "stmt \<in> set (plans f)" "sql as stmt (db_of f) = Ok (r, d)"
  shows "SPI_execute_plan spi stmt as False f = Ok (r, set_db d f)"
  using assms by (simp add: spi_runs db_of_def set_db_def)

lemma exec_fail:
  assumes "stmt \<in> set (plans f)" "sql as stmt (db_of f) = Fail e"
  shows "SPI_execute_plan spi stmt as False f = Fail e"
  using assms by (simp add: spi_runs db_of_def)

lemma dml_set_ok:
  assumes "stmt \<in> set (plans f)" "sql as stmt (db_of f) = Ok (r, d)" "dml_ok k r"
  shows "exec_dml_set spi k stmt as f = Ok (set_db d f)"
  using assms by (simp add: exec_dml_set_def exec_write del: SPI_execute_plan_planned)

lemma dml_ok_run:
  assumes "stmt \<in> set (plans f)" "sql as stmt (db_of f) = Ok (r, d)" "dml_ok k r"
  shows "exec_dml spi k stmt as f = Ok (set_db d f)"
  using assms by (simp add: exec_dml_def exec_write del: SPI_execute_plan_planned)

lemma dml_fail:
  assumes "stmt \<in> set (plans f)" "sql as stmt (db_of f) = Fail e"
  shows "exec_dml spi k stmt as f = Fail e" "exec_dml_set spi k stmt as f = Fail e"
  using assms by (simp_all add: exec_dml_def exec_dml_set_def exec_fail del: SPI_execute_plan_planned)

lemma first_row_eq:
  "stmt \<in> set (plans f) \<Longrightarrow> sql as stmt (snap_of f) = Ok (SPI_OK_SELECT rows, d) \<Longrightarrow>
   first_row spi stmt as f = Ok (case rows of [] \<Rightarrow> None | row # _ \<Rightarrow> Some row, f)"
  by (simp add: first_row_def exec_read del: SPI_execute_plan_planned)

text \<open>The same four facts as equations, for evaluating a whole frame.\<close>

lemma exec_read_eq:
  "stmt \<in> set (plans f) \<Longrightarrow> SPI_execute_plan spi stmt as True f =
     obind (sql as stmt (snap_of f))
       (\<lambda>(r, d). case r of SPI_OK_SELECT rows \<Rightarrow> Ok (r, f) | _ \<Rightarrow> Fail Sql_Error)"
  by (cases "sql as stmt (snapshot (session f))")
    (auto simp: spi_runs snap_of_def run_sql_def split: spi_result.split)

lemma exec_write_eq:
  "stmt \<in> set (plans f) \<Longrightarrow> SPI_execute_plan spi stmt as False f =
     obind (sql as stmt (db_of f)) (\<lambda>(r, d). Ok (r, set_db d f))"
  by (cases "sql as stmt (db_of f)") (auto simp: spi_runs db_of_def set_db_def)

lemma exec_dml_eq:
  "stmt \<in> set (plans f) \<Longrightarrow> exec_dml spi k stmt as f =
     obind (sql as stmt (db_of f))
       (\<lambda>(r, d). Ok (if dml_ok k r then set_db d f else FAIL_FRAME stmt (set_db d f)))"
  by (cases "sql as stmt (db_of f)") (auto simp: exec_dml_def exec_write_eq simp del: SPI_execute_plan_planned)

lemmas frame_eqs = exec_read_eq exec_write_eq exec_dml_eq

text \<open>A statement run with \<open>read_only = true\<close> never changes the database.\<close>

lemma read_only_keeps:
  assumes "SPI_execute_plan spi stmt as True f = Ok (r, f')"
  shows "f' = f"
proof (cases "stmt \<in> set (plans f)")
  case True
  with assms obtain s' where "run_sql (sql as stmt) True (session f) = Ok (r, s')"
    and "f' = f\<lparr>session := s'\<rparr>"
    by (auto simp: spi_runs obind_eq_Ok)
  then show ?thesis using run_sql_read_unchanged by fastforce
next
  case False
  with assms show ?thesis by (simp add: SPI_execute_plan_def)
qed

lemma reads_exec: "session f = s \<Longrightarrow> reads s (SPI_execute_plan spi stmt as True f)"
  using read_only_keeps by (fastforce simp: reads_def)

lemma reads_first_row: "session f = s \<Longrightarrow> reads s (first_row spi stmt as f)"
  unfolding first_row_def by (intro reads_intros reads_exec)

end

end
