(* ===== verification/TradeResult.thy ===== *)
theory TradeResult
  imports Schema
begin

text \<open>
  The Trade-Result transaction, \<^verbatim>\<open>storedproc/pgsql/c/trade_result.c\<close>: the frames that
  settle an executed trade.  Frame 1 reads the trade, frame 2 moves the position (holdings,
  holding summary, holding history) and computes the cost basis, frame 3 the tax, frame 4
  reads the commission rate, frame 5 closes the trade and frame 6 settles the cash.

  First the SQL statements, each as a function on the tables; then the frames, over an
  arbitrary database interface \<open>spi\<close>.
\<close>

section \<open>SQL statements\<close>

datatype trf_stmt =
    TRF1_1 | TRF1_2 | TRF1_3
  | TRF2_now | TRF2_1 | TRF2_2a | TRF2_2b | TRF2_3a | TRF2_3b | TRF2_4a | TRF2_5a | TRF2_5b
  | TRF2_7a | TRF2_7b | TRF2_8a | TRF2_8b
  | TRF3_1 | TRF3_2
  | TRF4_1 | TRF4_2 | TRF4_3
  | TRF5_1 | TRF5_2 | TRF5_3
  | TRF6_1 | TRF6_2 | TRF6_3 | TRF6_4

definition TRF1_statements :: "trf_stmt list" where
  "TRF1_statements = [TRF1_1, TRF1_2, TRF1_3]"

definition TRF2_statements :: "trf_stmt list" where
  "TRF2_statements = [TRF2_1, TRF2_2a, TRF2_2b, TRF2_3a, TRF2_3b, TRF2_4a, TRF2_5a, TRF2_5b,
     TRF2_7a, TRF2_7b, TRF2_8a, TRF2_8b]"

definition TRF3_statements :: "trf_stmt list" where
  "TRF3_statements = [TRF3_1, TRF3_2]"

definition TRF4_statements :: "trf_stmt list" where
  "TRF4_statements = [TRF4_1, TRF4_2, TRF4_3]"

definition TRF5_statements :: "trf_stmt list" where
  "TRF5_statements = [TRF5_1, TRF5_2, TRF5_3]"

definition TRF6_statements :: "trf_stmt list" where
  "TRF6_statements = [TRF6_1, TRF6_2, TRF6_3, TRF6_4]"

definition SQLTRF1_1 :: "int \<Rightarrow> sql" where
  "SQLTRF1_1 t d = sql_select
     (map (\<lambda>r. [int_txt (t_ca_id r), Some (t_tt_id r), Some (t_s_symb r), int_txt (t_qty r),
                num_txt 2 (t_chrg r), case_txt (t_lifo r), case_txt (t_is_cash r)])
        (filter (\<lambda>r. t_id r = t) (trade_tbl d))) d"

definition SQLTRF1_2 :: "string \<Rightarrow> sql" where
  "SQLTRF1_2 tt d = sql_select
     (map (\<lambda>r. [Some (tt_name r), case_txt (tt_is_sell r), case_txt (tt_is_mrkt r)])
        (filter (\<lambda>r. tt_id r = tt) (trade_type_tbl d))) d"

definition SQLTRF1_3 :: "int \<Rightarrow> string \<Rightarrow> sql" where
  "SQLTRF1_3 ca symb d = sql_select
     (map (\<lambda>r. [int_txt (hs_qty r)])
        (filter (\<lambda>r. hs_ca_id r = ca \<and> hs_s_symb r = symb) (holding_summary_tbl d))) d"

definition SQLTRF2_1 :: "int \<Rightarrow> sql" where
  "SQLTRF2_1 ca d = sql_select
     (map (\<lambda>r. [int_txt (ca_b_id r), int_txt (ca_c_id r), int_txt (ca_tax_st r)])
        (filter (\<lambda>r. ca_id r = ca) (customer_account_tbl d))) d"

text \<open>\<open>SQLTRF2_2a\<close> and \<open>SQLTRF2_8a\<close> are the same insertion.\<close>

definition SQLTRF2_2a :: "int \<Rightarrow> string \<Rightarrow> int \<Rightarrow> sql" where
  "SQLTRF2_2a ca symb q d =
     sql_check ((ca, symb) \<notin> (\<lambda>r. (hs_ca_id r, hs_s_symb r)) ` set (holding_summary_tbl d)
                \<and> length symb \<le> 15)
       (Ok (SPI_OK_INSERT 1, d\<lparr>holding_summary_tbl := holding_summary_tbl d @
              [\<lparr>hs_ca_id = ca, hs_s_symb = symb, hs_qty = q\<rparr>]\<rparr>))"

definition SQLTRF2_2b :: "int \<Rightarrow> int \<Rightarrow> string \<Rightarrow> sql" where
  "SQLTRF2_2b q ca symb d =
     Ok (SPI_OK_UPDATE (length (filter (\<lambda>r. hs_ca_id r = ca \<and> hs_s_symb r = symb)
                                  (holding_summary_tbl d))),
         d\<lparr>holding_summary_tbl := update_where (\<lambda>r. hs_ca_id r = ca \<and> hs_s_symb r = symb)
              (\<lambda>r. r\<lparr>hs_qty := q\<rparr>) (holding_summary_tbl d)\<rparr>)"

definition holding_txt :: "holding_row \<Rightarrow> spi_row" where
  "holding_txt r = [int_txt (h_t_id r), int_txt (h_qty r), num_txt 2 (h_price r)]"

definition holdings_of :: "int \<Rightarrow> string \<Rightarrow> db \<Rightarrow> holding_row list" where
  "holdings_of ca symb d = filter (\<lambda>r. h_ca_id r = ca \<and> h_s_symb r = symb) (holding_tbl d)"

definition SQLTRF2_3a :: "int \<Rightarrow> string \<Rightarrow> sql" where
  "SQLTRF2_3a ca symb d = sql_select (map holding_txt (order_desc h_dts (holdings_of ca symb d))) d"

definition SQLTRF2_3b :: "int \<Rightarrow> string \<Rightarrow> sql" where
  "SQLTRF2_3b ca symb d = sql_select (map holding_txt (order_asc h_dts (holdings_of ca symb d))) d"

definition SQLTRF2_4a :: "int \<Rightarrow> int \<Rightarrow> int \<Rightarrow> int \<Rightarrow> sql" where
  "SQLTRF2_4a h t before after d =
     sql_check ((h, t) \<notin> (\<lambda>r. (hh_h_t_id r, hh_t_id r)) ` set (holding_history_tbl d))
       (Ok (SPI_OK_INSERT 1, d\<lparr>holding_history_tbl := holding_history_tbl d @
              [\<lparr>hh_h_t_id = h, hh_t_id = t, hh_before_qty = before, hh_after_qty = after\<rparr>]\<rparr>))"

definition SQLTRF2_5a :: "int \<Rightarrow> int \<Rightarrow> sql" where
  "SQLTRF2_5a q h d =
     Ok (SPI_OK_UPDATE (length (filter (\<lambda>r. h_t_id r = h) (holding_tbl d))),
         d\<lparr>holding_tbl := update_where (\<lambda>r. h_t_id r = h) (\<lambda>r. r\<lparr>h_qty := q\<rparr>) (holding_tbl d)\<rparr>)"

definition SQLTRF2_5b :: "int \<Rightarrow> sql" where
  "SQLTRF2_5b h d =
     Ok (SPI_OK_DELETE (length (filter (\<lambda>r. h_t_id r = h) (holding_tbl d))),
         d\<lparr>holding_tbl := delete_where (\<lambda>r. h_t_id r = h) (holding_tbl d)\<rparr>)"

definition SQLTRF2_7a :: "pgapi \<Rightarrow> int \<Rightarrow> int \<Rightarrow> string \<Rightarrow> int \<Rightarrow> double \<Rightarrow> int \<Rightarrow> sql" where
  "SQLTRF2_7a pg t ca symb dts price q d =
     (let p = float8_numeric2 pg price in
      sql_check (t \<notin> h_t_id ` set (holding_tbl d) \<and> length symb \<le> 15 \<and> numeric_ok 12 p \<and> 0 < p)
       (Ok (SPI_OK_INSERT 1, d\<lparr>holding_tbl := holding_tbl d @
              [\<lparr>h_t_id = t, h_ca_id = ca, h_s_symb = symb, h_dts = dts, h_price = p, h_qty = q\<rparr>]\<rparr>)))"

definition SQLTRF2_7b :: "int \<Rightarrow> string \<Rightarrow> sql" where
  "SQLTRF2_7b ca symb d =
     Ok (SPI_OK_DELETE (length (filter (\<lambda>r. hs_ca_id r = ca \<and> hs_s_symb r = symb)
                                  (holding_summary_tbl d))),
         d\<lparr>holding_summary_tbl := delete_where (\<lambda>r. hs_ca_id r = ca \<and> hs_s_symb r = symb)
              (holding_summary_tbl d)\<rparr>)"

text \<open>\<open>sum\<close> over no rows is an SQL null; the inner query is a set of tax identifiers.\<close>

definition sum_tax_rates :: "int \<Rightarrow> db \<Rightarrow> int option" where
  "sum_tax_rates c d =
     (let ids = map cx_tx_id (filter (\<lambda>r. cx_c_id r = c) (customer_taxrate_tbl d));
          rs = filter (\<lambda>r. tx_id r \<in> set ids) (taxrate_tbl d)
      in if rs = [] then None else Some (sum_list (map tx_rate rs)))"

definition SQLTRF3_1 :: "int \<Rightarrow> sql" where
  "SQLTRF3_1 c d = sql_select [[map_option (numeric_out 5) (sum_tax_rates c d)]] d"

definition SQLTRF3_2 :: "pgapi \<Rightarrow> double \<Rightarrow> int \<Rightarrow> sql" where
  "SQLTRF3_2 pg tax t d =
     (let c = float8_numeric2 pg tax; rs = filter (\<lambda>r. t_id r = t) (trade_tbl d) in
      sql_check (rs = [] \<or> (numeric_ok 10 c \<and> 0 \<le> c))
        (Ok (SPI_OK_UPDATE (length rs),
             d\<lparr>trade_tbl := update_where (\<lambda>r. t_id r = t) (\<lambda>r. r\<lparr>t_tax := c\<rparr>) (trade_tbl d)\<rparr>)))"

definition SQLTRF4_1 :: "string \<Rightarrow> sql" where
  "SQLTRF4_1 symb d = sql_select
     (map (\<lambda>r. [Some (s_ex_id r), Some (s_name r)])
        (filter (\<lambda>r. s_symb r = symb) (security_tbl d))) d"

definition SQLTRF4_2 :: "int \<Rightarrow> sql" where
  "SQLTRF4_2 c d = sql_select
     (map (\<lambda>r. [int_txt (c_tier r)]) (filter (\<lambda>r. c_id r = c) (customer_tbl d))) d"

definition SQLTRF4_3 :: "int \<Rightarrow> string \<Rightarrow> string \<Rightarrow> int \<Rightarrow> int \<Rightarrow> sql" where
  "SQLTRF4_3 tier tt ex q1 q2 d = sql_select
     (take 1 (map (\<lambda>r. [num_txt 2 (cr_rate r)])
        (filter (\<lambda>r. cr_c_tier r = tier \<and> cr_tt_id r = tt \<and> cr_ex_id r = ex
                     \<and> cr_from_qty r \<le> q1 \<and> cr_to_qty r \<ge> q2) (commission_rate_tbl d)))) d"

definition SQLTRF5_1 :: "pgapi \<Rightarrow> double \<Rightarrow> int \<Rightarrow> string \<Rightarrow> double \<Rightarrow> int \<Rightarrow> sql" where
  "SQLTRF5_1 pg comm dts st price t d =
     (let c = float8_numeric2 pg comm; p = float8_numeric2 pg price;
          rs = filter (\<lambda>r. t_id r = t) (trade_tbl d) in
      sql_check (rs = [] \<or> (numeric_ok 10 c \<and> 0 \<le> c \<and> length st \<le> 4 \<and> numeric_ok 12 p))
        (Ok (SPI_OK_UPDATE (length rs),
             d\<lparr>trade_tbl := update_where (\<lambda>r. t_id r = t)
                 (\<lambda>r. r\<lparr>t_comm := c, t_dts := dts, t_st_id := st, t_trade_price := Some p\<rparr>)
                 (trade_tbl d)\<rparr>)))"

definition SQLTRF5_2 :: "int \<Rightarrow> int \<Rightarrow> string \<Rightarrow> sql" where
  "SQLTRF5_2 t dts st d =
     sql_check ((t, st) \<notin> (\<lambda>r. (th_t_id r, th_st_id r)) ` set (trade_history_tbl d) \<and> length st \<le> 4)
       (Ok (SPI_OK_INSERT 1, d\<lparr>trade_history_tbl := trade_history_tbl d @
              [\<lparr>th_t_id = t, th_dts = dts, th_st_id = st\<rparr>]\<rparr>))"

text \<open>
  \<open>b_comm_total + $1\<close> is computed in float8, since the parameter is a float8, and assigned
  back to the numeric column.
\<close>

definition SQLTRF5_3 :: "pgapi \<Rightarrow> double \<Rightarrow> int \<Rightarrow> sql" where
  "SQLTRF5_3 pg comm b d =
     (let add = (\<lambda>r. float8_numeric2 pg (fadd (atof (numeric_out 2 (b_comm_total r))) comm));
          rs = filter (\<lambda>r. b_id r = b) (broker_tbl d) in
      sql_check (\<forall>r \<in> set rs. numeric_ok 12 (add r) \<and> in_i32 (b_num_trades r + 1))
        (Ok (SPI_OK_UPDATE (length rs),
             d\<lparr>broker_tbl := update_where (\<lambda>r. b_id r = b)
                 (\<lambda>r. r\<lparr>b_comm_total := add r, b_num_trades := b_num_trades r + 1\<rparr>) (broker_tbl d)\<rparr>)))"

definition SQLTRF6_1 :: "pgapi \<Rightarrow> int \<Rightarrow> string \<Rightarrow> int \<Rightarrow> double \<Rightarrow> sql" where
  "SQLTRF6_1 pg t ctype due amt d =
     (let a = float8_numeric2 pg amt in
      sql_check (t \<notin> se_t_id ` set (settlement_tbl d) \<and> length ctype \<le> 40 \<and> numeric_ok 10 a)
       (Ok (SPI_OK_INSERT 1, d\<lparr>settlement_tbl := settlement_tbl d @
              [\<lparr>se_t_id = t, se_cash_type = ctype, se_cash_due_date = due, se_amt = a\<rparr>]\<rparr>)))"

definition SQLTRF6_2 :: "pgapi \<Rightarrow> double \<Rightarrow> int \<Rightarrow> sql" where
  "SQLTRF6_2 pg amt ca d =
     (let add = (\<lambda>r. float8_numeric2 pg (fadd (atof (numeric_out 2 (ca_bal r))) amt));
          rs = filter (\<lambda>r. ca_id r = ca) (customer_account_tbl d) in
      sql_check (\<forall>r \<in> set rs. numeric_ok 12 (add r))
        (Ok (SPI_OK_UPDATE (length rs),
             d\<lparr>customer_account_tbl := update_where (\<lambda>r. ca_id r = ca) (\<lambda>r. r\<lparr>ca_bal := add r\<rparr>)
                 (customer_account_tbl d)\<rparr>)))"

definition cash_name :: "string \<Rightarrow> int \<Rightarrow> string \<Rightarrow> string" where
  "cash_name ty q sname = ty @ '' '' @ show_int q @ '' shares of '' @ sname"

definition SQLTRF6_3 :: "pgapi \<Rightarrow> int \<Rightarrow> int \<Rightarrow> double \<Rightarrow> string \<Rightarrow> int \<Rightarrow> string \<Rightarrow> sql" where
  "SQLTRF6_3 pg dts t amt ty q sname d =
     (let a = float8_numeric2 pg amt; nm = varchar 100 (cash_name ty q sname) in
      sql_check (t \<notin> ct_t_id ` set (cash_transaction_tbl d) \<and> numeric_ok 10 a \<and> nm \<noteq> None)
       (Ok (SPI_OK_INSERT 1, d\<lparr>cash_transaction_tbl := cash_transaction_tbl d @
              [\<lparr>ct_t_id = t, ct_dts = dts, ct_amt = a, ct_name = nm\<rparr>]\<rparr>)))"

definition SQLTRF6_4 :: "int \<Rightarrow> sql" where
  "SQLTRF6_4 ca d = sql_select
     (map (\<lambda>r. [num_txt 2 (ca_bal r)]) (filter (\<lambda>r. ca_id r = ca) (customer_account_tbl d))) d"

text \<open>The statement array: which statement takes which arguments.\<close>

primrec trf_sql :: "pgapi \<Rightarrow> datum list \<Rightarrow> trf_stmt \<Rightarrow> sql" where
  "trf_sql pg as TRF1_1 = (case as of [DInt64 t] \<Rightarrow> SQLTRF1_1 t | _ \<Rightarrow> (\<lambda>d. Fail Sql_Error))"
| "trf_sql pg as TRF1_2 = (case as of [DText tt] \<Rightarrow> SQLTRF1_2 tt | _ \<Rightarrow> (\<lambda>d. Fail Sql_Error))"
| "trf_sql pg as TRF1_3 =
     (case as of [DInt64 ca, DText s] \<Rightarrow> SQLTRF1_3 ca s | _ \<Rightarrow> (\<lambda>d. Fail Sql_Error))"
| "trf_sql pg as TRF2_now = (case as of [] \<Rightarrow> sql_select [[Some (now_text pg)]]
     | _ \<Rightarrow> (\<lambda>d. Fail Sql_Error))"
| "trf_sql pg as TRF2_1 = (case as of [DInt64 ca] \<Rightarrow> SQLTRF2_1 ca | _ \<Rightarrow> (\<lambda>d. Fail Sql_Error))"
| "trf_sql pg as TRF2_2a =
     (case as of [DInt64 ca, DText s, DInt32 q] \<Rightarrow> SQLTRF2_2a ca s q | _ \<Rightarrow> (\<lambda>d. Fail Sql_Error))"
| "trf_sql pg as TRF2_2b =
     (case as of [DInt32 q, DInt64 ca, DText s] \<Rightarrow> SQLTRF2_2b q ca s | _ \<Rightarrow> (\<lambda>d. Fail Sql_Error))"
| "trf_sql pg as TRF2_3a =
     (case as of [DInt64 ca, DText s] \<Rightarrow> SQLTRF2_3a ca s | _ \<Rightarrow> (\<lambda>d. Fail Sql_Error))"
| "trf_sql pg as TRF2_3b =
     (case as of [DInt64 ca, DText s] \<Rightarrow> SQLTRF2_3b ca s | _ \<Rightarrow> (\<lambda>d. Fail Sql_Error))"
| "trf_sql pg as TRF2_4a =
     (case as of [DInt64 h, DInt64 t, DInt32 b, DInt32 a] \<Rightarrow> SQLTRF2_4a h t b a
      | _ \<Rightarrow> (\<lambda>d. Fail Sql_Error))"
| "trf_sql pg as TRF2_5a =
     (case as of [DInt32 q, DInt64 h] \<Rightarrow> SQLTRF2_5a q h | _ \<Rightarrow> (\<lambda>d. Fail Sql_Error))"
| "trf_sql pg as TRF2_5b = (case as of [DInt64 h] \<Rightarrow> SQLTRF2_5b h | _ \<Rightarrow> (\<lambda>d. Fail Sql_Error))"
| "trf_sql pg as TRF2_7a =
     (case as of [DInt64 t, DInt64 ca, DText s, DTimestamp ts, DFloat8 p, DInt32 q] \<Rightarrow>
        SQLTRF2_7a pg t ca s ts p q | _ \<Rightarrow> (\<lambda>d. Fail Sql_Error))"
| "trf_sql pg as TRF2_7b =
     (case as of [DInt64 ca, DText s] \<Rightarrow> SQLTRF2_7b ca s | _ \<Rightarrow> (\<lambda>d. Fail Sql_Error))"
| "trf_sql pg as TRF2_8a =
     (case as of [DInt64 ca, DText s, DInt32 q] \<Rightarrow> SQLTRF2_2a ca s q | _ \<Rightarrow> (\<lambda>d. Fail Sql_Error))"
| "trf_sql pg as TRF2_8b =
     (case as of [DInt32 q, DInt64 ca, DText s] \<Rightarrow> SQLTRF2_2b q ca s | _ \<Rightarrow> (\<lambda>d. Fail Sql_Error))"
| "trf_sql pg as TRF3_1 = (case as of [DInt64 c] \<Rightarrow> SQLTRF3_1 c | _ \<Rightarrow> (\<lambda>d. Fail Sql_Error))"
| "trf_sql pg as TRF3_2 =
     (case as of [DFloat8 x, DInt64 t] \<Rightarrow> SQLTRF3_2 pg x t | _ \<Rightarrow> (\<lambda>d. Fail Sql_Error))"
| "trf_sql pg as TRF4_1 = (case as of [DText s] \<Rightarrow> SQLTRF4_1 s | _ \<Rightarrow> (\<lambda>d. Fail Sql_Error))"
| "trf_sql pg as TRF4_2 = (case as of [DInt64 c] \<Rightarrow> SQLTRF4_2 c | _ \<Rightarrow> (\<lambda>d. Fail Sql_Error))"
| "trf_sql pg as TRF4_3 =
     (case as of [DInt16 ti, DText tt, DText ex, DInt32 q1, DInt32 q2] \<Rightarrow> SQLTRF4_3 ti tt ex q1 q2
      | _ \<Rightarrow> (\<lambda>d. Fail Sql_Error))"
| "trf_sql pg as TRF5_1 =
     (case as of [DFloat8 c, DTimestamp ts, DText st, DFloat8 p, DInt64 t] \<Rightarrow> SQLTRF5_1 pg c ts st p t
      | _ \<Rightarrow> (\<lambda>d. Fail Sql_Error))"
| "trf_sql pg as TRF5_2 =
     (case as of [DInt64 t, DTimestamp ts, DText st] \<Rightarrow> SQLTRF5_2 t ts st | _ \<Rightarrow> (\<lambda>d. Fail Sql_Error))"
| "trf_sql pg as TRF5_3 =
     (case as of [DFloat8 c, DInt64 b] \<Rightarrow> SQLTRF5_3 pg c b | _ \<Rightarrow> (\<lambda>d. Fail Sql_Error))"
| "trf_sql pg as TRF6_1 =
     (case as of [DInt64 t, DText ty, DDate due, DFloat8 a] \<Rightarrow> SQLTRF6_1 pg t ty due a
      | _ \<Rightarrow> (\<lambda>d. Fail Sql_Error))"
| "trf_sql pg as TRF6_2 =
     (case as of [DFloat8 a, DInt64 ca] \<Rightarrow> SQLTRF6_2 pg a ca | _ \<Rightarrow> (\<lambda>d. Fail Sql_Error))"
| "trf_sql pg as TRF6_3 =
     (case as of [DTimestamp ts, DInt64 t, DFloat8 a, DText ty, DInt32 q, DText sn] \<Rightarrow>
        SQLTRF6_3 pg ts t a ty q sn | _ \<Rightarrow> (\<lambda>d. Fail Sql_Error))"
| "trf_sql pg as TRF6_4 = (case as of [DInt64 ca] \<Rightarrow> SQLTRF6_4 ca | _ \<Rightarrow> (\<lambda>d. Fail Sql_Error))"

definition trf_spi :: "pgapi \<Rightarrow> (trf_stmt, pgsession) spi" where
  "trf_spi pg stmt as read_only s = run_sql (trf_sql pg as stmt) read_only s"

interpretation trf: sql_provider "trf_spi pg" "trf_sql pg" for pg
  by unfold_locales (simp add: trf_spi_def)

section \<open>Frame 1: the trade\<close>

text \<open>The enumeration that indexes \<open>values\<close>, in its order.\<close>

datatype trf1 = trf1_acct_id | trf1_charge | trf1_hs_qty | trf1_is_lifo | trf1_num_found
  | trf1_symbol | trf1_trade_is_cash | trf1_trade_qty | trf1_type_id | trf1_type_is_market
  | trf1_type_is_sell | trf1_type_name

definition trf1_order :: "trf1 list" where
  "trf1_order = [trf1_acct_id, trf1_charge, trf1_hs_qty, trf1_is_lifo, trf1_num_found,
     trf1_symbol, trf1_trade_is_cash, trf1_trade_qty, trf1_type_id, trf1_type_is_market,
     trf1_type_is_sell, trf1_type_name]"

text \<open>The trade was found: read its type and the current position.\<close>

definition TRF1_trade ::
    "(trf_stmt, 'd) spi \<Rightarrow> spi_row \<Rightarrow> (trf_stmt, 'd) fctx \<Rightarrow> ((trf1 \<Rightarrow> slot) \<times> (trf_stmt, 'd) fctx) outcome" where
  "TRF1_trade spi row f =
     (let v = (\<lambda>_. Uninit)(trf1_acct_id := Ptr (SPI_getvalue row 1),
                trf1_type_id := Ptr (SPI_getvalue row 2), trf1_symbol := Ptr (SPI_getvalue row 3),
                trf1_trade_qty := Ptr (SPI_getvalue row 4), trf1_charge := Ptr (SPI_getvalue row 5),
                trf1_is_lifo := Ptr (SPI_getvalue row 6), trf1_trade_is_cash := Ptr (SPI_getvalue row 7)) in
      obind (read_str (v trf1_type_id)) (\<lambda>type_id.
      obind (SPI_execute_plan spi TRF1_2 [DText type_id] True f) (\<lambda>(r, f).
      case (case r of
              SPI_OK_SELECT (row2 # _) \<Rightarrow>
                (v(trf1_type_name := Ptr (SPI_getvalue row2 1),
                   trf1_type_is_sell := Ptr (SPI_getvalue row2 2),
                   trf1_type_is_market := Ptr (SPI_getvalue row2 3)), f)
            | _ \<Rightarrow> (v, FAIL_FRAME_SET TRF1_2 f)) of (v, f) \<Rightarrow>
      obind (read_str (v trf1_acct_id)) (\<lambda>acct_id.
      obind (read_str (v trf1_symbol)) (\<lambda>symbol.
      obind (SPI_execute_plan spi TRF1_3 [DInt64 (atoll acct_id), DText symbol] True f) (\<lambda>(r, f).
      case r of
        SPI_OK_SELECT (row3 # _) \<Rightarrow> Ok (v(trf1_hs_qty := Ptr (SPI_getvalue row3 1)), f)
      | SPI_OK_SELECT [] \<Rightarrow> Ok (v(trf1_hs_qty := Str ''0''), f)
      | _ \<Rightarrow> Ok (v, FAIL_FRAME_SET TRF1_3 f)))))))"

text \<open>No such trade: every output is zero or empty.\<close>

definition TRF1_not_found :: "trf1 \<Rightarrow> slot" where
  "TRF1_not_found = (\<lambda>_. Uninit)(trf1_acct_id := Str ''0'', trf1_type_id := Str '''',
     trf1_symbol := Str '''', trf1_trade_qty := Str ''0'', trf1_charge := Str ''0'',
     trf1_is_lifo := Str ''0'', trf1_trade_is_cash := Str ''0'', trf1_type_name := Str '''',
     trf1_type_is_sell := Str ''0'', trf1_type_is_market := Str ''0'', trf1_hs_qty := Str ''0'')"

definition TradeResultFrame1 ::
    "(trf_stmt \<Rightarrow> bool) \<Rightarrow> (trf_stmt, 'd) spi \<Rightarrow> int \<Rightarrow> (trf_stmt, 'd) fctx \<Rightarrow>
     (spi_row list \<times> (trf_stmt, 'd) fctx) outcome" where
  "TradeResultFrame1 prepare spi trade_id f =
     obind (plan_queries prepare TRF1_statements (f\<lparr>max_calls := 1\<rparr>)) (\<lambda>f.
     obind (SPI_execute_plan spi TRF1_1 [DInt64 trade_id] True f) (\<lambda>(r, f).
     obind (case r of
              SPI_OK_SELECT (row # rows) \<Rightarrow>
                obind (TRF1_trade spi row f) (\<lambda>(v, f). Ok (int (length (row # rows)), v, f))
            | SPI_OK_SELECT [] \<Rightarrow> Ok (0, TRF1_not_found, f)
            | _ \<Rightarrow> Ok (0, \<lambda>_. Uninit, FAIL_FRAME_SET TRF1_1 f)) (\<lambda>(num_found, v, f).
     srf_return (map (v(trf1_num_found := Str (snprintf_d (INTEGER_LEN + 1) (i32 num_found))))
                   trf1_order) f)))"

section \<open>Frame 2: the position\<close>

datatype trf2 = trf2_broker_id | trf2_buy_value | trf2_cust_id | trf2_sell_value
  | trf2_tax_status | trf2_trade_dts

definition trf2_order :: "trf2 list" where
  "trf2_order = [trf2_broker_id, trf2_buy_value, trf2_cust_id, trf2_sell_value, trf2_tax_status,
     trf2_trade_dts]"

text \<open>
  The conversion of the parsed trade time into the server's structure, as the code has
  it: the year is taken down by 1900 and the month by one.
\<close>

definition TRF2_pg_tm :: "ctm \<Rightarrow> pg_tm" where
  "TRF2_pg_tm tm = \<lparr>pg_year = i32 (tm_year tm - 1900), pg_mon = i32 (tm_mon tm - 1),
     pg_mday = tm_mday tm, pg_hour = tm_hour tm, pg_min = tm_min tm, pg_sec = tm_sec tm,
     pg_isdst = tm_isdst tm, pg_gmtoff = tm_gmtoff tm\<rparr>"

text \<open>
  One holding of the loop that liquidates holdings: part of it when it is larger than
  what is still needed, all of it otherwise.  The result of \<open>tm2timestamp\<close> is not checked.
\<close>

fun TRF2_sell_loop ::
    "(trf_stmt, 'd) spi \<Rightarrow> int \<Rightarrow> double \<Rightarrow> spi_row list \<Rightarrow> int \<Rightarrow> double \<Rightarrow> double \<Rightarrow>
     (trf_stmt, 'd) fctx \<Rightarrow> (int \<times> double \<times> double \<times> (trf_stmt, 'd) fctx) outcome" where
  "TRF2_sell_loop spi trade_id trade_price [] needed buy sell f = Ok (needed, buy, sell, f)"
| "TRF2_sell_loop spi trade_id trade_price (row # rows) needed buy sell f =
     (if \<not> 0 < needed then Ok (needed, buy, sell, f)
      else
        obind (getvalue_atoll row 1) (\<lambda>hold_id.
        obind (getvalue_atoi row 2) (\<lambda>hold_qty.
        obind (getvalue_atof row 3) (\<lambda>hold_price.
        if needed < hold_qty then
          obind (exec_dml_set spi Insert TRF2_4a
                   [DInt64 hold_id, DInt64 trade_id, DInt32 hold_qty, DInt32 (i32 (hold_qty - needed))] f) (\<lambda>f.
          obind (exec_dml_set spi Update TRF2_5a [DInt32 (i32 (hold_qty - needed)), DInt64 hold_id] f) (\<lambda>f.
          TRF2_sell_loop spi trade_id trade_price rows 0
            (fadd buy (fmul (of_cint needed) hold_price))
            (fadd sell (fmul (of_cint needed) trade_price)) f))
        else
          obind (exec_dml_set spi Insert TRF2_4a
                   [DInt64 hold_id, DInt64 trade_id, DInt32 hold_qty, DInt32 0] f) (\<lambda>f.
          obind (exec_dml_set spi Delete TRF2_5b [DInt64 hold_id] f) (\<lambda>f.
          TRF2_sell_loop spi trade_id trade_price rows (i32 (needed - hold_qty))
            (fadd buy (fmul (of_cint hold_qty) hold_price))
            (fadd sell (fmul (of_cint hold_qty) trade_price)) f))))))"

text \<open>The mirror image for a purchase that covers short positions (negative holdings).\<close>

fun TRF2_buy_loop ::
    "(trf_stmt, 'd) spi \<Rightarrow> int \<Rightarrow> double \<Rightarrow> spi_row list \<Rightarrow> int \<Rightarrow> double \<Rightarrow> double \<Rightarrow>
     (trf_stmt, 'd) fctx \<Rightarrow> (int \<times> double \<times> double \<times> (trf_stmt, 'd) fctx) outcome" where
  "TRF2_buy_loop spi trade_id trade_price [] needed buy sell f = Ok (needed, buy, sell, f)"
| "TRF2_buy_loop spi trade_id trade_price (row # rows) needed buy sell f =
     (if \<not> 0 < needed then Ok (needed, buy, sell, f)
      else
        obind (getvalue_atoll row 1) (\<lambda>hold_id.
        obind (getvalue_atoi row 2) (\<lambda>hold_qty.
        obind (getvalue_atof row 3) (\<lambda>hold_price.
        if i32 (hold_qty + needed) < 0 then
          obind (exec_dml_set spi Insert TRF2_4a
                   [DInt64 hold_id, DInt64 trade_id, DInt32 hold_qty, DInt32 (i32 (hold_qty + needed))] f) (\<lambda>f.
          obind (exec_dml_set spi Update TRF2_5a [DInt32 (i32 (hold_qty + needed)), DInt64 hold_id] f) (\<lambda>f.
          TRF2_buy_loop spi trade_id trade_price rows 0
            (fadd buy (fmul (of_cint needed) trade_price))
            (fadd sell (fmul (of_cint needed) hold_price)) f))
        else
          obind (exec_dml_set spi Insert TRF2_4a
                   [DInt64 hold_id, DInt64 trade_id, DInt32 hold_qty, DInt32 0] f) (\<lambda>f.
          obind (exec_dml_set spi Delete TRF2_5b [DInt64 hold_id] f) (\<lambda>f.
          let hold_qty = i32 (- hold_qty) in
          TRF2_buy_loop spi trade_id trade_price rows (i32 (needed - hold_qty))
            (fadd buy (fmul (of_cint hold_qty) trade_price))
            (fadd sell (fmul (of_cint hold_qty) hold_price)) f))))))"

text \<open>The holdings in last-in-first-out or first-in-first-out order.\<close>

definition TRF2_holdings ::
    "(trf_stmt, 'd) spi \<Rightarrow> int \<Rightarrow> int \<Rightarrow> string \<Rightarrow> (trf_stmt, 'd) fctx \<Rightarrow>
     (spi_row list \<times> (trf_stmt, 'd) fctx) outcome" where
  "TRF2_holdings spi is_lifo acct_id symbol f =
     (let stmt = (if is_lifo = 1 then TRF2_3a else TRF2_3b) in
      obind (SPI_execute_plan spi stmt [DInt64 acct_id, DText symbol] False f) (\<lambda>(r, f).
      let f = (case r of SPI_OK_SELECT _ \<Rightarrow> f | _ \<Rightarrow> FAIL_FRAME_SET stmt f) in
      obind (SPI_tuptable r) (\<lambda>rows. Ok (rows, f))))"

text \<open>What is left after the loop becomes a new holding of \<open>qty\<close> shares.\<close>

definition TRF2_new_holding ::
    "(trf_stmt, 'd) spi \<Rightarrow> pgapi \<Rightarrow> int \<Rightarrow> string \<Rightarrow> int \<Rightarrow> double \<Rightarrow> slot \<Rightarrow> int \<Rightarrow>
     (trf_stmt, 'd) fctx \<Rightarrow> (trf_stmt, 'd) fctx outcome" where
  "TRF2_new_holding spi pg acct_id symbol trade_id trade_price trade_dts qty f =
     obind (exec_dml_set spi Insert TRF2_4a
              [DInt64 trade_id, DInt64 trade_id, DInt32 0, DInt32 qty] f) (\<lambda>f.
     obind (read_str trade_dts) (\<lambda>dts.
     case strptime dts of
       None \<Rightarrow> Ok (FAIL_FRAME_SET TRF2_7a f)
     | Some tm \<Rightarrow>
         obind (from_ptr (tm2timestamp pg (TRF2_pg_tm tm))) (\<lambda>dt.
         exec_dml_set spi Insert TRF2_7a
           [DInt64 trade_id, DInt64 acct_id, DText symbol, DTimestamp dt, DFloat8 trade_price,
            DInt32 qty] f)))"

definition TRF2_sell ::
    "(trf_stmt, 'd) spi \<Rightarrow> pgapi \<Rightarrow> int \<Rightarrow> int \<Rightarrow> int \<Rightarrow> string \<Rightarrow> int \<Rightarrow> double \<Rightarrow> int \<Rightarrow> slot \<Rightarrow>
     (trf_stmt, 'd) fctx \<Rightarrow> (double \<times> double \<times> (trf_stmt, 'd) fctx) outcome" where
  "TRF2_sell spi pg acct_id hs_qty0 is_lifo symbol trade_id trade_price trade_qty trade_dts f =
     obind (if hs_qty0 = 0 then
              exec_dml_set spi Insert TRF2_2a [DInt64 acct_id, DText symbol, DInt32 (i32 (- trade_qty))] f
            else if hs_qty0 \<noteq> trade_qty then
              exec_dml_set spi Update TRF2_2b
                [DInt32 (i32 (hs_qty0 - trade_qty)), DInt64 acct_id, DText symbol] f
            else Ok f) (\<lambda>f.
     obind (if 0 < hs_qty0 then
              obind (TRF2_holdings spi is_lifo acct_id symbol f) (\<lambda>(rows, f).
              TRF2_sell_loop spi trade_id trade_price rows trade_qty 0 0 f)
            else Ok (trade_qty, 0, 0, f)) (\<lambda>(needed, buy, sell, f).
     obind (if 0 < needed then
              TRF2_new_holding spi pg acct_id symbol trade_id trade_price trade_dts (i32 (- needed)) f
            else if hs_qty0 = trade_qty then
              exec_dml_set spi Delete TRF2_7b [DInt64 acct_id, DText symbol] f
            else Ok f) (\<lambda>f. Ok (buy, sell, f))))"

definition TRF2_buy ::
    "(trf_stmt, 'd) spi \<Rightarrow> pgapi \<Rightarrow> int \<Rightarrow> int \<Rightarrow> int \<Rightarrow> string \<Rightarrow> int \<Rightarrow> double \<Rightarrow> int \<Rightarrow> slot \<Rightarrow>
     (trf_stmt, 'd) fctx \<Rightarrow> (double \<times> double \<times> (trf_stmt, 'd) fctx) outcome" where
  "TRF2_buy spi pg acct_id hs_qty0 is_lifo symbol trade_id trade_price trade_qty trade_dts f =
     obind (if hs_qty0 = 0 then
              exec_dml_set spi Insert TRF2_8a [DInt64 acct_id, DText symbol, DInt32 trade_qty] f
            else if i32 (- hs_qty0) \<noteq> trade_qty then
              exec_dml_set spi Update TRF2_8b
                [DInt32 (i32 (hs_qty0 + trade_qty)), DInt64 acct_id, DText symbol] f
            else Ok f) (\<lambda>f.
     obind (if hs_qty0 < 0 then
              obind (TRF2_holdings spi is_lifo acct_id symbol f) (\<lambda>(rows, f).
              TRF2_buy_loop spi trade_id trade_price rows trade_qty 0 0 f)
            else Ok (trade_qty, 0, 0, f)) (\<lambda>(needed, buy, sell, f).
     obind (if 0 < needed then
              TRF2_new_holding spi pg acct_id symbol trade_id trade_price trade_dts needed f
            else if i32 (- hs_qty0) = trade_qty then
              exec_dml_set spi Delete TRF2_7b [DInt64 acct_id, DText symbol] f
            else Ok f) (\<lambda>f. Ok (buy, sell, f))))"

text \<open>The queries before the position is moved: the trade time and the account.\<close>

definition TRF2_lookup ::
    "(trf_stmt, 'd) spi \<Rightarrow> int \<Rightarrow> (trf_stmt, 'd) fctx \<Rightarrow> ((trf2 \<Rightarrow> slot) \<times> (trf_stmt, 'd) fctx) outcome" where
  "TRF2_lookup spi acct_id f =
     obind (spi TRF2_now [] False (session f)) (\<lambda>(r, s).
     let f = f\<lparr>session := s\<rparr> in
     case (case r of
             SPI_OK_SELECT [row] \<Rightarrow> ((\<lambda>_. Uninit)(trf2_trade_dts := Ptr (SPI_getvalue row 1)), f)
           | _ \<Rightarrow> (\<lambda>_. Uninit, FAIL_FRAME_SET TRF2_now f)) of (v, f) \<Rightarrow>
     obind (SPI_execute_plan spi TRF2_1 [DInt64 acct_id] False f) (\<lambda>(r, f).
     Ok (case r of
           SPI_OK_SELECT (row # _) \<Rightarrow>
             (v(trf2_broker_id := Ptr (SPI_getvalue row 1), trf2_cust_id := Ptr (SPI_getvalue row 2),
                trf2_tax_status := Ptr (SPI_getvalue row 3)), f)
         | _ \<Rightarrow> (v, FAIL_FRAME_SET TRF2_1 f))))"

definition TradeResultFrame2 ::
    "(trf_stmt \<Rightarrow> bool) \<Rightarrow> (trf_stmt, 'd) spi \<Rightarrow> pgapi \<Rightarrow> int \<Rightarrow> int \<Rightarrow> int \<Rightarrow> string \<Rightarrow> int \<Rightarrow> rat \<Rightarrow>
     int \<Rightarrow> int \<Rightarrow> (trf_stmt, 'd) fctx \<Rightarrow> (spi_row list \<times> (trf_stmt, 'd) fctx) outcome" where
  "TradeResultFrame2 prepare spi pg acct_id hs_qty0 is_lifo symbol_p trade_id trade_price_num
       trade_qty type_is_sell f =
     (let symbol = copy_len S_SYMB_LEN symbol_p; trade_price = rnd64 trade_price_num in
      obind (plan_queries prepare TRF2_statements (f\<lparr>max_calls := 1\<rparr>)) (\<lambda>f.
      obind (TRF2_lookup spi acct_id f) (\<lambda>(v, f).
      obind ((if type_is_sell = 1 then TRF2_sell else TRF2_buy)
               spi pg acct_id hs_qty0 is_lifo symbol trade_id trade_price trade_qty (v trf2_trade_dts) f)
        (\<lambda>(buy_value, sell_value, f).
      srf_return (map (v(trf2_buy_value := Str (snprintf_2f (S_PRICE_T_LEN + 1) 0 buy_value),
                         trf2_sell_value := Str (snprintf_2f (S_PRICE_T_LEN + 1) 0 sell_value)))
                   trf2_order) f))))"

section \<open>Frame 3: the tax\<close>

definition TradeResultFrame3 ::
    "(trf_stmt \<Rightarrow> bool) \<Rightarrow> (trf_stmt, 'd) spi \<Rightarrow> rat \<Rightarrow> int \<Rightarrow> rat \<Rightarrow> int \<Rightarrow> (trf_stmt, 'd) fctx \<Rightarrow>
     (double \<times> (trf_stmt, 'd) fctx) outcome" where
  "TradeResultFrame3 prepare spi buy_value_num cust_id sell_value_num trade_id f =
     (let buy_value = rnd64 buy_value_num; sell_value = rnd64 sell_value_num in
      obind (plan_queries prepare TRF3_statements f) (\<lambda>f.
      obind (SPI_execute_plan spi TRF3_1 [DInt64 cust_id] True f) (\<lambda>(r, f).
      case (case r of
              SPI_OK_SELECT (row # _) \<Rightarrow>
                ((case SPI_getvalue row 1 of
                    None \<Rightarrow> 0
                  | Some tax_rates \<Rightarrow> fmul (fsub sell_value buy_value) (atof tax_rates)), f)
            | SPI_OK_SELECT [] \<Rightarrow> (0, f)
            | _ \<Rightarrow> (0, FAIL_FRAME TRF3_1 f)) of (tax_amount, f) \<Rightarrow>
      let tax_amount = fdiv (of_int (rne (fmul tax_amount 100))) 100 in
      obind (exec_dml spi Update TRF3_2 [DFloat8 tax_amount, DInt64 trade_id] f) (\<lambda>f.
      Ok (tax_amount, f)))))"

section \<open>Frame 4: the commission rate\<close>

datatype trf4 = trf4_comm_rate | trf4_s_name

definition trf4_order :: "trf4 list" where
  "trf4_order = [trf4_comm_rate, trf4_s_name]"

text \<open>
  Each query runs only if the one before found a value; \<open>s_ex_id\<close> and \<open>c_tier\<close> are the
  null pointer otherwise.
\<close>

definition TradeResultFrame4 ::
    "(trf_stmt \<Rightarrow> bool) \<Rightarrow> (trf_stmt, 'd) spi \<Rightarrow> int \<Rightarrow> string \<Rightarrow> int \<Rightarrow> string \<Rightarrow> (trf_stmt, 'd) fctx \<Rightarrow>
     (spi_row list \<times> (trf_stmt, 'd) fctx) outcome" where
  "TradeResultFrame4 prepare spi cust_id symbol_p trade_qty type_id_p f =
     (let symbol = copy_len S_SYMB_LEN symbol_p; type_id = copy_len TT_ID_LEN type_id_p in
      obind (plan_queries prepare TRF4_statements (f\<lparr>max_calls := 1\<rparr>)) (\<lambda>f.
      obind (SPI_execute_plan spi TRF4_1 [DText symbol] True f) (\<lambda>(r, f).
      case (case r of
              SPI_OK_SELECT (row # _) \<Rightarrow>
                (SPI_getvalue row 1, (\<lambda>_. Uninit)(trf4_s_name := Ptr (SPI_getvalue row 2)), f)
            | _ \<Rightarrow> (None, \<lambda>_. Uninit, FAIL_FRAME_SET TRF4_1 f)) of (ex, v, f) \<Rightarrow>
      obind (case ex of
               None \<Rightarrow> Ok (None, f)
             | Some _ \<Rightarrow>
                 obind (SPI_execute_plan spi TRF4_2 [DInt64 cust_id] True f) (\<lambda>(r, f).
                 Ok (case r of
                       SPI_OK_SELECT (row # _) \<Rightarrow> (SPI_getvalue row 1, f)
                     | _ \<Rightarrow> (None, FAIL_FRAME_SET TRF4_2 f)))) (\<lambda>(tier, f).
      obind (case tier of
               None \<Rightarrow> Ok (v, f)
             | Some t \<Rightarrow>
                 obind (from_ptr ex) (\<lambda>s_ex.
                 obind (SPI_execute_plan spi TRF4_3
                          [DInt16 (atoi t), DText type_id, DText s_ex, DInt32 trade_qty,
                           DInt32 trade_qty] True f) (\<lambda>(r, f).
                 Ok (case r of
                       SPI_OK_SELECT (row # _) \<Rightarrow> (v(trf4_comm_rate := Ptr (SPI_getvalue row 1)), f)
                     | _ \<Rightarrow> (v, FAIL_FRAME_SET TRF4_3 f))))) (\<lambda>(v, f).
      srf_return (map v trf4_order) f)))))"

section \<open>Frame 5: closing the trade\<close>

definition TradeResultFrame5 ::
    "(trf_stmt \<Rightarrow> bool) \<Rightarrow> (trf_stmt, 'd) spi \<Rightarrow> int \<Rightarrow> rat \<Rightarrow> string \<Rightarrow> int \<Rightarrow> int \<Rightarrow> rat \<Rightarrow>
     (trf_stmt, 'd) fctx \<Rightarrow> (int \<times> (trf_stmt, 'd) fctx) outcome" where
  "TradeResultFrame5 prepare spi broker_id comm_amount_num st_completed_id_p trade_dts_ts trade_id
       trade_price_num f =
     (let st_completed_id = copy_len ST_ID_LEN st_completed_id_p;
          comm_amount = rnd64 comm_amount_num; trade_price = rnd64 trade_price_num in
      obind (plan_queries prepare TRF5_statements f) (\<lambda>f.
      obind (exec_dml spi Update TRF5_1 [DFloat8 comm_amount, DTimestamp trade_dts_ts,
               DText st_completed_id, DFloat8 trade_price, DInt64 trade_id] f) (\<lambda>f.
      obind (exec_dml spi Insert TRF5_2
               [DInt64 trade_id, DTimestamp trade_dts_ts, DText st_completed_id] f) (\<lambda>f.
      obind (exec_dml spi Update TRF5_3 [DFloat8 comm_amount, DInt64 broker_id] f) (\<lambda>f.
      Ok (0, f))))))"

section \<open>Frame 6: settlement\<close>

definition TradeResultFrame6 ::
    "(trf_stmt \<Rightarrow> bool) \<Rightarrow> (trf_stmt, 'd) spi \<Rightarrow> pgapi \<Rightarrow> int \<Rightarrow> int \<Rightarrow> string \<Rightarrow> rat \<Rightarrow> int \<Rightarrow> int \<Rightarrow>
     int \<Rightarrow> int \<Rightarrow> string \<Rightarrow> (trf_stmt, 'd) fctx \<Rightarrow> (double \<times> (trf_stmt, 'd) fctx) outcome" where
  "TradeResultFrame6 prepare spi pg acct_id due_date_ts s_name_p se_amount_num trade_dts_ts trade_id
       trade_is_cash trade_qty type_name_p f =
     (let se_amount = rnd64 se_amount_num;
          sname = copy_len S_NAME_LEN s_name_p; type_name = copy_len TT_NAME_LEN type_name_p;
          due_date = (case timestamp2tm pg due_date_ts of
                        None \<Rightarrow> Uninit | Some tm \<Rightarrow> Str (EncodeDateTime pg tm)) in
      obind (plan_queries prepare TRF6_statements f) (\<lambda>f.
      let cash_type = (if trade_is_cash = 1 then ''Cash Account'' else ''Margin'') in
      obind (read_str due_date) (\<lambda>due_txt.
      obind (date_in pg due_txt) (\<lambda>due.
      obind (exec_dml spi Insert TRF6_1
               [DInt64 trade_id, DText cash_type, DDate due, DFloat8 se_amount] f) (\<lambda>f.
      obind (if trade_is_cash = 1 then
               obind (exec_dml spi Update TRF6_2 [DFloat8 se_amount, DInt64 acct_id] f) (\<lambda>f.
               exec_dml spi Insert TRF6_3 [DTimestamp trade_dts_ts, DInt64 trade_id,
                 DFloat8 se_amount, DText type_name, DInt32 trade_qty, DText sname] f)
             else Ok f) (\<lambda>f.
      obind (SPI_execute_plan spi TRF6_4 [DInt64 acct_id] False f) (\<lambda>(r, f).
      case r of
        SPI_OK_SELECT (row # _) \<Rightarrow> obind (getvalue_atof row 1) (\<lambda>acct_bal. Ok (acct_bal, f))
      | _ \<Rightarrow> Ok (0, FAIL_FRAME TRF6_4 f))))))))"

end
