(* ===== verification/Positions.thy ===== *)
theory Positions
  imports TradeResult
begin

text \<open>
  What Trade-Result frame 2 guarantees about positions.

  A position of an account in a security is kept twice: as the quantities of the rows of
  \<open>holding\<close> and as one row of \<open>holding_summary\<close>.  \<open>positions_ok\<close> is the invariant that ties
  the two together.  \<open>consume\<close> is the specification of the liquidation loops: which holdings
  a trade uses up, in the order given, and what is left of each.  The locale \<open>liquidation\<close>
  states what the sell loop and the buy loop of the frame have in common; both are shown
  to refine \<open>consume\<close> through it.
\<close>

section \<open>Positions\<close>

definition position :: "int \<Rightarrow> string \<Rightarrow> db \<Rightarrow> int" where
  "position ca symb d = sum_list (map h_qty (holdings_of ca symb d))"

definition summary_rows :: "int \<Rightarrow> string \<Rightarrow> db \<Rightarrow> holding_summary_row list" where
  "summary_rows ca symb d =
     filter (\<lambda>r. hs_ca_id r = ca \<and> hs_s_symb r = symb) (holding_summary_tbl d)"

text \<open>The quantity frame 1 reports: that of the summary row, 0 if there is none.\<close>

definition summary :: "int \<Rightarrow> string \<Rightarrow> db \<Rightarrow> int" where
  "summary ca symb d = (case summary_rows ca symb d of [] \<Rightarrow> 0 | r # _ \<Rightarrow> hs_qty r)"

definition holding_typed :: "holding_row \<Rightarrow> bool" where
  "holding_typed h \<longleftrightarrow> in_i64 (h_t_id h) \<and> in_i32 (h_qty h) \<and> in_i32 (- h_qty h)"

definition same_sign :: "int \<Rightarrow> string \<Rightarrow> db \<Rightarrow> bool" where
  "same_sign ca symb d \<longleftrightarrow>
     (\<forall>h \<in> set (holdings_of ca symb d). 0 < h_qty h)
     \<or> (\<forall>h \<in> set (holdings_of ca symb d). h_qty h < 0)"

definition positions_ok :: "db \<Rightarrow> bool" where
  "positions_ok d \<longleftrightarrow>
     distinct (map h_t_id (holding_tbl d))
     \<and> distinct (map (\<lambda>r. (hs_ca_id r, hs_s_symb r)) (holding_summary_tbl d))
     \<and> (\<forall>h \<in> set (holding_tbl d). holding_typed h)
     \<and> (\<forall>r \<in> set (holding_summary_tbl d). hs_qty r \<noteq> 0)
     \<and> (\<forall>ca symb. summary ca symb d = position ca symb d \<and> same_sign ca symb d)"

section \<open>Specification of the liquidation\<close>

text \<open>
  \<open>consume sg n hs\<close>: a trade of \<open>n\<close> shares against the holdings \<open>hs\<close>, which all have the
  sign \<open>sg\<close>.  The result is the number of shares still needed and the holdings used, each
  with the quantity that remains in it.
\<close>

fun consume :: "int \<Rightarrow> int \<Rightarrow> holding_row list \<Rightarrow> int \<times> (holding_row \<times> int) list" where
  "consume sg n [] = (n, [])"
| "consume sg n (h # hs) =
     (if n \<le> 0 then (n, [])
      else if n < sg * h_qty h then (0, [(h, h_qty h - sg * n)])
      else (case consume sg (n - sg * h_qty h) hs of (n', cs) \<Rightarrow> (n', (h, 0) # cs)))"

text \<open>The effect on the tables: one history row per holding used.\<close>

definition use_holding :: "int \<Rightarrow> holding_row \<times> int \<Rightarrow> db \<Rightarrow> db" where
  "use_holding t = (\<lambda>(h, a) d.
     d\<lparr>holding_history_tbl := holding_history_tbl d @
         [\<lparr>hh_h_t_id = h_t_id h, hh_t_id = t, hh_before_qty = h_qty h, hh_after_qty = a\<rparr>],
       holding_tbl :=
         (if a = 0 then delete_where (\<lambda>r. h_t_id r = h_t_id h) (holding_tbl d)
          else update_where (\<lambda>r. h_t_id r = h_t_id h) (\<lambda>r. r\<lparr>h_qty := a\<rparr>) (holding_tbl d))\<rparr>)"

primrec use_holdings :: "int \<Rightarrow> (holding_row \<times> int) list \<Rightarrow> db \<Rightarrow> db" where
  "use_holdings t [] d = d"
| "use_holdings t (c # cs) d = use_holdings t cs (use_holding t c d)"

text \<open>
  The two sums the frame accumulates over the holdings used: shares times the price of the
  holding, and shares times the price of the trade.
\<close>

definition shares_used :: "int \<Rightarrow> holding_row \<times> int \<Rightarrow> int" where
  "shares_used sg = (\<lambda>(h, a). sg * (h_qty h - a))"

primrec hold_value :: "int \<Rightarrow> (holding_row \<times> int) list \<Rightarrow> double \<Rightarrow> double" where
  "hold_value sg [] v = v"
| "hold_value sg (c # cs) v = hold_value sg cs
     (fadd v (fmul (of_cint (shares_used sg c)) (atof (numeric_out 2 (h_price (fst c))))))"

primrec trade_value :: "int \<Rightarrow> double \<Rightarrow> (holding_row \<times> int) list \<Rightarrow> double \<Rightarrow> double" where
  "trade_value sg price [] v = v"
| "trade_value sg price (c # cs) v = trade_value sg price cs
     (fadd v (fmul (of_cint (shares_used sg c)) price))"

section \<open>The loops refine the specification\<close>

text \<open>The history has no row yet for the holdings \<open>hs\<close> and the trade \<open>t\<close>.\<close>

definition history_key :: "holding_history_row \<Rightarrow> int \<times> int" where
  "history_key r = (hh_h_t_id r, hh_t_id r)"

definition history_fresh :: "int \<Rightarrow> holding_row list \<Rightarrow> db \<Rightarrow> bool" where
  "history_fresh t hs d \<longleftrightarrow> distinct (map h_t_id hs) \<and>
     (\<forall>h \<in> set hs. (h_t_id h, t) \<notin> history_key ` set (holding_history_tbl d))"

lemma history_fresh_use:
  "history_fresh t (h # hs) d \<Longrightarrow> history_fresh t hs (use_holding t (h, a) d)"
  by (auto simp: history_fresh_def use_holding_def history_key_def) (metis imageI)

text \<open>What one turn of a liquidation loop does, for both loops of the frame.\<close>

locale liquidation =
  fixes sg :: int and pg :: pgapi and t :: int and price :: double
    and loop :: "spi_row list \<Rightarrow> int \<Rightarrow> double \<Rightarrow> double \<Rightarrow> (trf_stmt, pgsession) fctx \<Rightarrow>
      (int \<times> double \<times> double \<times> (trf_stmt, pgsession) fctx) outcome"
  assumes sign: "sg = 1 \<or> sg = - 1"
    and loop_nil: "loop [] n hv tv f = Ok (n, hv, tv, f)"
    and loop_done: "n \<le> 0 \<Longrightarrow> loop (row # rows) n hv tv f = Ok (n, hv, tv, f)"
    and loop_part: "0 < n \<Longrightarrow> in_i32 n \<Longrightarrow> holding_typed h \<Longrightarrow> n < sg * h_qty h \<Longrightarrow>
      loop (holding_txt h # rows) n hv tv f =
        obind (exec_dml_set (trf_spi pg) Insert TRF2_4a
          [DInt64 (h_t_id h), DInt64 t, DInt32 (h_qty h), DInt32 (h_qty h - sg * n)] f) (\<lambda>f.
        obind (exec_dml_set (trf_spi pg) Update TRF2_5a
          [DInt32 (h_qty h - sg * n), DInt64 (h_t_id h)] f) (\<lambda>f.
        loop rows 0 (fadd hv (fmul (of_cint n) (atof (numeric_out 2 (h_price h)))))
          (fadd tv (fmul (of_cint n) price)) f))"
    and loop_all: "0 < n \<Longrightarrow> in_i32 n \<Longrightarrow> holding_typed h \<Longrightarrow> 0 < sg * h_qty h \<Longrightarrow> sg * h_qty h \<le> n \<Longrightarrow>
      loop (holding_txt h # rows) n hv tv f =
        obind (exec_dml_set (trf_spi pg) Insert TRF2_4a
          [DInt64 (h_t_id h), DInt64 t, DInt32 (h_qty h), DInt32 0] f) (\<lambda>f.
        obind (exec_dml_set (trf_spi pg) Delete TRF2_5b [DInt64 (h_t_id h)] f) (\<lambda>f.
        loop rows (n - sg * h_qty h)
          (fadd hv (fmul (of_cint (sg * h_qty h)) (atof (numeric_out 2 (h_price h)))))
          (fadd tv (fmul (of_cint (sg * h_qty h)) price)) f))"
begin

lemma part_step:
  assumes "set TRF2_statements \<subseteq> set (plans f)" "history_fresh t (h # hs) (db_of f)" "a \<noteq> 0"
  shows "obind (exec_dml_set (trf_spi pg) Insert TRF2_4a
             [DInt64 (h_t_id h), DInt64 t, DInt32 (h_qty h), DInt32 a] f) (\<lambda>f.
           obind (exec_dml_set (trf_spi pg) Update TRF2_5a [DInt32 a, DInt64 (h_t_id h)] f) k) =
         k (set_db (use_holding t (h, a) (db_of f)) f)"
proof -
  have p: "TRF2_4a \<in> set (plans f)" "TRF2_5a \<in> set (plans f)"
    using assms(1) by (auto simp: TRF2_statements_def)
  have "(h_t_id h, t) \<notin> (\<lambda>r. (hh_h_t_id r, hh_t_id r)) ` set (holding_history_tbl (db_of f))"
    using assms(2) by (simp add: history_fresh_def history_key_def)
  with p assms(3) show ?thesis
    by (simp add: trf.dml_set_ok SQLTRF2_4a_def SQLTRF2_5a_def use_holding_def)
qed

lemma all_step:
  assumes "set TRF2_statements \<subseteq> set (plans f)" "history_fresh t (h # hs) (db_of f)"
  shows "obind (exec_dml_set (trf_spi pg) Insert TRF2_4a
             [DInt64 (h_t_id h), DInt64 t, DInt32 (h_qty h), DInt32 0] f) (\<lambda>f.
           obind (exec_dml_set (trf_spi pg) Delete TRF2_5b [DInt64 (h_t_id h)] f) k) =
         k (set_db (use_holding t (h, 0) (db_of f)) f)"
proof -
  have p: "TRF2_4a \<in> set (plans f)" "TRF2_5b \<in> set (plans f)"
    using assms(1) by (auto simp: TRF2_statements_def)
  have "(h_t_id h, t) \<notin> (\<lambda>r. (hh_h_t_id r, hh_t_id r)) ` set (holding_history_tbl (db_of f))"
    using assms(2) by (simp add: history_fresh_def history_key_def)
  with p show ?thesis
    by (simp add: trf.dml_set_ok SQLTRF2_4a_def SQLTRF2_5b_def use_holding_def)
qed

lemma sg_sg [simp]: "sg * (sg * x) = x"
  using sign by auto

text \<open>The loop runs to completion and does what \<open>consume\<close> says.\<close>

lemma loop_refines:
  assumes "set TRF2_statements \<subseteq> set (plans f)" "history_fresh t hs (db_of f)" "in_i32 n" "0 \<le> n"
    and "\<forall>h \<in> set hs. holding_typed h \<and> 0 < sg * h_qty h"
  shows "loop (map holding_txt hs) n hv tv f =
    Ok (fst (consume sg n hs), hold_value sg (snd (consume sg n hs)) hv,
        trade_value sg price (snd (consume sg n hs)) tv,
        set_db (use_holdings t (snd (consume sg n hs)) (db_of f)) f)"
  using assms
proof (induction hs arbitrary: n hv tv f)
  case Nil
  then show ?case by (simp add: loop_nil)
next
  case (Cons h hs)
  have h: "holding_typed h" "0 < sg * h_qty h" using Cons.prems by auto
  consider "n = 0" | "0 < n" "n < sg * h_qty h" | "0 < n" "sg * h_qty h \<le> n"
    using Cons.prems by linarith
  then show ?case
  proof cases
    case 1
    then show ?thesis by (simp add: loop_done)
  next
    case 2
    let ?a = "h_qty h - sg * n"
    have a: "?a \<noteq> 0" using 2 sign by auto
    have stop: "loop (map holding_txt hs) 0 hv tv f = Ok (0, hv, tv, f)" for hv tv f
      by (cases hs) (simp_all add: loop_nil loop_done)
    have s: "shares_used sg (h, ?a) = n" by (simp add: shares_used_def)
    show ?thesis
      using 2 a s stop Cons.prems h
      by (simp add: loop_part part_step [OF Cons.prems(1,2) a])
  next
    case 3
    have le: "\<not> n < sg * h_qty h" using 3 by simp
    have f': "set TRF2_statements \<subseteq> set (plans (set_db d f))" for d using Cons.prems by simp
    have n': "in_i32 (n - sg * h_qty h)" "0 \<le> n - sg * h_qty h"
      using Cons.prems h 3 by (auto simp: in_i32_def)
    have s: "shares_used sg (h, 0) = sg * h_qty h" by (simp add: shares_used_def)
    show ?thesis
      using 3 le s n' f' Cons.prems h history_fresh_use [OF Cons.prems(2), of 0]
      by (simp add: loop_all all_step [OF Cons.prems(1,2)] Cons.IH split: prod.split)
  qed
qed

end

lemma holding_txt_values:
  assumes "holding_typed h"
  shows "getvalue_atoll (holding_txt h) (Suc 0) = Ok (h_t_id h)"
    "getvalue_atoi (holding_txt h) 2 = Ok (h_qty h)"
    "getvalue_atof (holding_txt h) 3 = Ok (atof (numeric_out 2 (h_price h)))"
  using assms
  by (simp_all add: getvalue_atoll_def getvalue_atoi_def getvalue_atof_def holding_txt_def
      holding_typed_def)

interpretation sell: liquidation 1 pg t price
    "\<lambda>rows n hv tv f. TRF2_sell_loop (trf_spi pg) t price rows n hv tv f" for pg t price
proof (unfold_locales, goal_cases)
  case (4 n h rows hv tv f)
  moreover have "in_i32 (h_qty h - n)" using 4 by (simp add: holding_typed_def in_i32_def)
  ultimately show ?case by (simp add: holding_txt_values)
next
  case (5 n h rows hv tv f)
  moreover have "in_i32 (n - h_qty h)" using 5 by (simp add: holding_typed_def in_i32_def)
  ultimately show ?case by (simp add: holding_txt_values)
qed simp_all

interpretation buy: liquidation "- 1" pg t price
    "\<lambda>rows n hv tv f. obind (TRF2_buy_loop (trf_spi pg) t price rows n tv hv f)
       (\<lambda>(n, b, s, f). Ok (n, s, b, f))" for pg t price
proof (unfold_locales, goal_cases)
  case (4 n h rows hv tv f)
  moreover have "in_i32 (h_qty h + n)" using 4 by (simp add: holding_typed_def in_i32_def)
  moreover have "h_qty h + n < 0" using 4 by simp
  ultimately show ?case by (simp add: holding_txt_values obind_assoc)
next
  case (5 n h rows hv tv f)
  moreover have "in_i32 (h_qty h + n)" "in_i32 (- h_qty h)"
    using 5 by (simp_all add: holding_typed_def in_i32_def)
  moreover have "\<not> h_qty h + n < 0" using 5 by simp
  ultimately show ?case by (simp add: holding_txt_values obind_assoc add.commute)
qed simp_all

section \<open>Facts about the specification\<close>

lemma consume_prefix: "map fst (snd (consume sg n hs)) = take (length (snd (consume sg n hs))) hs"
  by (induction sg n hs rule: consume.induct) (auto split: prod.splits)

lemma consume_set: "c \<in> set (snd (consume sg n hs)) \<Longrightarrow> fst c \<in> set hs"
  by (metis consume_prefix image_eqI image_set in_set_takeD)

lemma consume_after:
  "(h, a) \<in> set (snd (consume sg n hs)) \<Longrightarrow> sg = 1 \<or> sg = - 1 \<Longrightarrow>
   a = 0 \<or> (0 < sg * a \<and> sg * a < sg * h_qty h)"
  by (induction sg n hs rule: consume.induct) (auto split: prod.splits if_splits)

lemma consume_rest:
  assumes "sg = 1 \<or> sg = - 1" "0 \<le> n" "\<forall>h \<in> set hs. 0 < sg * h_qty h"
  shows "fst (consume sg n hs) = max 0 (n - sg * sum_list (map h_qty hs))"
  using assms
proof (induction sg n hs rule: consume.induct)
  case (1 sg n)
  then show ?case by simp
next
  case (2 sg n h hs)
  have pos: "0 \<le> sg * sum_list (map h_qty hs)"
  proof -
    have "0 \<le> sum_list (map (\<lambda>h. sg * h_qty h) hs)"
      using "2.prems"(3) by (intro sum_list_nonneg) (auto simp: less_imp_le)
    then show ?thesis by (simp add: sum_list_const_mult)
  qed
  consider "n = 0" | "0 < n" "n < sg * h_qty h" | "0 < n" "sg * h_qty h \<le> n"
    using "2.prems"(2) by linarith
  then show ?case
  proof cases
    case 3
    then have "fst (consume sg (n - sg * h_qty h) hs) =
        max 0 (n - sg * h_qty h - sg * sum_list (map h_qty hs))"
      using "2.prems" by (intro "2.IH") auto
    with 3 show ?thesis by (auto simp: algebra_simps split: prod.splits)
  qed (use pos "2.prems" in \<open>auto simp: algebra_simps\<close>)
qed

text \<open>Every share the trade still needed less is a share taken from a holding.\<close>

lemma consume_shares:
  assumes "sg = 1 \<or> sg = - 1"
  shows "sum_list (map (shares_used sg) (snd (consume sg n hs))) = n - fst (consume sg n hs)"
  using assms
  by (induction sg n hs rule: consume.induct) (auto simp: shares_used_def split: prod.splits)

section \<open>Holdings under the liquidation\<close>

definition lots_ok :: "int \<Rightarrow> int \<Rightarrow> string \<Rightarrow> db \<Rightarrow> bool" where
  "lots_ok sg ca symb d \<longleftrightarrow> distinct (map h_t_id (holding_tbl d))
     \<and> (\<forall>h \<in> set (holding_tbl d). holding_typed h)
     \<and> (\<forall>h \<in> set (holdings_of ca symb d). 0 < sg * h_qty h)"

lemma holdings_of_set [simp]:
  "h \<in> set (holdings_of ca symb d) \<longleftrightarrow> h \<in> set (holding_tbl d) \<and> h_ca_id h = ca \<and> h_s_symb h = symb"
  by (auto simp: holdings_of_def)

lemma holdings_of_use:
  "holdings_of ca symb (use_holding t (h, a) d) =
     (if a = 0 then delete_where (\<lambda>r. h_t_id r = h_t_id h) (holdings_of ca symb d)
      else update_where (\<lambda>r. h_t_id r = h_t_id h) (\<lambda>r. r\<lparr>h_qty := a\<rparr>) (holdings_of ca symb d))"
  by (simp add: use_holding_def holdings_of_def filter_update_where filter_delete_where)

lemma holdings_of_id:
  assumes "distinct (map h_t_id (holding_tbl d))" "h \<in> set (holding_tbl d)"
  shows "filter (\<lambda>r. h_t_id r = h_t_id h) (holdings_of ca symb d) =
    (if h_ca_id h = ca \<and> h_s_symb h = symb then [h] else [])"
proof -
  have "filter (\<lambda>r. h_t_id r = h_t_id h) (holdings_of ca symb d) =
      filter (\<lambda>r. h_ca_id r = ca \<and> h_s_symb r = symb) (filter (\<lambda>r. h_t_id r = h_t_id h) (holding_tbl d))"
    by (simp add: holdings_of_def conj_ac)
  then show ?thesis using keyed_filter_single [OF assms] by simp
qed

lemma position_use:
  assumes "distinct (map h_t_id (holding_tbl d))" "h \<in> set (holding_tbl d)"
    "h_ca_id h = ca" "h_s_symb h = symb"
  shows "position ca symb (use_holding t (h, a) d) = position ca symb d - (h_qty h - a)"
  using assms
  by (simp add: position_def holdings_of_use sum_list_delete_where sum_list_update_where holdings_of_id)

lemma holdings_of_use_other:
  assumes "distinct (map h_t_id (holding_tbl d))" "h \<in> set (holding_tbl d)"
    "(h_ca_id h, h_s_symb h) \<noteq> (ca, symb)"
  shows "holdings_of ca symb (use_holding t (h, a) d) = holdings_of ca symb d"
proof -
  have "\<And>r. r \<in> set (holdings_of ca symb d) \<Longrightarrow> h_t_id r \<noteq> h_t_id h"
    using holdings_of_id [OF assms(1,2), of ca symb] assms(3) by (auto simp: filter_empty_conv)
  then show ?thesis
    by (simp add: holdings_of_use update_where_none delete_where_none del: holdings_of_set)
qed

lemma lots_ok_use:
  assumes "lots_ok sg ca symb d" "h \<in> set (holdings_of ca symb d)" "sg = 1 \<or> sg = - 1"
    and "a = 0 \<or> (0 < sg * a \<and> sg * a < sg * h_qty h)"
  shows "lots_ok sg ca symb (use_holding t (h, a) d)"
proof (cases "a = 0")
  case True
  with assms show ?thesis
    by (auto simp: lots_ok_def holdings_of_use distinct_map_delete_where simp del: holdings_of_set)
       (auto simp: use_holding_def distinct_map_delete_where)
next
  case False
  have "holding_typed h" using assms by (auto simp: lots_ok_def)
  then have "holding_typed (r\<lparr>h_qty := a\<rparr>)" if "holding_typed r" for r
    using that assms(3,4) False by (auto simp: holding_typed_def in_i32_def)
  with False assms show ?thesis
    by (auto simp: lots_ok_def use_holding_def map_update_where set_update_where)
qed

lemma use_holding_other_tables [simp]:
  "holding_summary_tbl (use_holding t c d) = holding_summary_tbl d"
  by (cases c) (simp add: use_holding_def)

lemma use_holdings_other_tables [simp]:
  "holding_summary_tbl (use_holdings t cs d) = holding_summary_tbl d"
  by (induction cs arbitrary: d) simp_all

lemma use_holdings_correct:
  assumes "lots_ok sg ca symb d" "sg = 1 \<or> sg = - 1" "distinct (map (h_t_id \<circ> fst) cs)"
    and "\<forall>(h, a) \<in> set cs. h \<in> set (holdings_of ca symb d) \<and>
      (a = 0 \<or> (0 < sg * a \<and> sg * a < sg * h_qty h))"
  shows "lots_ok sg ca symb (use_holdings t cs d)
    \<and> position ca symb (use_holdings t cs d) =
        position ca symb d - sg * sum_list (map (shares_used sg) cs)
    \<and> (\<forall>ca' symb'. (ca', symb') \<noteq> (ca, symb) \<longrightarrow>
         holdings_of ca' symb' (use_holdings t cs d) = holdings_of ca' symb' d)"
  using assms
proof (induction cs arbitrary: d)
  case Nil
  then show ?case by simp
next
  case (Cons c cs)
  obtain h a where c: "c = (h, a)" by force
  let ?d = "use_holding t (h, a) d"
  have h: "h \<in> set (holdings_of ca symb d)" "a = 0 \<or> (0 < sg * a \<and> sg * a < sg * h_qty h)"
    and dist: "distinct (map h_t_id (holding_tbl d))"
    using Cons.prems by (auto simp: c lots_ok_def)
  have ok: "lots_ok sg ca symb ?d" using Cons.prems(1,2) h by (intro lots_ok_use)
  have "h' \<in> set (holdings_of ca symb ?d)" if "(h', a') \<in> set cs" for h' a'
  proof -
    have "h_t_id h' \<noteq> h_t_id h" using Cons.prems(3) that by (force simp: c)
    moreover have "h' \<in> set (holdings_of ca symb d)" using Cons.prems(4) that by auto
    ultimately show ?thesis
      by (auto simp: holdings_of_use set_update_where simp del: holdings_of_set)
  qed
  with Cons.prems ok have IH: "lots_ok sg ca symb (use_holdings t cs ?d)
    \<and> position ca symb (use_holdings t cs ?d) =
        position ca symb ?d - sg * sum_list (map (shares_used sg) cs)
    \<and> (\<forall>ca' symb'. (ca', symb') \<noteq> (ca, symb) \<longrightarrow>
         holdings_of ca' symb' (use_holdings t cs ?d) = holdings_of ca' symb' ?d)"
    by (intro Cons.IH) auto
  have sq: "sg * shares_used sg (h, a) = h_qty h - a"
    using Cons.prems(2) by (auto simp: shares_used_def)
  show ?case
    using IH h position_use [OF dist, of h ca symb t a] holdings_of_use_other [OF dist, of h _ _ t a]
    by (auto simp: c sq distrib_left)
qed

section \<open>Specification of the whole move\<close>

text \<open>
  \<open>moved_db sg\<close> is what settling a trade of \<open>n\<close> shares does to the tables: \<open>sg = 1\<close> for a
  sale, \<open>sg = -1\<close> for a purchase.  \<open>p\<close> is the price in cents and \<open>ts\<close> the time stored with
  a new holding.
\<close>

definition lots :: "int \<Rightarrow> int \<Rightarrow> string \<Rightarrow> db \<Rightarrow> holding_row list" where
  "lots is_lifo ca symb d =
     (if is_lifo = 1 then order_desc else order_asc) h_dts (holdings_of ca symb d)"

definition used_lots :: "int \<Rightarrow> int \<Rightarrow> int \<Rightarrow> string \<Rightarrow> int \<Rightarrow> db \<Rightarrow> int \<times> (holding_row \<times> int) list" where
  "used_lots sg is_lifo ca symb n d =
     (if 0 < sg * summary ca symb d then consume sg n (lots is_lifo ca symb d) else (n, []))"

definition is_summary :: "int \<Rightarrow> string \<Rightarrow> holding_summary_row \<Rightarrow> bool" where
  "is_summary ca symb r \<longleftrightarrow> hs_ca_id r = ca \<and> hs_s_symb r = symb"

definition adjust_summary :: "int \<Rightarrow> int \<Rightarrow> string \<Rightarrow> int \<Rightarrow> db \<Rightarrow> db" where
  "adjust_summary sg ca symb n d =
     (let hs = summary ca symb d in
      if hs = 0 then d\<lparr>holding_summary_tbl := holding_summary_tbl d @
                         [\<lparr>hs_ca_id = ca, hs_s_symb = symb, hs_qty = - sg * n\<rparr>]\<rparr>
      else if hs \<noteq> sg * n then
        d\<lparr>holding_summary_tbl := update_where (is_summary ca symb)
            (\<lambda>r. r\<lparr>hs_qty := hs - sg * n\<rparr>) (holding_summary_tbl d)\<rparr>
      else d)"

definition open_lot :: "int \<Rightarrow> string \<Rightarrow> int \<Rightarrow> int \<Rightarrow> int \<Rightarrow> int \<Rightarrow> db \<Rightarrow> db" where
  "open_lot ca symb t p ts q d = d\<lparr>
     holding_history_tbl := holding_history_tbl d @
       [\<lparr>hh_h_t_id = t, hh_t_id = t, hh_before_qty = 0, hh_after_qty = q\<rparr>],
     holding_tbl := holding_tbl d @
       [\<lparr>h_t_id = t, h_ca_id = ca, h_s_symb = symb, h_dts = ts, h_price = p, h_qty = q\<rparr>]\<rparr>"

definition close_summary :: "int \<Rightarrow> string \<Rightarrow> db \<Rightarrow> db" where
  "close_summary ca symb d =
     d\<lparr>holding_summary_tbl := delete_where (is_summary ca symb) (holding_summary_tbl d)\<rparr>"

definition moved_db :: "int \<Rightarrow> int \<Rightarrow> int \<Rightarrow> string \<Rightarrow> int \<Rightarrow> int \<Rightarrow> int \<Rightarrow> int \<Rightarrow> db \<Rightarrow> db" where
  "moved_db sg is_lifo ca symb t p ts n d =
     (let (rest, cs) = used_lots sg is_lifo ca symb n d;
          d' = use_holdings t cs (adjust_summary sg ca symb n d)
      in if 0 < rest then open_lot ca symb t p ts (- sg * rest) d'
         else if summary ca symb d = sg * n then close_summary ca symb d'
         else d')"

section \<open>The move refines its specification\<close>

text \<open>
  When the trade can be settled: the trade is new, its price is a price, its time parses.
  \<open>can_open\<close> is the part of it that concerns the new holding.
\<close>

definition can_open :: "pgapi \<Rightarrow> string \<Rightarrow> int \<Rightarrow> double \<Rightarrow> int \<Rightarrow> db \<Rightarrow> bool" where
  "can_open pg symb t price ts d \<longleftrightarrow>
     t \<notin> h_t_id ` set (holding_tbl d) \<and> (t, t) \<notin> history_key ` set (holding_history_tbl d)
     \<and> length symb \<le> 15
     \<and> 0 < float8_numeric2 pg price \<and> numeric_ok 12 (float8_numeric2 pg price)
     \<and> Option.bind (strptime (now_text pg)) (\<lambda>tm. tm2timestamp pg (TRF2_pg_tm tm)) = Some ts"

definition settles :: "pgapi \<Rightarrow> string \<Rightarrow> int \<Rightarrow> double \<Rightarrow> int \<Rightarrow> db \<Rightarrow> bool" where
  "settles pg symb t price ts d \<longleftrightarrow>
     can_open pg symb t price ts d \<and> t \<notin> hh_t_id ` set (holding_history_tbl d)"

lemma is_summary_lam: "(\<lambda>r. hs_ca_id r = ca \<and> hs_s_symb r = symb) = is_summary ca symb"
  by (simp add: fun_eq_iff is_summary_def)

lemma summary_zero_no_row:
  assumes "positions_ok d" "summary ca symb d = 0"
  shows "(ca, symb) \<notin> (\<lambda>r. (hs_ca_id r, hs_s_symb r)) ` set (holding_summary_tbl d)"
proof
  assume "(ca, symb) \<in> (\<lambda>r. (hs_ca_id r, hs_s_symb r)) ` set (holding_summary_tbl d)"
  then obtain r where "r \<in> set (summary_rows ca symb d)" by (auto simp: summary_rows_def)
  then have "summary_rows ca symb d \<noteq> []" by auto
  then have "hd (summary_rows ca symb d) \<in> set (holding_summary_tbl d)"
    and "summary ca symb d = hs_qty (hd (summary_rows ca symb d))"
    using list.set_sel(1) [of "summary_rows ca symb d"]
    by (auto simp: summary_def summary_rows_def split: list.splits)
  with assms show False by (auto simp: positions_ok_def)
qed

lemma lots_ok_of_positions:
  assumes "positions_ok d" "sg = 1 \<or> sg = - 1" "0 < sg * summary ca symb d"
  shows "lots_ok sg ca symb d"
proof -
  let ?hs = "holdings_of ca symb d"
  have p: "0 < sg * sum_list (map h_qty ?hs)"
    using assms by (simp add: positions_ok_def position_def)
  from assms(1) have "(\<forall>h \<in> set ?hs. 0 < h_qty h) \<or> (\<forall>h \<in> set ?hs. h_qty h < 0)"
    by (simp add: positions_ok_def same_sign_def)
  then have "\<forall>h \<in> set ?hs. 0 < sg * h_qty h"
  proof
    assume a: "\<forall>h \<in> set ?hs. 0 < h_qty h"
    then have "0 \<le> sum_list (map h_qty ?hs)" by (intro sum_list_nonneg) (auto simp: less_imp_le)
    with p have "sg = 1" using assms(2) by auto
    with a show ?thesis by simp
  next
    assume a: "\<forall>h \<in> set ?hs. h_qty h < 0"
    then have "sum_list (map h_qty ?hs) \<le> 0" by (intro sum_list_nonpos) (auto simp: less_imp_le)
    with p have "sg = - 1" using assms(2) by auto
    with a show ?thesis by simp
  qed
  with assms(1) show ?thesis by (simp add: lots_ok_def positions_ok_def)
qed

lemma mset_lots: "mset (lots is_lifo ca symb d) = mset (holdings_of ca symb d)"
  by (simp add: lots_def mset_order_desc mset_order_asc)

lemma set_lots [simp]: "set (lots is_lifo ca symb d) = set (holdings_of ca symb d)"
  using mset_lots by (rule mset_eq_setD)

lemma distinct_lots:
  assumes "distinct (map h_t_id (holding_tbl d))"
  shows "distinct (map h_t_id (lots is_lifo ca symb d))"
proof -
  have "distinct (map h_t_id (holdings_of ca symb d))"
    using assms by (simp add: holdings_of_def distinct_map_filter)
  moreover have "mset (map h_t_id (lots is_lifo ca symb d)) = mset (map h_t_id (holdings_of ca symb d))"
    by (simp add: mset_lots)
  ultimately show ?thesis by (metis mset_eq_imp_distinct_iff)
qed

lemma adjust_summary_tables [simp]:
  "holding_tbl (adjust_summary sg ca symb n d) = holding_tbl d"
  "holding_history_tbl (adjust_summary sg ca symb n d) = holding_history_tbl d"
  "holdings_of ca' symb' (adjust_summary sg ca symb n d) = holdings_of ca' symb' d"
  "lots is_lifo ca' symb' (adjust_summary sg ca symb n d) = lots is_lifo ca' symb' d"
  by (simp_all add: adjust_summary_def Let_def holdings_of_def lots_def)

lemma history_fresh_lots:
  assumes "distinct (map h_t_id (holding_tbl d))" "t \<notin> hh_t_id ` set (holding_history_tbl d)"
  shows "history_fresh t (lots is_lifo ca symb d) d"
  using assms distinct_lots by (auto simp: history_fresh_def history_key_def)

lemma used_lots_in: "c \<in> set (snd (used_lots sg is_lifo ca symb n d)) \<Longrightarrow> fst c \<in> set (holding_tbl d)"
proof (cases "0 < sg * summary ca symb d")
  case True
  assume "c \<in> set (snd (used_lots sg is_lifo ca symb n d))"
  with True have "fst c \<in> set (lots is_lifo ca symb d)"
    by (intro consume_set [of c sg n]) (simp add: used_lots_def)
  then show ?thesis by simp
qed (simp add: used_lots_def)

lemma consume_rest_bounds: "0 \<le> n \<Longrightarrow> \<forall>h \<in> set hs. 0 < sg * h_qty h \<Longrightarrow>
   0 \<le> fst (consume sg n hs) \<and> fst (consume sg n hs) \<le> n"
proof (induction sg n hs rule: consume.induct)
  case (2 sg n h hs)
  then show ?case by (auto split: prod.splits)
qed simp

lemma use_holding_ids: "h_t_id ` set (holding_tbl (use_holding t c d)) \<subseteq> h_t_id ` set (holding_tbl d)"
proof (cases c)
  case (Pair h a)
  have "map h_t_id (update_where (\<lambda>r. h_t_id r = h_t_id h) (\<lambda>r. r\<lparr>h_qty := a\<rparr>) (holding_tbl d))
      = map h_t_id (holding_tbl d)"
    by (rule map_update_where) simp
  then have "h_t_id ` set (update_where (\<lambda>r. h_t_id r = h_t_id h) (\<lambda>r. r\<lparr>h_qty := a\<rparr>) (holding_tbl d))
      = h_t_id ` set (holding_tbl d)"
    by (metis list.set_map)
  with Pair show ?thesis by (auto simp: use_holding_def)
qed

lemma can_open_use_holding:
  "can_open pg symb t price ts d \<Longrightarrow> h_t_id (fst c) \<noteq> t \<Longrightarrow>
   can_open pg symb t price ts (use_holding t c d)"
proof -
  assume a: "can_open pg symb t price ts d" "h_t_id (fst c) \<noteq> t"
  have "t \<notin> h_t_id ` set (holding_tbl (use_holding t c d))"
    using a(1) use_holding_ids [of t c d] by (auto simp: can_open_def)
  moreover have "(t, t) \<notin> history_key ` set (holding_history_tbl (use_holding t c d))"
    using a by (cases c) (simp add: can_open_def use_holding_def history_key_def)
  ultimately show ?thesis using a(1) by (simp add: can_open_def)
qed

lemma can_open_use:
  "can_open pg symb t price ts d \<Longrightarrow> \<forall>c \<in> set cs. h_t_id (fst c) \<noteq> t \<Longrightarrow>
   can_open pg symb t price ts (use_holdings t cs d)"
  by (induction cs arbitrary: d) (simp_all add: can_open_use_holding)

lemma can_open_adjust [simp]:
  "can_open pg symb' t price ts (adjust_summary sg ca symb n d) = can_open pg symb' t price ts d"
  by (simp add: can_open_def)

lemma can_open_length: "can_open pg symb t price ts d \<Longrightarrow> length symb \<le> 15"
  by (simp add: can_open_def)

lemma used_lots_rest:
  assumes "positions_ok d" "sg = 1 \<or> sg = - 1" "0 < n"
  shows "0 \<le> fst (used_lots sg is_lifo ca symb n d) \<and> fst (used_lots sg is_lifo ca symb n d) \<le> n"
proof (cases "0 < sg * summary ca symb d")
  case True
  with lots_ok_of_positions [OF assms(1,2)]
  have "\<forall>h \<in> set (lots is_lifo ca symb d). 0 < sg * h_qty h" by (auto simp: lots_ok_def)
  with consume_rest_bounds [of n "lots is_lifo ca symb d" sg] True assms(3) show ?thesis
    by (simp add: used_lots_def)
next
  case False
  with assms(3) show ?thesis by (simp add: used_lots_def)
qed

locale position_move = liquidation +
  fixes ins upd :: trf_stmt and neg :: "int \<Rightarrow> int"
    and move :: "int \<Rightarrow> int \<Rightarrow> int \<Rightarrow> string \<Rightarrow> int \<Rightarrow> slot \<Rightarrow> (trf_stmt, pgsession) fctx \<Rightarrow>
      (double \<times> double \<times> (trf_stmt, pgsession) fctx) outcome"
  assumes stmts: "ins = TRF2_2a \<and> upd = TRF2_2b \<or> ins = TRF2_8a \<and> upd = TRF2_8b"
    and neg: "0 < x \<Longrightarrow> in_i32 x \<Longrightarrow> neg x = - sg * x"
    and move: "in_i32 hs \<Longrightarrow> in_i32 (- hs) \<Longrightarrow> 0 < n \<Longrightarrow> in_i32 n \<Longrightarrow> in_i32 (hs - sg * n) \<Longrightarrow>
      move ca hs is_lifo symb n dts f =
        obind (if hs = 0 then
                 exec_dml_set (trf_spi pg) Insert ins [DInt64 ca, DText symb, DInt32 (- sg * n)] f
               else if hs \<noteq> sg * n then
                 exec_dml_set (trf_spi pg) Update upd [DInt32 (hs - sg * n), DInt64 ca, DText symb] f
               else Ok f) (\<lambda>f.
        obind (if 0 < sg * hs then
                 obind (TRF2_holdings (trf_spi pg) is_lifo ca symb f) (\<lambda>(rows, f). loop rows n 0 0 f)
               else Ok (n, 0, 0, f)) (\<lambda>(needed, hv, tv, f).
        obind (if 0 < needed then
                 TRF2_new_holding (trf_spi pg) pg ca symb t price dts (neg needed) f
               else if hs = sg * n then
                 exec_dml_set (trf_spi pg) Delete TRF2_7b [DInt64 ca, DText symb] f
               else Ok f) (\<lambda>f. Ok (hv, tv, f))))"
begin

lemma adjust_runs:
  assumes "set TRF2_statements \<subseteq> set (plans f)" "positions_ok (db_of f)"
    and "hs = summary ca symb (db_of f)" "length symb \<le> 15"
  shows "(if hs = 0 then
            exec_dml_set (trf_spi pg) Insert ins [DInt64 ca, DText symb, DInt32 (- sg * n)] f
          else if hs \<noteq> sg * n then
            exec_dml_set (trf_spi pg) Update upd [DInt32 (hs - sg * n), DInt64 ca, DText symb] f
          else Ok f) = Ok (set_db (adjust_summary sg ca symb n (db_of f)) f)"
proof -
  have p: "ins \<in> set (plans f)" "upd \<in> set (plans f)"
    using assms(1) stmts by (auto simp: TRF2_statements_def)
  have i: "trf_sql pg [DInt64 ca, DText symb, DInt32 q] ins = SQLTRF2_2a ca symb q" for q
    using stmts by auto
  have u: "trf_sql pg [DInt32 q, DInt64 ca, DText symb] upd = SQLTRF2_2b q ca symb" for q
    using stmts by auto
  show ?thesis
    using p i u assms summary_zero_no_row [OF assms(2), of ca symb]
    by (simp add: trf.dml_set_ok SQLTRF2_2a_def SQLTRF2_2b_def adjust_summary_def is_summary_lam)
qed

lemma holdings_runs:
  assumes "set TRF2_statements \<subseteq> set (plans f)"
  shows "TRF2_holdings (trf_spi pg) is_lifo ca symb f =
    Ok (map holding_txt (lots is_lifo ca symb (db_of f)), f)"
proof -
  have p: "TRF2_3a \<in> set (plans f)" "TRF2_3b \<in> set (plans f)"
    using assms by (auto simp: TRF2_statements_def)
  show ?thesis
    by (simp add: TRF2_holdings_def trf.exec_write p SQLTRF2_3a_def SQLTRF2_3b_def lots_def
        del: SPI_execute_plan_planned)
qed

lemma new_holding_runs:
  assumes "set TRF2_statements \<subseteq> set (plans f)" "can_open pg symb t price ts (db_of f)"
  shows "TRF2_new_holding (trf_spi pg) pg ca symb t price (Str (now_text pg)) q f =
    Ok (set_db (open_lot ca symb t (float8_numeric2 pg price) ts q (db_of f)) f)"
proof -
  have p: "TRF2_4a \<in> set (plans f)" "TRF2_7a \<in> set (plans f)"
    using assms(1) by (auto simp: TRF2_statements_def)
  from assms(2) obtain tm where tm: "strptime (now_text pg) = Some tm"
      "tm2timestamp pg (TRF2_pg_tm tm) = Some ts"
    by (auto simp: can_open_def Option.bind_eq_Some_conv)
  have k: "(t, t) \<notin> (\<lambda>r. (hh_h_t_id r, hh_t_id r)) ` set (holding_history_tbl (db_of f))"
    using assms(2) by (simp add: can_open_def history_key_def)
  show ?thesis
    using assms(2) p tm k
    by (simp add: TRF2_new_holding_def trf.dml_set_ok SQLTRF2_4a_def SQLTRF2_7a_def read_str_def
        can_open_def open_lot_def)
qed

lemma close_runs:
  assumes "set TRF2_statements \<subseteq> set (plans f)"
  shows "exec_dml_set (trf_spi pg) Delete TRF2_7b [DInt64 ca, DText symb] f =
    Ok (set_db (close_summary ca symb (db_of f)) f)"
proof -
  have p: "TRF2_7b \<in> set (plans f)" using assms by (auto simp: TRF2_statements_def)
  show ?thesis using p by (simp add: trf.dml_set_ok SQLTRF2_7b_def close_summary_def is_summary_lam)
qed

lemma move_refines:
  assumes "set TRF2_statements \<subseteq> set (plans f)" "positions_ok (db_of f)"
    and "settles pg symb t price ts (db_of f)"
    and "hs = summary ca symb (db_of f)" "in_i32 hs" "in_i32 (- hs)"
    and "0 < n" "in_i32 n" "in_i32 (hs - sg * n)"
  shows "move ca hs is_lifo symb n (Str (now_text pg)) f =
    (let cs = snd (used_lots sg is_lifo ca symb n (db_of f)) in
     Ok (hold_value sg cs 0, trade_value sg price cs 0,
         set_db (moved_db sg is_lifo ca symb t (float8_numeric2 pg price) ts n (db_of f)) f))"
proof -
  let ?d = "db_of f" and ?d1 = "adjust_summary sg ca symb n (db_of f)"
  let ?rest = "fst (used_lots sg is_lifo ca symb n ?d)" and ?cs = "snd (used_lots sg is_lifo ca symb n ?d)"
  let ?d2 = "use_holdings t ?cs ?d1"
  have pl: "set TRF2_statements \<subseteq> set (plans (set_db x f))" for x using assms by simp
  have loop: "(if 0 < sg * hs then
        obind (TRF2_holdings (trf_spi pg) is_lifo ca symb (set_db ?d1 f)) (\<lambda>(rows, f). loop rows n 0 0 f)
      else Ok (n, 0, 0, set_db ?d1 f)) =
      Ok (?rest, hold_value sg ?cs 0, trade_value sg price ?cs 0, set_db ?d2 f)"
  proof (cases "0 < sg * hs")
    case True
    have l: "lots_ok sg ca symb ?d"
      using lots_ok_of_positions [OF assms(2) sign] True assms(4) by simp
    have "history_fresh t (lots is_lifo ca symb ?d1) ?d1"
      using assms(3) l by (intro history_fresh_lots) (auto simp: settles_def lots_ok_def)
    then show ?thesis
      using True l assms(4,7,8) loop_refines [OF pl, of "lots is_lifo ca symb ?d" ?d1 n 0 0]
      by (simp add: holdings_runs [OF pl] used_lots_def lots_ok_def)
  next
    case False
    then show ?thesis using assms(4) by (simp add: used_lots_def)
  qed
  have co: "can_open pg symb t price ts ?d2"
    using assms(3) by (intro can_open_use) (auto simp: settles_def can_open_def dest: used_lots_in)
  have neg': "0 < ?rest \<Longrightarrow> neg ?rest = - sg * ?rest"
    using assms(7,8) used_lots_rest [OF assms(2) sign assms(7), of is_lifo ca symb] by (intro neg) (auto simp: in_i32_def)
  have m: "moved_db sg is_lifo ca symb t (float8_numeric2 pg price) ts n ?d =
      (if 0 < ?rest then open_lot ca symb t (float8_numeric2 pg price) ts (- sg * ?rest) ?d2
       else if hs = sg * n then close_summary ca symb ?d2 else ?d2)"
    using assms(4) by (simp add: moved_db_def split: prod.split)
  show ?thesis
    unfolding move [OF assms(5-9)] adjust_runs [OF assms(1,2,4) can_open_length [OF co]] obind.simps loop
    using co neg' by (simp add: m new_holding_runs [OF pl] close_runs [OF pl] Let_def)
qed

end

interpretation sell_move: position_move 1 pg t price
    "\<lambda>rows n hv tv f. TRF2_sell_loop (trf_spi pg) t price rows n hv tv f"
    TRF2_2a TRF2_2b "\<lambda>x. i32 (- x)"
    "\<lambda>ca hs is_lifo symb n dts f. TRF2_sell (trf_spi pg) pg ca hs is_lifo symb t price n dts f"
    for pg t price
proof (unfold_locales, goal_cases)
  case (2 x)
  then have "in_i32 (- x)" by (simp add: in_i32_def)
  then show ?case by simp
next
  case (3 hs n ca is_lifo symb dts f)
  then have "in_i32 (- n)" by (simp add: in_i32_def)
  with 3 show ?case unfolding TRF2_sell_def mult_1_left mult_minus1 by simp
qed simp

interpretation buy_move: position_move "- 1" pg t price
    "\<lambda>rows n hv tv f. obind (TRF2_buy_loop (trf_spi pg) t price rows n tv hv f)
       (\<lambda>(n, b, s, f). Ok (n, s, b, f))"
    TRF2_8a TRF2_8b "\<lambda>x. x"
    "\<lambda>ca hs is_lifo symb n dts f.
       obind (TRF2_buy (trf_spi pg) pg ca hs is_lifo symb t price n dts f) (\<lambda>(b, s, f). Ok (s, b, f))"
    for pg t price
proof (unfold_locales, goal_cases)
  case (3 hs n ca is_lifo symb dts f)
  have "(- hs \<noteq> n) = (hs \<noteq> - n)" "(- hs = n) = (hs = - n)" by auto
  with 3 show ?case
    by (simp add: TRF2_buy_def obind_assoc split_def if_distrib [of "\<lambda>m. obind m _"] cong: if_cong)
qed simp_all

section \<open>The specification keeps the invariant\<close>

lemma signed_sum_zero:
  assumes "\<forall>h \<in> set hs. 0 < sg * h_qty h" "sum_list (map h_qty hs) = 0"
  shows "hs = []"
proof (cases hs)
  case (Cons h r)
  have "0 \<le> sum_list (map (\<lambda>h. sg * h_qty h) r)"
    using assms(1) Cons by (intro sum_list_nonneg) (auto simp: less_imp_le)
  then have "0 < sum_list (map (\<lambda>h. sg * h_qty h) hs)" using assms(1) Cons by auto
  with assms(2) show ?thesis by (simp add: sum_list_const_mult)
qed

lemma summary_rows_filter: "summary_rows ca symb d = filter (is_summary ca symb) (holding_summary_tbl d)"
  by (simp add: summary_rows_def is_summary_lam)

lemma summary_cong:
  "holding_summary_tbl d = holding_summary_tbl d' \<Longrightarrow> summary ca symb d = summary ca symb d'"
  by (simp add: summary_def summary_rows_def)

lemma summary_nonzero_row:
  assumes "summary ca symb d \<noteq> 0"
  obtains r rs where "filter (is_summary ca symb) (holding_summary_tbl d) = r # rs"
  using assms by (auto simp: summary_def summary_rows_filter split: list.splits)

lemma is_summary_other: "(ca', symb') \<noteq> (ca, symb) \<Longrightarrow> is_summary ca symb r \<Longrightarrow> \<not> is_summary ca' symb' r"
  by (auto simp: is_summary_def)

lemma filter_other_update:
  assumes "(ca', symb') \<noteq> (ca, symb)" "\<And>r. is_summary ca symb r \<Longrightarrow> is_summary ca symb (g r)"
  shows "filter (is_summary ca' symb') (update_where (is_summary ca symb) g rs) =
    filter (is_summary ca' symb') rs"
  using assms is_summary_other [OF assms(1)] by (induction rs) auto

lemma filter_same_update:
  assumes "\<And>r. is_summary ca symb r \<Longrightarrow> is_summary ca symb (g r)"
  shows "filter (is_summary ca symb) (update_where (is_summary ca symb) g rs) =
    map g (filter (is_summary ca symb) rs)"
  using assms by (induction rs) auto

lemma is_summary_set_qty [simp]: "is_summary ca symb (r\<lparr>hs_qty := q\<rparr>) = is_summary ca symb r"
  by (simp add: is_summary_def)

lemma summary_adjust:
  assumes "positions_ok d" "0 < n" "sg = 1 \<or> sg = - 1"
  shows "summary ca' symb' (adjust_summary sg ca symb n d) =
    (if (ca', symb') = (ca, symb) \<and> summary ca symb d \<noteq> sg * n then summary ca symb d - sg * n
     else summary ca' symb' d)"
proof -
  let ?hs = "summary ca symb d"
  consider "?hs = 0" | "?hs \<noteq> 0" "?hs \<noteq> sg * n" | "?hs = sg * n" by blast
  then show ?thesis
  proof cases
    case 1
    with summary_zero_no_row [OF assms(1)] have "filter (is_summary ca symb) (holding_summary_tbl d) = []"
      by (force simp: filter_empty_conv is_summary_def)
    with 1 assms(2,3) show ?thesis
      by (auto simp: adjust_summary_def summary_def summary_rows_filter is_summary_def)
  next
    case 2
    then obtain r rs where "filter (is_summary ca symb) (holding_summary_tbl d) = r # rs"
      using summary_nonzero_row by blast
    with 2 show ?thesis
      by (auto simp: adjust_summary_def summary_def summary_rows_filter filter_same_update
          filter_other_update simp del: not_None_eq)
  next
    case 3
    with assms(2,3) show ?thesis by (auto simp: adjust_summary_def)
  qed
qed

lemma summary_close:
  "summary ca' symb' (close_summary ca symb d) =
     (if (ca', symb') = (ca, symb) then 0 else summary ca' symb' d)"
proof (cases "(ca', symb') = (ca, symb)")
  case True
  have "filter (is_summary ca symb) (delete_where (is_summary ca symb) rs) = []" for rs
    by (induction rs) auto
  with True show ?thesis by (simp add: close_summary_def summary_def summary_rows_filter)
next
  case False
  then have "filter (is_summary ca' symb') (delete_where (is_summary ca symb) rs) =
      filter (is_summary ca' symb') rs" for rs
    using is_summary_other [OF False] by (induction rs) auto
  with False show ?thesis by (auto simp: close_summary_def summary_def summary_rows_filter)
qed

definition summaries_ok :: "db \<Rightarrow> bool" where
  "summaries_ok d \<longleftrightarrow> distinct (map (\<lambda>r. (hs_ca_id r, hs_s_symb r)) (holding_summary_tbl d))
     \<and> (\<forall>r \<in> set (holding_summary_tbl d). hs_qty r \<noteq> 0)"

lemma summaries_ok_adjust:
  assumes "positions_ok d" "0 < n" "sg = 1 \<or> sg = - 1"
  shows "summaries_ok (adjust_summary sg ca symb n d)"
proof -
  have "distinct (map (\<lambda>r. (hs_ca_id r, hs_s_symb r)) (holding_summary_tbl d))"
    "\<forall>r \<in> set (holding_summary_tbl d). hs_qty r \<noteq> 0"
    using assms(1) by (simp_all add: positions_ok_def)
  then show ?thesis
    using summary_zero_no_row [OF assms(1), of ca symb] assms(2,3)
    by (auto simp: summaries_ok_def adjust_summary_def Let_def map_update_where set_update_where)
qed

lemma summaries_ok_close: "summaries_ok d \<Longrightarrow> summaries_ok (close_summary ca symb d)"
  by (auto simp: summaries_ok_def close_summary_def distinct_map_delete_where)

text \<open>The holdings after the liquidation, before a new one is opened.\<close>

lemma distinct_used_lots:
  assumes "distinct (map h_t_id (holding_tbl d))"
  shows "distinct (map (h_t_id \<circ> fst) (snd (consume sg n (lots is_lifo ca symb d))))"
proof -
  let ?cs = "snd (consume sg n (lots is_lifo ca symb d))"
  have "map (h_t_id \<circ> fst) ?cs = take (length ?cs) (map h_t_id (lots is_lifo ca symb d))"
    by (metis consume_prefix map_map take_map)
  then show ?thesis using distinct_lots [OF assms] by simp
qed

lemma liquidated:
  fixes ca is_lifo t :: int and symb :: string
  assumes ok: "positions_ok d" and sg: "sg = 1 \<or> sg = - 1" and n: "0 < n"
  defines "rest \<equiv> fst (used_lots sg is_lifo ca symb n d)"
  defines "d2 \<equiv> use_holdings t (snd (used_lots sg is_lifo ca symb n d)) (adjust_summary sg ca symb n d)"
  shows "lots_ok (if 0 < rest then - sg else sg) ca symb d2
    \<and> position ca symb d2 = summary ca symb d - sg * (n - rest)
    \<and> (\<forall>ca' symb'. (ca', symb') \<noteq> (ca, symb) \<longrightarrow> holdings_of ca' symb' d2 = holdings_of ca' symb' d)"
proof (cases "0 < sg * summary ca symb d")
  case True
  let ?cs = "snd (consume sg n (lots is_lifo ca symb d))" and ?d1 = "adjust_summary sg ca symb n d"
  have l: "lots_ok sg ca symb d" using lots_ok_of_positions [OF ok sg True] .
  have pos: "position ca symb d = summary ca symb d" using ok by (simp add: positions_ok_def)
  have u: "used_lots sg is_lifo ca symb n d = consume sg n (lots is_lifo ca symb d)"
    using True by (simp add: used_lots_def)
  have in_lots: "\<forall>(h, a) \<in> set ?cs. h \<in> set (holdings_of ca symb ?d1) \<and>
      (a = 0 \<or> (0 < sg * a \<and> sg * a < sg * h_qty h))"
    using consume_after [OF _ sg] consume_set [of _ sg n "lots is_lifo ca symb d"] by fastforce
  have l1: "lots_ok sg ca symb ?d1" using l by (simp add: lots_ok_def)
  have dist: "distinct (map (h_t_id \<circ> fst) ?cs)"
    using l by (intro distinct_used_lots) (simp add: lots_ok_def)
  have U: "lots_ok sg ca symb d2 \<and> position ca symb d2 = position ca symb d - sg * (n - rest)
    \<and> (\<forall>ca' symb'. (ca', symb') \<noteq> (ca, symb) \<longrightarrow> holdings_of ca' symb' d2 = holdings_of ca' symb' d)"
    using use_holdings_correct [OF l1 sg dist in_lots, of t] consume_shares [OF sg, of n "lots is_lifo ca symb d"]
    by (simp add: d2_def rest_def u position_def)
  have "\<forall>h \<in> set (lots is_lifo ca symb d). 0 < sg * h_qty h" using l by (auto simp: lots_ok_def)
  then have "rest = max 0 (n - sg * sum_list (map h_qty (lots is_lifo ca symb d)))"
    unfolding rest_def u by (intro consume_rest [OF sg]) (use n in auto)
  also have "sum_list (map h_qty (lots is_lifo ca symb d)) = summary ca symb d"
    unfolding pos [symmetric] position_def by (metis mset_lots mset_map sum_mset_sum_list)
  finally have rest: "rest = max 0 (n - sg * summary ca symb d)" .
  have empty: "holdings_of ca symb d2 = []" if "0 < rest"
  proof (rule signed_sum_zero [of _ sg])
    show "\<forall>h \<in> set (holdings_of ca symb d2). 0 < sg * h_qty h" using U by (auto simp: lots_ok_def)
    have "sg * (sg * summary ca symb d) = summary ca symb d" using sg by auto
    then show "sum_list (map h_qty (holdings_of ca symb d2)) = 0"
      using U that rest pos by (simp add: position_def right_diff_distrib)
  qed
  show ?thesis
  proof (cases "0 < rest")
    case True
    with empty U pos show ?thesis by (simp add: lots_ok_def del: holdings_of_set)
  next
    case False
    with U pos show ?thesis by simp
  qed
next
  case False
  then have u: "rest = n" "d2 = adjust_summary sg ca symb n d" by (simp_all add: rest_def d2_def used_lots_def)
  have "lots_ok (- sg) ca symb d"
  proof (cases "summary ca symb d = 0")
    case True
    then have "sum_list (map h_qty (holdings_of ca symb d)) = 0" and "same_sign ca symb d"
      using ok by (auto simp: positions_ok_def position_def)
    then have "holdings_of ca symb d = []"
      using signed_sum_zero [of "holdings_of ca symb d" 1] signed_sum_zero [of "holdings_of ca symb d" "- 1"]
      by (auto simp: same_sign_def simp del: holdings_of_set)
    then show ?thesis using ok by (simp add: lots_ok_def positions_ok_def del: holdings_of_set)
  next
    case 0: False
    with False sg have "0 < - sg * summary ca symb d" by auto
    with sg ok show ?thesis by (intro lots_ok_of_positions) auto
  qed
  then show ?thesis using u n ok by (simp add: lots_ok_def position_def positions_ok_def)
qed

lemma holdings_of_open:
  "holdings_of ca' symb' (open_lot ca symb t p ts q d) = holdings_of ca' symb' d @
     (if (ca', symb') = (ca, symb)
      then [\<lparr>h_t_id = t, h_ca_id = ca, h_s_symb = symb, h_dts = ts, h_price = p, h_qty = q\<rparr>] else [])"
  by (auto simp: holdings_of_def open_lot_def)

lemma holding_tbl_open:
  "holding_tbl (open_lot ca symb t p ts q d) = holding_tbl d @
     [\<lparr>h_t_id = t, h_ca_id = ca, h_s_symb = symb, h_dts = ts, h_price = p, h_qty = q\<rparr>]"
  by (simp add: open_lot_def)

lemma summary_open [simp]: "summary ca' symb' (open_lot ca symb t p ts q d) = summary ca' symb' d"
  by (rule summary_cong) (simp add: open_lot_def)

lemma lots_ok_sign: "lots_ok sg ca symb d \<Longrightarrow> sg = 1 \<or> sg = - 1 \<Longrightarrow> same_sign ca symb d"
  by (auto simp: lots_ok_def same_sign_def simp del: holdings_of_set)

lemma use_holdings_ids:
  "h_t_id ` set (holding_tbl (use_holdings t cs d)) \<subseteq> h_t_id ` set (holding_tbl d)"
proof (induction cs arbitrary: d)
  case (Cons c cs)
  show ?case using Cons [of "use_holding t c d"] use_holding_ids [of t c d] by auto
qed simp

lemma rest_pos_not_closing:
  assumes ok: "positions_ok d" and sg: "sg = 1 \<or> sg = - 1" and n: "0 < n"
    and r: "0 < fst (used_lots sg is_lifo ca symb n d)"
  shows "summary ca symb d \<noteq> sg * n"
proof
  assume hs: "summary ca symb d = sg * n"
  with sg n have pos: "0 < sg * summary ca symb d" by auto
  have l: "lots_ok sg ca symb d" using lots_ok_of_positions [OF ok sg pos] .
  then have s: "\<forall>h \<in> set (lots is_lifo ca symb d). 0 < sg * h_qty h" by (auto simp: lots_ok_def)
  have "sum_list (map h_qty (lots is_lifo ca symb d)) = position ca symb d"
    unfolding position_def by (metis mset_lots mset_map sum_mset_sum_list)
  also have "\<dots> = sg * n" using ok hs by (simp add: positions_ok_def)
  finally have "fst (consume sg n (lots is_lifo ca symb d)) = 0"
    using consume_rest [OF sg _ s, of n] n sg by auto
  with r pos show False by (simp add: used_lots_def)
qed

text \<open>
  \<open>moved d ca symb q d'\<close>: from a consistent \<open>d\<close> to a consistent \<open>d'\<close> in which the position of
  \<open>ca\<close> in \<open>symb\<close> is \<open>q\<close> and every other position is untouched, lot by lot.
\<close>

definition moved :: "db \<Rightarrow> int \<Rightarrow> string \<Rightarrow> int \<Rightarrow> db \<Rightarrow> bool" where
  "moved d ca symb q d' \<longleftrightarrow> positions_ok d' \<and> summary ca symb d' = q
     \<and> (\<forall>ca' symb'. (ca', symb') \<noteq> (ca, symb) \<longrightarrow>
          holdings_of ca' symb' d' = holdings_of ca' symb' d \<and> summary ca' symb' d' = summary ca' symb' d)"

lemma movedI:
  assumes ok: "positions_ok d" and l: "lots_ok sg ca symb d'" "sg = 1 \<or> sg = - 1"
    and su: "summaries_ok d'" "summary ca symb d' = q" "position ca symb d' = q"
    and oth: "\<And>ca' symb'. (ca', symb') \<noteq> (ca, symb) \<Longrightarrow>
      holdings_of ca' symb' d' = holdings_of ca' symb' d \<and> summary ca' symb' d' = summary ca' symb' d"
  shows "moved d ca symb q d'"
proof -
  have "summary ca' symb' d' = position ca' symb' d' \<and> same_sign ca' symb' d'" for ca' symb'
  proof (cases "(ca', symb') = (ca, symb)")
    case True
    with su lots_ok_sign [OF l] show ?thesis by simp
  next
    case False
    moreover have "summary ca' symb' d = position ca' symb' d \<and> same_sign ca' symb' d"
      using ok by (simp add: positions_ok_def)
    ultimately show ?thesis
      using oth [of ca' symb'] by (simp add: position_def same_sign_def del: holdings_of_set)
  qed
  with l su oth show ?thesis by (simp add: moved_def positions_ok_def lots_ok_def summaries_ok_def)
qed

lemma moved_open:
  assumes ok: "positions_ok d" and sg: "sg = 1 \<or> sg = - 1" and q: "0 < q" "in_i32 q" "in_i64 t"
    and t: "t \<notin> h_t_id ` set (holding_tbl d2)" and l: "lots_ok (- sg) ca symb d2"
    and su: "summaries_ok d2" "summary ca symb d2 = position ca symb d2 - sg * q"
    and oth: "\<And>ca' symb'. (ca', symb') \<noteq> (ca, symb) \<Longrightarrow>
      holdings_of ca' symb' d2 = holdings_of ca' symb' d \<and> summary ca' symb' d2 = summary ca' symb' d"
  shows "moved d ca symb (summary ca symb d2) (open_lot ca symb t p ts (- sg * q) d2)"
proof (rule movedI [OF ok, of "- sg"])
  let ?x = "open_lot ca symb t p ts (- sg * q) d2"
  have ty: "in_i32 (- sg * q)" "in_i32 (sg * q)" using sg q by (auto simp: in_i32_def)
  show "lots_ok (- sg) ca symb ?x"
    using l t q ty sg
    by (auto simp: lots_ok_def holdings_of_open holding_tbl_open holding_typed_def simp del: holdings_of_set)
  show "- sg = 1 \<or> - sg = - 1" using sg by auto
  show "summaries_ok ?x" using su(1) by (simp add: summaries_ok_def open_lot_def)
  show "summary ca symb ?x = summary ca symb d2" by simp
  show "position ca symb ?x = summary ca symb d2"
    using su(2) by (simp add: position_def holdings_of_open)
  show "holdings_of ca' symb' ?x = holdings_of ca' symb' d \<and> summary ca' symb' ?x = summary ca' symb' d"
    if "(ca', symb') \<noteq> (ca, symb)" for ca' symb'
    using oth [OF that] that by (auto simp: holdings_of_open)
qed

lemma moved_close:
  assumes ok: "positions_ok d" and sg: "sg = 1 \<or> sg = - 1" and l: "lots_ok sg ca symb d2"
    and su: "summaries_ok d2" "position ca symb d2 = 0"
    and oth: "\<And>ca' symb'. (ca', symb') \<noteq> (ca, symb) \<Longrightarrow>
      holdings_of ca' symb' d2 = holdings_of ca' symb' d \<and> summary ca' symb' d2 = summary ca' symb' d"
  shows "moved d ca symb 0 (close_summary ca symb d2)"
proof -
  have h: "holding_tbl (close_summary ca symb d2) = holding_tbl d2"
    "holdings_of ca' symb' (close_summary ca symb d2) = holdings_of ca' symb' d2" for ca' symb'
    by (simp_all add: close_summary_def holdings_of_def)
  show ?thesis
    using l su oth
    by (intro movedI [OF ok _ sg])
       (auto simp: lots_ok_def h summary_close summaries_ok_close position_def simp del: holdings_of_set)
qed

text \<open>The move changes the one position by the traded quantity and keeps the invariant.\<close>

lemma moved_db_correct:
  assumes ok: "positions_ok d" and sg: "sg = 1 \<or> sg = - 1" and n: "0 < n" "in_i32 n"
    and t: "t \<notin> h_t_id ` set (holding_tbl d)" "in_i64 t"
  shows "moved d ca symb (summary ca symb d - sg * n) (moved_db sg is_lifo ca symb t p ts n d)"
proof -
  define rest where "rest = fst (used_lots sg is_lifo ca symb n d)"
  define d2 where "d2 = use_holdings t (snd (used_lots sg is_lifo ca symb n d)) (adjust_summary sg ca symb n d)"
  let ?hs = "summary ca symb d"
  have L1: "lots_ok (if 0 < rest then - sg else sg) ca symb d2"
    and L2: "position ca symb d2 = ?hs - sg * (n - rest)"
    and L3: "\<And>ca' symb'. (ca', symb') \<noteq> (ca, symb) \<Longrightarrow> holdings_of ca' symb' d2 = holdings_of ca' symb' d"
    using liquidated [OF ok sg n(1), of is_lifo ca symb t] unfolding rest_def d2_def by blast+
  have r: "0 \<le> rest" "rest \<le> n" using used_lots_rest [OF ok sg n(1)] by (simp_all add: rest_def)
  have t2: "t \<notin> h_t_id ` set (holding_tbl d2)"
    using t(1) use_holdings_ids [of t _ "adjust_summary sg ca symb n d"] by (auto simp: d2_def)
  have su: "summaries_ok d2"
    using summaries_ok_adjust [OF ok n(1) sg, of ca symb] by (simp add: d2_def summaries_ok_def)
  have sa: "summary ca' symb' d2 = (if (ca', symb') = (ca, symb) \<and> ?hs \<noteq> sg * n then ?hs - sg * n
      else summary ca' symb' d)" for ca' symb'
    using summary_adjust [OF ok n(1) sg, of ca' symb' ca symb] summary_cong [of d2 "adjust_summary sg ca symb n d"]
    by (simp add: d2_def)
  have m: "moved_db sg is_lifo ca symb t p ts n d =
      (if 0 < rest then open_lot ca symb t p ts (- sg * rest) d2
       else if ?hs = sg * n then close_summary ca symb d2 else d2)"
    by (simp add: moved_db_def rest_def d2_def split_def Let_def)
  have oth: "holdings_of ca' symb' d2 = holdings_of ca' symb' d \<and> summary ca' symb' d2 = summary ca' symb' d"
    if "(ca', symb') \<noteq> (ca, symb)" for ca' symb'
    using L3 [OF that] that by (simp only: sa) auto
  have closing: "0 < rest \<Longrightarrow> ?hs \<noteq> sg * n"
    unfolding rest_def by (rule rest_pos_not_closing [OF ok sg n(1)])
  show ?thesis
  proof (cases "0 < rest")
    case True
    have "in_i32 rest" using r n by (simp add: in_i32_def)
    moreover have "summary ca symb d2 = position ca symb d2 - sg * rest"
      using closing True L2 by (simp add: sa algebra_simps)
    ultimately have "moved d ca symb (summary ca symb d2) (open_lot ca symb t p ts (- sg * rest) d2)"
      using True L1 by (intro moved_open [OF ok sg True _ t(2) t2 _ su _ oth]) auto
    with True closing show ?thesis by (simp add: m sa)
  next
    case False
    then have l: "lots_ok sg ca symb d2" and pos: "position ca symb d2 = ?hs - sg * n"
      using L1 L2 r by simp_all
    show ?thesis
    proof (cases "?hs = sg * n")
      case True
      with False pos moved_close [OF ok sg l su _ oth] show ?thesis by (simp add: m)
    next
      case ne: False
      then have "moved d ca symb (?hs - sg * n) d2"
        using pos by (intro movedI [OF ok l sg su _ _ oth]) (simp_all add: sa)
      with False ne show ?thesis by (simp add: m)
    qed
  qed
qed

section \<open>Frame 2\<close>

text \<open>The account row the frame reads, and the row it returns.\<close>

definition account_row :: "int \<Rightarrow> db \<Rightarrow> customer_account_row option" where
  "account_row ca d = find (\<lambda>r. ca_id r = ca) (customer_account_tbl d)"

definition trf2_out :: "customer_account_row \<Rightarrow> double \<Rightarrow> double \<Rightarrow> string \<Rightarrow> spi_row" where
  "trf2_out r buy sell dts =
     [int_txt (ca_b_id r), Some (snprintf_2f 15 0 buy), int_txt (ca_c_id r),
      Some (snprintf_2f 15 0 sell), int_txt (ca_tax_st r), Some dts]"

lemma TRF2_lookup_runs:
  assumes "set TRF2_statements \<subseteq> set (plans f)" "account_row ca (db_of f) = Some r"
  shows "TRF2_lookup (trf_spi pg) ca f =
    Ok ((\<lambda>_. Uninit)(trf2_trade_dts := Str (now_text pg), trf2_broker_id := Ptr (int_txt (ca_b_id r)),
          trf2_cust_id := Ptr (int_txt (ca_c_id r)), trf2_tax_status := Ptr (int_txt (ca_tax_st r))), f)"
proof -
  have p: "TRF2_1 \<in> set (plans f)" using assms(1) by (auto simp: TRF2_statements_def)
  obtain rs where r: "filter (\<lambda>r. ca_id r = ca) (customer_account_tbl (db_of f)) = r # rs"
    using assms(2) find_filter by (fastforce simp: account_row_def)
  have now: "trf_spi pg TRF2_now [] False (session f) = Ok (SPI_OK_SELECT [[Some (now_text pg)]], session f)"
    by (simp add: trf_spi_def)
  have "SPI_execute_plan (trf_spi pg) TRF2_1 [DInt64 ca] False f =
      Ok (SPI_OK_SELECT (map (\<lambda>r. [int_txt (ca_b_id r), int_txt (ca_c_id r), int_txt (ca_tax_st r)]) (r # rs)), f)"
    using p r by (simp add: trf.exec_write SQLTRF2_1_def del: SPI_execute_plan_planned)
  with now show ?thesis by (simp add: TRF2_lookup_def)
qed

text \<open>
  The whole frame on the tables: it returns one row, raises no warning, and leaves the
  tables as \<open>moved_db\<close> says.
\<close>

definition trade_sign :: "int \<Rightarrow> int" where
  "trade_sign type_is_sell = (if type_is_sell = 1 then 1 else - 1)"

definition trf2_values :: "int \<Rightarrow> double \<Rightarrow> (holding_row \<times> int) list \<Rightarrow> double \<times> double" where
  "trf2_values type_is_sell price cs =
     (let sg = trade_sign type_is_sell in
      if type_is_sell = 1 then (hold_value sg cs 0, trade_value sg price cs 0)
      else (trade_value sg price cs 0, hold_value sg cs 0))"

lemma frame2_runs:
  fixes f :: "(trf_stmt, pgsession) fctx" and pg is_lifo type_is_sell symb t
  assumes prep: "\<And>s. s \<in> set TRF2_statements \<Longrightarrow> prepare s"
    and ok: "positions_ok (db_of f)" and hs: "hs = summary ca symb (db_of f)"
    and pre: "settles pg symb t (rnd64 price) ts (db_of f)" "is_cstr symb"
    and acct: "account_row ca (db_of f) = Some r"
    and rng: "in_i32 hs" "in_i32 (- hs)" "0 < n" "in_i32 n" "in_i32 (hs - trade_sign type_is_sell * n)"
  defines "cs \<equiv> snd (used_lots (trade_sign type_is_sell) is_lifo ca symb n (db_of f))"
  defines "d' \<equiv> moved_db (trade_sign type_is_sell) is_lifo ca symb t (float8_numeric2 pg (rnd64 price)) ts n (db_of f)"
  shows "\<exists>ps. TradeResultFrame2 prepare (trf_spi pg) pg ca hs is_lifo symb t price n type_is_sell f =
    Ok ([trf2_out r (fst (trf2_values type_is_sell (rnd64 price) cs)) (snd (trf2_values type_is_sell (rnd64 price) cs))
           (now_text pg)],
        set_db d' (f\<lparr>max_calls := 1, plans := ps\<rparr>))"
proof -
  obtain ps where ps: "plan_queries prepare TRF2_statements (f\<lparr>max_calls := 1\<rparr>) =
      Ok (f\<lparr>max_calls := 1, plans := ps\<rparr>)" and sub: "set TRF2_statements \<subseteq> set ps"
    using plan_queries_ok [of TRF2_statements prepare "f\<lparr>max_calls := 1\<rparr>"] prep by auto
  let ?f = "f\<lparr>max_calls := 1, plans := ps\<rparr>"
  have pl: "set TRF2_statements \<subseteq> set (plans ?f)" using sub by simp
  have sy: "copy_len S_SYMB_LEN symb = symb" using pre by (simp add: settles_def can_open_def)
  have lk: "TRF2_lookup (trf_spi pg) ca ?f = Ok ((\<lambda>_. Uninit)(trf2_trade_dts := Str (now_text pg),
      trf2_broker_id := Ptr (int_txt (ca_b_id r)), trf2_cust_id := Ptr (int_txt (ca_c_id r)),
      trf2_tax_status := Ptr (int_txt (ca_tax_st r))), ?f)"
    using acct by (intro TRF2_lookup_runs [OF pl]) simp
  have mv: "(if type_is_sell = 1 then TRF2_sell else TRF2_buy) (trf_spi pg) pg ca hs is_lifo symb t
      (rnd64 price) n (Str (now_text pg)) ?f =
      Ok (fst (trf2_values type_is_sell (rnd64 price) cs), snd (trf2_values type_is_sell (rnd64 price) cs), set_db d' ?f)"
  proof (cases "type_is_sell = 1")
    case True
    then show ?thesis
      using sell_move.move_refines [OF pl, where pg = pg and symb = symb and t = t and price = "rnd64 price"
          and ts = ts and hs = hs and ca = ca and n = n and is_lifo = is_lifo] ok hs pre rng
      by (simp add: trade_sign_def cs_def d'_def trf2_values_def Let_def)
  next
    case False
    have sw: "obind m (\<lambda>(b, s, f). Ok (s, b, f)) = Ok (x, y, g) \<Longrightarrow> m = Ok (y, x, g)"
      for m :: "(double \<times> double \<times> (trf_stmt, pgsession) fctx) outcome" and x y g
      by (cases m) auto
    from False show ?thesis
      using buy_move.move_refines [OF pl, where pg = pg and symb = symb and t = t and price = "rnd64 price"
          and ts = ts and hs = hs and ca = ca and n = n and is_lifo = is_lifo] ok hs pre rng
      by (simp add: trade_sign_def cs_def d'_def trf2_values_def Let_def sw)
  qed
  show ?thesis
    using ps lk mv by (intro exI [of _ ps])
      (simp add: TradeResultFrame2_def sy srf_return_def trf2_order_def trf2_out_def)
qed

end
