(* ===== verification/Samples.thy ===== *)
theory Samples
  imports Schema
begin

text \<open>
  A concrete server and concrete rows, at which the theorems of the development are
  instantiated: a server whose numeric cast rounds to cents and whose timestamps count
  seconds of a simplified calendar, one account with one holding of 100 shares, one open
  trade of it.
\<close>

definition sample_seconds :: "pg_tm \<Rightarrow> int" where
  "sample_seconds tm = ((((pg_year tm * 12 + pg_mon tm) * 31 + pg_mday tm) * 24 + pg_hour tm) * 60
     + pg_min tm) * 60 + pg_sec tm"

definition sample_pg :: pgapi where
  "sample_pg = \<lparr>float8_numeric2 = (\<lambda>x. rne (x * 100)),
     timestamp_out = show_int, date_out = show_int, date_in = (\<lambda>s. Ok (atoi s)),
     timestamp2tm = (\<lambda>ts. Some \<lparr>pg_year = 0, pg_mon = 0, pg_mday = ts div 86400, pg_hour = 0,
       pg_min = 0, pg_sec = ts mod 86400, pg_isdst = 0, pg_gmtoff = 0\<rparr>),
     tm2timestamp = (\<lambda>tm. Some (sample_seconds tm)),
     EncodeDateTime = (\<lambda>tm. show_int (pg_mday tm)),
     now_ts = 0, now_text = iso_timestamp 2010 5 17 9 30 0, now_char = iso_timestamp 2010 5 17 9 30 0,
     day_of = (\<lambda>d. d mod 30 + 1)\<rparr>"

definition sample_account :: customer_account_row where
  "sample_account = \<lparr>ca_id = 1, ca_b_id = 2, ca_c_id = 3, ca_name = None, ca_tax_st = 1, ca_bal = 50000\<rparr>"

definition sample_holding :: holding_row where
  "sample_holding = \<lparr>h_t_id = 5, h_ca_id = 1, h_s_symb = ''AB'', h_dts = 10, h_price = 1000, h_qty = 100\<rparr>"

definition sample_trade :: trade_row where
  "sample_trade = \<lparr>t_id = 9, t_dts = 20, t_st_id = ''SBMT'', t_tt_id = ''TMS'', t_is_cash = True,
     t_s_symb = ''AB'', t_qty = 30, t_bid_price = 1200, t_ca_id = 1, t_exec_name = ''Ann'',
     t_trade_price = None, t_chrg = 100, t_comm = 0, t_tax = 0, t_lifo = False\<rparr>"

definition sample_type :: trade_type_row where
  "sample_type = \<lparr>tt_id = ''TMS'', tt_name = ''Market-Sell'', tt_is_sell = True, tt_is_mrkt = True\<rparr>"

definition sample_broker :: broker_row where
  "sample_broker = \<lparr>b_id = 2, b_st_id = ''ACTV'', b_name = ''Bo'', b_num_trades = 7, b_comm_total = 900\<rparr>"

definition sample_customer :: customer_row where
  "sample_customer = \<lparr>c_id = 3, c_tax_id = ''T3'', c_st_id = ''ACTV'', c_l_name = ''Roe'', c_f_name = ''Ann'',
     c_m_name = None, c_gndr = None, c_tier = 2, c_dob = 0, c_ad_id = 1, c_ctry_1 = None,
     c_area_1 = None, c_local_1 = None, c_ext_1 = None, c_ctry_2 = None, c_area_2 = None,
     c_local_2 = None, c_ext_2 = None, c_ctry_3 = None, c_area_3 = None, c_local_3 = None,
     c_ext_3 = None, c_email_1 = None, c_email_2 = None\<rparr>"

definition sample_security :: security_row where
  "sample_security = \<lparr>s_symb = ''AB'', s_issue = ''COMMON'', s_st_id = ''ACTV'', s_name = ''AB of Alphabeta'',
     s_ex_id = ''NYSE'', s_co_id = 8, s_num_out = 1000, s_start_date = 0, s_exch_date = 0, s_pe = 0,
     s_52wk_high = 1500, s_52wk_high_date = 0, s_52wk_low = 900, s_52wk_low_date = 0, s_dividend = 0,
     s_yield = 0\<rparr>"

definition sample_rate :: commission_rate_row where
  "sample_rate = \<lparr>cr_c_tier = 2, cr_tt_id = ''TMS'', cr_ex_id = ''NYSE'', cr_from_qty = 1, cr_to_qty = 100,
     cr_rate = 25\<rparr>"

definition sample_company :: company_row where
  "sample_company = \<lparr>co_id = 8, co_st_id = ''ACTV'', co_name = ''Alphabeta'', co_in_id = ''IN'',
     co_sp_rate = ''A'', co_ceo = ''Cy'', co_ad_id = 1, co_desc = ''Co'', co_open_date = 0\<rparr>"

definition sample_last_trade :: last_trade_row where
  "sample_last_trade = \<lparr>lt_s_symb = ''AB'', lt_dts = 30, lt_price = 1200, lt_open_price = 1100, lt_vol = 5\<rparr>"

definition sample_db :: db where
  "sample_db = empty_db\<lparr>customer_account_tbl := [sample_account], holding_tbl := [sample_holding],
     holding_summary_tbl := [\<lparr>hs_ca_id = 1, hs_s_symb = ''AB'', hs_qty = 100\<rparr>],
     trade_tbl := [sample_trade], trade_type_tbl := [sample_type], broker_tbl := [sample_broker],
     customer_taxrate_tbl := [\<lparr>cx_tx_id = ''US1'', cx_c_id = 3\<rparr>],
     taxrate_tbl := [\<lparr>tx_id = ''US1'', tx_name = ''Tax'', tx_rate = 25000\<rparr>],
     customer_tbl := [sample_customer], security_tbl := [sample_security],
     commission_rate_tbl := [sample_rate], company_tbl := [sample_company],
     last_trade_tbl := [sample_last_trade],
     charge_tbl := [\<lparr>ch_tt_id = ''TMS'', ch_c_tier = 2, ch_chrg = Some 150\<rparr>]\<rparr>"

definition sample_ctx :: "('s, pgsession) fctx" where
  "sample_ctx = \<lparr>session = start_call sample_db, plans = [], warnings = [], max_calls = 0\<rparr>"

lemma sample_ctx_simps [simp]:
  "db_of sample_ctx = sample_db" "snap_of sample_ctx = sample_db" "plans sample_ctx = []"
  "warnings sample_ctx = []"
  by (simp_all add: sample_ctx_def db_of_def snap_of_def)

lemma sample_pg_simps [simp]:
  "float8_numeric2 sample_pg = (\<lambda>x. rne (x * 100))" "tm2timestamp sample_pg tm = Some (sample_seconds tm)"
  "now_text sample_pg = iso_timestamp 2010 5 17 9 30 0" "date_in sample_pg s = Ok (atoi s)"
  "now_char sample_pg = iso_timestamp 2010 5 17 9 30 0" "day_of sample_pg d = d mod 30 + 1"
  "EncodeDateTime sample_pg tm = show_int (pg_mday tm)" "now_ts sample_pg = 0"
  "timestamp2tm sample_pg ts = Some \<lparr>pg_year = 0, pg_mon = 0, pg_mday = ts div 86400, pg_hour = 0,
       pg_min = 0, pg_sec = ts mod 86400, pg_isdst = 0, pg_gmtoff = 0\<rparr>"
  by (simp_all add: sample_pg_def)

lemma sample_tables [simp]:
  "holding_tbl sample_db = [sample_holding]" "holding_history_tbl sample_db = []"
  "holding_summary_tbl sample_db = [\<lparr>hs_ca_id = 1, hs_s_symb = ''AB'', hs_qty = 100\<rparr>]"
  "customer_account_tbl sample_db = [sample_account]" "trade_tbl sample_db = [sample_trade]"
  "trade_type_tbl sample_db = [sample_type]" "broker_tbl sample_db = [sample_broker]"
  "trade_history_tbl sample_db = []" "settlement_tbl sample_db = []"
  "cash_transaction_tbl sample_db = []"
  "customer_taxrate_tbl sample_db = [\<lparr>cx_tx_id = ''US1'', cx_c_id = 3\<rparr>]"
  "taxrate_tbl sample_db = [\<lparr>tx_id = ''US1'', tx_name = ''Tax'', tx_rate = 25000\<rparr>]"
  "customer_tbl sample_db = [sample_customer]" "security_tbl sample_db = [sample_security]"
  "commission_rate_tbl sample_db = [sample_rate]" "company_tbl sample_db = [sample_company]"
  "last_trade_tbl sample_db = [sample_last_trade]" "trade_request_tbl sample_db = []"
  "account_permission_tbl sample_db = []"
  "charge_tbl sample_db = [\<lparr>ch_tt_id = ''TMS'', ch_c_tier = 2, ch_chrg = Some 150\<rparr>]"
  "seq_trade_id sample_db = 1"
  by (simp_all add: sample_db_def empty_db_def)

lemma sample_now: "strptime (iso_timestamp 2010 5 17 9 30 0) =
    Some \<lparr>tm_year = 110, tm_mon = 4, tm_mday = 17, tm_hour = 9, tm_min = 30, tm_sec = 0,
          tm_isdst = 0, tm_gmtoff = 0\<rparr>"
  by (simp add: strptime_iso)

lemmas sample_rows = sample_account_def sample_holding_def sample_trade_def sample_type_def
  sample_broker_def sample_customer_def sample_security_def sample_rate_def sample_company_def
  sample_last_trade_def

end
