(* ===== verification/Settlement.thy ===== *)
theory Settlement
  imports Positions Samples
begin

text \<open>
  The properties of the Trade-Result frames on the tables: the position frame (2) and its
  audit trail, then the frames that read the trade (1), compute the tax (3), read the
  commission rate (4), close the trade (5) and settle the cash (6).
\<close>

section \<open>The audit trail of frame 2\<close>

text \<open>The rows of \<open>holding_history\<close> a move adds.\<close>

definition used_history :: "int \<Rightarrow> (holding_row \<times> int) list \<Rightarrow> holding_history_row list" where
  "used_history t cs = map (\<lambda>(h, a). \<lparr>hh_h_t_id = h_t_id h, hh_t_id = t, hh_before_qty = h_qty h,
     hh_after_qty = a\<rparr>) cs"

definition moved_history :: "int \<Rightarrow> int \<Rightarrow> int \<Rightarrow> string \<Rightarrow> int \<Rightarrow> int \<Rightarrow> db \<Rightarrow> holding_history_row list" where
  "moved_history sg is_lifo ca symb t n d =
     (case used_lots sg is_lifo ca symb n d of (rest, cs) \<Rightarrow>
        used_history t cs @
        (if 0 < rest then [\<lparr>hh_h_t_id = t, hh_t_id = t, hh_before_qty = 0, hh_after_qty = - sg * rest\<rparr>]
         else []))"

lemma history_use_holdings:
  "holding_history_tbl (use_holdings t cs d) = holding_history_tbl d @ used_history t cs"
  by (induction cs arbitrary: d) (auto simp: used_history_def use_holding_def)

lemma history_moved_db:
  "holding_history_tbl (moved_db sg is_lifo ca symb t p ts n d) =
     holding_history_tbl d @ moved_history sg is_lifo ca symb t n d"
  by (simp add: moved_db_def moved_history_def open_lot_def close_summary_def history_use_holdings
      Let_def split: prod.split)

lemma used_history_sum:
  assumes "sg = 1 \<or> sg = - 1"
  shows "sum_list (map (\<lambda>r. hh_before_qty r - hh_after_qty r) (used_history t cs)) =
    sg * sum_list (map (shares_used sg) cs)"
  using assms by (induction cs) (auto simp: used_history_def shares_used_def algebra_simps)

lemma moved_history_sum:
  assumes "positions_ok d" "sg = 1 \<or> sg = - 1" "0 < n"
  shows "sum_list (map (\<lambda>r. hh_before_qty r - hh_after_qty r) (moved_history sg is_lifo ca symb t n d)) = sg * n"
proof -
  obtain rest cs where u: "used_lots sg is_lifo ca symb n d = (rest, cs)" by fastforce
  have r: "0 \<le> rest" using used_lots_rest [OF assms, of is_lifo ca symb] u by simp
  have "sum_list (map (shares_used sg) cs) = n - rest"
    using u consume_shares [OF assms(2), of n "lots is_lifo ca symb d"] by (auto simp: used_lots_def split: if_splits)
  with r u show ?thesis
    by (auto simp: moved_history_def used_history_sum [OF assms(2)] algebra_simps)
qed

lemma consume_butlast:
  "c \<in> set (butlast (snd (consume sg n hs))) \<Longrightarrow> snd c = 0"
  by (induction sg n hs rule: consume.induct) (auto split: prod.splits if_splits)

lemma consume_rest_all:
  "0 < fst (consume sg n hs) \<Longrightarrow> c \<in> set (snd (consume sg n hs)) \<Longrightarrow> snd c = 0"
  by (induction sg n hs rule: consume.induct) (auto split: prod.splits if_splits)

lemma butlast_map_snd:
  "(\<And>c. c \<in> set (butlast cs) \<Longrightarrow> snd c = 0) \<Longrightarrow> r \<in> set (butlast (used_history t cs)) \<Longrightarrow> hh_after_qty r = 0"
  by (auto simp: used_history_def map_butlast [symmetric])

text \<open>The holdings are used in the order of the query; only the last may keep shares.\<close>

lemma moved_history_order:
  "\<exists>k. map hh_h_t_id (moved_history sg is_lifo ca symb t n d) =
       map h_t_id (take k (lots is_lifo ca symb d)) @
       (if 0 < fst (used_lots sg is_lifo ca symb n d) then [t] else [])
     \<and> (\<forall>r \<in> set (butlast (moved_history sg is_lifo ca symb t n d)). hh_after_qty r = 0)"
proof -
  obtain rest cs where u: "used_lots sg is_lifo ca symb n d = (rest, cs)" by fastforce
  have ids: "map hh_h_t_id (used_history t cs) = map h_t_id (map fst cs)"
    by (simp add: used_history_def comp_def case_prod_unfold)
  have pre: "map fst cs = take (length cs) (lots is_lifo ca symb d)"
    using u consume_prefix [of sg n "lots is_lifo ca symb d"] by (auto simp: used_lots_def split: if_splits)
  have bl: "\<And>c. c \<in> set (butlast cs) \<Longrightarrow> snd c = 0"
    using u consume_butlast [of _ sg n "lots is_lifo ca symb d"] by (auto simp: used_lots_def split: if_splits)
  have al: "0 < rest \<Longrightarrow> c \<in> set cs \<Longrightarrow> snd c = 0" for c
    using u consume_rest_all [of sg n "lots is_lifo ca symb d"] by (auto simp: used_lots_def split: if_splits)
  show ?thesis
  proof (cases "0 < rest")
    case True
    have "\<forall>r \<in> set (butlast (moved_history sg is_lifo ca symb t n d)). hh_after_qty r = 0"
      using al [OF True] True by (auto simp: moved_history_def u butlast_append used_history_def)
    with True ids pre show ?thesis by (intro exI [of _ "length cs"]) (simp add: moved_history_def u)
  next
    case False
    have "\<forall>r \<in> set (butlast (moved_history sg is_lifo ca symb t n d)). hh_after_qty r = 0"
      using butlast_map_snd [OF bl] False by (auto simp: moved_history_def u)
    with False ids pre show ?thesis by (intro exI [of _ "length cs"]) (simp add: moved_history_def u)
  qed
qed

lemma lots_sorted:
  "is_lifo = 1 \<Longrightarrow> sorted (map (\<lambda>h. - h_dts h) (lots is_lifo ca symb d))"
  "is_lifo \<noteq> 1 \<Longrightarrow> sorted (map h_dts (lots is_lifo ca symb d))"
  by (simp_all add: lots_def order_desc_def order_asc_def)

section \<open>Frame 2\<close>

text \<open>
  What frame 2 expects: consistent positions, a trade not yet settled, quantities that fit
  \<open>int\<close>, and for the new holding a price that is one and a trade time \<open>ts\<close> that the
  server accepts.
\<close>

definition frame2_pre ::
    "pgapi \<Rightarrow> int \<Rightarrow> string \<Rightarrow> int \<Rightarrow> rat \<Rightarrow> int \<Rightarrow> int \<Rightarrow> int \<Rightarrow> db \<Rightarrow> bool" where
  "frame2_pre pg ca symb t price n type_is_sell ts d \<longleftrightarrow>
     positions_ok d \<and> settles pg symb t (rnd64 price) ts d \<and> is_cstr symb \<and> in_i64 t
     \<and> in_i32 (summary ca symb d) \<and> in_i32 (- summary ca symb d)
     \<and> 0 < n \<and> in_i32 n \<and> in_i32 (summary ca symb d - trade_sign type_is_sell * n)"

definition frame2_out :: "pgapi \<Rightarrow> int \<Rightarrow> string \<Rightarrow> rat \<Rightarrow> int \<Rightarrow> int \<Rightarrow> int \<Rightarrow> customer_account_row \<Rightarrow> db \<Rightarrow> spi_row" where
  "frame2_out pg ca symb price n is_lifo type_is_sell r d =
     (let cs = snd (used_lots (trade_sign type_is_sell) is_lifo ca symb n d);
          (buy, sell) = trf2_values type_is_sell (rnd64 price) cs in trf2_out r buy sell (now_text pg))"

lemma trade_sign_cases: "trade_sign s = 1 \<or> trade_sign s = - 1"
  by (simp add: trade_sign_def)

lemma frame2_on_tables:
  assumes "\<And>s. s \<in> set TRF2_statements \<Longrightarrow> prepare s"
    and "frame2_pre pg ca symb t price n type_is_sell ts (db_of f)"
    and "account_row ca (db_of f) = Some r"
  shows "\<exists>ps. TradeResultFrame2 prepare (trf_spi pg) pg ca (summary ca symb (db_of f)) is_lifo symb t
      price n type_is_sell f =
    Ok ([frame2_out pg ca symb price n is_lifo type_is_sell r (db_of f)],
        set_db (moved_db (trade_sign type_is_sell) is_lifo ca symb t
                  (float8_numeric2 pg (rnd64 price)) ts n (db_of f)) (f\<lparr>max_calls := 1, plans := ps\<rparr>))"
  using frame2_runs [of prepare f _ ca symb pg t price ts r n type_is_sell is_lifo, OF assms(1) _ refl]
    assms(2,3)
  by (simp add: frame2_pre_def frame2_out_def Let_def case_prod_unfold)

lemma frame2_pre_move:
  assumes "frame2_pre pg ca symb t price n type_is_sell ts d"
  shows "moved d ca symb (summary ca symb d - trade_sign type_is_sell * n)
    (moved_db (trade_sign type_is_sell) is_lifo ca symb t p ts n d)"
  using assms by (intro moved_db_correct trade_sign_cases)
    (auto simp: frame2_pre_def settles_def can_open_def)

lemma sample_positions_ok: "positions_ok sample_db"
  by (auto simp: positions_ok_def summary_def summary_rows_def position_def same_sign_def holdings_of_def
      holding_typed_def sample_holding_def in_i32_def in_i64_def)

lemma rnd64_12 [simp]: "rnd64 12 = 12"
  using rnd64_of_int [of 12] by simp

definition sample_ts :: int where
  "sample_ts = sample_seconds (TRF2_pg_tm \<lparr>tm_year = 110, tm_mon = 4, tm_mday = 17, tm_hour = 9,
     tm_min = 30, tm_sec = 0, tm_isdst = 0, tm_gmtoff = 0\<rparr>)"

lemma rne_numeral [simp]: "rne (numeral n) = numeral n"
  using rne_of_int [of "numeral n"] by simp

lemma sample_frame2_pre: "frame2_pre sample_pg 1 ''AB'' 9 12 30 1 sample_ts sample_db"
  by (simp add: frame2_pre_def sample_positions_ok settles_def can_open_def sample_now sample_ts_def
      summary_def summary_rows_def in_i32_def in_i64_def trade_sign_def numeric_ok_def
      is_cstr_def sample_rows)

lemma sample_account_row: "account_row 1 sample_db = Some sample_account"
  by (simp add: account_row_def sample_rows)

text \<open>
  C1. Trade-Result frame 2 refines its specification.  Called with the quantity frame 1
  reports, on consistent positions and for a trade not yet settled, the frame returns, raises
  no warning, and returns exactly one row: broker, customer and tax status of the account, the
  cost and the proceeds of the shares it closed, and the trade time.  The tables afterwards
  are the ones \<open>moved_db\<close> describes: the summary adjusted, the holdings used up in LIFO or
  FIFO order, a new holding for what is left over, the summary row dropped when the
  position is closed.
\<close>

theorem frame2_refines:
  assumes "\<And>s. s \<in> set TRF2_statements \<Longrightarrow> prepare s"
    and "frame2_pre pg ca symb t price n type_is_sell ts (db_of f)"
    and "account_row ca (db_of f) = Some r"
  shows "\<exists>ps. TradeResultFrame2 prepare (trf_spi pg) pg ca (summary ca symb (db_of f)) is_lifo symb t
      price n type_is_sell f =
    Ok ([frame2_out pg ca symb price n is_lifo type_is_sell r (db_of f)],
        set_db (moved_db (trade_sign type_is_sell) is_lifo ca symb t
                  (float8_numeric2 pg (rnd64 price)) ts n (db_of f)) (f\<lparr>max_calls := 1, plans := ps\<rparr>))"
  using assms by (rule frame2_on_tables)

theorem frame2_refines_witness:
  "\<exists>ps. TradeResultFrame2 (\<lambda>_. True) (trf_spi sample_pg) sample_pg 1 100 0 ''AB'' 9 12 30 1 sample_ctx =
    Ok ([frame2_out sample_pg 1 ''AB'' 12 30 0 1 sample_account sample_db],
        set_db (moved_db 1 0 1 ''AB'' 9 1200 sample_ts 30 sample_db) (sample_ctx\<lparr>max_calls := 1, plans := ps\<rparr>))"
  using frame2_refines [of "\<lambda>_. True" sample_pg 1 "''AB''" 9 12 30 1 sample_ts sample_ctx sample_account 0]
    sample_frame2_pre sample_account_row
  by (simp add: summary_def summary_rows_def trade_sign_def)

text \<open>
  C2. Frame 2 keeps the position invariant and moves one position only.  After the call the
  summary of the traded account and security has changed by exactly the traded quantity
  (down for a sale, up for a purchase), it still equals the sum of the holdings, no summary
  row is zero, holdings of one position have one sign, and every other position is untouched
  lot by lot.
\<close>

theorem frame2_keeps_positions:
  assumes "\<And>s. s \<in> set TRF2_statements \<Longrightarrow> prepare s"
    and "frame2_pre pg ca symb t price n type_is_sell ts (db_of f)"
    and "account_row ca (db_of f) = Some r"
  shows "\<exists>rows f'. TradeResultFrame2 prepare (trf_spi pg) pg ca (summary ca symb (db_of f)) is_lifo symb t
      price n type_is_sell f = Ok (rows, f') \<and>
    moved (db_of f) ca symb (summary ca symb (db_of f) - trade_sign type_is_sell * n) (db_of f')"
  using frame2_on_tables [of prepare, OF assms(1) assms(2,3), of is_lifo] frame2_pre_move [OF assms(2)]
  by fastforce

theorem frame2_keeps_positions_witness:
  "\<exists>rows f'. TradeResultFrame2 (\<lambda>_. True) (trf_spi sample_pg) sample_pg 1 100 0 ''AB'' 9 12 30 1 sample_ctx =
      Ok (rows, f') \<and> moved sample_db 1 ''AB'' 70 (db_of f')"
  using frame2_keeps_positions [of "\<lambda>_. True" sample_pg 1 "''AB''" 9 12 30 1 sample_ts sample_ctx sample_account 0]
    sample_frame2_pre sample_account_row
  by (simp add: summary_def summary_rows_def trade_sign_def)

text \<open>
  The audit trail of frame 2 is complete: the rows added to \<open>holding_history\<close> account for
  exactly the traded quantity, and every added row names the trade.
\<close>

theorem frame2_audit_complete:
  assumes "\<And>s. s \<in> set TRF2_statements \<Longrightarrow> prepare s"
    and "frame2_pre pg ca symb t price n type_is_sell ts (db_of f)"
    and "account_row ca (db_of f) = Some r"
  shows "\<exists>rows f' new. TradeResultFrame2 prepare (trf_spi pg) pg ca (summary ca symb (db_of f)) is_lifo symb t
      price n type_is_sell f = Ok (rows, f') \<and>
    holding_history_tbl (db_of f') = holding_history_tbl (db_of f) @ new \<and>
    sum_list (map (\<lambda>r. hh_before_qty r - hh_after_qty r) new) = trade_sign type_is_sell * n \<and>
    (\<forall>r \<in> set new. hh_t_id r = t)"
proof -
  let ?d = "db_of f" let ?new = "moved_history (trade_sign type_is_sell) is_lifo ca symb t n ?d"
  have "sum_list (map (\<lambda>r. hh_before_qty r - hh_after_qty r) ?new) = trade_sign type_is_sell * n"
    using assms(2) by (intro moved_history_sum trade_sign_cases) (auto simp: frame2_pre_def)
  moreover have "\<forall>r \<in> set ?new. hh_t_id r = t"
    by (auto simp: moved_history_def used_history_def split: prod.splits if_splits)
  ultimately show ?thesis
    using frame2_on_tables [of prepare, OF assms(1) assms(2,3), of is_lifo]
    by (fastforce simp: history_moved_db)
qed

theorem frame2_audit_complete_witness:
  "\<exists>rows f' new. TradeResultFrame2 (\<lambda>_. True) (trf_spi sample_pg) sample_pg 1 100 0 ''AB'' 9 12 30 1 sample_ctx =
      Ok (rows, f') \<and> holding_history_tbl (db_of f') = new \<and>
    sum_list (map (\<lambda>r. hh_before_qty r - hh_after_qty r) new) = 30 \<and> (\<forall>r \<in> set new. hh_t_id r = 9)"
  using frame2_audit_complete [of "\<lambda>_. True" sample_pg 1 "''AB''" 9 12 30 1 sample_ts sample_ctx sample_account 0]
    sample_frame2_pre sample_account_row
  by (simp add: summary_def summary_rows_def trade_sign_def)

text \<open>
  C4. Frame 2 uses the holdings in the order the customer chose: newest first when the
  trade is LIFO, oldest first otherwise, and every holding it touches is used up except
  possibly the last.
\<close>

theorem frame2_lot_order:
  assumes "\<And>s. s \<in> set TRF2_statements \<Longrightarrow> prepare s"
    and "frame2_pre pg ca symb t price n type_is_sell ts (db_of f)"
    and "account_row ca (db_of f) = Some r"
  shows "\<exists>rows f' new lots tail. TradeResultFrame2 prepare (trf_spi pg) pg ca (summary ca symb (db_of f)) is_lifo symb t
      price n type_is_sell f = Ok (rows, f') \<and>
    holding_history_tbl (db_of f') = holding_history_tbl (db_of f) @ new \<and>
    mset lots = mset (holdings_of ca symb (db_of f)) \<and>
    sorted (map (\<lambda>h. if is_lifo = 1 then - h_dts h else h_dts h) lots) \<and>
    (\<exists>k. map hh_h_t_id new = map h_t_id (take k lots) @ tail) \<and> set tail \<subseteq> {t} \<and>
    (\<forall>r \<in> set (butlast new). hh_after_qty r = 0)"
proof -
  let ?d = "db_of f" let ?sg = "trade_sign type_is_sell"
  let ?new = "moved_history ?sg is_lifo ca symb t n ?d"
  have ms: "mset (lots is_lifo ca symb ?d) = mset (holdings_of ca symb ?d)"
    by (simp add: lots_def mset_order_desc mset_order_asc)
  have so: "sorted (map (\<lambda>h. if is_lifo = 1 then - h_dts h else h_dts h) (lots is_lifo ca symb ?d))"
    using lots_sorted [of is_lifo ca symb ?d] by (cases "is_lifo = 1") simp_all
  obtain k where ids: "map hh_h_t_id ?new = map h_t_id (take k (lots is_lifo ca symb ?d)) @
       (if 0 < fst (used_lots ?sg is_lifo ca symb n ?d) then [t] else [])"
    and bl: "\<forall>r \<in> set (butlast ?new). hh_after_qty r = 0"
    using moved_history_order by blast
  have tl: "set (if 0 < fst (used_lots ?sg is_lifo ca symb n ?d) then [t] else []) \<subseteq> {t}" by auto
  obtain ps where run: "TradeResultFrame2 prepare (trf_spi pg) pg ca (summary ca symb ?d) is_lifo symb t
      price n type_is_sell f =
    Ok ([frame2_out pg ca symb price n is_lifo type_is_sell r ?d],
        set_db (moved_db ?sg is_lifo ca symb t (float8_numeric2 pg (rnd64 price)) ts n ?d)
          (f\<lparr>max_calls := 1, plans := ps\<rparr>))"
    using frame2_on_tables [of prepare, OF assms(1) assms(2,3), of is_lifo] by blast
  have hi: "holding_history_tbl (db_of (set_db (moved_db ?sg is_lifo ca symb t p ts n ?d) g)) =
      holding_history_tbl ?d @ ?new" for p and g :: "(trf_stmt, pgsession) fctx"
    by (simp add: history_moved_db)
  show ?thesis by (intro exI conjI) (rule run hi ms so ids tl bl)+
qed

theorem frame2_lot_order_witness:
  "\<exists>rows f' new lots tail. TradeResultFrame2 (\<lambda>_. True) (trf_spi sample_pg) sample_pg 1 100 1 ''AB'' 9 12 30 1 sample_ctx =
      Ok (rows, f') \<and> holding_history_tbl (db_of f') = new \<and> mset lots = mset [sample_holding] \<and>
    sorted (map (\<lambda>h. - h_dts h) lots) \<and> (\<exists>k. map hh_h_t_id new = map h_t_id (take k lots) @ tail) \<and>
    set tail \<subseteq> {9} \<and> (\<forall>r \<in> set (butlast new). hh_after_qty r = 0)"
  using frame2_lot_order [of "\<lambda>_. True" sample_pg 1 "''AB''" 9 12 30 1 sample_ts sample_ctx sample_account 1]
    sample_frame2_pre sample_account_row
  by (simp add: summary_def summary_rows_def holdings_of_def sample_rows)

text \<open>
  C5. The time stored with a new holding is not the time of the trade.  \<open>strptime\<close> already
  counts years from 1900 and months from 0, the server's structure wants the calendar year and
  months from 1, and the frame subtracts where it should add: for every trade time the
  structure handed to \<open>tm2timestamp\<close> has the year 3800 too small and the month 2 too small.
\<close>

theorem new_holding_time_shifted:
  assumes "y \<le> 9999" "1 \<le> mo" "mo \<le> 12" "1 \<le> d" "d \<le> 31" "h \<le> 23" "mi \<le> 59" "sc \<le> 59"
  shows "TRF2_new_holding spi pg ca symb t price (Str (iso_timestamp y mo d h mi sc)) q f =
    obind (exec_dml_set spi Insert TRF2_4a [DInt64 t, DInt64 t, DInt32 0, DInt32 q] f) (\<lambda>f.
    obind (from_ptr (tm2timestamp pg \<lparr>pg_year = int y - 3800, pg_mon = int mo - 2, pg_mday = int d,
        pg_hour = int h, pg_min = int mi, pg_sec = int sc, pg_isdst = 0, pg_gmtoff = 0\<rparr>)) (\<lambda>dt.
    exec_dml_set spi Insert TRF2_7a
      [DInt64 t, DInt64 ca, DText symb, DTimestamp dt, DFloat8 price, DInt32 q] f))"
proof -
  have "in_i32 (int y - 3800)" "in_i32 (int mo - 2)" using assms by (simp_all add: in_i32_def)
  then show ?thesis
    by (simp add: TRF2_new_holding_def read_str_def strptime_iso [OF assms] TRF2_pg_tm_def)
qed

theorem new_holding_time_shifted_witness:
  "TRF2_new_holding (trf_spi sample_pg) sample_pg 1 ''AB'' 9 12 (Str (iso_timestamp 2010 5 17 9 30 0)) 30 sample_ctx =
    obind (exec_dml_set (trf_spi sample_pg) Insert TRF2_4a [DInt64 9, DInt64 9, DInt32 0, DInt32 30] sample_ctx) (\<lambda>f.
    obind (from_ptr (tm2timestamp sample_pg \<lparr>pg_year = - 1790, pg_mon = 3, pg_mday = 17,
        pg_hour = 9, pg_min = 30, pg_sec = 0, pg_isdst = 0, pg_gmtoff = 0\<rparr>)) (\<lambda>dt.
    exec_dml_set (trf_spi sample_pg) Insert TRF2_7a
      [DInt64 9, DInt64 1, DText ''AB'', DTimestamp dt, DFloat8 12, DInt32 30] f))"
  using new_holding_time_shifted [of 2010 5 17 9 30 0 "trf_spi sample_pg" sample_pg 1 "''AB''" 9 12 30 sample_ctx]
  by simp

text \<open>
  When the query for the current time does not return its row, the frame records a warning
  and goes on; a trade that opens a position then reads the slot of the trade time, which was
  never assigned, so the frame cannot return, whatever the database answers later.
\<close>

lemma new_holding_unset:
  "TRF2_new_holding spi pg ca symb t price Uninit q f \<noteq> Ok g"
  by (auto simp: TRF2_new_holding_def read_str_def obind_eq_Ok)

lemma lookup_unset_time:
  assumes "spi TRF2_now [] False (session f) = Ok (r, s)" "\<nexists>row. r = SPI_OK_SELECT [row]"
    and "TRF2_lookup spi ca f = Ok (v, f')"
  shows "v trf2_trade_dts = Uninit"
proof -
  have "(case r of SPI_OK_SELECT [row] \<Rightarrow> a row | _ \<Rightarrow> b) = b" for a and b :: "(trf2 \<Rightarrow> slot) \<times> (trf_stmt, 'a) fctx"
    using assms(2) by (cases r) (auto split: list.split)
  with assms(1,3) obtain r' f1 where
    "(case r' of SPI_OK_SELECT (row # _) \<Rightarrow>
        ((\<lambda>_. Uninit)(trf2_broker_id := Ptr (SPI_getvalue row 1), trf2_cust_id := Ptr (SPI_getvalue row 2),
           trf2_tax_status := Ptr (SPI_getvalue row 3)), f1)
      | _ \<Rightarrow> (\<lambda>_. Uninit, FAIL_FRAME_SET TRF2_1 f1)) = (v, f')"
    by (auto simp: TRF2_lookup_def obind_eq_Ok Let_def)
  then show ?thesis by (cases r') (auto split: list.splits)
qed

theorem frame2_unset_time:
  assumes "\<And>s. \<exists>r s'. spi TRF2_now [] False s = Ok (r, s') \<and> (\<nexists>row. r = SPI_OK_SELECT [row])"
    and "0 < n"
  shows "TradeResultFrame2 prepare spi pg ca 0 is_lifo symb t price n type_is_sell f \<noteq> Ok x"
proof
  assume "TradeResultFrame2 prepare spi pg ca 0 is_lifo symb t price n type_is_sell f = Ok x"
  then obtain f1 f2 v y where lk: "TRF2_lookup spi ca f1 = Ok (v, f2)"
    and mv: "(if type_is_sell = 1 then TRF2_sell else TRF2_buy) spi pg ca 0 is_lifo (copy_len S_SYMB_LEN symb) t
      (rnd64 price) n (v trf2_trade_dts) f2 = Ok y"
    by (auto simp: TradeResultFrame2_def obind_eq_Ok Let_def)
  have "v trf2_trade_dts = Uninit" using assms(1) lookup_unset_time [OF _ _ lk] by blast
  with mv assms(2) show False
    by (auto simp: TRF2_sell_def TRF2_buy_def obind_eq_Ok new_holding_unset split: if_splits)
qed

theorem frame2_unset_time_witness:
  "\<nexists>x. TradeResultFrame2 (\<lambda>_. True) (\<lambda>_ _ _ s. Ok (SPI_ERROR (- 2), s)) sample_pg 1 0 0 ''AB'' 9 12 30 1
     (sample_ctx :: (trf_stmt, pgsession) fctx) = Ok x"
  using frame2_unset_time [of "\<lambda>_ _ _ s. Ok (SPI_ERROR (- 2), s)" 30 "\<lambda>_. True" sample_pg 1 0 "''AB''" 9 12 1
      "sample_ctx :: (trf_stmt, pgsession) fctx"] by simp

section \<open>Frame 1\<close>

lemma planned:
  assumes "\<And>s. s \<in> set ss \<Longrightarrow> prepare s"
  obtains ps where "plan_queries prepare ss f = Ok (f\<lparr>plans := ps\<rparr>)" "set ss \<subseteq> set ps"
  using plan_queries_ok [of ss prepare f] assms by auto

definition trf1_out :: "trade_row \<Rightarrow> trade_type_row \<Rightarrow> int \<Rightarrow> spi_row" where
  "trf1_out r ty hs = [int_txt (t_ca_id r), num_txt 2 (t_chrg r), int_txt hs, case_txt (t_lifo r),
     Some ''1'', Some (t_s_symb r), case_txt (t_is_cash r), int_txt (t_qty r), Some (t_tt_id r),
     case_txt (tt_is_mrkt ty), case_txt (tt_is_sell ty), Some (tt_name ty)]"

lemma snprintf_small: "snprintf_d 11 0 = ''0''" "snprintf_d 11 1 = ''1''"
  by code_simp+

lemma show_int_0: "show_int 0 = ''0''"
  by code_simp

lemma i32_small [simp]: "i32 0 = 0" "i32 1 = 1"
  by (simp_all add: in_i32_def)

lemma frame1_runs:
  assumes "\<And>s. s \<in> set TRF1_statements \<Longrightarrow> prepare s"
    and "filter (\<lambda>r. t_id r = t) (trade_tbl (snap_of f)) = [r]" "in_i64 (t_ca_id r)"
    and "filter (\<lambda>y. tt_id y = t_tt_id r) (trade_type_tbl (snap_of f)) = ty # tys"
  shows "\<exists>ps. TradeResultFrame1 prepare (trf_spi pg) t f =
    Ok ([trf1_out r ty (summary (t_ca_id r) (t_s_symb r) (snap_of f))], f\<lparr>max_calls := 1, plans := ps\<rparr>)"
proof -
  obtain ps where ps: "plan_queries prepare TRF1_statements (f\<lparr>max_calls := 1\<rparr>) =
      Ok (f\<lparr>max_calls := 1, plans := ps\<rparr>)" "set TRF1_statements \<subseteq> set ps"
    using planned [of TRF1_statements prepare "f\<lparr>max_calls := 1\<rparr>", OF assms(1)] by auto
  then have "TRF1_1 \<in> set ps" "TRF1_2 \<in> set ps" "TRF1_3 \<in> set ps"
    by (auto simp: TRF1_statements_def)
  with ps(1) assms(2-) show ?thesis
    by (intro exI [of _ ps], cases "summary_rows (t_ca_id r) (t_s_symb r) (snap_of f)")
      (simp_all add: TradeResultFrame1_def trf.exec_read_eq SQLTRF1_1_def SQLTRF1_2_def SQLTRF1_3_def summary_rows_def
        TRF1_trade_def read_str_def srf_return_def trf1_order_def trf1_out_def summary_def Let_def
        snprintf_small show_int_0 del: SPI_execute_plan_planned if_split)
qed

text \<open>
  Frame 1 on an existing trade: one row with the trade's account, charge, quantity, flags
  and type, \<open>num_found = 1\<close>, and as \<open>hs_qty\<close> the quantity of the position, 0 when the account
  has none.  \<open>atoi\<close> of that text is the quantity that frame 2 expects.  Nothing is changed and
  no warning is raised.
\<close>

theorem frame1_found:
  assumes "\<And>s. s \<in> set TRF1_statements \<Longrightarrow> prepare s"
    and "filter (\<lambda>r. t_id r = t) (trade_tbl (snap_of f)) = [r]" "in_i64 (t_ca_id r)"
    and "filter (\<lambda>y. tt_id y = t_tt_id r) (trade_type_tbl (snap_of f)) = ty # tys"
    and "in_i32 (summary (t_ca_id r) (t_s_symb r) (snap_of f))"
  shows "\<exists>ps row hs. TradeResultFrame1 prepare (trf_spi pg) t f = Ok ([row], f\<lparr>max_calls := 1, plans := ps\<rparr>)
    \<and> row = trf1_out r ty (summary (t_ca_id r) (t_s_symb r) (snap_of f))
    \<and> SPI_getvalue row 3 = Some hs \<and> atoi hs = summary (t_ca_id r) (t_s_symb r) (snap_of f)"
  using frame1_runs [OF assms(1-4)] assms(5) by (fastforce simp: trf1_out_def)

theorem frame1_found_witness:
  "\<exists>ps row hs. TradeResultFrame1 (\<lambda>_. True) (trf_spi sample_pg) 9 sample_ctx =
      Ok ([row], sample_ctx\<lparr>max_calls := 1, plans := ps\<rparr>)
    \<and> row = trf1_out sample_trade sample_type 100 \<and> SPI_getvalue row 3 = Some hs \<and> atoi hs = 100"
  using frame1_found [of "\<lambda>_. True" 9 sample_ctx sample_trade sample_type "[]" sample_pg]
  by (simp add: summary_def summary_rows_def in_i32_def in_i64_def sample_rows)

text \<open>
  Frame 1 on a trade that does not exist: one row in which \<open>num_found\<close> is 0 and every
  other column is zero or empty, so no slot is returned uninitialised.
\<close>

theorem frame1_not_found:
  assumes "\<And>s. s \<in> set TRF1_statements \<Longrightarrow> prepare s"
    and "t \<notin> t_id ` set (trade_tbl (snap_of f))"
  shows "\<exists>ps. TradeResultFrame1 prepare (trf_spi pg) t f =
    Ok ([map Some [''0'', ''0'', ''0'', ''0'', ''0'', '''', ''0'', ''0'', '''', ''0'', ''0'', '''']],
        f\<lparr>max_calls := 1, plans := ps\<rparr>)"
proof -
  obtain ps where ps: "plan_queries prepare TRF1_statements (f\<lparr>max_calls := 1\<rparr>) =
      Ok (f\<lparr>max_calls := 1, plans := ps\<rparr>)" "set TRF1_statements \<subseteq> set ps"
    using planned [of TRF1_statements prepare "f\<lparr>max_calls := 1\<rparr>", OF assms(1)] by auto
  then have "TRF1_1 \<in> set ps" by (auto simp: TRF1_statements_def)
  with ps(1) keyed_filter_none [OF assms(2)] show ?thesis
    by (intro exI [of _ ps]) (simp add: TradeResultFrame1_def trf.exec_read_eq SQLTRF1_1_def
        srf_return_def trf1_order_def TRF1_not_found_def snprintf_small del: SPI_execute_plan_planned)
qed

theorem frame1_not_found_witness:
  "\<exists>ps. TradeResultFrame1 (\<lambda>_. True) (trf_spi sample_pg) 10 sample_ctx =
    Ok ([map Some [''0'', ''0'', ''0'', ''0'', ''0'', '''', ''0'', ''0'', '''', ''0'', ''0'', '''']],
        sample_ctx\<lparr>max_calls := 1, plans := ps\<rparr>)"
  using frame1_not_found [of "\<lambda>_. True" 10 sample_ctx sample_pg] by (simp add: sample_rows)

section \<open>Frame 3\<close>

text \<open>The tax on the gain, rounded to a cent, as a double.\<close>

definition tax_due :: "rat \<Rightarrow> rat \<Rightarrow> int option \<Rightarrow> double" where
  "tax_due buy sell rate =
     fdiv (of_int (rne (fmul
       (case rate of None \<Rightarrow> 0 | Some x \<Rightarrow> fmul (fsub (rnd64 sell) (rnd64 buy)) (rnd64 (of_int x / 10 ^ 5)))
       100))) 100"

text \<open>
  Frame 3 is total on the tables.  It taxes the gain with the sum of the customer's tax
  rates, stores the amount in the trade and returns it; when the amount does not fit the
  column \<open>t_tax\<close>, a \<open>NUMERIC(10,2)\<close> that must not be negative, the update raises an SQL error,
  in particular for a loss.
\<close>

theorem frame3_tax:
  assumes "\<And>s. s \<in> set TRF3_statements \<Longrightarrow> prepare s"
  shows "\<exists>ps. TradeResultFrame3 prepare (trf_spi pg) buy c sell t f =
    (let tax = tax_due buy sell (sum_tax_rates c (snap_of f)); cents = float8_numeric2 pg tax; d = db_of f in
     if t \<in> t_id ` set (trade_tbl d) \<and> \<not> (numeric_ok 10 cents \<and> 0 \<le> cents) then Fail Sql_Error
     else Ok (tax, set_db (d\<lparr>trade_tbl := update_where (\<lambda>r. t_id r = t) (\<lambda>r. r\<lparr>t_tax := cents\<rparr>) (trade_tbl d)\<rparr>)
                (f\<lparr>plans := ps\<rparr>)))"
proof -
  obtain ps where ps: "plan_queries prepare TRF3_statements f = Ok (f\<lparr>plans := ps\<rparr>)" "set TRF3_statements \<subseteq> set ps"
    using planned [of TRF3_statements prepare f, OF assms] by auto
  then have "TRF3_1 \<in> set ps" "TRF3_2 \<in> set ps" by (auto simp: TRF3_statements_def)
  moreover have "filter (\<lambda>r. t_id r = t) (trade_tbl (db_of f)) = [] \<longleftrightarrow> t \<notin> t_id ` set (trade_tbl (db_of f))"
    by (auto simp: filter_empty_conv)
  ultimately show ?thesis using ps(1)
    by (intro exI [of _ ps], cases "sum_tax_rates c (snap_of f)")
      (auto simp: TradeResultFrame3_def trf.frame_eqs SQLTRF3_1_def SQLTRF3_2_def tax_due_def Let_def
        atof_numeric_out sql_check_def simp del: SPI_execute_plan_planned)
qed

theorem frame3_tax_witness:
  "\<exists>ps. TradeResultFrame3 (\<lambda>_. True) (trf_spi sample_pg) 300 3 360 9 sample_ctx =
     Ok (15, set_db (sample_db\<lparr>trade_tbl := [sample_trade\<lparr>t_tax := 1500\<rparr>]\<rparr>) (sample_ctx\<lparr>plans := ps\<rparr>))"
proof -
  have "tax_due 300 360 (Some 25000) = 15" by code_simp
  then show ?thesis
    using frame3_tax [of "\<lambda>_. True" sample_pg 300 3 360 9 sample_ctx]
    by (simp add: sum_tax_rates_def numeric_ok_def sample_trade_def)
qed


section \<open>Frame 4\<close>

definition rates_for :: "int \<Rightarrow> string \<Rightarrow> string \<Rightarrow> int \<Rightarrow> db \<Rightarrow> commission_rate_row list" where
  "rates_for tier tt ex q d = filter (\<lambda>r. cr_c_tier r = tier \<and> cr_tt_id r = tt \<and> cr_ex_id r = ex
     \<and> cr_from_qty r \<le> q \<and> q \<le> cr_to_qty r) (commission_rate_tbl d)"

definition securities :: "string \<Rightarrow> db \<Rightarrow> security_row list" where
  "securities symb d = filter (\<lambda>r. s_symb r = symb) (security_tbl d)"

definition customers :: "int \<Rightarrow> db \<Rightarrow> customer_row list" where
  "customers c d = filter (\<lambda>r. c_id r = c) (customer_tbl d)"

text \<open>
  Frame 4 on every database: it returns the commission rate of the customer's tier, the
  trade type, the exchange of the security and the bracket of the quantity, with the name of
  the security.  When the security, the customer or the rate is missing it returns no row and
  one warning, naming the query that found nothing; it never reads a slot it did not assign.
\<close>

theorem frame4_rate:
  assumes "\<And>s. s \<in> set TRF4_statements \<Longrightarrow> prepare s"
    and "is_cstr symb" "is_cstr tt" "\<forall>r \<in> set (customer_tbl (snap_of f)). in_i32 (c_tier r)"
  shows "\<exists>ps. TradeResultFrame4 prepare (trf_spi pg) c symb q tt f =
    (let d = snap_of f; f' = f\<lparr>max_calls := 1, plans := ps\<rparr> in
     case securities (take 15 symb) d of
       [] \<Rightarrow> Ok ([], FAIL_FRAME_SET TRF4_1 f')
     | s # _ \<Rightarrow> (case customers c d of
         [] \<Rightarrow> Ok ([], FAIL_FRAME_SET TRF4_2 f')
       | k # _ \<Rightarrow> (case rates_for (c_tier k) (take 3 tt) (s_ex_id s) q d of
           [] \<Rightarrow> Ok ([], FAIL_FRAME_SET TRF4_3 f')
         | r # _ \<Rightarrow> Ok ([[num_txt 2 (cr_rate r), Some (s_name s)]], f'))))"
proof -
  obtain ps where ps: "plan_queries prepare TRF4_statements (f\<lparr>max_calls := 1\<rparr>) =
      Ok (f\<lparr>max_calls := 1, plans := ps\<rparr>)" "set TRF4_statements \<subseteq> set ps"
    using planned [of TRF4_statements prepare "f\<lparr>max_calls := 1\<rparr>", OF assms(1)] by auto
  then have pl: "TRF4_1 \<in> set ps" "TRF4_2 \<in> set ps" "TRF4_3 \<in> set ps" by (auto simp: TRF4_statements_def)
  have tier: "atoi (show_int (c_tier k)) = c_tier k" if "customers c (snap_of f) = k # ks" for k ks
  proof -
    have "k \<in> set (customers c (snap_of f))" using that by simp
    with assms(4) show ?thesis by (simp add: customers_def)
  qed
  note evals = TradeResultFrame4_def trf.exec_read_eq SQLTRF4_1_def SQLTRF4_2_def SQLTRF4_3_def
    srf_return_def trf4_order_def Let_def securities_def [symmetric] customers_def [symmetric]
    rates_for_def [symmetric]
  show ?thesis
  proof (cases "securities (take 15 symb) (snap_of f)")
    case Nil
    with pl ps(1) assms(2,3) show ?thesis
      by (intro exI [of _ ps]) (simp add: evals del: SPI_execute_plan_planned)
  next
    case (Cons s ss)
    show ?thesis
    proof (cases "customers c (snap_of f)")
      case Nil
      with Cons pl ps(1) assms(2,3) show ?thesis
        by (intro exI [of _ ps]) (simp add: evals del: SPI_execute_plan_planned)
    next
      case (Cons k ks)
      with \<open>securities _ _ = s # ss\<close> pl ps(1) assms(2,3) tier [OF Cons] show ?thesis
        by (intro exI [of _ ps], cases "rates_for (c_tier k) (take 3 tt) (s_ex_id s) q (snap_of f)")
          (simp_all add: evals del: SPI_execute_plan_planned)
    qed
  qed
qed

theorem frame4_rate_witness:
  "\<exists>ps. TradeResultFrame4 (\<lambda>_. True) (trf_spi sample_pg) 3 ''AB'' 30 ''TMS'' sample_ctx =
     Ok ([[num_txt 2 25, Some ''AB of Alphabeta'']], sample_ctx\<lparr>max_calls := 1, plans := ps\<rparr>)"
  using frame4_rate [of "\<lambda>_. True" "''AB''" "''TMS''" sample_ctx sample_pg 3 30]
  by (simp add: is_cstr_def securities_def customers_def rates_for_def in_i32_def sample_rows)

section \<open>Frame 5\<close>

definition trade_of :: "int \<Rightarrow> db \<Rightarrow> trade_row option" where
  "trade_of t d = find (\<lambda>r. t_id r = t) (trade_tbl d)"

definition broker_of :: "int \<Rightarrow> db \<Rightarrow> broker_row option" where
  "broker_of b d = find (\<lambda>r. b_id r = b) (broker_tbl d)"

text \<open>The new commission total of a broker: added in double precision, stored in cents.\<close>

definition comm_total :: "pgapi \<Rightarrow> rat \<Rightarrow> broker_row \<Rightarrow> int" where
  "comm_total pg comm r = float8_numeric2 pg (fadd (rnd64 (of_int (b_comm_total r) / 10 ^ 2)) (rnd64 comm))"

definition close_ready :: "pgapi \<Rightarrow> int \<Rightarrow> rat \<Rightarrow> string \<Rightarrow> int \<Rightarrow> rat \<Rightarrow> db \<Rightarrow> bool" where
  "close_ready pg b comm st t price d \<longleftrightarrow>
     is_cstr st \<and> numeric_ok 10 (float8_numeric2 pg (rnd64 comm)) \<and> 0 \<le> float8_numeric2 pg (rnd64 comm)
     \<and> numeric_ok 12 (float8_numeric2 pg (rnd64 price))
     \<and> (\<forall>r \<in> set (broker_tbl d). b_id r = b \<longrightarrow> numeric_ok 12 (comm_total pg comm r) \<and> in_i32 (b_num_trades r + 1))"

definition closed_db :: "pgapi \<Rightarrow> int \<Rightarrow> rat \<Rightarrow> string \<Rightarrow> int \<Rightarrow> int \<Rightarrow> rat \<Rightarrow> db \<Rightarrow> db" where
  "closed_db pg b comm st dts t price d = d\<lparr>
     trade_tbl := update_where (\<lambda>r. t_id r = t) (\<lambda>r. r\<lparr>t_comm := float8_numeric2 pg (rnd64 comm), t_dts := dts,
       t_st_id := st, t_trade_price := Some (float8_numeric2 pg (rnd64 price))\<rparr>) (trade_tbl d),
     trade_history_tbl := trade_history_tbl d @ [\<lparr>th_t_id = t, th_dts = dts, th_st_id = st\<rparr>],
     broker_tbl := update_where (\<lambda>r. b_id r = b)
       (\<lambda>r. r\<lparr>b_comm_total := comm_total pg comm r, b_num_trades := b_num_trades r + 1\<rparr>) (broker_tbl d)\<rparr>"

lemma frame5_runs:
  assumes "\<And>s. s \<in> set TRF5_statements \<Longrightarrow> prepare s"
    and "close_ready pg b comm st t price (db_of f)"
  shows "\<exists>ps. TradeResultFrame5 prepare (trf_spi pg) b comm st dts t price f =
    (if (t, take 4 st) \<in> (\<lambda>r. (th_t_id r, th_st_id r)) ` set (trade_history_tbl (db_of f)) then Fail Sql_Error
     else Ok (0, set_db (closed_db pg b comm (take 4 st) dts t price (db_of f)) (f\<lparr>plans := ps\<rparr>)))"
proof -
  obtain ps where ps: "plan_queries prepare TRF5_statements f = Ok (f\<lparr>plans := ps\<rparr>)" "set TRF5_statements \<subseteq> set ps"
    using planned [of TRF5_statements prepare f, OF assms(1)] by auto
  then have pl: "TRF5_1 \<in> set ps" "TRF5_2 \<in> set ps" "TRF5_3 \<in> set ps" by (auto simp: TRF5_statements_def)
  have st: "copy_len ST_ID_LEN st = take 4 st" "length (take 4 st) \<le> 4" using assms(2) by (simp_all add: close_ready_def)
  from ps(1) pl st(2) assms(2) show ?thesis
    by (intro exI [of _ ps]) (auto simp: TradeResultFrame5_def st(1) trf.frame_eqs SQLTRF5_1_def SQLTRF5_2_def
        SQLTRF5_3_def closed_db_def close_ready_def comm_total_def atof_numeric_out sql_check_def Let_def
        simp del: SPI_execute_plan_planned)
qed

text \<open>
  Frame 5 closes the trade: its commission, time, status and price are set, one row of
  history is added, the broker has one trade more and the commission added to the total; every
  other trade and every other broker is untouched, and no warning is raised.
\<close>

theorem frame5_closes:
  assumes "\<And>s. s \<in> set TRF5_statements \<Longrightarrow> prepare s"
    and "close_ready pg b comm st t price (db_of f)"
    and "(t, take 4 st) \<notin> (\<lambda>r. (th_t_id r, th_st_id r)) ` set (trade_history_tbl (db_of f))"
  shows "\<exists>f'. TradeResultFrame5 prepare (trf_spi pg) b comm st dts t price f = Ok (0, f') \<and> warnings f' = warnings f
    \<and> (\<forall>u. trade_of u (db_of f') = (if u = t then map_option (\<lambda>r. r\<lparr>t_comm := float8_numeric2 pg (rnd64 comm),
          t_dts := dts, t_st_id := take 4 st, t_trade_price := Some (float8_numeric2 pg (rnd64 price))\<rparr>)
          (trade_of t (db_of f)) else trade_of u (db_of f)))
    \<and> (\<forall>u. broker_of u (db_of f') = (if u = b then map_option (\<lambda>r. r\<lparr>b_comm_total := comm_total pg comm r,
          b_num_trades := b_num_trades r + 1\<rparr>) (broker_of b (db_of f)) else broker_of u (db_of f)))
    \<and> trade_history_tbl (db_of f') = trade_history_tbl (db_of f) @ [\<lparr>th_t_id = t, th_dts = dts, th_st_id = take 4 st\<rparr>]"
proof -
  obtain ps where "TradeResultFrame5 prepare (trf_spi pg) b comm st dts t price f =
      Ok (0, set_db (closed_db pg b comm (take 4 st) dts t price (db_of f)) (f\<lparr>plans := ps\<rparr>))"
    using frame5_runs [of prepare, OF assms(1,2), of dts] assms(3) by auto
  then show ?thesis
    by (intro exI conjI) (assumption, simp_all add: closed_db_def trade_of_def broker_of_def find_update_where)
qed

lemma rnd64_8 [simp]: "rnd64 8 = 8"
  using rnd64_of_int [of 8] by simp

lemma sample_comm_total: "comm_total sample_pg 8 sample_broker = 1700"
proof -
  have "rne (fadd (rnd64 (900 / 100)) 8 * 100) = 1700" by code_simp
  then show ?thesis by (simp add: comm_total_def sample_broker_def)
qed

lemma sample_close_ready: "close_ready sample_pg 2 8 ''CMPT'' 9 12 sample_db"
  by (simp add: close_ready_def is_cstr_def numeric_ok_def in_i32_def sample_comm_total)
    (simp add: sample_rows)

theorem frame5_closes_witness:
  "\<exists>f'. TradeResultFrame5 (\<lambda>_. True) (trf_spi sample_pg) 2 8 ''CMPT'' 77 9 12 sample_ctx = Ok (0, f')
    \<and> trade_of 9 (db_of f') = Some (sample_trade\<lparr>t_comm := 800, t_dts := 77, t_st_id := ''CMPT'',
         t_trade_price := Some 1200\<rparr>)
    \<and> broker_of 2 (db_of f') = Some (sample_broker\<lparr>b_comm_total := 1700, b_num_trades := 8\<rparr>)"
proof -
  have "trade_of 9 sample_db = Some sample_trade" "broker_of 2 sample_db = Some sample_broker" "b_num_trades sample_broker = 7"
    by (simp_all add: trade_of_def broker_of_def sample_rows)
  then show ?thesis
    using frame5_closes [of "\<lambda>_. True" sample_pg 2 8 "''CMPT''" 9 12 sample_ctx 77] sample_close_ready
    by (auto simp: sample_comm_total)
qed

text \<open>
  A trade is closed once: calling frame 5 again for the same trade and status, on the
  tables the first call left, raises an SQL error, whatever the second call's amounts.
\<close>

theorem frame5_once:
  assumes "\<And>s. s \<in> set TRF5_statements \<Longrightarrow> prepare s"
    and "TradeResultFrame5 prepare (trf_spi pg) b comm st dts t price f = Ok (0, f')"
    and "close_ready pg b comm st t price (db_of f)" "close_ready pg b' comm' st t price' (db_of f')"
  shows "TradeResultFrame5 prepare (trf_spi pg) b' comm' st dts' t price' f' = Fail Sql_Error"
proof -
  have "(t, take 4 st) \<in> (\<lambda>r. (th_t_id r, th_st_id r)) ` set (trade_history_tbl (db_of f'))"
    using frame5_runs [of prepare, OF assms(1,3), of dts] assms(2) by (auto simp: closed_db_def split: if_splits)
  then show ?thesis using frame5_runs [of prepare, OF assms(1,4), of dts'] by simp
qed


lemma sample_close_again: "close_ready sample_pg 2 8 ''CMPT'' 9 12 (closed_db sample_pg 2 8 ''CMPT'' 77 9 12 sample_db)"
proof -
  have "rne (fadd (rnd64 (1700 / 100)) 8 * 100) = 2500" by code_simp
  then have "comm_total sample_pg 8 (sample_broker\<lparr>b_comm_total := 1700, b_num_trades := 8\<rparr>) = 2500"
    by (simp add: comm_total_def)
  then show ?thesis
    by (simp add: close_ready_def closed_db_def is_cstr_def numeric_ok_def in_i32_def sample_comm_total)
      (simp add: sample_rows)
qed

theorem frame5_once_witness:
  "\<exists>f'. TradeResultFrame5 (\<lambda>_. True) (trf_spi sample_pg) 2 8 ''CMPT'' 77 9 12 sample_ctx = Ok (0, f')
    \<and> TradeResultFrame5 (\<lambda>_. True) (trf_spi sample_pg) 2 8 ''CMPT'' 78 9 12 f' = Fail Sql_Error"
proof -
  obtain ps where run: "TradeResultFrame5 (\<lambda>_. True) (trf_spi sample_pg) 2 8 ''CMPT'' 77 9 12 sample_ctx =
      Ok (0, set_db (closed_db sample_pg 2 8 ''CMPT'' 77 9 12 sample_db) (sample_ctx\<lparr>plans := ps\<rparr>))"
    using frame5_runs [of "\<lambda>_. True" sample_pg 2 8 "''CMPT''" 9 12 sample_ctx 77] sample_close_ready by auto
  show ?thesis
    using frame5_once [of "\<lambda>_. True" sample_pg 2 8 "''CMPT''" 77 9 12 sample_ctx _ 2 8 12 78, OF _ run]
      sample_close_ready sample_close_again run by auto
qed

section \<open>Frame 6\<close>

text \<open>The balance of the account after the settlement, in cents.\<close>

definition new_balance :: "pgapi \<Rightarrow> rat \<Rightarrow> int \<Rightarrow> int \<Rightarrow> int" where
  "new_balance pg amt trade_is_cash bal =
     (if trade_is_cash = 1 then float8_numeric2 pg (fadd (rnd64 (of_int bal / 10 ^ 2)) (rnd64 amt)) else bal)"

definition settlement_of :: "int \<Rightarrow> int \<Rightarrow> int \<Rightarrow> int \<Rightarrow> settlement_row" where
  "settlement_of t trade_is_cash due a = \<lparr>se_t_id = t,
     se_cash_type = (if trade_is_cash = 1 then ''Cash Account'' else ''Margin''), se_cash_due_date = due, se_amt = a\<rparr>"

definition settle_ready :: "pgapi \<Rightarrow> int \<Rightarrow> rat \<Rightarrow> int \<Rightarrow> int \<Rightarrow> int \<Rightarrow> string \<Rightarrow> string \<Rightarrow> db \<Rightarrow> bool" where
  "settle_ready pg ca amt t trade_is_cash q sname tname d \<longleftrightarrow>
     is_cstr sname \<and> is_cstr tname \<and> numeric_ok 10 (float8_numeric2 pg (rnd64 amt))
     \<and> t \<notin> se_t_id ` set (settlement_tbl d) \<and> t \<notin> ct_t_id ` set (cash_transaction_tbl d)
     \<and> length (cash_name (take 12 tname) q (take 70 sname)) \<le> 100
     \<and> distinct (map ca_id (customer_account_tbl d))
     \<and> (\<forall>r \<in> set (customer_account_tbl d). ca_id r = ca \<longrightarrow> numeric_ok 12 (new_balance pg amt trade_is_cash (ca_bal r)))"

definition settled_db :: "pgapi \<Rightarrow> int \<Rightarrow> int \<Rightarrow> rat \<Rightarrow> int \<Rightarrow> int \<Rightarrow> int \<Rightarrow> int \<Rightarrow> string \<Rightarrow> string \<Rightarrow> db \<Rightarrow> db" where
  "settled_db pg ca due amt dts t trade_is_cash q sname tname d =
     (let a = float8_numeric2 pg (rnd64 amt);
          d = d\<lparr>settlement_tbl := settlement_tbl d @ [settlement_of t trade_is_cash due a]\<rparr> in
      if trade_is_cash = 1 then
        d\<lparr>customer_account_tbl := update_where (\<lambda>r. ca_id r = ca)
             (\<lambda>r. r\<lparr>ca_bal := new_balance pg amt 1 (ca_bal r)\<rparr>) (customer_account_tbl d),
          cash_transaction_tbl := cash_transaction_tbl d @ [\<lparr>ct_t_id = t, ct_dts = dts, ct_amt = a,
             ct_name = Some (cash_name (take 12 tname) q (take 70 sname))\<rparr>]\<rparr>
      else d)"

lemma keyed_find_filter:
  assumes "distinct (map k rs)" "find (\<lambda>r. k r = v) rs = Some r"
  shows "filter (\<lambda>r. k r = v) rs = [r]"
proof -
  have "r \<in> set rs" "k r = v" using assms(2) by (auto simp: find_Some_iff)
  then show ?thesis using keyed_filter_single [OF assms(1)] by auto
qed

lemma frame6_runs:
  assumes prep: "\<And>s. s \<in> set TRF6_statements \<Longrightarrow> prepare s"
    and due: "timestamp2tm pg due_ts = Some tm" "date_in pg (EncodeDateTime pg tm) = Ok due"
    and rdy: "settle_ready pg ca amt t trade_is_cash q sname tname (db_of f)"
    and acct: "account_row ca (db_of f) = Some r"
  shows "\<exists>ps. TradeResultFrame6 prepare (trf_spi pg) pg ca due_ts sname amt dts t trade_is_cash q tname f =
    Ok (rnd64 (of_int (new_balance pg amt trade_is_cash (ca_bal r)) / 10 ^ 2),
        set_db (settled_db pg ca due amt dts t trade_is_cash q sname tname (db_of f)) (f\<lparr>plans := ps\<rparr>))"
proof -
  obtain ps where ps: "plan_queries prepare TRF6_statements f = Ok (f\<lparr>plans := ps\<rparr>)" "set TRF6_statements \<subseteq> set ps"
    using planned [of TRF6_statements prepare f, OF prep] by auto
  then have pl: "TRF6_1 \<in> set ps" "TRF6_2 \<in> set ps" "TRF6_3 \<in> set ps" "TRF6_4 \<in> set ps"
    by (auto simp: TRF6_statements_def)
  have r: "filter (\<lambda>r. ca_id r = ca) (customer_account_tbl (db_of f)) = [r]"
    using rdy acct by (auto simp: settle_ready_def account_row_def intro: keyed_find_filter)
  have r': "filter (\<lambda>r. ca_id r = ca) (update_where (\<lambda>r. ca_id r = ca) g (customer_account_tbl (db_of f))) = [g r]"
    if "\<And>r. ca_id (g r) = ca_id r" for g
    using that r by (subst filter_update_where) (auto simp: filter_eq_Cons_iff)
  have in_tbl: "r \<in> set (customer_account_tbl (db_of f))" "ca_id r = ca"
    using arg_cong [OF r, of set] by auto
  note evals = TradeResultFrame6_def trf.frame_eqs SQLTRF6_1_def SQLTRF6_2_def SQLTRF6_3_def SQLTRF6_4_def
    settle_ready_def settled_db_def settlement_of_def new_balance_def atof_numeric_out sql_check_def Let_def
    getvalue_atof_def read_str_def
  from ps(1) pl due rdy r r' in_tbl show ?thesis
    by (intro exI [of _ ps], cases "trade_is_cash = 1")
      (simp_all add: evals del: SPI_execute_plan_planned)
qed

text \<open>
  C13. Frame 6 settles the trade.  It records the settlement with its due date and, for a cash
  trade, adds the amount to the balance of the account and records the cash transaction; for a
  margin trade the balance stays.  The balance it returns is the one after its own update.
\<close>

theorem frame6_settles:
  assumes "\<And>s. s \<in> set TRF6_statements \<Longrightarrow> prepare s"
    and "timestamp2tm pg due_ts = Some tm" "date_in pg (EncodeDateTime pg tm) = Ok due"
    and "settle_ready pg ca amt t trade_is_cash q sname tname (db_of f)"
    and "account_row ca (db_of f) = Some r"
  shows "\<exists>f' bal r'. TradeResultFrame6 prepare (trf_spi pg) pg ca due_ts sname amt dts t trade_is_cash q tname f = Ok (bal, f')
    \<and> warnings f' = warnings f \<and> account_row ca (db_of f') = Some r'
    \<and> bal = rnd64 (of_int (ca_bal r') / 10 ^ 2) \<and> ca_bal r' = new_balance pg amt trade_is_cash (ca_bal r)
    \<and> (\<forall>u. u \<noteq> ca \<longrightarrow> account_row u (db_of f') = account_row u (db_of f))
    \<and> settlement_tbl (db_of f') = settlement_tbl (db_of f) @ [settlement_of t trade_is_cash due (float8_numeric2 pg (rnd64 amt))]
    \<and> length (cash_transaction_tbl (db_of f')) = length (cash_transaction_tbl (db_of f)) + (if trade_is_cash = 1 then 1 else 0)"
proof -
  obtain ps where run: "TradeResultFrame6 prepare (trf_spi pg) pg ca due_ts sname amt dts t trade_is_cash q tname f =
    Ok (rnd64 (of_int (new_balance pg amt trade_is_cash (ca_bal r)) / 10 ^ 2),
        set_db (settled_db pg ca due amt dts t trade_is_cash q sname tname (db_of f)) (f\<lparr>plans := ps\<rparr>))"
    using frame6_runs [of prepare, OF assms] by blast
  have upd: "account_row u (settled_db pg ca due amt dts t trade_is_cash q sname tname d) =
      (if u = ca then map_option (\<lambda>r. r\<lparr>ca_bal := new_balance pg amt trade_is_cash (ca_bal r)\<rparr>) (account_row u d)
       else account_row u d)" for u d
    by (cases "account_row u d")
      (simp_all add: settled_db_def Let_def account_row_def find_update_where new_balance_def option.map_ident)
  have rest: "settlement_tbl (settled_db pg ca due amt dts t trade_is_cash q sname tname d) =
      settlement_tbl d @ [settlement_of t trade_is_cash due (float8_numeric2 pg (rnd64 amt))]"
    "length (cash_transaction_tbl (settled_db pg ca due amt dts t trade_is_cash q sname tname d)) =
      length (cash_transaction_tbl d) + (if trade_is_cash = 1 then 1 else 0)" for d
    by (simp_all add: settled_db_def Let_def)
  have acct: "account_row ca (settled_db pg ca due amt dts t trade_is_cash q sname tname (db_of f)) =
      Some (r\<lparr>ca_bal := new_balance pg amt trade_is_cash (ca_bal r)\<rparr>)"
    using assms(5) by (simp add: upd)
  show ?thesis
    unfolding run by (rule exI, rule exI, rule exI, rule conjI, rule refl, intro conjI)
      (simp, simp only: set_db_simps, rule acct, simp_all add: upd rest)
qed

theorem frame6_settles_witness:
  "\<exists>f' bal r'. TradeResultFrame6 (\<lambda>_. True) (trf_spi sample_pg) sample_pg 1 (86400 * 3) ''AB of Alphabeta'' 8 77 9 1 30
      ''Market-Sell'' sample_ctx = Ok (bal, f')
    \<and> account_row 1 (db_of f') = Some r' \<and> ca_bal r' = 50800
    \<and> settlement_tbl (db_of f') = [\<lparr>se_t_id = 9, se_cash_type = ''Cash Account'', se_cash_due_date = 3, se_amt = 800\<rparr>]"
proof -
  have "rne (fadd (rnd64 (50000 / 100)) 8 * 100) = 50800" by code_simp
  then have b: "new_balance sample_pg 8 1 50000 = 50800" by (simp add: new_balance_def)
  have n: "length (cash_name (take 12 ''Market-Sell'') 30 (take 70 ''AB of Alphabeta'')) \<le> 100" by code_simp
  have "settle_ready sample_pg 1 8 9 1 30 ''AB of Alphabeta'' ''Market-Sell'' sample_db"
    using n by (simp add: settle_ready_def is_cstr_def numeric_ok_def sample_account_def b)
  then show ?thesis
    using frame6_settles [of "\<lambda>_. True" sample_pg "86400 * 3" "\<lparr>pg_year = 0, pg_mon = 0, pg_mday = 3, pg_hour = 0,
        pg_min = 0, pg_sec = 0, pg_isdst = 0, pg_gmtoff = 0\<rparr>" 3 1 8 9 1 30 "''AB of Alphabeta''" "''Market-Sell''"
        sample_ctx sample_account 77] sample_account_row b
    by (auto simp: sample_account_def settlement_of_def in_i32_def)
qed

end
