(* ===== verification/TradeOrder.thy ===== *)
theory TradeOrder
  imports TradeResult
begin

text \<open>
  The Trade-Order transaction, \<^verbatim>\<open>storedproc/pgsql/c/trade_order.c\<close>: frame 1 reads the account,
  frame 2 the permission of the executor, frame 3 estimates the impact of the order without
  changing anything, frame 4 enters the order.  Frame 3 is modelled up to the end of the block of
  its first call, where two of the pointers it has stored lose the arrays they point to, and then
  to the row it builds from them.

  First the SQL statements on the tables, then the frames over an arbitrary database
  interface \<open>spi\<close>.
\<close>

section \<open>SQL statements\<close>

datatype tof_stmt =
    TOF1_1 | TOF1_2 | TOF1_3
  | TOF2_1
  | TOF3_1a | TOF3_2a | TOF3_1b | TOF3_2b | TOF3_3 | TOF3_4 | TOF3_5 | TOF3_6a | TOF3_6b
  | TOF3_7 | TOF3_8 | TOF3_9 | TOF3_10 | TOF3_11
  | TOF4_1 | TOF4_2 | TOF4_3

definition TOF1_statements :: "tof_stmt list" where
  "TOF1_statements = [TOF1_1, TOF1_2, TOF1_3]"

definition TOF2_statements :: "tof_stmt list" where
  "TOF2_statements = [TOF2_1]"

definition TOF3_statements :: "tof_stmt list" where
  "TOF3_statements = [TOF3_1a, TOF3_2a, TOF3_1b, TOF3_2b, TOF3_3, TOF3_4, TOF3_5, TOF3_6a, TOF3_6b,
     TOF3_7, TOF3_8, TOF3_9, TOF3_10, TOF3_11]"

definition TOF4_statements :: "tof_stmt list" where
  "TOF4_statements = [TOF4_1, TOF4_2, TOF4_3]"

definition SQLTOF1_1 :: "int \<Rightarrow> sql" where
  "SQLTOF1_1 ca d = sql_select
     (map (\<lambda>r. [ca_name r, int_txt (ca_b_id r), int_txt (ca_c_id r), int_txt (ca_tax_st r)])
        (filter (\<lambda>r. ca_id r = ca) (customer_account_tbl d))) d"

definition SQLTOF1_2 :: "int \<Rightarrow> sql" where
  "SQLTOF1_2 c d = sql_select
     (map (\<lambda>r. [Some (c_f_name r), Some (c_l_name r), int_txt (c_tier r), Some (c_tax_id r)])
        (filter (\<lambda>r. c_id r = c) (customer_tbl d))) d"

definition SQLTOF1_3 :: "int \<Rightarrow> sql" where
  "SQLTOF1_3 b d = sql_select
     (map (\<lambda>r. [Some (b_name r)]) (filter (\<lambda>r. b_id r = b) (broker_tbl d))) d"

definition SQLTOF2_1 :: "int \<Rightarrow> string \<Rightarrow> string \<Rightarrow> string \<Rightarrow> sql" where
  "SQLTOF2_1 ca fname lname tax d = sql_select
     (map (\<lambda>r. [Some (ap_acl r)])
        (filter (\<lambda>r. ap_ca_id r = ca \<and> ap_f_name r = fname \<and> ap_l_name r = lname \<and> ap_tax_id r = tax)
          (account_permission_tbl d))) d"

definition SQLTOF3_1a :: "string \<Rightarrow> sql" where
  "SQLTOF3_1a name d = sql_select
     (map (\<lambda>r. [int_txt (co_id r)]) (filter (\<lambda>r. co_name r = name) (company_tbl d))) d"

definition SQLTOF3_2a :: "int \<Rightarrow> string \<Rightarrow> sql" where
  "SQLTOF3_2a co issue d = sql_select
     (map (\<lambda>r. [Some (s_ex_id r), Some (s_name r), Some (s_symb r)])
        (filter (\<lambda>r. s_co_id r = co \<and> s_issue r = issue) (security_tbl d))) d"

definition SQLTOF3_1b :: "string \<Rightarrow> sql" where
  "SQLTOF3_1b symb d = sql_select
     (map (\<lambda>r. [int_txt (s_co_id r), Some (s_ex_id r), Some (s_name r)])
        (filter (\<lambda>r. s_symb r = symb) (security_tbl d))) d"

definition SQLTOF3_2b :: "int \<Rightarrow> sql" where
  "SQLTOF3_2b co d = sql_select
     (map (\<lambda>r. [Some (co_name r)]) (filter (\<lambda>r. co_id r = co) (company_tbl d))) d"

definition SQLTOF3_3 :: "string \<Rightarrow> sql" where
  "SQLTOF3_3 symb d = sql_select
     (map (\<lambda>r. [num_txt 2 (lt_price r)]) (filter (\<lambda>r. lt_s_symb r = symb) (last_trade_tbl d))) d"

definition SQLTOF3_4 :: "string \<Rightarrow> sql" where
  "SQLTOF3_4 tt d = sql_select
     (map (\<lambda>r. [bool_txt (tt_is_mrkt r), bool_txt (tt_is_sell r)])
        (filter (\<lambda>r. tt_id r = tt) (trade_type_tbl d))) d"

definition SQLTOF3_5 :: "int \<Rightarrow> string \<Rightarrow> sql" where
  "SQLTOF3_5 ca symb d = sql_select
     (map (\<lambda>r. [int_txt (hs_qty r)])
        (filter (\<lambda>r. hs_ca_id r = ca \<and> hs_s_symb r = symb) (holding_summary_tbl d))) d"

definition lot_txt :: "holding_row \<Rightarrow> spi_row" where
  "lot_txt r = [int_txt (h_qty r), num_txt 2 (h_price r)]"

definition SQLTOF3_6a :: "int \<Rightarrow> string \<Rightarrow> sql" where
  "SQLTOF3_6a ca symb d = sql_select (map lot_txt (order_desc h_dts (holdings_of ca symb d))) d"

definition SQLTOF3_6b :: "int \<Rightarrow> string \<Rightarrow> sql" where
  "SQLTOF3_6b ca symb d = sql_select (map lot_txt (order_asc h_dts (holdings_of ca symb d))) d"

text \<open>\<open>SQLTOF3_7\<close> is the query of \<open>SQLTRF3_1\<close>.\<close>

definition SQLTOF3_7 :: "int \<Rightarrow> sql" where
  "SQLTOF3_7 c d = sql_select [[map_option (numeric_out 5) (sum_tax_rates c d)]] d"

definition SQLTOF3_8 :: "int \<Rightarrow> string \<Rightarrow> string \<Rightarrow> int \<Rightarrow> int \<Rightarrow> sql" where
  "SQLTOF3_8 tier tt ex q1 q2 d = sql_select
     (map (\<lambda>r. [num_txt 2 (cr_rate r)])
        (filter (\<lambda>r. cr_c_tier r = tier \<and> cr_tt_id r = tt \<and> cr_ex_id r = ex
                     \<and> cr_from_qty r \<le> q1 \<and> cr_to_qty r \<ge> q2) (commission_rate_tbl d))) d"

definition SQLTOF3_9 :: "int \<Rightarrow> string \<Rightarrow> sql" where
  "SQLTOF3_9 tier tt d = sql_select
     (map (\<lambda>r. [map_option (numeric_out 2) (ch_chrg r)])
        (filter (\<lambda>r. ch_c_tier r = tier \<and> ch_tt_id r = tt) (charge_tbl d))) d"

definition SQLTOF3_10 :: "int \<Rightarrow> sql" where
  "SQLTOF3_10 ca d = sql_select
     (map (\<lambda>r. [num_txt 2 (ca_bal r)]) (filter (\<lambda>r. ca_id r = ca) (customer_account_tbl d))) d"

text \<open>The join of the account's summaries with the last prices; no rows sum to an SQL null.\<close>

definition hold_assets :: "int \<Rightarrow> db \<Rightarrow> int option" where
  "hold_assets ca d =
     (let vs = [hs_qty h * lt_price l. h \<leftarrow> holding_summary_tbl d, l \<leftarrow> last_trade_tbl d,
                  hs_ca_id h = ca \<and> lt_s_symb l = hs_s_symb h]
      in if vs = [] then None else Some (sum_list vs))"

definition SQLTOF3_11 :: "int \<Rightarrow> sql" where
  "SQLTOF3_11 ca d = sql_select [[map_option (numeric_out 2) (hold_assets ca d)]] d"

text \<open>The insertion draws the identifier from the sequence and returns it.\<close>

definition SQLTOF4_1 :: "pgapi \<Rightarrow> string \<Rightarrow> string \<Rightarrow> bool \<Rightarrow> string \<Rightarrow> int \<Rightarrow> double \<Rightarrow> int \<Rightarrow> string \<Rightarrow>
    double \<Rightarrow> double \<Rightarrow> bool \<Rightarrow> sql" where
  "SQLTOF4_1 pg st tt cash symb qty price ca ename chrg comm lifo d =
     (let t = seq_trade_id d; p = float8_numeric2 pg price; ch = float8_numeric2 pg chrg;
          co = float8_numeric2 pg comm in
      case varchar 49 ename of
        None \<Rightarrow> Fail Sql_Error
      | Some en \<Rightarrow>
          sql_check (t \<notin> t_id ` set (trade_tbl d) \<and> length st \<le> 4 \<and> length tt \<le> 3 \<and> length symb \<le> 15
              \<and> 0 < qty \<and> numeric_ok 12 p \<and> 0 < p \<and> numeric_ok 10 ch \<and> 0 \<le> ch \<and> numeric_ok 10 co \<and> 0 \<le> co)
            (Ok (SPI_OK_INSERT_RETURNING [[int_txt t, Some (timestamp_out pg (now_ts pg))]],
                 d\<lparr>seq_trade_id := t + 1, trade_tbl := trade_tbl d @
                     [\<lparr>t_id = t, t_dts = now_ts pg, t_st_id = st, t_tt_id = tt, t_is_cash = cash, t_s_symb = symb,
                       t_qty = qty, t_bid_price = p, t_ca_id = ca, t_exec_name = en, t_trade_price = None,
                       t_chrg = ch, t_comm = co, t_tax = 0, t_lifo = lifo\<rparr>]\<rparr>)))"

definition SQLTOF4_2 :: "pgapi \<Rightarrow> int \<Rightarrow> string \<Rightarrow> string \<Rightarrow> int \<Rightarrow> double \<Rightarrow> int \<Rightarrow> sql" where
  "SQLTOF4_2 pg t tt symb qty price b d =
     (let p = float8_numeric2 pg price in
      sql_check (t \<notin> tr_t_id ` set (trade_request_tbl d) \<and> length tt \<le> 3 \<and> length symb \<le> 15 \<and> 0 < qty
          \<and> numeric_ok 12 p \<and> 0 < p)
       (Ok (SPI_OK_INSERT 1, d\<lparr>trade_request_tbl := trade_request_tbl d @
              [\<lparr>tr_t_id = t, tr_tt_id = tt, tr_s_symb = symb, tr_qty = qty, tr_bid_price = p, tr_b_id = b\<rparr>]\<rparr>)))"

definition SQLTOF4_3 :: "pgapi \<Rightarrow> int \<Rightarrow> string \<Rightarrow> sql" where
  "SQLTOF4_3 pg t st d =
     sql_check ((t, st) \<notin> (\<lambda>r. (th_t_id r, th_st_id r)) ` set (trade_history_tbl d) \<and> length st \<le> 4)
       (Ok (SPI_OK_INSERT 1, d\<lparr>trade_history_tbl := trade_history_tbl d @
              [\<lparr>th_t_id = t, th_dts = now_ts pg, th_st_id = st\<rparr>]\<rparr>))"

text \<open>The statement arrays: which statement takes which arguments.\<close>

primrec tof_sql :: "pgapi \<Rightarrow> datum list \<Rightarrow> tof_stmt \<Rightarrow> sql" where
  "tof_sql pg as TOF1_1 = (case as of [DInt64 ca] \<Rightarrow> SQLTOF1_1 ca | _ \<Rightarrow> (\<lambda>d. Fail Sql_Error))"
| "tof_sql pg as TOF1_2 = (case as of [DInt64 c] \<Rightarrow> SQLTOF1_2 c | _ \<Rightarrow> (\<lambda>d. Fail Sql_Error))"
| "tof_sql pg as TOF1_3 = (case as of [DInt64 b] \<Rightarrow> SQLTOF1_3 b | _ \<Rightarrow> (\<lambda>d. Fail Sql_Error))"
| "tof_sql pg as TOF2_1 =
     (case as of [DInt64 ca, DText fname, DText lname, DText tax] \<Rightarrow> SQLTOF2_1 ca fname lname tax
      | _ \<Rightarrow> (\<lambda>d. Fail Sql_Error))"
| "tof_sql pg as TOF3_1a = (case as of [DText n] \<Rightarrow> SQLTOF3_1a n | _ \<Rightarrow> (\<lambda>d. Fail Sql_Error))"
| "tof_sql pg as TOF3_2a =
     (case as of [DInt64 co, DText i] \<Rightarrow> SQLTOF3_2a co i | _ \<Rightarrow> (\<lambda>d. Fail Sql_Error))"
| "tof_sql pg as TOF3_1b = (case as of [DText s] \<Rightarrow> SQLTOF3_1b s | _ \<Rightarrow> (\<lambda>d. Fail Sql_Error))"
| "tof_sql pg as TOF3_2b = (case as of [DInt64 co] \<Rightarrow> SQLTOF3_2b co | _ \<Rightarrow> (\<lambda>d. Fail Sql_Error))"
| "tof_sql pg as TOF3_3 = (case as of [DText s] \<Rightarrow> SQLTOF3_3 s | _ \<Rightarrow> (\<lambda>d. Fail Sql_Error))"
| "tof_sql pg as TOF3_4 = (case as of [DText tt] \<Rightarrow> SQLTOF3_4 tt | _ \<Rightarrow> (\<lambda>d. Fail Sql_Error))"
| "tof_sql pg as TOF3_5 =
     (case as of [DInt64 ca, DText s] \<Rightarrow> SQLTOF3_5 ca s | _ \<Rightarrow> (\<lambda>d. Fail Sql_Error))"
| "tof_sql pg as TOF3_6a =
     (case as of [DInt64 ca, DText s] \<Rightarrow> SQLTOF3_6a ca s | _ \<Rightarrow> (\<lambda>d. Fail Sql_Error))"
| "tof_sql pg as TOF3_6b =
     (case as of [DInt64 ca, DText s] \<Rightarrow> SQLTOF3_6b ca s | _ \<Rightarrow> (\<lambda>d. Fail Sql_Error))"
| "tof_sql pg as TOF3_7 = (case as of [DInt64 c] \<Rightarrow> SQLTOF3_7 c | _ \<Rightarrow> (\<lambda>d. Fail Sql_Error))"
| "tof_sql pg as TOF3_8 =
     (case as of [DInt16 ti, DText tt, DText ex, DInt32 q1, DInt32 q2] \<Rightarrow> SQLTOF3_8 ti tt ex q1 q2
      | _ \<Rightarrow> (\<lambda>d. Fail Sql_Error))"
| "tof_sql pg as TOF3_9 =
     (case as of [DInt16 ti, DText tt] \<Rightarrow> SQLTOF3_9 ti tt | _ \<Rightarrow> (\<lambda>d. Fail Sql_Error))"
| "tof_sql pg as TOF3_10 = (case as of [DInt64 ca] \<Rightarrow> SQLTOF3_10 ca | _ \<Rightarrow> (\<lambda>d. Fail Sql_Error))"
| "tof_sql pg as TOF3_11 = (case as of [DInt64 ca] \<Rightarrow> SQLTOF3_11 ca | _ \<Rightarrow> (\<lambda>d. Fail Sql_Error))"
| "tof_sql pg as TOF4_1 =
     (case as of [DText st, DText tt, DBool cash, DText s, DInt32 q, DFloat8 p, DInt64 ca, DText en,
                  DFloat8 ch, DFloat8 co, DBool lifo] \<Rightarrow> SQLTOF4_1 pg st tt cash s q p ca en ch co lifo
      | _ \<Rightarrow> (\<lambda>d. Fail Sql_Error))"
| "tof_sql pg as TOF4_2 =
     (case as of [DInt64 t, DText tt, DText s, DInt32 q, DFloat8 p, DInt64 b] \<Rightarrow> SQLTOF4_2 pg t tt s q p b
      | _ \<Rightarrow> (\<lambda>d. Fail Sql_Error))"
| "tof_sql pg as TOF4_3 =
     (case as of [DInt64 t, DText st] \<Rightarrow> SQLTOF4_3 pg t st | _ \<Rightarrow> (\<lambda>d. Fail Sql_Error))"

definition tof_spi :: "pgapi \<Rightarrow> (tof_stmt, pgsession) spi" where
  "tof_spi pg stmt as read_only s = run_sql (tof_sql pg as stmt) read_only s"

interpretation tof: sql_provider "tof_spi pg" "tof_sql pg" for pg
  by unfold_locales (simp add: tof_spi_def)

section \<open>Frame 1: the account\<close>

datatype tof1 = tof1_acct_name | tof1_broker_id | tof1_broker_name | tof1_cust_f_name | tof1_cust_id
  | tof1_cust_l_name | tof1_cust_tier | tof1_num_found | tof1_tax_id | tof1_tax_status

definition tof1_order :: "tof1 list" where
  "tof1_order = [tof1_acct_name, tof1_broker_id, tof1_broker_name, tof1_cust_f_name, tof1_cust_id,
     tof1_cust_l_name, tof1_cust_tier, tof1_num_found, tof1_tax_id, tof1_tax_status]"

text \<open>
  This frame clears the array with \<open>palloc0\<close>: a slot that is not assigned is a null pointer.
  \<open>num_found\<close> is reset to 0 when the customer or the broker is missing.
\<close>

definition TOF1_account ::
    "(tof_stmt, 'd) spi \<Rightarrow> spi_row \<Rightarrow> nat \<Rightarrow> (tof_stmt, 'd) fctx \<Rightarrow> ((tof1 \<Rightarrow> slot) \<times> (tof_stmt, 'd) fctx) outcome" where
  "TOF1_account spi row processed f =
     (let v = (\<lambda>_. Ptr None)(tof1_acct_name := Ptr (SPI_getvalue row 1),
                tof1_broker_id := Ptr (SPI_getvalue row 2), tof1_cust_id := Ptr (SPI_getvalue row 3),
                tof1_tax_status := Ptr (SPI_getvalue row 4),
                tof1_num_found := Str (snprintf_d (BIGINT_LEN + 1) (int processed))) in
      obind (getvalue_atoll row 3) (\<lambda>cust_id.
      obind (first_row spi TOF1_2 [DInt64 cust_id] f) (\<lambda>(r, f).
      case (case r of
              Some row2 \<Rightarrow>
                (v(tof1_cust_f_name := Ptr (SPI_getvalue row2 1), tof1_cust_l_name := Ptr (SPI_getvalue row2 2),
                   tof1_cust_tier := Ptr (SPI_getvalue row2 3), tof1_tax_id := Ptr (SPI_getvalue row2 4)), f)
            | None \<Rightarrow> (v(tof1_num_found := Str ''0''), FAIL_FRAME TOF1_2 f)) of (v, f) \<Rightarrow>
      obind (getvalue_atoll row 2) (\<lambda>broker_id.
      obind (first_row spi TOF1_3 [DInt64 broker_id] f) (\<lambda>(r, f).
      Ok (case r of
            Some row3 \<Rightarrow> (v(tof1_broker_name := Ptr (SPI_getvalue row3 1)), f)
          | None \<Rightarrow> (v(tof1_num_found := Str ''0''), FAIL_FRAME TOF1_3 f)))))))"

definition TradeOrderFrame1 ::
    "(tof_stmt \<Rightarrow> bool) \<Rightarrow> (tof_stmt, 'd) spi \<Rightarrow> int \<Rightarrow> (tof_stmt, 'd) fctx \<Rightarrow>
     (spi_row list \<times> (tof_stmt, 'd) fctx) outcome" where
  "TradeOrderFrame1 prepare spi acct_id f =
     obind (plan_queries prepare TOF1_statements (f\<lparr>max_calls := 1\<rparr>)) (\<lambda>f.
     obind (SPI_execute_plan spi TOF1_1 [DInt64 acct_id] True f) (\<lambda>(r, f).
     obind (case r of
              SPI_OK_SELECT (row # rows) \<Rightarrow> TOF1_account spi row (length (row # rows)) f
            | _ \<Rightarrow> Ok ((\<lambda>_. Ptr None)(tof1_num_found := Str ''0''), FAIL_FRAME TOF1_1 f)) (\<lambda>(v, f).
     srf_return (map v tof1_order) f)))"

section \<open>Frame 2: the permission\<close>

definition TradeOrderFrame2 ::
    "(tof_stmt \<Rightarrow> bool) \<Rightarrow> (tof_stmt, 'd) spi \<Rightarrow> int \<Rightarrow> string \<Rightarrow> string \<Rightarrow> string \<Rightarrow> (tof_stmt, 'd) fctx \<Rightarrow>
     (string \<times> (tof_stmt, 'd) fctx) outcome" where
  "TradeOrderFrame2 prepare spi acct_id exec_f_name_p exec_l_name_p exec_tax_id_p f =
     (let exec_f_name = copy_sizeof (AP_F_NAME_LEN + 1) exec_f_name_p;
          exec_l_name = copy_sizeof (AP_L_NAME_LEN + 1) exec_l_name_p;
          exec_tax_id = copy_sizeof (AP_TAX_ID_LEN + 1) exec_tax_id_p in
      obind (plan_queries prepare TOF2_statements f) (\<lambda>f.
      obind (SPI_execute_plan spi TOF2_1
               [DInt64 acct_id, DText exec_f_name, DText exec_l_name, DText exec_tax_id] True f) (\<lambda>(r, f).
      Ok (case r of
            SPI_OK_SELECT (row # _) \<Rightarrow>
              ((case SPI_getvalue row 1 of None \<Rightarrow> [] | Some ap \<Rightarrow> copy_sizeof (AP_ACL_LEN + 1) ap), f)
          | SPI_OK_SELECT [] \<Rightarrow> ([], f)
          | _ \<Rightarrow> ([], FAIL_FRAME TOF2_1 f)))))"

section \<open>Frame 3: the estimate\<close>

datatype tof3 = tof3_co_name | tof3_requested_price | tof3_symbol | tof3_buy_value | tof3_charge_amount
  | tof3_comm_rate | tof3_cust_assets | tof3_market_price | tof3_s_name | tof3_sell_value
  | tof3_status_id | tof3_tax_amount | tof3_type_is_market | tof3_type_is_sell

definition tof3_order :: "tof3 list" where
  "tof3_order = [tof3_co_name, tof3_requested_price, tof3_symbol, tof3_buy_value, tof3_charge_amount,
     tof3_comm_rate, tof3_cust_assets, tof3_market_price, tof3_s_name, tof3_sell_value, tof3_status_id,
     tof3_tax_amount, tof3_type_is_market, tof3_type_is_sell]"

text \<open>
  The security: by company name and issue when the symbol is empty, by symbol otherwise.
  \<open>None\<close> is an early return of the frame.  The name is looked up in full, the returned name
  is the copy in the local buffer.
\<close>

definition TOF3_by_name ::
    "(tof_stmt, 'd) spi \<Rightarrow> string \<Rightarrow> string \<Rightarrow> string \<Rightarrow> (tof_stmt, 'd) fctx \<Rightarrow>
     ((string option \<times> string option \<times> string option \<times> string option) option \<times> (tof_stmt, 'd) fctx) outcome" where
  "TOF3_by_name spi co_name_p co_nm issue f =
     obind (first_row spi TOF3_1a [DText co_name_p] f) (\<lambda>(r, f).
     case r of
       None \<Rightarrow> Ok (None, FAIL_FRAME_SET TOF3_1a f)
     | Some row \<Rightarrow>
         obind (getvalue_atoll row 1) (\<lambda>co.
         obind (first_row spi TOF3_2a [DInt64 co, DText issue] f) (\<lambda>(r, f).
         case r of
           None \<Rightarrow> Ok (None, FAIL_FRAME_SET TOF3_2a f)
         | Some row \<Rightarrow> Ok (Some (Some co_nm, SPI_getvalue row 2, SPI_getvalue row 3, SPI_getvalue row 1), f))))"

definition TOF3_by_symbol ::
    "(tof_stmt, 'd) spi \<Rightarrow> string \<Rightarrow> (tof_stmt, 'd) fctx \<Rightarrow>
     ((string option \<times> string option \<times> string option \<times> string option) option \<times> (tof_stmt, 'd) fctx) outcome" where
  "TOF3_by_symbol spi symb f =
     obind (first_row spi TOF3_1b [DText symb] f) (\<lambda>(r, f).
     case r of
       None \<Rightarrow> Ok (None, FAIL_FRAME_SET TOF3_1b f)
     | Some row \<Rightarrow>
         obind (getvalue_atoll row 1) (\<lambda>co.
         obind (first_row spi TOF3_2b [DInt64 co] f) (\<lambda>(r, f).
         case r of
           None \<Rightarrow> Ok (None, FAIL_FRAME_SET TOF3_2b f)
         | Some row2 \<Rightarrow> Ok (Some (SPI_getvalue row2 1, SPI_getvalue row 3, Some symb, SPI_getvalue row 2), f))))"

text \<open>\<open>SPI_getvalue(\<dots>)[0] == 'f'\<close> decides a boolean column.\<close>

definition getvalue_flag :: "spi_row \<Rightarrow> nat \<Rightarrow> bool outcome" where
  "getvalue_flag row k = obind (from_ptr (SPI_getvalue row k)) (\<lambda>s. Ok (\<not> (s \<noteq> [] \<and> hd s = CHR ''f'')))"

text \<open>The loops over the holdings, as in Trade-Result but without updates.\<close>

fun TOF3_sell_loop ::
    "double \<Rightarrow> spi_row list \<Rightarrow> int \<Rightarrow> double \<Rightarrow> double \<Rightarrow> (int \<times> double \<times> double) outcome" where
  "TOF3_sell_loop price [] needed buy sell = Ok (needed, buy, sell)"
| "TOF3_sell_loop price (row # rows) needed buy sell =
     (if \<not> 0 < needed then Ok (needed, buy, sell)
      else
        obind (getvalue_atoi row 1) (\<lambda>hold_qty.
        obind (getvalue_atof row 2) (\<lambda>hold_price.
        if needed < hold_qty then
          TOF3_sell_loop price rows 0 (fadd buy (fmul (of_cint needed) hold_price))
            (fadd sell (fmul (of_cint needed) price))
        else
          TOF3_sell_loop price rows (i32 (needed - hold_qty)) (fadd buy (fmul (of_cint hold_qty) hold_price))
            (fadd sell (fmul (of_cint hold_qty) price)))))"

fun TOF3_buy_loop ::
    "double \<Rightarrow> spi_row list \<Rightarrow> int \<Rightarrow> double \<Rightarrow> double \<Rightarrow> (int \<times> double \<times> double) outcome" where
  "TOF3_buy_loop price [] needed buy sell = Ok (needed, buy, sell)"
| "TOF3_buy_loop price (row # rows) needed buy sell =
     (if \<not> 0 < needed then Ok (needed, buy, sell)
      else
        obind (getvalue_atoi row 1) (\<lambda>hold_qty.
        obind (getvalue_atof row 2) (\<lambda>hold_price.
        if i32 (hold_qty + needed) < 0 then
          TOF3_buy_loop price rows 0 (fadd buy (fmul (of_cint needed) price))
            (fadd sell (fmul (of_cint needed) hold_price))
        else
          let hold_qty = i32 (- hold_qty) in
          TOF3_buy_loop price rows (i32 (needed - hold_qty)) (fadd buy (fmul (of_cint hold_qty) price))
            (fadd sell (fmul (of_cint hold_qty) hold_price)))))"

text \<open>The position and the two sums; the holdings are read only when the trade closes some.\<close>

definition TOF3_holdings ::
    "(tof_stmt, 'd) spi \<Rightarrow> int \<Rightarrow> int \<Rightarrow> string \<Rightarrow> (tof_stmt, 'd) fctx \<Rightarrow>
     (spi_row list option \<times> (tof_stmt, 'd) fctx) outcome" where
  "TOF3_holdings spi is_lifo acct_id symb f =
     (let stmt = (if is_lifo = 1 then TOF3_6a else TOF3_6b) in
      obind (SPI_execute_plan spi stmt [DInt64 acct_id, DText symb] True f) (\<lambda>(r, f).
      Ok (case r of SPI_OK_SELECT rows \<Rightarrow> (Some rows, f) | _ \<Rightarrow> (None, FAIL_FRAME_SET stmt f))))"

definition TOF3_estimate ::
    "(tof_stmt, 'd) spi \<Rightarrow> int \<Rightarrow> int \<Rightarrow> string \<Rightarrow> bool \<Rightarrow> int \<Rightarrow> double \<Rightarrow> (tof_stmt, 'd) fctx \<Rightarrow>
     ((double \<times> double) option \<times> (tof_stmt, 'd) fctx) outcome" where
  "TOF3_estimate spi acct_id is_lifo symb is_sell trade_qty price f =
     obind (first_row spi TOF3_5 [DInt64 acct_id, DText symb] f) (\<lambda>(r, f).
     obind (case r of None \<Rightarrow> Ok 0 | Some row \<Rightarrow> getvalue_atoi row 1) (\<lambda>hs.
     obind (if is_sell \<and> 0 < hs \<or> \<not> is_sell \<and> hs < 0 then TOF3_holdings spi is_lifo acct_id symb f
            else Ok (Some [], f)) (\<lambda>(rows, f).
     case rows of
       None \<Rightarrow> Ok (None, f)
     | Some rows \<Rightarrow>
         obind ((if is_sell then TOF3_sell_loop else TOF3_buy_loop) price rows trade_qty 0 0)
           (\<lambda>(needed, buy, sell). Ok (Some (buy, sell), f)))))"

definition TOF3_tax ::
    "(tof_stmt, 'd) spi \<Rightarrow> int \<Rightarrow> int \<Rightarrow> double \<Rightarrow> double \<Rightarrow> (tof_stmt, 'd) fctx \<Rightarrow>
     (double \<times> (tof_stmt, 'd) fctx) outcome" where
  "TOF3_tax spi cust_id tax_status buy sell f =
     (if buy < sell \<and> (tax_status = 1 \<or> tax_status = 2) then
        obind (first_row spi TOF3_7 [DInt64 cust_id] f) (\<lambda>(r, f).
        Ok (case r of
              Some row \<Rightarrow>
                ((case SPI_getvalue row 1 of
                    None \<Rightarrow> 0 | Some tax_rates \<Rightarrow> fmul (fsub sell buy) (atof tax_rates)), f)
            | None \<Rightarrow> (0, FAIL_FRAME_SET TOF3_7 f)))
      else Ok (0, f))"

definition TOF3_assets ::
    "(tof_stmt, 'd) spi \<Rightarrow> int \<Rightarrow> int \<Rightarrow> (tof_stmt, 'd) fctx \<Rightarrow> (string \<times> (tof_stmt, 'd) fctx) outcome" where
  "TOF3_assets spi acct_id type_is_margin f =
     (if type_is_margin = 1 then
        obind (first_row spi TOF3_10 [DInt64 acct_id] f) (\<lambda>(r, f).
        obind (case r of
                 Some row \<Rightarrow> obind (getvalue_atof row 1) (\<lambda>b. Ok (b, f))
               | None \<Rightarrow> Ok (0, FAIL_FRAME_SET TOF3_10 f)) (\<lambda>(acct_bal, f).
        obind (first_row spi TOF3_11 [DInt64 acct_id] f) (\<lambda>(r, f).
        Ok (case r of
              Some row \<Rightarrow>
                ((case SPI_getvalue row 1 of
                    None \<Rightarrow> snprintf_2f (FIN_AGG_T_LEN + 1) 10 acct_bal
                  | Some a \<Rightarrow> snprintf_2f (FIN_AGG_T_LEN + 1) 10 (fadd (atof a) acct_bal)), f)
            | None \<Rightarrow> (''0.00'', FAIL_FRAME_SET TOF3_11 f)))))
      else Ok (''0.00'', f))"

text \<open>A column that stays unassigned when its query finds nothing.\<close>

definition TOF3_column ::
    "(tof_stmt, 'd) spi \<Rightarrow> tof_stmt \<Rightarrow> datum list \<Rightarrow> (tof_stmt, 'd) fctx \<Rightarrow> (slot \<times> (tof_stmt, 'd) fctx) outcome" where
  "TOF3_column spi stmt args f =
     obind (first_row spi stmt args f) (\<lambda>(r, f).
     Ok (case r of Some row \<Rightarrow> (Ptr (SPI_getvalue row 1), f) | None \<Rightarrow> (Uninit, FAIL_FRAME_SET stmt f)))"

text \<open>
  The block that runs on the first call of the function.  It assigns every entry of \<open>values\<close>
  and returns them, or \<open>None\<close> when it leaves the function early.  Each value is the string its
  pointer leads to at the end of the block.
\<close>

definition TOF3_first_call ::
    "(tof_stmt \<Rightarrow> bool) \<Rightarrow> (tof_stmt, 'd) spi \<Rightarrow> int \<Rightarrow> int \<Rightarrow> int \<Rightarrow> int \<Rightarrow> string \<Rightarrow> string \<Rightarrow> string \<Rightarrow> int \<Rightarrow>
     int \<Rightarrow> string \<Rightarrow> int \<Rightarrow> string \<Rightarrow> rat \<Rightarrow> string \<Rightarrow> (tof_stmt, 'd) fctx \<Rightarrow>
     ((tof3 \<Rightarrow> slot) option \<times> (tof_stmt, 'd) fctx) outcome" where
  "TOF3_first_call prepare spi acct_id cust_id cust_tier is_lifo issue_p st_pending_id_p st_submitted_id_p
       tax_status trade_qty trade_type_id_p type_is_margin co_name_p requested_price_num symbol_p f =
     (let co_nm = copy_sizeof (CO_NAME_LEN + 1) co_name_p; issue = copy_sizeof 7 issue_p;
          st_pending_id = copy_sizeof 10 st_pending_id_p; st_submitted_id = copy_sizeof 10 st_submitted_id_p;
          trade_type_id = copy_sizeof (TT_ID_LEN + 1) trade_type_id_p;
          symb = copy_sizeof (S_SYMB_LEN + 1) symbol_p; requested_price = rnd64 requested_price_num in
      obind (plan_queries prepare TOF3_statements (f\<lparr>max_calls := 1\<rparr>)) (\<lambda>f.
      obind (if symb = [] then TOF3_by_name spi co_name_p co_nm issue f else TOF3_by_symbol spi symb f) (\<lambda>(sec, f).
      case sec of None \<Rightarrow> Ok (None, f) | Some (co, sname, symbol_v, exch_id) \<Rightarrow>
      obind (from_ptr symbol_v) (\<lambda>symbol.
      obind (first_row spi TOF3_3 [DText symbol] f) (\<lambda>(lt, f).
      case lt of None \<Rightarrow> Ok (None, FAIL_FRAME_SET TOF3_3 f) | Some lt_row \<Rightarrow>
      obind (first_row spi TOF3_4 [DText trade_type_id] f) (\<lambda>(tt, f).
      case tt of None \<Rightarrow> Ok (None, FAIL_FRAME_SET TOF3_4 f) | Some tt_row \<Rightarrow>
      obind (getvalue_flag tt_row 1) (\<lambda>is_market.
      obind (getvalue_flag tt_row 2) (\<lambda>is_sell.
      obind (if is_market then getvalue_atof lt_row 1 else Ok requested_price) (\<lambda>price.
      obind (TOF3_estimate spi acct_id is_lifo symbol is_sell trade_qty price f) (\<lambda>(est, f).
      case est of None \<Rightarrow> Ok (None, f) | Some (buy, sell) \<Rightarrow>
      obind (TOF3_tax spi cust_id tax_status buy sell f) (\<lambda>(tax_amount, f).
      obind (from_ptr exch_id) (\<lambda>exch.
      obind (TOF3_column spi TOF3_8 [DInt16 cust_tier, DText trade_type_id, DText exch, DInt32 trade_qty,
               DInt32 trade_qty] f) (\<lambda>(comm_rate, f).
      obind (TOF3_column spi TOF3_9 [DInt16 cust_tier, DText trade_type_id] f) (\<lambda>(charge, f).
      obind (TOF3_assets spi acct_id type_is_margin f) (\<lambda>(assets, f).
      Ok (Some ((\<lambda>_. Uninit)(tof3_co_name := Ptr co, tof3_s_name := Ptr sname, tof3_symbol := Ptr symbol_v,
          tof3_market_price := Ptr (SPI_getvalue lt_row 1),
          tof3_requested_price := (if is_market then Ptr (SPI_getvalue lt_row 1)
             else Str (snprintf_2f (S_PRICE_T_LEN + 1) 8 requested_price)),
          tof3_type_is_market := Str (if is_market then ''1'' else ''0''),
          tof3_type_is_sell := Str (if is_sell then ''1'' else ''0''),
          tof3_buy_value := Str (snprintf_2f (S_PRICE_T_LEN + 1) 8 buy),
          tof3_sell_value := Str (snprintf_2f (S_PRICE_T_LEN + 1) 8 sell),
          tof3_tax_amount := Str (snprintf_2f (S_PRICE_T_LEN + 1) 8 tax_amount),
          tof3_comm_rate := comm_rate, tof3_charge_amount := charge, tof3_cust_assets := Str assets,
          tof3_status_id := Str (if is_market then st_submitted_id else st_pending_id))), f))))))))))))))))"

text \<open>
  The pointers to arrays that are variables of that block: the status always
  (\<open>st_submitted_id\<close> or \<open>st_pending_id\<close>), the symbol when it was given (\<open>symbol\<close>).  At the end
  of the block the arrays cease to exist and the pointers become indeterminate, while the
  other entries, strings from \<^verbatim>\<open>palloc\<close> and \<^verbatim>\<open>SPI_getvalue\<close>, stay.
\<close>

definition TOF3_locals :: "string \<Rightarrow> tof3 list" where
  "TOF3_locals symb = (if symb = [] then [tof3_status_id] else [tof3_symbol, tof3_status_id])"

definition end_block :: "'c list \<Rightarrow> ('c \<Rightarrow> slot) \<Rightarrow> 'c \<Rightarrow> slot" where
  "end_block dead vals k = (if k \<in> set dead then Uninit else vals k)"

definition TradeOrderFrame3 ::
    "(tof_stmt \<Rightarrow> bool) \<Rightarrow> (tof_stmt, 'd) spi \<Rightarrow> int \<Rightarrow> int \<Rightarrow> int \<Rightarrow> int \<Rightarrow> string \<Rightarrow> string \<Rightarrow> string \<Rightarrow> int \<Rightarrow>
     int \<Rightarrow> string \<Rightarrow> int \<Rightarrow> string \<Rightarrow> rat \<Rightarrow> string \<Rightarrow> (tof_stmt, 'd) fctx \<Rightarrow>
     (spi_row list \<times> (tof_stmt, 'd) fctx) outcome" where
  "TradeOrderFrame3 prepare spi acct_id cust_id cust_tier is_lifo issue_p st_pending_id_p st_submitted_id_p
       tax_status trade_qty trade_type_id_p type_is_margin co_name_p requested_price_num symbol_p f =
     obind (TOF3_first_call prepare spi acct_id cust_id cust_tier is_lifo issue_p st_pending_id_p
         st_submitted_id_p tax_status trade_qty trade_type_id_p type_is_margin co_name_p requested_price_num
         symbol_p f) (\<lambda>(vals, f).
     case vals of
       None \<Rightarrow> Ok ([], f)
     | Some vals \<Rightarrow>
         srf_return (map (end_block (TOF3_locals (copy_sizeof (S_SYMB_LEN + 1) symbol_p)) vals) tof3_order) f)"

section \<open>Frame 4: entering the order\<close>

text \<open>When the insertion reports no row, the identifier stays 0 and the frame goes on.\<close>

definition TradeOrderFrame4 ::
    "(tof_stmt \<Rightarrow> bool) \<Rightarrow> (tof_stmt, 'd) spi \<Rightarrow> int \<Rightarrow> int \<Rightarrow> rat \<Rightarrow> rat \<Rightarrow> string \<Rightarrow> int \<Rightarrow> int \<Rightarrow> rat \<Rightarrow>
     string \<Rightarrow> string \<Rightarrow> int \<Rightarrow> string \<Rightarrow> int \<Rightarrow> (tof_stmt, 'd) fctx \<Rightarrow> (int \<times> (tof_stmt, 'd) fctx) outcome" where
  "TradeOrderFrame4 prepare spi acct_id broker_id charge_amount_num comm_amount_num exec_name_p is_cash is_lifo
       requested_price_num status_id_p symbol_p trade_qty trade_type_id_p type_is_market f =
     (let exec_name = copy_sizeof (T_EXEC_NAME_LEN + 1) exec_name_p;
          status_id = copy_sizeof (ST_ID_LEN + 1) status_id_p; symb = copy_sizeof (S_SYMB_LEN + 1) symbol_p;
          trade_type_id = copy_sizeof (TT_ID_LEN + 1) trade_type_id_p;
          charge_amount = rnd64 charge_amount_num; comm_amount = rnd64 comm_amount_num;
          requested_price = rnd64 requested_price_num in
      obind (plan_queries prepare TOF4_statements f) (\<lambda>f.
      obind (SPI_execute_plan spi TOF4_1
               [DText status_id, DText trade_type_id, DBool (is_cash = 1), DText symb, DInt32 trade_qty,
                DFloat8 requested_price, DInt64 acct_id, DText exec_name, DFloat8 charge_amount,
                DFloat8 comm_amount, DBool (is_lifo = 1)] False f) (\<lambda>(r, f).
      obind (case r of
               SPI_OK_INSERT_RETURNING (row # _) \<Rightarrow> obind (getvalue_atoll row 1) (\<lambda>t. Ok (t, f))
             | _ \<Rightarrow> Ok (0, FAIL_FRAME TOF4_1 f)) (\<lambda>(trade_id, f).
      obind (if type_is_market = 0 then
               exec_dml spi Insert TOF4_2 [DInt64 trade_id, DText trade_type_id, DText symb, DInt32 trade_qty,
                 DFloat8 requested_price, DInt64 broker_id] f
             else Ok f) (\<lambda>f.
      obind (exec_dml spi Insert TOF4_3 [DInt64 trade_id, DText status_id] f) (\<lambda>f.
      Ok (trade_id, f)))))))"

end
