(* ===== verification/Ordering.thy ===== *)
theory Ordering
  imports Settlement TradeOrder
begin

text \<open>
  The properties of the Trade-Order frames on the tables.  The loops of frame 3 estimate what
  the loops of Trade-Result frame 2 will do: both refine \<open>consume\<close>, here through the locale
  \<open>estimation\<close>.
\<close>

section \<open>The estimate\<close>

locale estimation =
  fixes sg :: int and price :: double
    and loop :: "spi_row list \<Rightarrow> int \<Rightarrow> double \<Rightarrow> double \<Rightarrow> (int \<times> double \<times> double) outcome"
  assumes sign: "sg = 1 \<or> sg = - 1"
    and loop_nil: "loop [] n hv tv = Ok (n, hv, tv)"
    and loop_stop: "n \<le> 0 \<Longrightarrow> loop (row # rows) n hv tv = Ok (n, hv, tv)"
    and loop_part: "0 < n \<Longrightarrow> in_i32 n \<Longrightarrow> holding_typed h \<Longrightarrow> n < sg * h_qty h \<Longrightarrow>
      loop (lot_txt h # rows) n hv tv =
        loop rows 0 (fadd hv (fmul (of_cint n) (atof (numeric_out 2 (h_price h)))))
          (fadd tv (fmul (of_cint n) price))"
    and loop_all: "0 < n \<Longrightarrow> in_i32 n \<Longrightarrow> holding_typed h \<Longrightarrow> 0 < sg * h_qty h \<Longrightarrow> sg * h_qty h \<le> n \<Longrightarrow>
      loop (lot_txt h # rows) n hv tv =
        loop rows (n - sg * h_qty h)
          (fadd hv (fmul (of_cint (sg * h_qty h)) (atof (numeric_out 2 (h_price h)))))
          (fadd tv (fmul (of_cint (sg * h_qty h)) price))"
begin

lemma sign_square: "sg * (sg * x) = x"
  using sign by auto

lemma loop_estimates:
  assumes "in_i32 n" "0 \<le> n" "\<forall>h \<in> set hs. holding_typed h \<and> 0 < sg * h_qty h"
  shows "loop (map lot_txt hs) n hv tv =
    Ok (fst (consume sg n hs), hold_value sg (snd (consume sg n hs)) hv,
        trade_value sg price (snd (consume sg n hs)) tv)"
  using assms
proof (induction hs arbitrary: n hv tv)
  case Nil
  then show ?case by (simp add: loop_nil)
next
  case (Cons h hs)
  consider "n \<le> 0" | "0 < n" "n < sg * h_qty h" | "0 < n" "sg * h_qty h \<le> n" by linarith
  then show ?case
  proof cases
    case 1
    then show ?thesis by (simp add: loop_stop)
  next
    case 2
    have z: "loop (map lot_txt hs) 0 a b = Ok (0, a, b)" for a b
      by (cases hs) (simp_all add: loop_nil loop_stop)
    from 2 Cons.prems show ?thesis
      by (simp add: loop_part z shares_used_def sign_square)
  next
    case 3
    have "in_i32 (n - sg * h_qty h)" using 3 Cons.prems by (simp add: in_i32_def)
    with 3 Cons show ?thesis
      by (simp add: loop_all shares_used_def case_prod_unfold)
  qed
qed

end

lemma lot_txt_values:
  assumes "holding_typed h"
  shows "getvalue_atoi (lot_txt h) (Suc 0) = Ok (h_qty h)"
    "getvalue_atof (lot_txt h) 2 = Ok (atof (numeric_out 2 (h_price h)))"
  using assms by (simp_all add: lot_txt_def getvalue_atoi_def getvalue_atof_def holding_typed_def)

interpretation est_sell: estimation 1 price "TOF3_sell_loop price" for price
proof unfold_locales
  fix n :: int and h rows hv tv
  assume a: "0 < n" "in_i32 n" "holding_typed h" "0 < 1 * h_qty h" "1 * h_qty h \<le> n"
  then have "in_i32 (n - h_qty h)" by (simp add: in_i32_def)
  with a show "TOF3_sell_loop price (lot_txt h # rows) n hv tv =
        TOF3_sell_loop price rows (n - 1 * h_qty h)
          (fadd hv (fmul (of_cint (1 * h_qty h)) (atof (numeric_out 2 (h_price h)))))
          (fadd tv (fmul (of_cint (1 * h_qty h)) price))"
    by (simp add: lot_txt_values)
qed (simp_all add: lot_txt_values)

interpretation est_buy: estimation "- 1" price
    "\<lambda>rows n hv tv. obind (TOF3_buy_loop price rows n tv hv) (\<lambda>(n, b, s). Ok (n, s, b))" for price
proof unfold_locales
  fix n :: int and h rows hv tv
  assume a: "0 < n" "in_i32 n" "holding_typed h" "n < - 1 * h_qty h"
  then have "in_i32 (h_qty h + n)" by (simp add: in_i32_def holding_typed_def)
  with a show "obind (TOF3_buy_loop price (lot_txt h # rows) n tv hv) (\<lambda>(n, b, s). Ok (n, s, b)) =
      obind (TOF3_buy_loop price rows 0 (fadd tv (fmul (of_cint n) price))
        (fadd hv (fmul (of_cint n) (atof (numeric_out 2 (h_price h)))))) (\<lambda>(n, b, s). Ok (n, s, b))"
    by (simp add: lot_txt_values)
next
  fix n :: int and h rows hv tv
  assume a: "0 < n" "in_i32 n" "holding_typed h" "0 < - 1 * h_qty h" "- 1 * h_qty h \<le> n"
  then have r: "in_i32 (h_qty h + n)" "in_i32 (- h_qty h)" "in_i32 (n + h_qty h)"
    by (simp_all add: in_i32_def holding_typed_def)
  with a show "obind (TOF3_buy_loop price (lot_txt h # rows) n tv hv) (\<lambda>(n, b, s). Ok (n, s, b)) =
      obind (TOF3_buy_loop price rows (n - - 1 * h_qty h)
        (fadd tv (fmul (of_cint (- 1 * h_qty h)) price))
        (fadd hv (fmul (of_cint (- 1 * h_qty h)) (atof (numeric_out 2 (h_price h)))))) (\<lambda>(n, b, s). Ok (n, s, b))"
    by (simp add: lot_txt_values)
qed simp_all

text \<open>What frame 3 estimates for an order: the two sums frame 2 of Trade-Result accumulates.\<close>

definition estimate :: "int \<Rightarrow> int \<Rightarrow> string \<Rightarrow> bool \<Rightarrow> int \<Rightarrow> double \<Rightarrow> db \<Rightarrow> double \<times> double" where
  "estimate ca is_lifo symb is_sell n price d =
     (let s = (if is_sell then 1 else 0) in
      trf2_values s price (snd (used_lots (trade_sign s) is_lifo ca symb n d)))"

lemma planned3:
  assumes "set TOF3_statements \<subseteq> set (plans f)"
  shows "TOF3_1a \<in> set (plans f)" "TOF3_2a \<in> set (plans f)" "TOF3_1b \<in> set (plans f)" "TOF3_2b \<in> set (plans f)"
    "TOF3_3 \<in> set (plans f)" "TOF3_4 \<in> set (plans f)" "TOF3_5 \<in> set (plans f)" "TOF3_6a \<in> set (plans f)"
    "TOF3_6b \<in> set (plans f)" "TOF3_7 \<in> set (plans f)" "TOF3_8 \<in> set (plans f)" "TOF3_9 \<in> set (plans f)"
    "TOF3_10 \<in> set (plans f)" "TOF3_11 \<in> set (plans f)"
  using assms by (auto simp: TOF3_statements_def)

lemma TOF3_holdings_runs:
  assumes "set TOF3_statements \<subseteq> set (plans f)"
  shows "TOF3_holdings (tof_spi pg) is_lifo ca symb f =
    Ok (Some (map lot_txt (lots is_lifo ca symb (snap_of f))), f)"
  using planned3 [OF assms]
  by (simp add: TOF3_holdings_def tof.exec_read_eq SQLTOF3_6a_def SQLTOF3_6b_def lots_def Let_def
      del: SPI_execute_plan_planned)

lemma lots_typed:
  assumes "positions_ok d" "sg = 1 \<or> sg = - 1" "0 < sg * summary ca symb d"
  shows "\<forall>h \<in> set (lots is_lifo ca symb d). holding_typed h \<and> 0 < sg * h_qty h"
proof -
  have "set (lots is_lifo ca symb d) = set (holdings_of ca symb d)"
    by (simp add: lots_def order_desc_def order_asc_def)
  then show ?thesis using lots_ok_of_positions [OF assms] by (auto simp: lots_ok_def)
qed

lemma TOF3_position:
  assumes "TOF3_5 \<in> set (plans f)" "in_i32 (summary ca symb (snap_of f))"
  shows "obind (first_row (tof_spi pg) TOF3_5 [DInt64 ca, DText symb] f) (\<lambda>(r, f).
      obind (case r of None \<Rightarrow> Ok 0 | Some row \<Rightarrow> getvalue_atoi row 1) (\<lambda>hs. k hs f)) =
    k (summary ca symb (snap_of f)) f"
  using assms by (cases "summary_rows ca symb (snap_of f)")
    (simp_all add: first_row_def tof.exec_read_eq SQLTOF3_5_def summary_rows_def summary_def getvalue_atoi_def
      del: SPI_execute_plan_planned)

lemma estimate_runs:
  assumes pl: "set TOF3_statements \<subseteq> set (plans f)" and ok: "positions_ok (snap_of f)"
    and n: "0 < n" "in_i32 n" and hs: "in_i32 (summary ca symb (snap_of f))"
  shows "TOF3_estimate (tof_spi pg) ca is_lifo symb is_sell n price f =
    Ok (Some (estimate ca is_lifo symb is_sell n price (snap_of f)), f)"
proof (cases is_sell)
  case True
  note pos = TOF3_position [OF planned3(7) [OF pl] hs]
  show ?thesis
  proof (cases "0 < summary ca symb (snap_of f)")
    case s: True
    have "\<forall>h \<in> set (lots is_lifo ca symb (snap_of f)). holding_typed h \<and> 0 < 1 * h_qty h"
      by (rule lots_typed [OF ok]) (use s in simp_all)
    with True s n show ?thesis
      by (simp add: TOF3_estimate_def pos TOF3_holdings_runs [OF pl] est_sell.loop_estimates estimate_def
          used_lots_def trf2_values_def trade_sign_def Let_def del: One_nat_def)
  next
    case False
    with True show ?thesis
      by (simp add: TOF3_estimate_def pos estimate_def used_lots_def trf2_values_def trade_sign_def Let_def
          del: One_nat_def)
  qed
next
  case False
  note pos = TOF3_position [OF planned3(7) [OF pl] hs]
  show ?thesis
  proof (cases "summary ca symb (snap_of f) < 0")
    case s: True
    have "\<forall>h \<in> set (lots is_lifo ca symb (snap_of f)). holding_typed h \<and> 0 < - 1 * h_qty h"
      by (rule lots_typed [OF ok]) (use s in simp_all)
    then have run: "obind (TOF3_buy_loop price (map lot_txt (lots is_lifo ca symb (snap_of f))) n 0 0)
        (\<lambda>(n, b, s). Ok (n, s, b)) = Ok (fst (consume (- 1) n (lots is_lifo ca symb (snap_of f))),
          hold_value (- 1) (snd (consume (- 1) n (lots is_lifo ca symb (snap_of f)))) 0,
          trade_value (- 1) price (snd (consume (- 1) n (lots is_lifo ca symb (snap_of f)))) 0)"
      using n by (intro est_buy.loop_estimates) simp_all
    then have "TOF3_buy_loop price (map lot_txt (lots is_lifo ca symb (snap_of f))) n 0 0 =
        Ok (fst (consume (- 1) n (lots is_lifo ca symb (snap_of f))),
          trade_value (- 1) price (snd (consume (- 1) n (lots is_lifo ca symb (snap_of f)))) 0,
          hold_value (- 1) (snd (consume (- 1) n (lots is_lifo ca symb (snap_of f)))) 0)"
      by (auto simp: obind_eq_Ok)
    with False s show ?thesis
      by (simp add: TOF3_estimate_def pos TOF3_holdings_runs [OF pl] estimate_def
          used_lots_def trf2_values_def trade_sign_def Let_def del: One_nat_def)
  next
    case s: False
    with False show ?thesis
      by (simp add: TOF3_estimate_def pos estimate_def used_lots_def trf2_values_def trade_sign_def Let_def
          del: One_nat_def)
  qed
qed

section \<open>The security of an order\<close>

definition companies :: "int \<Rightarrow> db \<Rightarrow> company_row list" where
  "companies c d = filter (\<lambda>r. co_id r = c) (company_tbl d)"

lemma by_symbol_runs:
  assumes "set TOF3_statements \<subseteq> set (plans f)" "securities symb (snap_of f) = s # ss"
    "companies (s_co_id s) (snap_of f) = c # cs" "in_i64 (s_co_id s)"
  shows "TOF3_by_symbol (tof_spi pg) symb f =
    Ok (Some (Some (co_name c), Some (s_name s), Some symb, Some (s_ex_id s)), f)"
  using planned3 [OF assms(1)] assms(2-)
  by (simp add: TOF3_by_symbol_def first_row_def tof.exec_read_eq SQLTOF3_1b_def SQLTOF3_2b_def
      securities_def companies_def getvalue_atoll_def del: SPI_execute_plan_planned)

lemma by_name_runs:
  assumes "set TOF3_statements \<subseteq> set (plans f)"
    "filter (\<lambda>r. co_name r = name) (company_tbl (snap_of f)) = c # cs" "in_i64 (co_id c)"
    "filter (\<lambda>r. s_co_id r = co_id c \<and> s_issue r = issue) (security_tbl (snap_of f)) = s # ss"
  shows "TOF3_by_name (tof_spi pg) name co_nm issue f =
    Ok (Some (Some co_nm, Some (s_name s), Some (s_symb s), Some (s_ex_id s)), f)"
  using planned3 [OF assms(1)] assms(2-)
  by (simp add: TOF3_by_name_def first_row_def tof.exec_read_eq SQLTOF3_1a_def SQLTOF3_2a_def
      getvalue_atoll_def del: SPI_execute_plan_planned)

section \<open>The end of the first call's block\<close>

lemma BuildTuple_Uninit: "Uninit \<in> set vs \<Longrightarrow> BuildTupleFromCStrings vs = Fail Crash"
proof (induction vs)
  case (Cons v vs)
  then show ?case by (cases v) auto
qed simp

lemma srf_return_Uninit:
  "Uninit \<in> set vs \<Longrightarrow> srf_return vs f = (if max_calls f = 0 then Ok ([], f) else Fail Crash)"
  by (simp add: srf_return_def srf_calls.simps BuildTuple_Uninit)

lemma status_ended: "Uninit \<in> set (map (end_block (TOF3_locals symb) vals) tof3_order)"
proof -
  have "end_block (TOF3_locals symb) vals tof3_status_id = Uninit" "tof3_status_id \<in> set tof3_order"
    by (simp_all add: end_block_def TOF3_locals_def tof3_order_def)
  then show ?thesis by (metis image_eqI list.set_map)
qed

lemma TradeOrderFrame3_eq:
  "TradeOrderFrame3 prepare spi ca cu tier is_lifo issue st1 st2 tax_status q tt margin name req symb f =
     obind (TOF3_first_call prepare spi ca cu tier is_lifo issue st1 st2 tax_status q tt margin name req symb f)
       (\<lambda>(vals, f). if vals = None \<or> max_calls f = 0 then Ok ([], f) else Fail Crash)"
  by (auto simp: TradeOrderFrame3_def srf_return_Uninit [OF status_ended]
      intro!: arg_cong [of _ _ "obind _"] split: option.splits)

text \<open>
  On any database interface, no call of frame 3 has a row as its defined result: one that gets
  past its early returns and reports no missing row reads the status through a pointer to an
  array that no longer exists.
\<close>

theorem frame3_no_row:
  assumes "TradeOrderFrame3 prepare spi ca cu tier is_lifo issue st1 st2 tax_status q tt margin name req symb f = Ok (rows, f')"
  shows "rows = []"
  using assms by (auto simp: TradeOrderFrame3_eq obind_eq_Ok split: if_splits)

text \<open>
  C14. An order names its security by symbol or by company and issue, and the two ways agree:
  when the name and the issue lead to a security, the first call of frame 3 with them and an
  empty symbol computes exactly the values that it computes when called with that security's
  symbol, and the two calls have the same outcome.
\<close>

theorem frame3_name_or_symbol:
  assumes "\<And>s. s \<in> set TOF3_statements \<Longrightarrow> prepare s"
    and "filter (\<lambda>r. co_name r = name) (company_tbl (snap_of f)) = c # cs" "in_i64 (co_id c)"
    and "filter (\<lambda>r. s_co_id r = co_id c \<and> s_issue r = take 6 issue) (security_tbl (snap_of f)) = s # ss"
    and "distinct (map s_symb (security_tbl (snap_of f)))" "distinct (map co_id (company_tbl (snap_of f)))"
    and "is_cstr name" "length name \<le> 60" "is_cstr issue"
    and "is_cstr (s_symb s)" "s_symb s \<noteq> []" "length (s_symb s) \<le> 15"
  shows "TOF3_first_call prepare (tof_spi pg) ca cu tier is_lifo issue st1 st2 ts q tt margin name price [] f =
      TOF3_first_call prepare (tof_spi pg) ca cu tier is_lifo issue' st1 st2 ts q tt margin name' price (s_symb s) f
    \<and> TradeOrderFrame3 prepare (tof_spi pg) ca cu tier is_lifo issue st1 st2 ts q tt margin name price [] f =
      TradeOrderFrame3 prepare (tof_spi pg) ca cu tier is_lifo issue' st1 st2 ts q tt margin name' price (s_symb s) f"
proof -
  have s: "s \<in> set (security_tbl (snap_of f))" "s_co_id s = co_id c" using arg_cong [OF assms(4), of set] by auto
  have c: "c \<in> set (company_tbl (snap_of f))" "co_name c = name" using arg_cong [OF assms(2), of set] by auto
  have sec: "securities (s_symb s) (snap_of f) = [s]" and com: "companies (s_co_id s) (snap_of f) = [c]"
    using keyed_filter_single [OF assms(5) s(1)] keyed_filter_single [OF assms(6) c(1)]
    by (simp_all add: securities_def companies_def s(2))
  obtain ps where ps: "plan_queries prepare TOF3_statements (f\<lparr>max_calls := 1\<rparr>) =
      Ok (f\<lparr>max_calls := 1, plans := ps\<rparr>)" "set TOF3_statements \<subseteq> set ps"
    using planned [of TOF3_statements prepare "f\<lparr>max_calls := 1\<rparr>", OF assms(1)] by auto
  let ?f = "f\<lparr>max_calls := 1, plans := ps\<rparr>"
  have pl: "set TOF3_statements \<subseteq> set (plans ?f)" using ps(2) by simp
  have "TOF3_by_name (tof_spi pg) name name (take 6 issue) ?f = TOF3_by_symbol (tof_spi pg) (s_symb s) ?f"
    using by_name_runs [OF pl, of name c cs "take 6 issue" s ss pg name] assms(2-4)
      by_symbol_runs [OF pl, of "s_symb s" s "[]" c "[]" pg] sec com c(2) s(2) by simp
  moreover have "copy_sizeof 16 [] = []" "copy_sizeof 16 (s_symb s) = s_symb s" "copy_sizeof 61 name = name"
    "copy_sizeof 7 issue = take 6 issue"
    using assms(7-12) by (simp_all add: is_cstr_def)
  ultimately show ?thesis
    using assms(11) ps(1) by (simp add: TradeOrderFrame3_eq TOF3_first_call_def Let_def)
qed

theorem frame3_name_or_symbol_witness:
  "TOF3_first_call (\<lambda>_. True) (tof_spi sample_pg) 1 3 2 0 ''COMMON'' ''PNDG'' ''SBMT'' 1 30 ''TMS'' 0 ''Alphabeta'' 12 [] sample_ctx =
     TOF3_first_call (\<lambda>_. True) (tof_spi sample_pg) 1 3 2 0 [] ''PNDG'' ''SBMT'' 1 30 ''TMS'' 0 [] 12 ''AB'' sample_ctx
   \<and> TradeOrderFrame3 (\<lambda>_. True) (tof_spi sample_pg) 1 3 2 0 ''COMMON'' ''PNDG'' ''SBMT'' 1 30 ''TMS'' 0 ''Alphabeta'' 12 [] sample_ctx =
     TradeOrderFrame3 (\<lambda>_. True) (tof_spi sample_pg) 1 3 2 0 [] ''PNDG'' ''SBMT'' 1 30 ''TMS'' 0 [] 12 ''AB'' sample_ctx"
proof -
  have "s_symb sample_security = ''AB''" by (simp add: sample_rows)
  then show ?thesis
    using frame3_name_or_symbol [of "\<lambda>_. True" "''Alphabeta''" sample_ctx sample_company "[]" "''COMMON''" sample_security "[]"
        sample_pg 1 3 2 0 "''PNDG''" "''SBMT''" 1 30 "''TMS''" 0 12 "[]" "[]"]
    by (simp add: is_cstr_def in_i64_def) (simp add: sample_rows)
qed

text \<open>The values of a frame 3 that finds everything, in the order of the row.\<close>

definition order_tax :: "int \<Rightarrow> int \<Rightarrow> double \<Rightarrow> double \<Rightarrow> db \<Rightarrow> double" where
  "order_tax c tax_status buy sell d =
     (if buy < sell \<and> tax_status \<in> {1, 2} then
        (case sum_tax_rates c d of None \<Rightarrow> 0 | Some x \<Rightarrow> fmul (fsub sell buy) (rnd64 (of_int x / 10 ^ 5)))
      else 0)"

definition order_assets :: "int \<Rightarrow> int \<Rightarrow> customer_account_row \<Rightarrow> db \<Rightarrow> string" where
  "order_assets ca margin r d =
     (if margin = 1 then
        (let bal = rnd64 (of_int (ca_bal r) / 10 ^ 2) in
         snprintf_2f 18 10 (case hold_assets ca d of None \<Rightarrow> bal | Some a \<Rightarrow> fadd (rnd64 (of_int a / 10 ^ 2)) bal))
      else ''0.00'')"

definition tof3_out :: "company_row \<Rightarrow> security_row \<Rightarrow> last_trade_row \<Rightarrow> trade_type_row \<Rightarrow> rat \<Rightarrow> double \<times> double \<Rightarrow>
    double \<Rightarrow> int option \<Rightarrow> int \<Rightarrow> string \<Rightarrow> string \<Rightarrow> spi_row" where
  "tof3_out c s l ty req est tax chrg rate assets status =
     [Some (co_name c),
      (if tt_is_mrkt ty then num_txt 2 (lt_price l) else Some (snprintf_2f 15 8 (rnd64 req))), Some (s_symb s),
      Some (snprintf_2f 15 8 (fst est)), map_option (numeric_out 2) chrg, num_txt 2 rate, Some assets,
      num_txt 2 (lt_price l), Some (s_name s), Some (snprintf_2f 15 8 (snd est)), Some status,
      Some (snprintf_2f 15 8 tax), case_txt (tt_is_mrkt ty), case_txt (tt_is_sell ty)]"

definition order_price :: "trade_type_row \<Rightarrow> last_trade_row \<Rightarrow> rat \<Rightarrow> double" where
  "order_price ty l req = (if tt_is_mrkt ty then rnd64 (of_int (lt_price l) / 10 ^ 2) else rnd64 req)"

lemma TOF3_tax_runs:
  assumes "set TOF3_statements \<subseteq> set (plans f)"
  shows "TOF3_tax (tof_spi pg) c tax_status buy sell f = Ok (order_tax c tax_status buy sell (snap_of f), f)"
  using planned3 [OF assms]
  by (cases "sum_tax_rates c (snap_of f)") (auto simp: TOF3_tax_def first_row_def tof.exec_read_eq SQLTOF3_7_def
      order_tax_def atof_numeric_out simp del: SPI_execute_plan_planned)

lemma TOF3_assets_runs:
  assumes "set TOF3_statements \<subseteq> set (plans f)" "account_row ca (snap_of f) = Some r"
  shows "TOF3_assets (tof_spi pg) ca margin f = Ok (order_assets ca margin r (snap_of f), f)"
proof -
  obtain rs where "filter (\<lambda>r. ca_id r = ca) (customer_account_tbl (snap_of f)) = r # rs"
    using assms(2) find_filter by (fastforce simp: account_row_def)
  then show ?thesis
    using planned3 [OF assms(1)]
    by (cases "hold_assets ca (snap_of f)") (auto simp: TOF3_assets_def first_row_def tof.exec_read_eq SQLTOF3_10_def
        SQLTOF3_11_def order_assets_def atof_numeric_out getvalue_atof_def simp del: SPI_execute_plan_planned)
qed

definition charges :: "int \<Rightarrow> string \<Rightarrow> db \<Rightarrow> charge_row list" where
  "charges tier tt d = filter (\<lambda>r. ch_c_tier r = tier \<and> ch_tt_id r = tt) (charge_tbl d)"

text \<open>When everything frame 3 asks for exists.\<close>

definition order_ready :: "int \<Rightarrow> int \<Rightarrow> string \<Rightarrow> string \<Rightarrow> int \<Rightarrow> company_row \<Rightarrow> security_row \<Rightarrow> last_trade_row \<Rightarrow>
    trade_type_row \<Rightarrow> commission_rate_row \<Rightarrow> charge_row \<Rightarrow> customer_account_row \<Rightarrow> db \<Rightarrow> bool" where
  "order_ready ca tier symb tt q c s l ty r ch a d \<longleftrightarrow>
     is_cstr symb \<and> symb \<noteq> [] \<and> length symb \<le> 15 \<and> is_cstr tt \<and> length tt \<le> 3
     \<and> securities symb d = [s] \<and> companies (s_co_id s) d = [c] \<and> in_i64 (s_co_id s)
     \<and> filter (\<lambda>l. lt_s_symb l = symb) (last_trade_tbl d) = [l]
     \<and> filter (\<lambda>y. tt_id y = tt) (trade_type_tbl d) = [ty]
     \<and> rates_for tier tt (s_ex_id s) q d = [r] \<and> charges tier tt d = [ch] \<and> account_row ca d = Some a
     \<and> positions_ok d \<and> in_i32 (summary ca symb d) \<and> 0 < q \<and> in_i32 q"

lemma securities_symb: "securities symb d = s # ss \<Longrightarrow> s_symb s = symb"
  using arg_cong [of _ _ set] by (fastforce simp: securities_def filter_eq_Cons_iff)

lemma getvalue_flag_bool:
  "getvalue_flag [bool_txt a, bool_txt b] (Suc 0) = Ok a" "getvalue_flag [bool_txt a, bool_txt b] 2 = Ok b"
  by (simp_all add: getvalue_flag_def)

lemma frame3_runs:
  fixes is_lifo :: int and req :: rat
  assumes prep: "\<And>s. s \<in> set TOF3_statements \<Longrightarrow> prepare s"
    and rdy: "order_ready ca tier symb tt q c s l ty r ch a (snap_of f)" and st: "is_cstr st1" "is_cstr st2"
  defines "est \<equiv> estimate ca is_lifo symb (tt_is_sell ty) q (order_price ty l req) (snap_of f)"
  shows "\<exists>ps vals. TOF3_first_call prepare (tof_spi pg) ca cu tier is_lifo issue st1 st2 tax_status q tt margin name req symb f = Ok (Some vals, f\<lparr>max_calls := 1, plans := ps\<rparr>)
    \<and> BuildTupleFromCStrings (map vals tof3_order) =
        Ok (tof3_out c s l ty req est (order_tax cu tax_status (fst est) (snd est) (snap_of f)) (ch_chrg ch) (cr_rate r)
           (order_assets ca margin a (snap_of f)) (take 9 (if tt_is_mrkt ty then st2 else st1)))"
proof -
  obtain ps where ps: "plan_queries prepare TOF3_statements (f\<lparr>max_calls := 1\<rparr>) =
      Ok (f\<lparr>max_calls := 1, plans := ps\<rparr>)" "set TOF3_statements \<subseteq> set ps"
    using planned [of TOF3_statements prepare "f\<lparr>max_calls := 1\<rparr>", OF prep] by auto
  let ?f = "f\<lparr>max_calls := 1, plans := ps\<rparr>"
  have pl: "set TOF3_statements \<subseteq> set (plans ?f)" using ps(2) by simp
  have cp: "copy_sizeof 16 symb = symb" "copy_sizeof 4 tt = tt" "symb \<noteq> []" "copy_sizeof 10 st1 = take 9 st1"
    "copy_sizeof 10 st2 = take 9 st2"
    using rdy st by (simp_all add: order_ready_def)
  have sec: "TOF3_by_symbol (tof_spi pg) symb ?f = Ok (Some (Some (co_name c), Some (s_name s), Some symb, Some (s_ex_id s)), ?f)"
    using rdy by (intro by_symbol_runs [OF pl]) (auto simp: order_ready_def)
  have lt: "first_row (tof_spi pg) TOF3_3 [DText symb] ?f = Ok (Some [num_txt 2 (lt_price l)], ?f)"
    and ty: "first_row (tof_spi pg) TOF3_4 [DText tt] ?f = Ok (Some [bool_txt (tt_is_mrkt ty), bool_txt (tt_is_sell ty)], ?f)"
    and ra: "first_row (tof_spi pg) TOF3_8 [DInt16 tier, DText tt, DText (s_ex_id s), DInt32 q, DInt32 q] ?f =
        Ok (Some [num_txt 2 (cr_rate r)], ?f)"
    and chg: "first_row (tof_spi pg) TOF3_9 [DInt16 tier, DText tt] ?f = Ok (Some [map_option (numeric_out 2) (ch_chrg ch)], ?f)"
    using rdy planned3 [OF pl]
    by (simp_all add: order_ready_def first_row_def tof.exec_read_eq SQLTOF3_3_def SQLTOF3_4_def SQLTOF3_8_def SQLTOF3_9_def
        rates_for_def charges_def del: SPI_execute_plan_planned if_split)
  have es: "TOF3_estimate (tof_spi pg) ca is_lifo symb is_sell q price ?f =
      Ok (Some (estimate ca is_lifo symb is_sell q price (snap_of f)), ?f)" for is_sell price
    using rdy estimate_runs [OF pl] by (simp add: order_ready_def)
  have tx: "TOF3_tax (tof_spi pg) cu tax_status b s ?f = Ok (order_tax cu tax_status b s (snap_of f), ?f)" for b s
    using TOF3_tax_runs [OF pl] by simp
  have as: "TOF3_assets (tof_spi pg) ca margin ?f = Ok (order_assets ca margin a (snap_of f), ?f)"
    using rdy TOF3_assets_runs [OF pl, of ca a] by (simp add: order_ready_def)
  have sy: "s_symb s = symb" using rdy securities_symb by (auto simp: order_ready_def)
  show ?thesis
    using cp ps(1) sec lt ty ra chg es tx as sy unfolding est_def
    by (intro exI [of _ ps]) (simp add: TOF3_first_call_def Let_def TOF3_column_def getvalue_flag_bool getvalue_atof_def
        atof_numeric_out order_price_def tof3_order_def tof3_out_def case_prod_unfold
        del: if_split split: if_split_asm)
qed

lemma frame3_crashes:
  assumes "TOF3_first_call prepare spi ca cu tier is_lifo issue st1 st2 tax_status q tt margin name req symb f = Ok (Some vals, f')" "max_calls f' = 1"
  shows "TradeOrderFrame3 prepare spi ca cu tier is_lifo issue st1 st2 tax_status q tt margin name req symb f = Fail Crash"
  using assms by (simp add: TradeOrderFrame3_eq)

definition sample_charge :: charge_row where
  "sample_charge = \<lparr>ch_tt_id = ''TMS'', ch_c_tier = 2, ch_chrg = Some 150\<rparr>"

lemma sample_order_ready:
  "order_ready 1 2 ''AB'' ''TMS'' 30 sample_company sample_security sample_last_trade sample_type sample_rate
     sample_charge sample_account sample_db"
  by (simp add: order_ready_def sample_positions_ok sample_account_row is_cstr_def in_i32_def in_i64_def securities_def
      companies_def rates_for_def charges_def summary_def summary_rows_def sample_charge_def sample_rows)

text \<open>
  C15. Trade-Order frame 3 on an order whose account, security, type, rate and charge exist.  At
  the end of the block of the first call, \<open>values\<close> holds the company, the names, the market
  price, the price requested (the market price for a market order), the estimated cost and
  proceeds of the shares the order would close, the tax on a gain, the commission rate, the
  charge, the assets of a margin account and the status the trade will have; no warning is
  raised and nothing is changed.  But the status is a pointer to an array of that block, which
  no longer exists when the row is built from it: the frame as a whole has no defined result.
\<close>

theorem frame3_estimates:
  fixes is_lifo :: int and req :: rat
  assumes "\<And>s. s \<in> set TOF3_statements \<Longrightarrow> prepare s"
    and "order_ready ca tier symb tt q c s l ty r ch a (snap_of f)" "is_cstr st1" "is_cstr st2"
  shows "\<exists>ps vals. TOF3_first_call prepare (tof_spi pg) ca cu tier is_lifo issue st1 st2 tax_status q tt margin name req symb f = Ok (Some vals, f\<lparr>max_calls := 1, plans := ps\<rparr>)
    \<and> BuildTupleFromCStrings (map vals tof3_order) =
       (let est = estimate ca is_lifo symb (tt_is_sell ty) q (order_price ty l req) (snap_of f) in
        Ok (tof3_out c s l ty req est (order_tax cu tax_status (fst est) (snd est) (snap_of f)) (ch_chrg ch) (cr_rate r)
              (order_assets ca margin a (snap_of f)) (take 9 (if tt_is_mrkt ty then st2 else st1))))
    \<and> TradeOrderFrame3 prepare (tof_spi pg) ca cu tier is_lifo issue st1 st2 tax_status q tt margin name req symb f = Fail Crash"
proof -
  obtain ps vals where run: "TOF3_first_call prepare (tof_spi pg) ca cu tier is_lifo issue st1 st2 tax_status q tt margin name req symb f = Ok (Some vals, f\<lparr>max_calls := 1, plans := ps\<rparr>)"
    and out: "BuildTupleFromCStrings (map vals tof3_order) =
       (let est = estimate ca is_lifo symb (tt_is_sell ty) q (order_price ty l req) (snap_of f) in
        Ok (tof3_out c s l ty req est (order_tax cu tax_status (fst est) (snd est) (snap_of f)) (ch_chrg ch) (cr_rate r)
              (order_assets ca margin a (snap_of f)) (take 9 (if tt_is_mrkt ty then st2 else st1))))"
    using frame3_runs [of prepare, OF assms] unfolding Let_def by blast
  then show ?thesis using frame3_crashes [OF run] by auto
qed

theorem frame3_estimates_witness:
  "\<exists>ps vals. TOF3_first_call (\<lambda>_. True) (tof_spi sample_pg) 1 3 2 0 [] ''PNDG'' ''SBMT'' 1 30 ''TMS'' 0 [] 11 ''AB'' sample_ctx = Ok (Some vals, sample_ctx\<lparr>max_calls := 1, plans := ps\<rparr>)
    \<and> BuildTupleFromCStrings (map vals tof3_order) =
        Ok (tof3_out sample_company sample_security sample_last_trade sample_type 11 (300, 360) 15 (Some 150) 25 ''0.00'' ''SBMT'')
    \<and> TradeOrderFrame3 (\<lambda>_. True) (tof_spi sample_pg) 1 3 2 0 [] ''PNDG'' ''SBMT'' 1 30 ''TMS'' 0 [] 11 ''AB'' sample_ctx = Fail Crash"
proof -
  have n: "fadd 0 (fmul 30 (rnd64 (1000 / 100))) = 300" "fadd 0 (fmul 30 12) = 360"
    "fmul (fsub 360 300) (rnd64 (25000 / 100000)) = 15"
    by code_simp+
  have "estimate 1 0 ''AB'' True 30 12 sample_db = (300, 360)"
    by (simp add: estimate_def Let_def trade_sign_def trf2_values_def used_lots_def summary_def summary_rows_def lots_def
        order_asc_def holdings_of_def sample_holding_def shares_used_def in_i32_def n(2) atof_numeric_out)
      (use n(1) in simp)
  moreover have "rnd64 (1200 / 100) = 12" by code_simp
  moreover have "order_tax 3 1 300 360 sample_db = 15"
    using n(3) by (simp add: order_tax_def sum_tax_rates_def)
  ultimately show ?thesis
    using frame3_estimates [of "\<lambda>_. True" 1 2 "''AB''" "''TMS''" 30 sample_company sample_security sample_last_trade
        sample_type sample_rate sample_charge sample_account sample_ctx "''PNDG''" "''SBMT''" sample_pg 3 0 "[]" 1 0 "[]" 11]
      sample_order_ready
    by (simp add: Let_def is_cstr_def order_price_def order_assets_def)
      (simp add: sample_rows sample_charge_def)
qed

section \<open>Frames 1 to 3 only read\<close>

lemmas tof_reads = tof.reads_exec tof.reads_first_row

lemma by_name_reads: "session f = s \<Longrightarrow> reads s (TOF3_by_name (tof_spi pg) a b c f)"
  unfolding TOF3_by_name_def by (intro reads_intros tof_reads)

lemma by_symbol_reads: "session f = s \<Longrightarrow> reads s (TOF3_by_symbol (tof_spi pg) a f)"
  unfolding TOF3_by_symbol_def by (intro reads_intros tof_reads)

lemma holdings_reads: "session f = s \<Longrightarrow> reads s (TOF3_holdings (tof_spi pg) l a sy f)"
  unfolding TOF3_holdings_def Let_def by (intro reads_intros tof_reads)

lemma estimate_reads: "session f = s \<Longrightarrow> reads s (TOF3_estimate (tof_spi pg) a l sy b q p f)"
  unfolding TOF3_estimate_def by (intro reads_intros tof_reads holdings_reads)

lemma tax_reads: "session f = s \<Longrightarrow> reads s (TOF3_tax (tof_spi pg) c ts b se f)"
  unfolding TOF3_tax_def by (intro reads_intros tof_reads)

lemma column_reads: "session f = s \<Longrightarrow> reads s (TOF3_column (tof_spi pg) st as f)"
  unfolding TOF3_column_def by (intro reads_intros tof_reads)

lemma assets_reads: "session f = s \<Longrightarrow> reads s (TOF3_assets (tof_spi pg) ca m f)"
  unfolding TOF3_assets_def by (intro reads_intros tof_reads)

lemmas frame3_parts = by_name_reads by_symbol_reads estimate_reads tax_reads column_reads assets_reads

lemma frame3_reads:
  "session f = s \<Longrightarrow> reads s (TOF3_first_call prepare (tof_spi pg) ca cu tier is_lifo issue st1 st2 tax_status q tt margin name req symb f)"
  unfolding TOF3_first_call_def Let_def by (intro reads_intros tof_reads frame3_parts)

text \<open>
  Estimating an order has no effect: whatever the tables, the arguments and the path the
  first call takes, including its early returns, it leaves the database as it was.
\<close>

theorem frame3_read_only:
  assumes "TOF3_first_call prepare (tof_spi pg) ca cu tier is_lifo issue st1 st2 tax_status q tt margin name req symb f = Ok (vals, f')"
  shows "session f' = session f"
  using readsD [OF frame3_reads [OF refl] assms] .

theorem frame3_read_only_witness:
  "\<exists>vals f'. TOF3_first_call (\<lambda>_. True) (tof_spi sample_pg) 1 3 2 0 [] ''PNDG'' ''SBMT'' 1 30 ''TMS'' 0 [] 11 ''AB'' sample_ctx =
      Ok (vals, f') \<and> session f' = session (sample_ctx :: (tof_stmt, pgsession) fctx)"
proof -
  obtain vals f' where run: "TOF3_first_call (\<lambda>_. True) (tof_spi sample_pg) 1 3 2 0 [] ''PNDG'' ''SBMT'' 1 30 ''TMS'' 0 [] 11 ''AB'' sample_ctx =
      Ok (vals, f')"
    using frame3_runs [of "\<lambda>_. True" 1 2 "''AB''" "''TMS''" 30 sample_company sample_security sample_last_trade
        sample_type sample_rate sample_charge sample_account sample_ctx "''PNDG''" "''SBMT''" sample_pg 3 0 "[]" 1 0 "[]" 11]
      sample_order_ready by (auto simp: is_cstr_def)
  then show ?thesis using frame3_read_only [OF run] by blast
qed

text \<open>
  Frame 3 on an order whose symbol or type does not exist returns no row and reports the
  query that found nothing.
\<close>

theorem frame3_unknown:
  assumes "\<And>s. s \<in> set TOF3_statements \<Longrightarrow> prepare s"
    and "is_cstr symb" "symb \<noteq> []" "length symb \<le> 15" "is_cstr tt"
    and "securities symb (snap_of f) = [] \<and> st = TOF3_1b \<or>
      (\<exists>s c. securities symb (snap_of f) = [s] \<and> companies (s_co_id s) (snap_of f) = [c] \<and> in_i64 (s_co_id s) \<and>
        (symb \<notin> lt_s_symb ` set (last_trade_tbl (snap_of f)) \<and> st = TOF3_3 \<or>
         symb \<in> lt_s_symb ` set (last_trade_tbl (snap_of f)) \<and> take 3 tt \<notin> tt_id ` set (trade_type_tbl (snap_of f)) \<and> st = TOF3_4))"
  shows "\<exists>ps. TradeOrderFrame3 prepare (tof_spi pg) ca cu tier is_lifo issue st1 st2 tax_status q tt margin name req symb f =
    Ok ([], FAIL_FRAME_SET st (f\<lparr>max_calls := 1, plans := ps\<rparr>))"
proof -
  obtain ps where ps: "plan_queries prepare TOF3_statements (f\<lparr>max_calls := 1\<rparr>) =
      Ok (f\<lparr>max_calls := 1, plans := ps\<rparr>)" "set TOF3_statements \<subseteq> set ps"
    using planned [of TOF3_statements prepare "f\<lparr>max_calls := 1\<rparr>", OF assms(1)] by auto
  let ?f = "f\<lparr>max_calls := 1, plans := ps\<rparr>"
  have pl: "set TOF3_statements \<subseteq> set (plans ?f)" using ps(2) by simp
  have cp: "copy_sizeof 16 symb = symb" "copy_sizeof 4 tt = take 3 tt" using assms(2-5) by simp_all
  have lt: "first_row (tof_spi pg) TOF3_3 [DText symb] ?f = Ok (case filter (\<lambda>l. lt_s_symb l = symb) (last_trade_tbl (snap_of f)) of
      [] \<Rightarrow> None | l # _ \<Rightarrow> Some [num_txt 2 (lt_price l)], ?f)"
    using planned3 [OF pl]
    by (simp add: first_row_def tof.exec_read_eq SQLTOF3_3_def del: SPI_execute_plan_planned split: list.split)
  have ty: "first_row (tof_spi pg) TOF3_4 [DText (take 3 tt)] ?f = Ok (None, ?f)"
    if "take 3 tt \<notin> tt_id ` set (trade_type_tbl (snap_of f))"
    using planned3 [OF pl] keyed_filter_none [OF that]
    by (simp add: first_row_def tof.exec_read_eq SQLTOF3_4_def del: SPI_execute_plan_planned)
  consider (no_security) "securities symb (snap_of f) = []" "st = TOF3_1b"
    | (security) s c where "securities symb (snap_of f) = [s]" "companies (s_co_id s) (snap_of f) = [c]" "in_i64 (s_co_id s)"
      "symb \<notin> lt_s_symb ` set (last_trade_tbl (snap_of f)) \<and> st = TOF3_3 \<or>
         symb \<in> lt_s_symb ` set (last_trade_tbl (snap_of f)) \<and> take 3 tt \<notin> tt_id ` set (trade_type_tbl (snap_of f)) \<and> st = TOF3_4"
    using assms(6) by blast
  then show ?thesis
  proof cases
    case no_security
    then have "TOF3_by_symbol (tof_spi pg) symb ?f = Ok (None, FAIL_FRAME_SET TOF3_1b ?f)"
      using planned3 [OF pl] by (simp add: TOF3_by_symbol_def first_row_def tof.exec_read_eq SQLTOF3_1b_def
          securities_def del: SPI_execute_plan_planned)
    with no_security ps(1) cp assms(3) show ?thesis
      by (intro exI [of _ ps]) (simp add: TradeOrderFrame3_def TOF3_first_call_def Let_def)
  next
    case security
    have sec: "TOF3_by_symbol (tof_spi pg) symb ?f = Ok (Some (Some (co_name c), Some (s_name s), Some symb, Some (s_ex_id s)), ?f)"
      using security by (intro by_symbol_runs [OF pl]) auto
    have "filter (\<lambda>l. lt_s_symb l = symb) (last_trade_tbl (snap_of f)) = [] \<longleftrightarrow> symb \<notin> lt_s_symb ` set (last_trade_tbl (snap_of f))"
      by (auto simp: filter_empty_conv)
    with security(4) sec lt ty ps(1) cp assms(3) show ?thesis
      by (intro exI [of _ ps], cases "filter (\<lambda>l. lt_s_symb l = symb) (last_trade_tbl (snap_of f))")
        (auto simp: TradeOrderFrame3_def TOF3_first_call_def Let_def)
  qed
qed

theorem frame3_unknown_witness:
  "\<exists>ps. TradeOrderFrame3 (\<lambda>_. True) (tof_spi sample_pg) 1 3 2 0 [] ''PNDG'' ''SBMT'' 1 30 ''XXX'' 0 [] 11 ''AB'' sample_ctx =
    Ok ([], FAIL_FRAME_SET TOF3_4 (sample_ctx\<lparr>max_calls := 1, plans := ps\<rparr>))"
  using frame3_unknown [of "\<lambda>_. True" "''AB''" "''XXX''" sample_ctx TOF3_4 sample_pg 1 3 2 0 "[]" "''PNDG''" "''SBMT''" 1 30 0 "[]" 11]
  by (simp add: is_cstr_def securities_def companies_def sample_rows in_i64_def)

section \<open>Frames 1 and 2\<close>

text \<open>The row frame 1 returns; \<open>num_found\<close> is 1 when account, customer and broker exist.\<close>

definition tof1_out :: "customer_account_row option \<Rightarrow> customer_row option \<Rightarrow> broker_row option \<Rightarrow> spi_row" where
  "tof1_out a c b = [Option.bind a ca_name, map_option (show_int \<circ> ca_b_id) a, map_option b_name b,
     map_option c_f_name c, map_option (show_int \<circ> ca_c_id) a, map_option c_l_name c, map_option (show_int \<circ> c_tier) c,
     Some (if a \<noteq> None \<and> c \<noteq> None \<and> b \<noteq> None then ''1'' else ''0''), map_option c_tax_id c,
     map_option (show_int \<circ> ca_tax_st) a]"

definition customer_of :: "int \<Rightarrow> db \<Rightarrow> customer_row option" where
  "customer_of c d = find (\<lambda>r. c_id r = c) (customer_tbl d)"

lemma find_hd_filter: "find p xs = (case filter p xs of [] \<Rightarrow> None | x # _ \<Rightarrow> Some x)"
  by (induction xs) auto

text \<open>
  Trade-Order frame 1 always returns exactly one row.  It is complete when the account, its
  customer and its broker exist; when one is missing, \<open>num_found\<close> is 0, which is how the caller
  learns that the account is invalid, and the missing parts are null.
\<close>

theorem tof_frame1_account:
  assumes "\<And>s. s \<in> set TOF1_statements \<Longrightarrow> prepare s"
    and "distinct (map ca_id (customer_account_tbl (snap_of f)))"
    and "\<forall>r \<in> set (customer_account_tbl (snap_of f)). in_i64 (ca_c_id r) \<and> in_i64 (ca_b_id r)"
  shows "\<exists>f'. TradeOrderFrame1 prepare (tof_spi pg) ca f =
    Ok ([let d = snap_of f; a = account_row ca d; c = Option.bind a (\<lambda>a. customer_of (ca_c_id a) d);
             b = Option.bind a (\<lambda>a. broker_of (ca_b_id a) d) in tof1_out a c b], f')
    \<and> session f' = session f"
proof -
  obtain ps where ps: "plan_queries prepare TOF1_statements (f\<lparr>max_calls := 1\<rparr>) =
      Ok (f\<lparr>max_calls := 1, plans := ps\<rparr>)" "set TOF1_statements \<subseteq> set ps"
    using planned [of TOF1_statements prepare "f\<lparr>max_calls := 1\<rparr>", OF assms(1)] by auto
  then have pl: "TOF1_1 \<in> set ps" "TOF1_2 \<in> set ps" "TOF1_3 \<in> set ps" by (auto simp: TOF1_statements_def)
  note evals = TradeOrderFrame1_def first_row_def tof.exec_read_eq SQLTOF1_1_def SQLTOF1_2_def SQLTOF1_3_def
    srf_return_def tof1_order_def tof1_out_def TOF1_account_def getvalue_atoll_def
  show ?thesis
  proof (cases "account_row ca (snap_of f)")
    case None
    then have "filter (\<lambda>r. ca_id r = ca) (customer_account_tbl (snap_of f)) = []"
      by (auto simp: account_row_def find_None_iff filter_empty_conv)
    with None pl ps(1) show ?thesis by (simp add: evals del: SPI_execute_plan_planned)
  next
    case (Some a)
    then have a: "filter (\<lambda>r. ca_id r = ca) (customer_account_tbl (snap_of f)) = [a]"
      using keyed_find_filter assms(2) by (fastforce simp: account_row_def)
    have "a \<in> set (customer_account_tbl (snap_of f))" using arg_cong [OF a, of set] by auto
    with assms(3) have ids: "in_i64 (ca_c_id a)" "in_i64 (ca_b_id a)" by auto
    have one: "snprintf_d 21 1 = ''1''" by code_simp
    show ?thesis
      using Some a ids pl ps(1)
      by (cases "filter (\<lambda>r. c_id r = ca_c_id a) (customer_tbl (snap_of f))";
          cases "filter (\<lambda>r. b_id r = ca_b_id a) (broker_tbl (snap_of f))")
        (simp_all add: evals customer_of_def broker_of_def find_hd_filter one Let_def del: SPI_execute_plan_planned)
  qed
qed

theorem tof_frame1_account_witness:
  "\<exists>f'. TradeOrderFrame1 (\<lambda>_. True) (tof_spi sample_pg) 1 sample_ctx =
    Ok ([tof1_out (Some sample_account) (Some sample_customer) (Some sample_broker)], f') \<and> session f' = session (sample_ctx :: (tof_stmt, pgsession) fctx)"
  using tof_frame1_account [of "\<lambda>_. True" sample_ctx sample_pg 1]
  by (simp add: sample_account_row customer_of_def broker_of_def) (simp add: sample_rows in_i64_def)

text \<open>
  Frame 2 returns the access list of the executor on the account, and the empty string
  when the executor has no permission on it; it changes nothing and raises no warning.
\<close>

theorem tof_frame2_permission:
  assumes "\<And>s. s \<in> set TOF2_statements \<Longrightarrow> prepare s"
    and "is_cstr fname" "is_cstr lname" "is_cstr tax" "\<forall>r \<in> set (account_permission_tbl (snap_of f)). is_cstr (ap_acl r)"
  shows "\<exists>ps. TradeOrderFrame2 prepare (tof_spi pg) ca fname lname tax f =
    Ok (case find (\<lambda>r. ap_ca_id r = ca \<and> ap_f_name r = take 30 fname \<and> ap_l_name r = take 30 lname \<and> ap_tax_id r = take 20 tax)
              (account_permission_tbl (snap_of f)) of
          None \<Rightarrow> [] | Some r \<Rightarrow> take 4 (ap_acl r), f\<lparr>plans := ps\<rparr>)"
proof -
  obtain ps where ps: "plan_queries prepare TOF2_statements f = Ok (f\<lparr>plans := ps\<rparr>)" "set TOF2_statements \<subseteq> set ps"
    using planned [of TOF2_statements prepare f, OF assms(1)] by auto
  then have pl: "TOF2_1 \<in> set ps" by (auto simp: TOF2_statements_def)
  let ?p = "\<lambda>r. ap_ca_id r = ca \<and> ap_f_name r = take 30 fname \<and> ap_l_name r = take 30 lname \<and> ap_tax_id r = take 20 tax"
  have "is_cstr (ap_acl r)" if "filter ?p (account_permission_tbl (snap_of f)) = r # rs" for r rs
    using assms(5) arg_cong [OF that, of set] by auto
  with ps(1) pl assms(2-4) show ?thesis
    by (intro exI [of _ ps], cases "filter ?p (account_permission_tbl (snap_of f))")
      (simp_all add: TradeOrderFrame2_def Let_def tof.exec_read_eq SQLTOF2_1_def find_hd_filter del: SPI_execute_plan_planned)
qed

theorem tof_frame2_permission_witness:
  "\<exists>ps. TradeOrderFrame2 (\<lambda>_. True) (tof_spi sample_pg) 1 ''Ann'' ''Roe'' ''T3'' sample_ctx = Ok ([], sample_ctx\<lparr>plans := ps\<rparr>)"
  using tof_frame2_permission [of "\<lambda>_. True" "''Ann''" "''Roe''" "''T3''" sample_ctx sample_pg 1]
  by (simp add: is_cstr_def)

section \<open>Frame 4\<close>

text \<open>Identifiers are drawn from the sequence, so every stored one is below it.\<close>

definition seq_fresh :: "db \<Rightarrow> bool" where
  "seq_fresh d \<longleftrightarrow> (\<forall>r \<in> set (trade_tbl d). t_id r < seq_trade_id d)
     \<and> (\<forall>r \<in> set (trade_request_tbl d). tr_t_id r < seq_trade_id d)
     \<and> (\<forall>r \<in> set (trade_history_tbl d). th_t_id r < seq_trade_id d)"

definition place_ready :: "pgapi \<Rightarrow> rat \<Rightarrow> rat \<Rightarrow> string \<Rightarrow> rat \<Rightarrow> string \<Rightarrow> string \<Rightarrow> int \<Rightarrow> string \<Rightarrow> db \<Rightarrow> bool" where
  "place_ready pg chrg comm ename price st symb q tt d \<longleftrightarrow>
     is_cstr ename \<and> is_cstr st \<and> is_cstr symb \<and> is_cstr tt \<and> 0 < q
     \<and> 0 < float8_numeric2 pg (rnd64 price) \<and> numeric_ok 12 (float8_numeric2 pg (rnd64 price))
     \<and> 0 \<le> float8_numeric2 pg (rnd64 chrg) \<and> numeric_ok 10 (float8_numeric2 pg (rnd64 chrg))
     \<and> 0 \<le> float8_numeric2 pg (rnd64 comm) \<and> numeric_ok 10 (float8_numeric2 pg (rnd64 comm))
     \<and> seq_fresh d \<and> in_i64 (seq_trade_id d)"

definition placed_trade :: "pgapi \<Rightarrow> int \<Rightarrow> rat \<Rightarrow> rat \<Rightarrow> string \<Rightarrow> int \<Rightarrow> int \<Rightarrow> rat \<Rightarrow> string \<Rightarrow> string \<Rightarrow> int \<Rightarrow> string \<Rightarrow> int \<Rightarrow>
    trade_row" where
  "placed_trade pg ca chrg comm ename is_cash is_lifo price st symb q tt t =
     \<lparr>t_id = t, t_dts = now_ts pg, t_st_id = take 4 st, t_tt_id = take 3 tt, t_is_cash = (is_cash = 1),
      t_s_symb = take 15 symb, t_qty = q, t_bid_price = float8_numeric2 pg (rnd64 price), t_ca_id = ca,
      t_exec_name = ename, t_trade_price = None, t_chrg = float8_numeric2 pg (rnd64 chrg),
      t_comm = float8_numeric2 pg (rnd64 comm), t_tax = 0, t_lifo = (is_lifo = 1)\<rparr>"

definition placed_db :: "pgapi \<Rightarrow> int \<Rightarrow> int \<Rightarrow> rat \<Rightarrow> rat \<Rightarrow> string \<Rightarrow> int \<Rightarrow> int \<Rightarrow> rat \<Rightarrow> string \<Rightarrow> string \<Rightarrow> int \<Rightarrow> string \<Rightarrow> int \<Rightarrow>
    db \<Rightarrow> db" where
  "placed_db pg ca b chrg comm ename is_cash is_lifo price st symb q tt is_market d =
     (let t = seq_trade_id d in
      d\<lparr>seq_trade_id := t + 1,
        trade_tbl := trade_tbl d @ [placed_trade pg ca chrg comm ename is_cash is_lifo price st symb q tt t],
        trade_request_tbl := trade_request_tbl d @
          (if is_market = 0 then [\<lparr>tr_t_id = t, tr_tt_id = take 3 tt, tr_s_symb = take 15 symb, tr_qty = q,
             tr_bid_price = float8_numeric2 pg (rnd64 price), tr_b_id = b\<rparr>] else []),
        trade_history_tbl := trade_history_tbl d @ [\<lparr>th_t_id = t, th_dts = now_ts pg, th_st_id = take 4 st\<rparr>]\<rparr>)"

lemma seq_fresh_ids:
  assumes "seq_fresh d"
  shows "seq_trade_id d \<notin> t_id ` set (trade_tbl d)" "seq_trade_id d \<notin> tr_t_id ` set (trade_request_tbl d)"
    "(seq_trade_id d, st) \<notin> (\<lambda>r. (th_t_id r, th_st_id r)) ` set (trade_history_tbl d)"
  using assms by (fastforce simp: seq_fresh_def)+

lemma planned4:
  assumes "\<And>s. s \<in> set TOF4_statements \<Longrightarrow> prepare s"
  obtains ps where "plan_queries prepare TOF4_statements f = Ok (f\<lparr>plans := ps\<rparr>)" "TOF4_1 \<in> set ps" "TOF4_2 \<in> set ps" "TOF4_3 \<in> set ps"
  using planned [of TOF4_statements prepare f, OF assms] by (auto simp: TOF4_statements_def)

lemma frame4_runs:
  assumes prep: "\<And>s. s \<in> set TOF4_statements \<Longrightarrow> prepare s"
    and rdy: "place_ready pg chrg comm ename price st symb q tt (db_of f)" and len: "length ename \<le> 49"
  shows "\<exists>ps. TradeOrderFrame4 prepare (tof_spi pg) ca b chrg comm ename is_cash is_lifo price st symb q tt is_market f =
    Ok (seq_trade_id (db_of f),
        set_db (placed_db pg ca b chrg comm ename is_cash is_lifo price st symb q tt is_market (db_of f)) (f\<lparr>plans := ps\<rparr>))"
proof -
  obtain ps where ps: "plan_queries prepare TOF4_statements f = Ok (f\<lparr>plans := ps\<rparr>)" "TOF4_1 \<in> set ps"
      "TOF4_2 \<in> set ps" "TOF4_3 \<in> set ps"
    using planned4 [of prepare f, OF prep] by auto
  have cp: "copy_sizeof 65 ename = ename" "copy_sizeof 5 st = take 4 st" "copy_sizeof 16 symb = take 15 symb"
      "copy_sizeof 4 tt = take 3 tt"
    using rdy len by (simp_all add: place_ready_def)
  have fr: "seq_fresh (db_of f)" using rdy by (simp add: place_ready_def)
  note evals = TradeOrderFrame4_def tof.frame_eqs SQLTOF4_1_def SQLTOF4_2_def SQLTOF4_3_def sql_check_def Let_def
    place_ready_def placed_db_def placed_trade_def getvalue_atoll_def
  show ?thesis
    using ps cp rdy len seq_fresh_ids [OF fr]
    by (intro exI [of _ ps], cases "is_market = 0") (simp_all add: evals del: SPI_execute_plan_planned)
qed

text \<open>
  C20. Frame 4 enters the order: it returns the next identifier of the sequence and stores the
  trade under it with the status given, adds one row of history, and for a limit order (and
  only then) the request that waits for the price.  The identifier is new, and the sequence
  stays ahead of every stored identifier.
\<close>

theorem frame4_places:
  assumes "\<And>s. s \<in> set TOF4_statements \<Longrightarrow> prepare s"
    and "place_ready pg chrg comm ename price st symb q tt (db_of f)" "length ename \<le> 49"
  shows "\<exists>t f'. TradeOrderFrame4 prepare (tof_spi pg) ca b chrg comm ename is_cash is_lifo price st symb q tt is_market f = Ok (t, f')
    \<and> warnings f' = warnings f \<and> t \<notin> t_id ` set (trade_tbl (db_of f)) \<and> seq_fresh (db_of f')
    \<and> trade_of t (db_of f') = Some (placed_trade pg ca chrg comm ename is_cash is_lifo price st symb q tt t)
    \<and> (\<forall>u. u \<noteq> t \<longrightarrow> trade_of u (db_of f') = trade_of u (db_of f))
    \<and> trade_history_tbl (db_of f') = trade_history_tbl (db_of f) @ [\<lparr>th_t_id = t, th_dts = now_ts pg, th_st_id = take 4 st\<rparr>]
    \<and> trade_request_tbl (db_of f') = trade_request_tbl (db_of f) @
        (if is_market = 0 then [\<lparr>tr_t_id = t, tr_tt_id = take 3 tt, tr_s_symb = take 15 symb, tr_qty = q,
           tr_bid_price = float8_numeric2 pg (rnd64 price), tr_b_id = b\<rparr>] else [])"
proof -
  obtain ps where run: "TradeOrderFrame4 prepare (tof_spi pg) ca b chrg comm ename is_cash is_lifo price st symb q tt is_market f =
    Ok (seq_trade_id (db_of f),
        set_db (placed_db pg ca b chrg comm ename is_cash is_lifo price st symb q tt is_market (db_of f)) (f\<lparr>plans := ps\<rparr>))"
    using frame4_runs [of prepare, OF assms(1) assms(2,3)] by blast
  have fr: "seq_fresh (db_of f)" using assms(2) by (simp add: place_ready_def)
  have id: "t_id (placed_trade pg ca chrg comm ename is_cash is_lifo price st symb q tt t) = t" for t
    by (simp add: placed_trade_def)
  have fr': "seq_fresh (placed_db pg ca b chrg comm ename is_cash is_lifo price st symb q tt is_market (db_of f))"
    using fr by (auto simp: seq_fresh_def placed_db_def Let_def id intro: less_SucI)
  have new: "trade_of (seq_trade_id (db_of f)) (db_of f) = None"
    using seq_fresh_ids [OF fr] by (simp add: trade_of_def find_none_key)
  show ?thesis
    unfolding run using fr' new seq_fresh_ids [OF fr]
    by (intro exI conjI) (rule refl, simp_all add: placed_db_def Let_def trade_of_def find_append id split: option.split)
qed

lemma sample_place_ready: "place_ready sample_pg 1 8 ''Ann'' 12 ''PNDG'' ''AB'' 30 ''TLS'' (sample_db\<lparr>seq_trade_id := 10\<rparr>)"
  by (simp add: place_ready_def is_cstr_def numeric_ok_def in_i64_def seq_fresh_def sample_rows
      rnd64_of_int [of 1, simplified])

definition sample_order_ctx :: "(tof_stmt, pgsession) fctx" where
  "sample_order_ctx = set_db (sample_db\<lparr>seq_trade_id := 10\<rparr>) sample_ctx"

theorem frame4_places_witness:
  "\<exists>t f'. TradeOrderFrame4 (\<lambda>_. True) (tof_spi sample_pg) 1 2 1 8 ''Ann'' 1 0 12 ''PNDG'' ''AB'' 30 ''TLS'' 0 sample_order_ctx = Ok (t, f')
    \<and> trade_of t (db_of f') = Some (placed_trade sample_pg 1 1 8 ''Ann'' 1 0 12 ''PNDG'' ''AB'' 30 ''TLS'' t)
    \<and> length (trade_request_tbl (db_of f')) = 1"
  using frame4_places [of "\<lambda>_. True" sample_pg 1 8 "''Ann''" 12 "''PNDG''" "''AB''" 30 "''TLS''" sample_order_ctx 1 2 1 0 0]
    sample_place_ready
  by (auto simp: sample_order_ctx_def)

text \<open>
  The frame keeps 64 characters of the executor's name, the column \<open>t_exec_name\<close> takes 49:
  an order with a longer name whose excess is not blank is refused with an SQL error.
\<close>

theorem frame4_long_name:
  assumes "\<And>s. s \<in> set TOF4_statements \<Longrightarrow> prepare s"
    and "is_cstr ename" "\<exists>c \<in> set (drop 49 (take 64 ename)). c \<noteq> CHR '' ''"
  shows "TradeOrderFrame4 prepare (tof_spi pg) ca b chrg comm ename is_cash is_lifo price st symb q tt is_market f = Fail Sql_Error"
proof -
  obtain ps where ps: "plan_queries prepare TOF4_statements f = Ok (f\<lparr>plans := ps\<rparr>)" "TOF4_1 \<in> set ps"
      "TOF4_2 \<in> set ps" "TOF4_3 \<in> set ps"
    using planned4 [of prepare f, OF assms(1)] by auto
  have cp: "copy_sizeof 65 ename = take 64 ename" using assms(2) by simp
  have "drop 49 (take 64 ename) \<noteq> []" using assms(3) by auto
  then have "varchar 49 (take 64 ename) = None"
    using assms(3) by (auto simp: varchar_def list_all_iff)
  with ps cp show ?thesis
    by (simp add: TradeOrderFrame4_def tof.frame_eqs SQLTOF4_1_def Let_def del: SPI_execute_plan_planned)
qed

theorem frame4_long_name_witness:
  "TradeOrderFrame4 (\<lambda>_. True) (tof_spi sample_pg) 1 2 1 8 (replicate 50 (CHR ''x'')) 1 0 12 ''PNDG'' ''AB'' 30 ''TLS'' 0 sample_order_ctx =
     Fail Sql_Error"
  by (rule frame4_long_name) (simp_all add: is_cstr_def)

end
