(* ===== verification/MarketWatch.thy ===== *)
theory MarketWatch
  imports Settlement
begin

text \<open>
  The Market-Watch transaction, \<^verbatim>\<open>storedproc/pgsql/c/market_watch.c\<close>: the change of the market
  capitalisation of a set of securities since a given day.  The set is the customer's watch
  list, an industry, or the holdings of an account, whichever input is given first.

  SQL leaves the order of the rows of a join open; the model takes the order of nested loops
  over the tables, which only matters for the rounding of the two sums.
\<close>

section \<open>SQL statements\<close>

text \<open>\<open>MWF1_invalid_inputs\<close> stands for the text of the warning about unset inputs.\<close>

datatype mwf_stmt = MWF1_1 | MWF1_2 | MWF1_3 | MWF1_4 | MWF1_5 | MWF1_6 | MWF1_invalid_inputs

definition MWF1_statements :: "mwf_stmt list" where
  "MWF1_statements = [MWF1_1, MWF1_2, MWF1_3, MWF1_4, MWF1_5, MWF1_6]"

definition watched :: "int \<Rightarrow> db \<Rightarrow> string list" where
  "watched c d = [wi_s_symb wi. wi \<leftarrow> watch_item_tbl d, wl \<leftarrow> watch_list_tbl d,
     wi_wl_id wi = wl_id wl \<and> wl_c_id wl = c]"

definition in_industry :: "string \<Rightarrow> int \<Rightarrow> int \<Rightarrow> db \<Rightarrow> string list" where
  "in_industry nm lo hi d = [s_symb s. i \<leftarrow> industry_tbl d, co \<leftarrow> company_tbl d, s \<leftarrow> security_tbl d,
     in_name i = nm \<and> co_in_id co = in_id i \<and> lo \<le> co_id co \<and> co_id co \<le> hi \<and> s_co_id s = co_id co]"

definition held :: "int \<Rightarrow> db \<Rightarrow> string list" where
  "held ca d = map hs_s_symb (filter (\<lambda>r. hs_ca_id r = ca) (holding_summary_tbl d))"

definition SQLMWF1_1 :: "int \<Rightarrow> sql" where
  "SQLMWF1_1 c d = sql_select (map (\<lambda>s. [Some s]) (watched c d)) d"

definition SQLMWF1_2 :: "string \<Rightarrow> int \<Rightarrow> int \<Rightarrow> sql" where
  "SQLMWF1_2 nm lo hi d = sql_select (map (\<lambda>s. [Some s]) (in_industry nm lo hi d)) d"

definition SQLMWF1_3 :: "int \<Rightarrow> sql" where
  "SQLMWF1_3 ca d = sql_select (map (\<lambda>s. [Some s]) (held ca d)) d"

definition SQLMWF1_4 :: "string \<Rightarrow> sql" where
  "SQLMWF1_4 symb d = sql_select
     (map (\<lambda>r. [num_txt 2 (lt_price r)]) (filter (\<lambda>r. lt_s_symb r = symb) (last_trade_tbl d))) d"

definition SQLMWF1_5 :: "string \<Rightarrow> sql" where
  "SQLMWF1_5 symb d = sql_select
     (map (\<lambda>r. [int_txt (s_num_out r)]) (filter (\<lambda>r. s_symb r = symb) (security_tbl d))) d"

definition SQLMWF1_6 :: "string \<Rightarrow> int \<Rightarrow> sql" where
  "SQLMWF1_6 symb day d = sql_select
     (map (\<lambda>r. [num_txt 2 (dm_close r)])
        (filter (\<lambda>r. dm_s_symb r = symb \<and> dm_date r = day) (daily_market_tbl d))) d"

primrec mwf_sql :: "datum list \<Rightarrow> mwf_stmt \<Rightarrow> sql" where
  "mwf_sql as MWF1_1 = (case as of [DInt64 c] \<Rightarrow> SQLMWF1_1 c | _ \<Rightarrow> (\<lambda>d. Fail Sql_Error))"
| "mwf_sql as MWF1_2 =
     (case as of [DText nm, DInt64 lo, DInt64 hi] \<Rightarrow> SQLMWF1_2 nm lo hi | _ \<Rightarrow> (\<lambda>d. Fail Sql_Error))"
| "mwf_sql as MWF1_3 = (case as of [DInt64 ca] \<Rightarrow> SQLMWF1_3 ca | _ \<Rightarrow> (\<lambda>d. Fail Sql_Error))"
| "mwf_sql as MWF1_4 = (case as of [DText s] \<Rightarrow> SQLMWF1_4 s | _ \<Rightarrow> (\<lambda>d. Fail Sql_Error))"
| "mwf_sql as MWF1_5 = (case as of [DText s] \<Rightarrow> SQLMWF1_5 s | _ \<Rightarrow> (\<lambda>d. Fail Sql_Error))"
| "mwf_sql as MWF1_6 = (case as of [DText s, DDate day] \<Rightarrow> SQLMWF1_6 s day | _ \<Rightarrow> (\<lambda>d. Fail Sql_Error))"
| "mwf_sql as MWF1_invalid_inputs = (\<lambda>d. Fail Sql_Error)"

definition mwf_spi :: "(mwf_stmt, pgsession) spi" where
  "mwf_spi stmt as read_only s = run_sql (mwf_sql as stmt) read_only s"

interpretation mwf: sql_provider mwf_spi mwf_sql
  by unfold_locales (simp add: mwf_spi_def)

section \<open>The frame\<close>

text \<open>
  A query of the loop: the first row if there is one; a failure is reported and, like an empty
  result, makes the loop go on with the next symbol.
\<close>

definition MWF1_query ::
    "(mwf_stmt, 'd) spi \<Rightarrow> mwf_stmt \<Rightarrow> datum list \<Rightarrow> (mwf_stmt, 'd) fctx \<Rightarrow>
     (spi_row option \<times> (mwf_stmt, 'd) fctx) outcome" where
  "MWF1_query spi stmt args f = obind (SPI_execute_plan spi stmt args True f) (\<lambda>(r, f).
     Ok (case r of
           SPI_OK_SELECT rows \<Rightarrow> ((case rows of [] \<Rightarrow> None | row # _ \<Rightarrow> Some row), f)
         | _ \<Rightarrow> (None, FAIL_FRAME stmt f)))"

fun MWF1_loop ::
    "(mwf_stmt, 'd) spi \<Rightarrow> int \<Rightarrow> spi_row list \<Rightarrow> double \<Rightarrow> double \<Rightarrow> (mwf_stmt, 'd) fctx \<Rightarrow>
     ((double \<times> double) \<times> (mwf_stmt, 'd) fctx) outcome" where
  "MWF1_loop spi start_date [] old_cap new_cap f = Ok ((old_cap, new_cap), f)"
| "MWF1_loop spi start_date (row # rows) old_cap new_cap f =
     obind (from_ptr (SPI_getvalue row 1)) (\<lambda>symbol.
     obind (MWF1_query spi MWF1_4 [DText symbol] f) (\<lambda>(r4, f).
     case r4 of None \<Rightarrow> MWF1_loop spi start_date rows old_cap new_cap f | Some row4 \<Rightarrow>
     obind (MWF1_query spi MWF1_5 [DText symbol] f) (\<lambda>(r5, f).
     case r5 of None \<Rightarrow> MWF1_loop spi start_date rows old_cap new_cap f | Some row5 \<Rightarrow>
     obind (MWF1_query spi MWF1_6 [DText symbol, DDate start_date] f) (\<lambda>(r6, f).
     case r6 of None \<Rightarrow> MWF1_loop spi start_date rows old_cap new_cap f | Some row6 \<Rightarrow>
     obind (getvalue_atof row5 1) (\<lambda>num_out.
     obind (getvalue_atof row6 1) (\<lambda>old_price.
     obind (getvalue_atof row4 1) (\<lambda>new_price.
     MWF1_loop spi start_date rows (fadd old_cap (fmul num_out old_price))
       (fadd new_cap (fmul num_out new_price)) f)))))))"

definition MWF1_pct_change :: "double \<Rightarrow> double \<Rightarrow> double" where
  "MWF1_pct_change old_cap new_cap =
     (if old_cap \<noteq> 0 then fmul 100 (fsub (fdiv new_cap old_cap) 1) else 0)"

definition MarketWatchFrame1 ::
    "(mwf_stmt \<Rightarrow> bool) \<Rightarrow> (mwf_stmt, 'd) spi \<Rightarrow> int \<Rightarrow> int \<Rightarrow> int \<Rightarrow> string \<Rightarrow> int \<Rightarrow> int \<Rightarrow>
     (mwf_stmt, 'd) fctx \<Rightarrow> (double \<times> (mwf_stmt, 'd) fctx) outcome" where
  "MarketWatchFrame1 prepare spi acct_id cust_id ending_co_id industry_name_p start_date starting_co_id f =
     (let industry_name = copy_sizeof (IN_NAME_LEN + 1) industry_name_p in
      obind (plan_queries prepare MWF1_statements f) (\<lambda>f.
      case (if cust_id \<noteq> 0 then Some (MWF1_1, [DInt64 cust_id])
            else if industry_name \<noteq> [] then
              Some (MWF1_2, [DText industry_name, DInt64 starting_co_id, DInt64 ending_co_id])
            else if acct_id \<noteq> 0 then Some (MWF1_3, [DInt64 acct_id]) else None) of
        None \<Rightarrow> Ok (0, FAIL_FRAME MWF1_invalid_inputs f)
      | Some (stmt, args) \<Rightarrow>
          obind (SPI_execute_plan spi stmt args True f) (\<lambda>(r, f).
          case r of
            SPI_OK_SELECT rows \<Rightarrow>
              obind (MWF1_loop spi start_date rows 0 0 f) (\<lambda>((old_cap, new_cap), f).
              Ok (MWF1_pct_change old_cap new_cap, f))
          | _ \<Rightarrow> Ok (0, FAIL_FRAME stmt f))))"

section \<open>The frame on the tables\<close>

text \<open>The symbols the inputs select, and the sums over those that have all three figures.\<close>

definition mw_symbols :: "int \<Rightarrow> int \<Rightarrow> int \<Rightarrow> string \<Rightarrow> int \<Rightarrow> db \<Rightarrow> string list" where
  "mw_symbols ca cu hi nm lo d =
     (if cu \<noteq> 0 then watched cu d else if nm \<noteq> [] then in_industry nm lo hi d else held ca d)"

definition mw_figures :: "int \<Rightarrow> db \<Rightarrow> string \<Rightarrow> (int \<times> int \<times> int) option" where
  "mw_figures day d symb =
     (case (filter (\<lambda>r. lt_s_symb r = symb) (last_trade_tbl d), filter (\<lambda>r. s_symb r = symb) (security_tbl d),
            filter (\<lambda>r. dm_s_symb r = symb \<and> dm_date r = day) (daily_market_tbl d)) of
        (l # _, s # _, m # _) \<Rightarrow> Some (s_num_out s, dm_close m, lt_price l) | _ \<Rightarrow> None)"

definition mw_cap :: "double \<Rightarrow> int \<Rightarrow> int \<Rightarrow> double" where
  "mw_cap cap num_out cents = fadd cap (fmul (rnd64 (of_int num_out)) (rnd64 (of_int cents / 10 ^ 2)))"

definition mw_caps :: "(int \<times> int \<times> int) list \<Rightarrow> double \<times> double \<Rightarrow> double \<times> double" where
  "mw_caps = fold (\<lambda>(n, old, new) (a, b). (mw_cap a n old, mw_cap b n new))"

lemma mw_query:
  assumes "stmt \<in> set (plans f)" "mwf_sql as stmt (snap_of f) = Ok (SPI_OK_SELECT rows, d)"
  shows "MWF1_query mwf_spi stmt as f = Ok (case rows of [] \<Rightarrow> None | row # _ \<Rightarrow> Some row, f)"
  using assms by (simp add: MWF1_query_def mwf.exec_read del: SPI_execute_plan_planned)

lemma mw_loop:
  assumes "set MWF1_statements \<subseteq> set (plans f)"
  shows "MWF1_loop mwf_spi day (map (\<lambda>s. [Some s]) ss) a b f =
    Ok (mw_caps (List.map_filter (mw_figures day (snap_of f)) ss) (a, b), f)"
proof (induction ss arbitrary: a b)
  case Nil
  show ?case by (simp add: mw_caps_def map_filter_simps)
next
  case (Cons s ss)
  have pl: "MWF1_4 \<in> set (plans f)" "MWF1_5 \<in> set (plans f)" "MWF1_6 \<in> set (plans f)"
    using assms by (auto simp: MWF1_statements_def)
  note qs = mw_query [OF pl(1)] mw_query [OF pl(2)] mw_query [OF pl(3)]
  let ?l = "filter (\<lambda>r. lt_s_symb r = s) (last_trade_tbl (snap_of f))"
  let ?s = "filter (\<lambda>r. s_symb r = s) (security_tbl (snap_of f))"
  let ?m = "filter (\<lambda>r. dm_s_symb r = s \<and> dm_date r = day) (daily_market_tbl (snap_of f))"
  have q4: "MWF1_query mwf_spi MWF1_4 [DText s] f =
      Ok (case ?l of [] \<Rightarrow> None | l # _ \<Rightarrow> Some [num_txt 2 (lt_price l)], f)"
    by (subst qs(1)) (auto simp: SQLMWF1_4_def split: list.split)
  have q5: "MWF1_query mwf_spi MWF1_5 [DText s] f =
      Ok (case ?s of [] \<Rightarrow> None | r # _ \<Rightarrow> Some [int_txt (s_num_out r)], f)"
    by (subst qs(2)) (auto simp: SQLMWF1_5_def split: list.split)
  have q6: "MWF1_query mwf_spi MWF1_6 [DText s, DDate day] f =
      Ok (case ?m of [] \<Rightarrow> None | m # _ \<Rightarrow> Some [num_txt 2 (dm_close m)], f)"
    by (subst qs(3)) (auto simp: SQLMWF1_6_def split: list.split)
  show ?case
    by (cases ?l; cases ?s; cases ?m)
      (simp_all add: q4 q5 q6 Cons.IH mw_figures_def map_filter_simps mw_caps_def mw_cap_def getvalue_atof_def
        atof_numeric_out atof_show_int)
qed

lemma mw_frame_runs:
  assumes prep: "\<And>s. s \<in> set MWF1_statements \<Longrightarrow> prepare s" and inp: "cu \<noteq> 0 \<or> nm \<noteq> [] \<or> ca \<noteq> 0" and nm: "is_cstr nm"
  shows "\<exists>ps. MarketWatchFrame1 prepare mwf_spi ca cu hi nm day lo f =
    (case mw_caps (List.map_filter (mw_figures day (snap_of f)) (mw_symbols ca cu hi (take 50 nm) lo (snap_of f))) (0, 0) of
       (old, new) \<Rightarrow> Ok (MWF1_pct_change old new, f\<lparr>plans := ps\<rparr>))"
proof -
  obtain ps where ps: "plan_queries prepare MWF1_statements f = Ok (f\<lparr>plans := ps\<rparr>)" "set MWF1_statements \<subseteq> set ps"
    using planned [of MWF1_statements prepare f, OF prep] by auto
  let ?f = "f\<lparr>plans := ps\<rparr>"
  have sub: "set MWF1_statements \<subseteq> set (plans ?f)" using ps(2) by simp
  then have pl: "MWF1_1 \<in> set (plans ?f)" "MWF1_2 \<in> set (plans ?f)" "MWF1_3 \<in> set (plans ?f)"
    by (auto simp: MWF1_statements_def)
  have cp: "copy_sizeof 51 nm = take 50 nm" using nm by simp
  note evals = MarketWatchFrame1_def Let_def mwf.exec_read_eq SQLMWF1_1_def SQLMWF1_2_def SQLMWF1_3_def mw_symbols_def
    mw_loop [OF sub] cp
  have "take 50 nm = [] \<longleftrightarrow> nm = []" by simp
  with ps(1) pl inp show ?thesis
    by (intro exI [of _ ps]) (auto simp: evals case_prod_unfold simp del: SPI_execute_plan_planned)
qed

text \<open>
  C24. Market-Watch on every database with usable inputs: the frame returns the percentage by
  which the capitalisation of the selected securities changed, summed over exactly those that
  have a last price, an issue size and a closing price of the day; securities without them are
  skipped.  It raises no warning and changes nothing.
\<close>

theorem market_watch_change:
  assumes "\<And>s. s \<in> set MWF1_statements \<Longrightarrow> prepare s" "cu \<noteq> 0 \<or> nm \<noteq> [] \<or> ca \<noteq> 0" "is_cstr nm"
  shows "\<exists>ps. MarketWatchFrame1 prepare mwf_spi ca cu hi nm day lo f =
    (case mw_caps (List.map_filter (mw_figures day (snap_of f)) (mw_symbols ca cu hi (take 50 nm) lo (snap_of f))) (0, 0) of
       (old, new) \<Rightarrow> Ok (MWF1_pct_change old new, f\<lparr>plans := ps\<rparr>))"
  using assms by (rule mw_frame_runs)

definition sample_market_ctx :: "(mwf_stmt, pgsession) fctx" where
  "sample_market_ctx = \<lparr>session = start_call (sample_db\<lparr>daily_market_tbl :=
      [\<lparr>dm_date = 5, dm_s_symb = ''AB'', dm_close = 1000, dm_high = 1000, dm_low = 1000, dm_vol = 1\<rparr>,
       \<lparr>dm_date = 6, dm_s_symb = ''AB'', dm_close = 1200, dm_high = 1200, dm_low = 1100, dm_vol = 1\<rparr>]\<rparr>),
     plans = [], warnings = [], max_calls = 0\<rparr>"

lemma sample_market: "snap_of sample_market_ctx = sample_db\<lparr>daily_market_tbl :=
    [\<lparr>dm_date = 5, dm_s_symb = ''AB'', dm_close = 1000, dm_high = 1000, dm_low = 1000, dm_vol = 1\<rparr>,
     \<lparr>dm_date = 6, dm_s_symb = ''AB'', dm_close = 1200, dm_high = 1200, dm_low = 1100, dm_vol = 1\<rparr>]\<rparr>"
  by (simp add: sample_market_ctx_def snap_of_def)

theorem market_watch_change_witness:
  "\<exists>ps x. MarketWatchFrame1 (\<lambda>_. True) mwf_spi 1 0 0 [] 5 0 sample_market_ctx =
     Ok (x, sample_market_ctx\<lparr>plans := ps\<rparr>) \<and> \<bar>x - 20\<bar> < 1 / 1000000"
proof -
  have "mw_caps [(1000, 1000, 1200)] (0, 0) = (10000, 12000)" by code_simp
  moreover have "\<bar>MWF1_pct_change 10000 12000 - 20\<bar> < 1 / 1000000" by code_simp
  ultimately show ?thesis
    using market_watch_change [of "\<lambda>_. True" 0 "[]" 1 0 5 0 sample_market_ctx]
    by (simp add: is_cstr_def sample_market mw_symbols_def held_def mw_figures_def map_filter_simps sample_rows) blast
qed

text \<open>
  The inputs have a precedence: a customer selects the watch list whatever the other inputs
  are, an industry selects its companies when there is no customer.  With no input at all the
  frame returns 0 and one warning, and runs no query.
\<close>

theorem market_watch_inputs:
  fixes spi :: "(mwf_stmt, 'd) spi"
  assumes "\<And>s. s \<in> set MWF1_statements \<Longrightarrow> prepare s" "cu \<noteq> 0" "is_cstr nm" "nm \<noteq> []"
  shows "MarketWatchFrame1 prepare spi ca cu hi nm' day lo f = MarketWatchFrame1 prepare spi 0 cu 0 [] day 0 f
    \<and> MarketWatchFrame1 prepare spi ca 0 hi nm day lo f = MarketWatchFrame1 prepare spi 0 0 hi (take 50 nm) day lo f
    \<and> (\<exists>ps. MarketWatchFrame1 prepare spi 0 0 hi [] day lo f =
          Ok (0, FAIL_FRAME MWF1_invalid_inputs (f\<lparr>plans := ps\<rparr>)))"
proof -
  obtain ps where ps: "plan_queries prepare MWF1_statements f = Ok (f\<lparr>plans := ps\<rparr>)"
    using planned [of MWF1_statements prepare f, OF assms(1)] by auto
  have "is_cstr (take 50 nm)" using assms(3) by (auto simp: is_cstr_def dest: in_set_takeD)
  with assms(2-4) show ?thesis
    by (intro conjI exI [of _ ps]) (simp_all add: MarketWatchFrame1_def Let_def ps is_cstr_def [of "[]"])
qed

theorem market_watch_inputs_witness:
  "MarketWatchFrame1 (\<lambda>_. True) mwf_spi 1 3 9 ''Coal'' 5 7 sample_market_ctx =
     MarketWatchFrame1 (\<lambda>_. True) mwf_spi 0 3 0 [] 5 0 sample_market_ctx
   \<and> MarketWatchFrame1 (\<lambda>_. True) mwf_spi 1 0 9 ''Steel'' 5 7 sample_market_ctx =
     MarketWatchFrame1 (\<lambda>_. True) mwf_spi 0 0 9 (take 50 ''Steel'') 5 7 sample_market_ctx
   \<and> (\<exists>ps. MarketWatchFrame1 (\<lambda>_. True) mwf_spi 0 0 9 [] 5 7 sample_market_ctx =
        Ok (0, FAIL_FRAME MWF1_invalid_inputs (sample_market_ctx\<lparr>plans := ps\<rparr>)))"
  by (rule market_watch_inputs) (simp_all add: is_cstr_def)

text \<open>
  A market that did not move has changed by exactly 0 per cent: when every selected
  security closed the day at its last price, the frame returns 0, without rounding residue.
\<close>

lemma mw_caps_same:
  "\<forall>(n, old, new) \<in> set xs. old = new \<Longrightarrow> fst (mw_caps xs (a, a)) = snd (mw_caps xs (a, a))"
  by (induction xs arbitrary: a) (auto simp: mw_caps_def)

lemma pct_change_same: "MWF1_pct_change x x = 0"
  using rnd64_of_int [of 1] by (simp add: MWF1_pct_change_def fdiv_def fsub_def fmul_def)

theorem market_watch_unmoved:
  assumes "\<And>s. s \<in> set MWF1_statements \<Longrightarrow> prepare s" "cu \<noteq> 0 \<or> nm \<noteq> [] \<or> ca \<noteq> 0" "is_cstr nm"
    and "\<forall>symb \<in> set (mw_symbols ca cu hi (take 50 nm) lo (snap_of f)). \<forall>n old new.
      mw_figures day (snap_of f) symb = Some (n, old, new) \<longrightarrow> old = new"
  shows "\<exists>ps. MarketWatchFrame1 prepare mwf_spi ca cu hi nm day lo f = Ok (0, f\<lparr>plans := ps\<rparr>)"
proof -
  let ?xs = "List.map_filter (mw_figures day (snap_of f)) (mw_symbols ca cu hi (take 50 nm) lo (snap_of f))"
  have "\<exists>symb \<in> set (mw_symbols ca cu hi (take 50 nm) lo (snap_of f)). mw_figures day (snap_of f) symb = Some z"
    if "z \<in> set ?xs" for z
    using that by (auto simp: List.map_filter_def)
  with assms(4) have "\<forall>(n, old, new) \<in> set ?xs. old = new" by blast
  then have "fst (mw_caps ?xs (0, 0)) = snd (mw_caps ?xs (0, 0))" by (rule mw_caps_same)
  with mw_frame_runs [of prepare, OF assms(1-3), of hi day lo f] show ?thesis
    by (simp add: case_prod_unfold pct_change_same)
qed

theorem market_watch_unmoved_witness:
  "\<exists>ps. MarketWatchFrame1 (\<lambda>_. True) mwf_spi 1 0 0 [] 6 0 sample_market_ctx = Ok (0, sample_market_ctx\<lparr>plans := ps\<rparr>)"
  using market_watch_unmoved [of "\<lambda>_. True" 0 "[]" 1 0 0 sample_market_ctx 6]
  by (simp add: is_cstr_def sample_market mw_symbols_def held_def mw_figures_def sample_rows)

end
