(* ===== verification/ArrayBuf.thy ===== *)
theory ArrayBuf
  imports SPI
begin

text \<open>
  The buffers in which the frames assemble the text of an array column, \<open>{a,b,\<dots>}\<close>.

  A frame allocates a buffer of a size it computes from the number of rows, keeps the number
  of bytes it believes to be left in an \<open>int\<close>, and appends with \<open>strncat(buffer, text, left)\<close>.
  When the count falls below zero it issues a warning and goes on; the negative count is then
  converted to \<open>size_t\<close>, so the next \<open>strncat\<close> is not limited any more.
\<close>

record cbuf =
  cap :: nat \<comment> \<open>bytes allocated\<close>
  ctext :: string \<comment> \<open>the C string in it\<close>

text \<open>
  \<open>strncat\<close> appends at most \<open>n\<close> characters and a terminating \<open>'\0'\<close>; writing past the allocation
  has no defined behaviour.
\<close>

definition size_t :: "int \<Rightarrow> nat" where
  "size_t n = nat (n mod 2 ^ 64)"

definition strncat :: "cbuf \<Rightarrow> string \<Rightarrow> int \<Rightarrow> cbuf outcome" where
  "strncat b s n =
     (let t = ctext b @ take (size_t n) s in
      if length t + 1 \<le> cap b then Ok (b\<lparr>ctext := t\<rparr>) else Fail Crash)"

text \<open>\<open>palloc\<close> refuses a negative size, which is a huge \<open>size_t\<close>, and a gigabyte or more.\<close>

definition palloc :: "int \<Rightarrow> unit outcome" where
  "palloc len = (if 0 \<le> len \<and> len < 2 ^ 30 then Ok () else Fail Sql_Error)"

text \<open>A buffer with the count of what is left, as a frame carries them.\<close>

type_synonym abuf = "cbuf \<times> int"

text \<open>
  \<open>palloc(length--)\<close> followed by \<open>buf[0] = '{'; buf[1] = '\0'\<close>.  The server refuses requests of a
  gigabyte or more, and a negative length is a huge \<open>size_t\<close>.
\<close>

definition open_array :: "int \<Rightarrow> abuf outcome" where
  "open_array len =
     (if 0 \<le> len \<and> len < 2 ^ 30 then
        (if 2 \<le> len then Ok (\<lparr>cap = nat len, ctext = ''{''\<rparr>, len - 1) else Fail Crash)
      else Fail Sql_Error)"

text \<open>
  \<open>strncat(buf, s, left); left -= strlen(s); if (left < 0) FAIL_FRAME(msg)\<close>.
\<close>

definition put :: "'s \<Rightarrow> string \<Rightarrow> abuf \<Rightarrow> ('s, 'd) fctx \<Rightarrow> (abuf \<times> ('s, 'd) fctx) outcome" where
  "put msg s ab f =
     (case ab of (b, left) \<Rightarrow>
      obind (strncat b s left) (\<lambda>b.
      let left = i32 (left - int (length s)) in
      Ok ((b, left), if left < 0 then FAIL_FRAME msg f else f)))"

fun puts :: "'s \<Rightarrow> string list \<Rightarrow> abuf \<Rightarrow> ('s, 'd) fctx \<Rightarrow> (abuf \<times> ('s, 'd) fctx) outcome" where
  "puts msg [] ab f = Ok (ab, f)"
| "puts msg (s # ss) ab f = obind (put msg s ab f) (\<lambda>(ab, f). puts msg ss ab f)"

section \<open>Specification\<close>

text \<open>The text of an array with the given elements.\<close>

fun commas :: "string list \<Rightarrow> string" where
  "commas [] = []"
| "commas [x] = x"
| "commas (x # y # xs) = x @ '','' @ commas (y # xs)"

definition array_text :: "string list \<Rightarrow> string" where
  "array_text xs = ''{'' @ commas xs @ ''}''"

definition quoted :: "string \<Rightarrow> string" where
  "quoted s = ''\"'' @ s @ ''\"''"

text \<open>The count a frame keeps is one more than what the buffer can still take.\<close>

definition tracks :: "abuf \<Rightarrow> bool" where
  "tracks ab \<longleftrightarrow> (case ab of (b, left) \<Rightarrow>
     left = int (cap b) - int (length (ctext b)) \<and> cap b < 2 ^ 31 \<and> length (ctext b) < cap b)"

section \<open>Facts\<close>

lemma size_t_id: "0 \<le> n \<Longrightarrow> n < 2 ^ 64 \<Longrightarrow> size_t n = nat n"
  by (simp add: size_t_def)

lemma open_array_ok:
  assumes "2 \<le> len" "len < 2 ^ 30"
  shows "\<exists>ab. open_array len = Ok ab \<and> tracks ab \<and> ctext (fst ab) = ''{'' \<and> cap (fst ab) = nat len"
  using assms by (simp add: open_array_def tracks_def)

text \<open>The buffer after a text has been appended.\<close>

definition grown :: "string \<Rightarrow> abuf \<Rightarrow> abuf" where
  "grown s ab = ((fst ab)\<lparr>ctext := ctext (fst ab) @ s\<rparr>, snd ab - int (length s))"

lemma grown_simps [simp]:
  "cap (fst (grown s ab)) = cap (fst ab)" "ctext (fst (grown s ab)) = ctext (fst ab) @ s"
  "grown t (grown s ab) = grown (s @ t) ab"
  by (simp_all add: grown_def)

lemma grown_nil: "grown [] ab = ab"
  by (cases ab) (simp add: grown_def)

lemma tracks_grown: "tracks ab \<Longrightarrow> length (ctext (fst ab)) + length s < cap (fst ab) \<Longrightarrow> tracks (grown s ab)"
  by (auto simp: tracks_def grown_def case_prod_unfold)

lemma put_fits:
  assumes "tracks ab" "length (ctext (fst ab)) + length s < cap (fst ab)"
  shows "put msg s ab f = Ok (grown s ab, f)"
proof -
  obtain b left where ab: "ab = (b, left)" by fastforce
  have l: "left = int (cap b) - int (length (ctext b))" "cap b < 2 ^ 31" using assms(1) by (auto simp: tracks_def ab)
  have fits: "length (ctext b) + length s < cap b" using assms(2) by (simp add: ab)
  then have "size_t left = nat left" "length s \<le> nat left" using l by (auto intro: size_t_id)
  then have cat: "strncat b s left = Ok (b\<lparr>ctext := ctext b @ s\<rparr>)" using fits by (simp add: strncat_def Let_def)
  have "in_i32 (left - int (length s))" "\<not> left - int (length s) < 0" using l fits by (simp_all add: in_i32_def)
  then show ?thesis by (simp add: put_def ab cat grown_def Let_def)
qed

lemma put_overflows:
  assumes "tracks ab" "cap (fst ab) \<le> length (ctext (fst ab)) + length s"
  shows "put msg s ab f = Fail Crash"
proof -
  obtain b left where ab: "ab = (b, left)" by fastforce
  have l: "left = int (cap b) - int (length (ctext b))" "cap b < 2 ^ 31" "length (ctext b) < cap b"
    using assms(1) by (auto simp: tracks_def ab)
  then have "size_t left = cap b - length (ctext b)" by (subst size_t_id) auto
  with l assms(2) have "strncat b s left = Fail Crash" by (simp add: strncat_def Let_def ab)
  then show ?thesis by (simp add: put_def ab)
qed

lemma put_iff:
  "tracks ab \<Longrightarrow> put msg s ab f =
     (if length (ctext (fst ab)) + length s < cap (fst ab) then Ok (grown s ab, f) else Fail Crash)"
  using put_fits [of ab s msg f] put_overflows [of ab s msg f] by simp

text \<open>A sequence of appends succeeds exactly when the whole text and its terminator fit.\<close>

lemma puts_iff:
  assumes "tracks ab"
  shows "puts msg ss ab f =
    (if length (ctext (fst ab)) + length (concat ss) < cap (fst ab) then Ok (grown (concat ss) ab, f) else Fail Crash)"
  using assms
proof (induction ss arbitrary: ab)
  case Nil
  then show ?case by (auto simp: grown_nil tracks_def case_prod_unfold)
next
  case (Cons s ss)
  then show ?case
    using tracks_grown [OF Cons.prems, of s] by (auto simp: put_iff add.assoc)
qed

lemma commas_Cons: "commas (x # xs) = x @ concat (map (\<lambda>y. '','' @ y) xs)"
  by (induction xs arbitrary: x) auto

text \<open>The text between the braces, with a leading comma unless it is the first element.\<close>

fun joined :: "bool \<Rightarrow> string list \<Rightarrow> string" where
  "joined first [] = []"
| "joined first (x # xs) = (if first then [] else '','') @ x @ joined False xs"

lemma joined_False: "joined False xs = concat (map (\<lambda>y. '','' @ y) xs)"
  by (induction xs) auto

lemma array_text_joined: "array_text xs = ''{'' @ joined True xs @ ''}''"
  by (cases xs) (simp_all add: array_text_def commas_Cons joined_False)

lemma array_text_Cons: "array_text (x # xs) = ''{'' @ x @ concat (map (\<lambda>y. '','' @ y) xs) @ ''}''"
  by (simp add: array_text_def commas_Cons)

lemma length_array_text:
  "xs \<noteq> [] \<Longrightarrow> length (array_text xs) = sum_list (map length xs) + length xs + 1"
proof -
  assume "xs \<noteq> []"
  then obtain y ys where xs: "xs = y # ys" by (cases xs) auto
  have "length (concat (map (\<lambda>y. '','' @ y) ys)) = sum_list (map length ys) + length ys"
    by (induction ys) auto
  then show ?thesis by (simp add: xs array_text_Cons)
qed

lemma sum_list_le: "(\<And>x. x \<in> set xs \<Longrightarrow> f x \<le> k) \<Longrightarrow> sum_list (map f xs) \<le> k * length xs" for f :: "'a \<Rightarrow> nat"
  by (induction xs) (force simp: algebra_simps)+

lemma sum_list_ge: "(\<And>x. x \<in> set xs \<Longrightarrow> k \<le> f x) \<Longrightarrow> k * length xs \<le> sum_list (map f xs)" for f :: "'a \<Rightarrow> nat"
  by (induction xs) (force simp: algebra_simps)+

text \<open>Bounds on an array whose elements have bounded length.\<close>

lemma length_array_text_le:
  assumes "\<And>x. x \<in> set xs \<Longrightarrow> length x \<le> k"
  shows "length (array_text xs) \<le> (k + 1) * length xs + 2"
proof (cases "xs = []")
  case True
  then show ?thesis by (simp add: array_text_def)
next
  case False
  then show ?thesis using sum_list_le [of xs length k, OF assms] by (simp add: length_array_text)
qed

lemma length_array_text_ge:
  assumes "xs \<noteq> []" "\<And>x. x \<in> set xs \<Longrightarrow> k \<le> length x"
  shows "(k + 1) * length xs + 1 \<le> length (array_text xs)"
  using sum_list_ge [of xs k length, OF assms(2)] assms(1) by (simp add: length_array_text)

lemma reads_puts [reads_intros]: "session f = s \<Longrightarrow> reads s (puts msg ss ab f)"
proof (induction ss arbitrary: ab f)
  case Nil
  then show ?case by (simp add: reads_def)
next
  case (Cons x xs)
  have "reads s (put msg x ab f)"
    using Cons.prems by (cases ab) (auto simp: reads_def put_def obind_eq_Ok Let_def)
  then show ?case using Cons.IH by (auto intro!: reads_bind)
qed

section \<open>Several columns\<close>

text \<open>
  A frame that returns several arrays keeps one buffer per column and appends to them in a
  fixed order.  \<open>put_col\<close> appends to one of them, \<open>each_col\<close> runs an append for the columns in
  order; \<open>put_rows\<close> is the loop over the rows of a result: a comma for every column unless it
  is the first row, then the value of every column, in quotes where the code writes them.
\<close>

type_synonym ('s, 'd) col_op = "abuf list \<Rightarrow> ('s, 'd) fctx \<Rightarrow> (abuf list \<times> ('s, 'd) fctx) outcome"

definition put_col :: "'s list \<Rightarrow> nat \<Rightarrow> string list \<Rightarrow> ('s, 'd) col_op" where
  "put_col msgs j ss bufs f = obind (puts (msgs ! j) ss (bufs ! j) f) (\<lambda>(ab, f). Ok (bufs[j := ab], f))"

fun each_col :: "(nat \<Rightarrow> ('s, 'd) col_op) \<Rightarrow> nat list \<Rightarrow> ('s, 'd) col_op" where
  "each_col op [] bufs f = Ok (bufs, f)"
| "each_col op (j # js) bufs f = obind (op j bufs f) (\<lambda>(bufs, f). each_col op js bufs f)"

definition wrap :: "bool \<Rightarrow> string \<Rightarrow> string list" where
  "wrap q v = (if q then [''\"'', v, ''\"''] else [v])"

definition put_value :: "'s list \<Rightarrow> bool list \<Rightarrow> spi_row \<Rightarrow> nat \<Rightarrow> ('s, 'd) col_op" where
  "put_value msgs qs row j bufs f =
     obind (from_ptr (SPI_getvalue row (Suc j))) (\<lambda>v. put_col msgs j (wrap (qs ! j) v) bufs f)"

fun put_rows :: "'s list \<Rightarrow> bool list \<Rightarrow> bool \<Rightarrow> spi_row list \<Rightarrow> ('s, 'd) col_op" where
  "put_rows msgs qs first [] bufs f = Ok (bufs, f)"
| "put_rows msgs qs first (row # rows) bufs f =
     obind (if first then Ok (bufs, f) else each_col (\<lambda>j. put_col msgs j ['','']) [0..<length msgs] bufs f) (\<lambda>(bufs, f).
     obind (each_col (put_value msgs qs row) [0..<length msgs] bufs f) (\<lambda>(bufs, f).
     put_rows msgs qs False rows bufs f))"

fun open_arrays :: "int list \<Rightarrow> abuf list outcome" where
  "open_arrays [] = Ok []"
| "open_arrays (c # cs) = obind (open_array c) (\<lambda>ab. obind (open_arrays cs) (\<lambda>bufs. Ok (ab # bufs)))"

text \<open>The slots of the result row that point to the buffers.\<close>

fun set_slots :: "'k list \<Rightarrow> string list \<Rightarrow> ('k \<Rightarrow> slot) \<Rightarrow> ('k \<Rightarrow> slot)" where
  "set_slots (k # ks) (s # ss) vals = set_slots ks ss (vals(k := Str s))"
| "set_slots _ _ vals = vals"

section \<open>What a sequence of appends amounts to\<close>

definition grow_all :: "(nat \<Rightarrow> string) \<Rightarrow> abuf list \<Rightarrow> abuf list" where
  "grow_all g bufs = map (\<lambda>j. grown (g j) (bufs ! j)) [0..<length bufs]"

definition fits_all :: "(nat \<Rightarrow> string) \<Rightarrow> abuf list \<Rightarrow> bool" where
  "fits_all g bufs \<longleftrightarrow> (\<forall>j < length bufs. length (ctext (fst (bufs ! j))) + length (g j) < cap (fst (bufs ! j)))"

definition tracks_all :: "abuf list \<Rightarrow> bool" where
  "tracks_all bufs \<longleftrightarrow> (\<forall>ab \<in> set bufs. tracks ab)"

text \<open>
  \<open>appends n op g\<close>: on \<open>n\<close> tracked buffers \<open>op\<close> appends \<open>g j\<close> to each buffer \<open>j\<close> if all of it fits, and
  writes past a buffer otherwise.
\<close>

definition appends :: "nat \<Rightarrow> ('s, 'd) col_op \<Rightarrow> (nat \<Rightarrow> string) \<Rightarrow> bool" where
  "appends n op g \<longleftrightarrow> (\<forall>bufs f. length bufs = n \<longrightarrow> tracks_all bufs \<longrightarrow>
     op bufs f = (if fits_all g bufs then Ok (grow_all g bufs, f) else Fail Crash))"

lemma grow_all_simps [simp]:
  "length (grow_all g bufs) = length bufs"
  "j < length bufs \<Longrightarrow> grow_all g bufs ! j = grown (g j) (bufs ! j)"
  by (simp_all add: grow_all_def)

lemma grow_all_grow_all: "grow_all h (grow_all g bufs) = grow_all (\<lambda>j. g j @ h j) bufs"
  by (intro nth_equalityI) simp_all

lemma tracks_all_nth: "tracks_all bufs \<Longrightarrow> j < length bufs \<Longrightarrow> tracks (bufs ! j)"
  by (simp add: tracks_all_def)

lemma tracks_all_grow: "tracks_all bufs \<Longrightarrow> fits_all g bufs \<Longrightarrow> tracks_all (grow_all g bufs)"
  by (simp add: tracks_all_def all_set_conv_all_nth fits_all_def tracks_grown)

lemma fits_all_split:
  "fits_all (\<lambda>j. g j @ h j) bufs \<longleftrightarrow> fits_all g bufs \<and> fits_all h (grow_all g bufs)"
  by (auto simp: fits_all_def add.assoc)

lemma appends_seq:
  assumes "appends n op g" "appends n op' h"
  shows "appends n (\<lambda>bufs f. obind (op bufs f) (\<lambda>(bufs, f). op' bufs f)) (\<lambda>j. g j @ h j)"
  unfolding appends_def
proof (intro allI impI)
  fix bufs :: "abuf list" and f :: "('a, 'b) fctx"
  assume bufs: "length bufs = n" "tracks_all bufs"
  show "obind (op bufs f) (\<lambda>(bufs, f). op' bufs f) =
    (if fits_all (\<lambda>j. g j @ h j) bufs then Ok (grow_all (\<lambda>j. g j @ h j) bufs, f) else Fail Crash)"
  proof (cases "fits_all g bufs")
    case True
    with assms bufs show ?thesis
      by (simp add: appends_def tracks_all_grow fits_all_split grow_all_grow_all)
  next
    case False
    with assms bufs show ?thesis by (simp add: appends_def fits_all_split)
  qed
qed

lemma appends_none: "appends n (\<lambda>bufs f. Ok (bufs, f)) (\<lambda>j. [])"
proof -
  have "grow_all (\<lambda>j. []) bufs = bufs" for bufs by (intro nth_equalityI) (simp_all add: grown_nil)
  moreover have "fits_all (\<lambda>j. []) bufs" if "tracks_all bufs" for bufs
    using that tracks_all_nth by (fastforce simp: fits_all_def tracks_def case_prod_unfold)
  ultimately show ?thesis by (simp add: appends_def)
qed

lemma appends_put_col:
  assumes "j < n"
  shows "appends n (put_col msgs j ss) (\<lambda>i. if i = j then concat ss else [])"
  unfolding appends_def
proof (intro allI impI)
  fix bufs :: "abuf list" and f :: "('a, 'b) fctx"
  assume bufs: "length bufs = n" "tracks_all bufs"
  let ?g = "\<lambda>i. if i = j then concat ss else []"
  have "fits_all ?g bufs \<longleftrightarrow> length (ctext (fst (bufs ! j))) + length (concat ss) < cap (fst (bufs ! j))"
    using bufs assms tracks_all_nth [OF bufs(2)] by (auto simp: fits_all_def tracks_def case_prod_unfold)
  moreover have "grow_all ?g bufs = bufs[j := grown (concat ss) (bufs ! j)]"
    using bufs assms by (intro nth_equalityI) (auto simp: grown_nil nth_list_update)
  moreover have "tracks (bufs ! j)" using bufs assms tracks_all_nth by blast
  ultimately show "put_col msgs j ss bufs f = (if fits_all ?g bufs then Ok (grow_all ?g bufs, f) else Fail Crash)"
    by (simp add: put_col_def puts_iff)
qed

lemma appends_cong: "appends n op g \<Longrightarrow> (\<And>j. j < n \<Longrightarrow> g j = h j) \<Longrightarrow> appends n op h"
proof -
  assume a: "appends n op g" and e: "\<And>j. j < n \<Longrightarrow> g j = h j"
  have "fits_all g bufs = fits_all h bufs" "grow_all g bufs = grow_all h bufs" if "length bufs = n" for bufs
    using that e by (auto simp: fits_all_def grow_all_def)
  with a show ?thesis by (simp add: appends_def)
qed

lemma appends_put_one: "j < n \<Longrightarrow> appends n (put_col msgs j [s]) (\<lambda>i. if i = j then s else [])"
  by (rule appends_cong [OF appends_put_col]) simp_all

lemma appends_each_col:
  assumes "\<And>j. j \<in> set js \<Longrightarrow> appends n (op j) (\<lambda>i. if i = j then s j else [])" "distinct js"
  shows "appends n (each_col op js) (\<lambda>i. if i \<in> set js then s i else [])"
  using assms
proof (induction js)
  case Nil
  show ?case using appends_none by simp
next
  case (Cons j js)
  have "appends n (each_col op (j # js)) (\<lambda>i. (if i = j then s j else []) @ (if i \<in> set js then s i else []))"
    using appends_seq [OF Cons.prems(1) [of j] Cons.IH] Cons.prems by (simp add: appends_def)
  then show ?case by (rule appends_cong) (use Cons.prems(2) in auto)
qed

lemma appends_all_cols:
  assumes "\<And>j. j < n \<Longrightarrow> appends n (op j) (\<lambda>i. if i = j then s j else [])"
  shows "appends n (each_col op [0..<n]) s"
  by (rule appends_cong [OF appends_each_col [where s = s]]) (use assms in auto)

text \<open>The text a column gets from the rows, and the loop over the rows.\<close>

definition col_text :: "bool list \<Rightarrow> bool \<Rightarrow> string list list \<Rightarrow> nat \<Rightarrow> string" where
  "col_text qs first vss j = joined first (map (\<lambda>vs. concat (wrap (qs ! j) (vs ! j))) vss)"

lemma appends_put_value:
  assumes "j < length vs" "j < n"
  shows "appends n (put_value msgs qs (map Some vs) j) (\<lambda>i. if i = j then concat (wrap (qs ! j) (vs ! j)) else [])"
proof -
  have "SPI_getvalue (map Some vs) (Suc j) = Some (vs ! j)" using assms(1) by (simp add: SPI_getvalue_def)
  then have "put_value msgs qs (map Some vs) j = put_col msgs j (wrap (qs ! j) (vs ! j))"
    by (simp add: put_value_def fun_eq_iff)
  with appends_put_col [OF assms(2), of msgs "wrap (qs ! j) (vs ! j)"] show ?thesis by metis
qed

lemma appends_put_rows:
  assumes "length msgs = n" "\<forall>vs \<in> set vss. length vs = n"
  shows "appends n (put_rows msgs qs first (map (map Some) vss) :: ('s, 'd) col_op) (col_text qs first vss)"
  using assms(2)
proof (induction vss arbitrary: first)
  case Nil
  show ?case using appends_none by (simp add: col_text_def)
next
  case (Cons vs vss)
  let ?comma = "\<lambda>bufs f. if first then Ok (bufs, f) else each_col (\<lambda>j. put_col msgs j ['','']) [0..<n] bufs f"
  let ?vals = "each_col (put_value msgs qs (map Some vs)) [0..<n]"
  let ?rest = "put_rows msgs qs False (map (map Some) vss) :: ('s, 'd) col_op"
  have "appends n (each_col (\<lambda>j. put_col msgs j ['','']) [0..<n] :: ('s, 'd) col_op) (\<lambda>j. '','')"
    by (intro appends_all_cols appends_put_one)
  then have c: "appends n (?comma :: ('s, 'd) col_op) (\<lambda>j. if first then [] else '','')"
    using appends_none by (cases first) simp_all
  have v: "appends n (?vals :: ('s, 'd) col_op) (\<lambda>j. concat (wrap (qs ! j) (vs ! j)))"
    using Cons.prems by (intro appends_all_cols appends_put_value) simp_all
  have r: "appends n ?rest (col_text qs False vss)" by (rule Cons.IH) (use Cons.prems in simp)
  have "appends n (\<lambda>bufs f. obind (?comma bufs f) (\<lambda>(bufs, f). obind (?vals bufs f) (\<lambda>(bufs, f). ?rest bufs f)))
      (\<lambda>j. (if first then [] else '','') @ concat (wrap (qs ! j) (vs ! j)) @ col_text qs False vss j)"
    by (rule appends_seq [OF c appends_seq [OF v r]])
  moreover have "(\<lambda>bufs f. obind (?comma bufs f) (\<lambda>(bufs, f). obind (?vals bufs f) (\<lambda>(bufs, f). ?rest bufs f))) =
      (put_rows msgs qs first (map (map Some) (vs # vss)) :: ('s, 'd) col_op)"
    using assms(1) by (simp add: fun_eq_iff)
  moreover have "(\<lambda>j. (if first then [] else '','') @ concat (wrap (qs ! j) (vs ! j)) @ col_text qs False vss j) =
      col_text qs first (vs # vss)"
    by (simp add: col_text_def fun_eq_iff)
  ultimately show ?case by (simp only:)
qed

lemma open_arrays_ok:
  assumes "\<forall>c \<in> set cs. 2 \<le> c \<and> c < 2 ^ 30"
  shows "\<exists>bufs. open_arrays cs = Ok bufs \<and> length bufs = length cs \<and> tracks_all bufs
    \<and> (\<forall>j < length cs. ctext (fst (bufs ! j)) = ''{'' \<and> cap (fst (bufs ! j)) = nat (cs ! j))"
  using assms
proof (induction cs)
  case Nil
  show ?case by (simp add: tracks_all_def)
next
  case (Cons c cs)
  then obtain bufs where a: "open_arrays cs = Ok bufs" "length bufs = length cs" "tracks_all bufs"
    "\<forall>j < length cs. ctext (fst (bufs ! j)) = ''{'' \<and> cap (fst (bufs ! j)) = nat (cs ! j)" by auto
  obtain ab where b: "open_array c = Ok ab" "tracks ab" "ctext (fst ab) = ''{''" "cap (fst ab) = nat c"
    using open_array_ok [of c] Cons.prems by auto
  show ?case
    by (rule exI [of _ "ab # bufs"]) (use a b in \<open>auto simp: tracks_all_def nth_Cons split: nat.split\<close>)
qed

text \<open>The whole assembly: open the buffers, the rows, close the arrays.\<close>

definition build_arrays :: "'s list \<Rightarrow> bool list \<Rightarrow> int list \<Rightarrow> spi_row list \<Rightarrow> ('s, 'd) fctx \<Rightarrow>
    (string list \<times> ('s, 'd) fctx) outcome" where
  "build_arrays msgs qs cs rows f =
     obind (open_arrays cs) (\<lambda>bufs.
     obind (put_rows msgs qs True rows bufs f) (\<lambda>(bufs, f).
     obind (each_col (\<lambda>j. put_col msgs j [''}'']) [0..<length msgs] bufs f) (\<lambda>(bufs, f).
     Ok (map (\<lambda>ab. ctext (fst ab)) bufs, f))))"

definition column :: "bool list \<Rightarrow> string list list \<Rightarrow> nat \<Rightarrow> string list" where
  "column qs vss j = map (\<lambda>vs. if qs ! j then quoted (vs ! j) else vs ! j) vss"

text \<open>Both ways to fill the buffers end alike: every column gets its text, if all of them fit.\<close>

lemma close_arrays:
  assumes op: "appends n (op :: ('s, 'd) col_op) (\<lambda>j. g j)"
    and n: "length msgs = n" "length cs = n" and cs: "\<forall>c \<in> set cs. 2 \<le> c \<and> c < 2 ^ 30"
  shows "obind (open_arrays cs) (\<lambda>bufs. obind (op bufs f) (\<lambda>(bufs, f).
      obind (each_col (\<lambda>j. put_col msgs j [''}'']) [0..<length msgs] bufs f) (\<lambda>(bufs, f).
      Ok (map (\<lambda>ab. ctext (fst ab)) bufs, f)))) =
    (if \<forall>j < n. length (''{'' @ g j @ ''}'') < nat (cs ! j)
     then Ok (map (\<lambda>j. ''{'' @ g j @ ''}'') [0..<n], f) else Fail Crash)"
proof -
  obtain bufs where a: "open_arrays cs = Ok bufs" "length bufs = n" "tracks_all bufs"
    "\<forall>j < n. ctext (fst (bufs ! j)) = ''{'' \<and> cap (fst (bufs ! j)) = nat (cs ! j)"
    using open_arrays_ok [OF cs] n(2) by auto
  have close: "appends n (each_col (\<lambda>j. put_col msgs j [''}'']) [0..<n] :: ('s, 'd) col_op) (\<lambda>j. ''}'')"
    by (intro appends_all_cols appends_put_one)
  let ?g = "\<lambda>j. g j @ ''}''"
  have run: "obind (op bufs f) (\<lambda>(bufs, f). each_col (\<lambda>j. put_col msgs j [''}'']) [0..<n] bufs f) =
      (if fits_all ?g bufs then Ok (grow_all ?g bufs, f) else Fail Crash)"
    by (rule appends_seq [OF op close, unfolded appends_def, rule_format, OF a(2,3)])
  have "fits_all ?g bufs \<longleftrightarrow> (\<forall>j < n. length (''{'' @ g j @ ''}'') < nat (cs ! j))"
    using a(2,4) by (simp add: fits_all_def)
  moreover have "map (\<lambda>ab. ctext (fst ab)) (grow_all ?g bufs) = map (\<lambda>j. ''{'' @ g j @ ''}'') [0..<n]"
    using a(2,4) by (simp add: grow_all_def)
  moreover have "obind (op bufs f) (\<lambda>(bufs, f).
      obind (each_col (\<lambda>j. put_col msgs j [''}'']) [0..<length msgs] bufs f) (\<lambda>(bufs, f). Ok (map (\<lambda>ab. ctext (fst ab)) bufs, f))) =
      obind (obind (op bufs f) (\<lambda>(bufs, f). each_col (\<lambda>j. put_col msgs j [''}'']) [0..<n] bufs f))
        (\<lambda>(bufs, f). Ok (map (\<lambda>ab. ctext (fst ab)) bufs, f))"
    using n(1) by (simp add: obind_assoc case_prod_unfold)
  ultimately show ?thesis by (simp add: a(1) run)
qed

theorem build_arrays_spec:
  fixes f :: "('s, 'd) fctx"
  assumes n: "length msgs = n" "length cs = n" "\<forall>vs \<in> set vss. length vs = n"
    and cs: "\<forall>c \<in> set cs. 2 \<le> c \<and> c < 2 ^ 30"
  shows "build_arrays msgs qs cs (map (map Some) vss) f =
    (if \<forall>j < n. length (array_text (column qs vss j)) < nat (cs ! j)
     then Ok (map (\<lambda>j. array_text (column qs vss j)) [0..<n], f) else Fail Crash)"
proof -
  have "''{'' @ col_text qs True vss j @ ''}'' = array_text (column qs vss j)" for j
    by (cases "qs ! j") (simp_all add: array_text_joined col_text_def column_def wrap_def quoted_def)
  then have arr: "''{'' @ col_text qs True vss j @ ''}'' = array_text (column qs vss j)" for j .
  have c: "appends n (put_rows msgs qs True (map (map Some) vss) :: ('s, 'd) col_op) (\<lambda>j. col_text qs True vss j)"
    by (rule appends_put_rows [OF n(1,3)])
  show ?thesis unfolding build_arrays_def by (rule close_arrays [OF c n(1,2) cs, unfolded arr])
qed

section \<open>Columns in an order of their own\<close>

text \<open>
  The other way to assemble arrays: row by row, column after column, the comma together with
  the opening quote; \<open>ks\<close> are the numbers of the columns in the query.
\<close>

definition cell :: "bool \<Rightarrow> bool \<Rightarrow> string \<Rightarrow> string list" where
  "cell first q v = (if q then [if first then ''\"'' else '',\"'', v, ''\"''] else if first then [v] else ['','', v])"

definition put_cell :: "'s list \<Rightarrow> nat list \<Rightarrow> bool list \<Rightarrow> bool \<Rightarrow> spi_row \<Rightarrow> nat \<Rightarrow> ('s, 'd) col_op" where
  "put_cell msgs ks qs first row j bufs f =
     obind (from_ptr (SPI_getvalue row (ks ! j))) (\<lambda>v. put_col msgs j (cell first (qs ! j) v) bufs f)"

fun put_cells :: "'s list \<Rightarrow> nat list \<Rightarrow> bool list \<Rightarrow> bool \<Rightarrow> spi_row list \<Rightarrow> ('s, 'd) col_op" where
  "put_cells msgs ks qs first [] bufs f = Ok (bufs, f)"
| "put_cells msgs ks qs first (row # rows) bufs f =
     obind (each_col (put_cell msgs ks qs first row) [0..<length msgs] bufs f) (\<lambda>(bufs, f).
     put_cells msgs ks qs False rows bufs f)"

definition build_columns :: "'s list \<Rightarrow> nat list \<Rightarrow> bool list \<Rightarrow> int list \<Rightarrow> spi_row list \<Rightarrow> ('s, 'd) fctx \<Rightarrow>
    (string list \<times> ('s, 'd) fctx) outcome" where
  "build_columns msgs ks qs cs rows f =
     obind (open_arrays cs) (\<lambda>bufs.
     obind (put_cells msgs ks qs True rows bufs f) (\<lambda>(bufs, f).
     obind (each_col (\<lambda>j. put_col msgs j [''}'']) [0..<length msgs] bufs f) (\<lambda>(bufs, f).
     Ok (map (\<lambda>ab. ctext (fst ab)) bufs, f))))"

definition cells :: "nat list \<Rightarrow> bool list \<Rightarrow> string list list \<Rightarrow> nat \<Rightarrow> string list" where
  "cells ks qs vss j = map (\<lambda>vs. let v = vs ! (ks ! j - 1) in if qs ! j then quoted v else v) vss"

lemma concat_cell: "concat (cell first q v) = (if first then [] else '','') @ (if q then quoted v else v)"
  by (simp add: cell_def quoted_def)

lemma appends_put_cell:
  assumes "1 \<le> ks ! j" "ks ! j \<le> length vs" "j < n"
  shows "appends n (put_cell msgs ks qs first (map Some vs) j)
    (\<lambda>i. if i = j then concat (cell first (qs ! j) (vs ! (ks ! j - 1))) else [])"
proof -
  have "SPI_getvalue (map Some vs) (ks ! j) = Some (vs ! (ks ! j - 1))" using assms(1,2) by (simp add: SPI_getvalue_def)
  then have "put_cell msgs ks qs first (map Some vs) j = put_col msgs j (cell first (qs ! j) (vs ! (ks ! j - 1)))"
    by (simp add: put_cell_def fun_eq_iff)
  with appends_put_col [OF assms(3), of msgs "cell first (qs ! j) (vs ! (ks ! j - 1))"] show ?thesis by metis
qed

lemma appends_put_cells:
  assumes "length msgs = n" "\<forall>vs \<in> set vss. \<forall>j < n. 1 \<le> ks ! j \<and> ks ! j \<le> length vs"
  shows "appends n (put_cells msgs ks qs first (map (map Some) vss) :: ('s, 'd) col_op) (\<lambda>j. joined first (cells ks qs vss j))"
  using assms(2)
proof (induction vss arbitrary: first)
  case Nil
  show ?case using appends_none by (simp add: cells_def)
next
  case (Cons vs vss)
  let ?vals = "each_col (put_cell msgs ks qs first (map Some vs)) [0..<n] :: ('s, 'd) col_op"
  let ?rest = "put_cells msgs ks qs False (map (map Some) vss) :: ('s, 'd) col_op"
  have v: "appends n ?vals (\<lambda>j. concat (cell first (qs ! j) (vs ! (ks ! j - 1))))"
    using Cons.prems by (intro appends_all_cols appends_put_cell) simp_all
  have r: "appends n ?rest (\<lambda>j. joined False (cells ks qs vss j))" by (rule Cons.IH) (use Cons.prems in simp)
  have "appends n (\<lambda>bufs f. obind (?vals bufs f) (\<lambda>(bufs, f). ?rest bufs f))
      (\<lambda>j. concat (cell first (qs ! j) (vs ! (ks ! j - 1))) @ joined False (cells ks qs vss j))"
    by (rule appends_seq [OF v r])
  moreover have "(\<lambda>bufs f. obind (?vals bufs f) (\<lambda>(bufs, f). ?rest bufs f)) =
      (put_cells msgs ks qs first (map (map Some) (vs # vss)) :: ('s, 'd) col_op)"
    using assms(1) by (simp add: fun_eq_iff)
  moreover have "(\<lambda>j. concat (cell first (qs ! j) (vs ! (ks ! j - 1))) @ joined False (cells ks qs vss j)) =
      (\<lambda>j. joined first (cells ks qs (vs # vss) j))"
    by (simp add: cells_def concat_cell Let_def fun_eq_iff)
  ultimately show ?case by (simp only:)
qed

theorem build_columns_spec:
  assumes n: "length msgs = n" "length cs = n" "\<forall>vs \<in> set vss. \<forall>j < n. 1 \<le> ks ! j \<and> ks ! j \<le> length vs"
    and cs: "\<forall>c \<in> set cs. 2 \<le> c \<and> c < 2 ^ 30"
  shows "build_columns msgs ks qs cs (map (map Some) vss) f =
    (if \<forall>j < n. length (array_text (cells ks qs vss j)) < nat (cs ! j)
     then Ok (map (\<lambda>j. array_text (cells ks qs vss j)) [0..<n], f) else Fail Crash)"
  unfolding build_columns_def array_text_joined
  by (rule close_arrays [OF appends_put_cells [OF n(1,3)] n(1,2) cs])

text \<open>A column fits when its values respect the width its buffer is made for.\<close>

lemma cells_fit:
  assumes "\<forall>vs \<in> set vss. length (vs ! (ks ! j - 1)) \<le> w"
    and "(w + (if qs ! j then 3 else 1)) * length vss + 2 < c"
  shows "length (array_text (cells ks qs vss j)) < c"
proof -
  let ?k = "w + (if qs ! j then 2 else 0)"
  have "length (array_text (cells ks qs vss j)) \<le> (?k + 1) * length (cells ks qs vss j) + 2"
    by (rule length_array_text_le) (use assms(1) in \<open>auto simp: cells_def quoted_def Let_def\<close>)
  also have "\<dots> = (w + (if qs ! j then 3 else 1)) * length vss + 2" by (simp add: cells_def algebra_simps)
  finally show ?thesis using assms(2) by simp
qed

section \<open>Arrays of records\<close>

text \<open>
  A frame that reports records puts each of them as one quoted element, field by field;
  \<open>pieces\<close> are the texts it appends for a row, after a comma for all but the first.
\<close>

fun put_records :: "'s \<Rightarrow> (spi_row \<Rightarrow> string list outcome) \<Rightarrow> bool \<Rightarrow> spi_row list \<Rightarrow> abuf \<Rightarrow> ('s, 'd) fctx \<Rightarrow>
    (abuf \<times> ('s, 'd) fctx) outcome" where
  "put_records msg pieces first [] ab f = Ok (ab, f)"
| "put_records msg pieces first (row # rows) ab f =
     obind (pieces row) (\<lambda>ps.
     obind (puts msg ((if first then [] else ['','']) @ ps) ab f) (\<lambda>(ab, f).
     put_records msg pieces False rows ab f))"

definition build_records :: "'s \<Rightarrow> (spi_row \<Rightarrow> string list outcome) \<Rightarrow> int \<Rightarrow> spi_row list \<Rightarrow> ('s, 'd) fctx \<Rightarrow>
    (string \<times> ('s, 'd) fctx) outcome" where
  "build_records msg pieces len rows f =
     obind (open_array len) (\<lambda>ab.
     obind (put_records msg pieces True rows ab f) (\<lambda>(ab, f).
     obind (put msg ''}'' ab f) (\<lambda>(ab, f).
     Ok (ctext (fst ab), f))))"

lemma put_records_iff:
  assumes "\<And>x. x \<in> set xs \<Longrightarrow> pieces (row x) = Ok (ps x)" "tracks ab"
  shows "put_records msg pieces first (map row xs) ab f =
    (if length (ctext (fst ab)) + length (joined first (map (\<lambda>x. concat (ps x)) xs)) < cap (fst ab)
     then Ok (grown (joined first (map (\<lambda>x. concat (ps x)) xs)) ab, f) else Fail Crash)"
  using assms
proof (induction xs arbitrary: first ab)
  case Nil
  then show ?case by (auto simp: grown_nil tracks_def case_prod_unfold)
next
  case (Cons x xs)
  let ?p = "(if first then [] else ['','']) @ ps x" and ?js = "map (\<lambda>x. concat (ps x)) xs"
  have j: "joined first (map (\<lambda>x. concat (ps x)) (x # xs)) = concat ?p @ joined False ?js" by simp
  have step: "put_records msg pieces first (map row (x # xs)) ab f =
      obind (puts msg ?p ab f) (\<lambda>(ab, f). put_records msg pieces False (map row xs) ab f)"
    using Cons.prems(1) by simp
  show ?case
  proof (cases "length (ctext (fst ab)) + length (concat ?p) < cap (fst ab)")
    case True
    have "put_records msg pieces False (map row xs) (grown (concat ?p) ab) f =
        (if length (ctext (fst (grown (concat ?p) ab))) + length (joined False ?js) < cap (fst (grown (concat ?p) ab))
         then Ok (grown (joined False ?js) (grown (concat ?p) ab), f) else Fail Crash)"
      by (rule Cons.IH) (use Cons.prems True in \<open>auto intro: tracks_grown\<close>)
    with True show ?thesis unfolding step j
      by (simp only: puts_iff [OF Cons.prems(2)] if_True obind.simps prod.case grown_simps length_append add.assoc)
  next
    case False
    then show ?thesis unfolding step j
      by (simp only: puts_iff [OF Cons.prems(2)] if_False obind.simps length_append) simp
  qed
qed

theorem build_records_spec:
  assumes "\<And>x. x \<in> set xs \<Longrightarrow> pieces (row x) = Ok (ps x)" "2 \<le> len" "len < 2 ^ 30"
  shows "build_records msg pieces len (map row xs) f =
    (if length (array_text (map (\<lambda>x. concat (ps x)) xs)) < nat len
     then Ok (array_text (map (\<lambda>x. concat (ps x)) xs), f) else Fail Crash)"
proof -
  let ?js = "map (\<lambda>x. concat (ps x)) xs"
  obtain ab where ab: "open_array len = Ok ab" "tracks ab" "ctext (fst ab) = ''{''" "cap (fst ab) = nat len"
    using open_array_ok assms(2,3) by blast
  show ?thesis
  proof (cases "1 + length (joined True ?js) < nat len")
    case True
    then have "tracks (grown (joined True ?js) ab)" using ab by (intro tracks_grown) simp_all
    with True ab put_records_iff [of xs pieces row ps ab msg True f, OF assms(1) ab(2)] show ?thesis
      by (simp add: build_records_def put_iff array_text_joined)
  next
    case False
    with ab put_records_iff [of xs pieces row ps ab msg True f, OF assms(1) ab(2)] show ?thesis
      by (simp add: build_records_def array_text_joined)
  qed
qed

end
