(* ===== verification/TradeStatus.thy ===== *)
theory TradeStatus
  imports ArrayBuf Settlement
begin

text \<open>
  The Trade-Status transaction, \<^verbatim>\<open>storedproc/pgsql/c/trade_status.c\<close>: the fifty most recent trades
  of an account as ten arrays, with the names of the customer and of the broker.
\<close>

section \<open>SQL statements\<close>

text \<open>The other constructors stand for the texts of the warnings about the ten buffers.\<close>

datatype tsf_stmt = TSF1_1 | TSF1_2
  | TSF1_trade_id_small | TSF1_trade_dts_small | TSF1_status_name_small | TSF1_type_name_small | TSF1_symbol_small
  | TSF1_trade_qty_small | TSF1_exec_name_small | TSF1_charge_small | TSF1_s_name_small | TSF1_ex_name_small

definition TSF1_statements :: "tsf_stmt list" where
  "TSF1_statements = [TSF1_1, TSF1_2]"

type_synonym status_row = "trade_row \<times> status_type_row \<times> trade_type_row \<times> security_row \<times> exchange_row"

definition ts_join :: "int \<Rightarrow> db \<Rightarrow> status_row list" where
  "ts_join acct d = [(t, st, ty, s, ex). t \<leftarrow> trade_tbl d, st \<leftarrow> status_type_tbl d, ty \<leftarrow> trade_type_tbl d,
     s \<leftarrow> security_tbl d, ex \<leftarrow> exchange_tbl d,
     t_ca_id t = acct \<and> st_id st = t_st_id t \<and> tt_id ty = t_tt_id t \<and> s_symb s = t_s_symb t \<and> ex_id ex = s_ex_id s]"

definition ts_trades :: "int \<Rightarrow> db \<Rightarrow> status_row list" where
  "ts_trades acct d = take 50 (order_desc (\<lambda>(t, _). t_dts t) (ts_join acct d))"

fun ts_values :: "pgapi \<Rightarrow> status_row \<Rightarrow> string list" where
  "ts_values pg (t, st, ty, s, ex) =
     [show_int (t_id t), timestamp_out pg (t_dts t), st_name st, tt_name ty, t_s_symb t, show_int (t_qty t),
      t_exec_name t, numeric_out 2 (t_chrg t), s_name s, ex_name ex]"

definition SQLTSF1_1 :: "pgapi \<Rightarrow> int \<Rightarrow> sql" where
  "SQLTSF1_1 pg acct d = sql_select (map (\<lambda>x. map Some (ts_values pg x)) (ts_trades acct d)) d"

definition ts_owners :: "int \<Rightarrow> db \<Rightarrow> (string \<times> string \<times> string) list" where
  "ts_owners acct d = [(c_l_name c, c_f_name c, b_name b). a \<leftarrow> customer_account_tbl d, c \<leftarrow> customer_tbl d,
     b \<leftarrow> broker_tbl d, ca_id a = acct \<and> c_id c = ca_c_id a \<and> b_id b = ca_b_id a]"

definition SQLTSF1_2 :: "int \<Rightarrow> sql" where
  "SQLTSF1_2 acct d = sql_select (map (\<lambda>(l, f, b). [Some l, Some f, Some b]) (ts_owners acct d)) d"

definition tsf_sql :: "pgapi \<Rightarrow> datum list \<Rightarrow> tsf_stmt \<Rightarrow> sql" where
  "tsf_sql pg as stmt =
     (case (stmt, as) of
        (TSF1_1, [DInt64 acct]) \<Rightarrow> SQLTSF1_1 pg acct
      | (TSF1_2, [DInt64 acct]) \<Rightarrow> SQLTSF1_2 acct
      | _ \<Rightarrow> (\<lambda>d. Fail Sql_Error))"

definition tsf_spi :: "pgapi \<Rightarrow> (tsf_stmt, pgsession) spi" where
  "tsf_spi pg stmt as read_only s = run_sql (tsf_sql pg as stmt) read_only s"

interpretation tsf: sql_provider "tsf_spi pg" "tsf_sql pg" for pg
  by unfold_locales (simp add: tsf_spi_def)

section \<open>The frame\<close>

datatype tsf1 = tsf1_broker_name | tsf1_charge | tsf1_cust_l_name | tsf1_cust_f_name | tsf1_ex_name | tsf1_exec_name
  | tsf1_num_found | tsf1_s_name | tsf1_status_name | tsf1_symbol | tsf1_trade_dts | tsf1_trade_id | tsf1_trade_qty
  | tsf1_type_name

definition tsf1_order :: "tsf1 list" where
  "tsf1_order = [tsf1_broker_name, tsf1_charge, tsf1_cust_l_name, tsf1_cust_f_name, tsf1_ex_name, tsf1_exec_name,
     tsf1_num_found, tsf1_s_name, tsf1_status_name, tsf1_symbol, tsf1_trade_dts, tsf1_trade_id, tsf1_trade_qty,
     tsf1_type_name]"

text \<open>The ten columns in the order of the query: slot, warning, quotes, bytes allocated.\<close>

definition TSF1_columns :: "tsf1 list" where
  "TSF1_columns = [tsf1_trade_id, tsf1_trade_dts, tsf1_status_name, tsf1_type_name, tsf1_symbol, tsf1_trade_qty,
     tsf1_exec_name, tsf1_charge, tsf1_s_name, tsf1_ex_name]"

definition TSF1_warnings :: "tsf_stmt list" where
  "TSF1_warnings = [TSF1_trade_id_small, TSF1_trade_dts_small, TSF1_status_name_small, TSF1_type_name_small,
     TSF1_symbol_small, TSF1_trade_qty_small, TSF1_exec_name_small, TSF1_charge_small, TSF1_s_name_small,
     TSF1_ex_name_small]"

definition TSF1_quotes :: "bool list" where
  "TSF1_quotes = [False, False, True, True, True, False, True, False, True, True]"

definition TSF1_lengths :: "int list" where
  "TSF1_lengths = [(int BIGINT_LEN + 1) * 50, (int MAXDATELEN + 1) * 50, (int ST_NAME_LEN + 3) * 50,
     (int TT_NAME_LEN + 3) * 50, (int S_SYMB_LEN + 3) * 50, (int INTEGER_LEN + 1) * 50,
     (int T_EXEC_NAME_LEN + 3) * 50, (int VALUE_T_LEN + 1) * 50, (int S_NAME_LEN + 3) * 50, (int EX_NAME_LEN + 3) * 50]"

definition TradeStatusFrame1 ::
    "(tsf_stmt \<Rightarrow> bool) \<Rightarrow> (tsf_stmt, 'd) spi \<Rightarrow> int \<Rightarrow> (tsf_stmt, 'd) fctx \<Rightarrow>
     (spi_row list \<times> (tsf_stmt, 'd) fctx) outcome" where
  "TradeStatusFrame1 prepare spi acct_id f =
     (let vals = (\<lambda>_. Uninit)(tsf1_cust_l_name := Ptr None, tsf1_cust_f_name := Ptr None, tsf1_broker_name := Ptr None) in
      obind (plan_queries prepare TSF1_statements (f\<lparr>max_calls := 1\<rparr>)) (\<lambda>f.
      obind (SPI_execute_plan spi TSF1_1 [DInt64 acct_id] True f) (\<lambda>(r, f).
      case r of
        SPI_OK_SELECT rows \<Rightarrow>
          let vals = vals(tsf1_num_found := Str (snprintf_d (BIGINT_LEN + 1) (int (length rows)))) in
          obind (build_arrays TSF1_warnings TSF1_quotes TSF1_lengths rows f) (\<lambda>(arrays, f).
          let vals = set_slots TSF1_columns arrays vals in
          obind (SPI_execute_plan spi TSF1_2 [DInt64 acct_id] True f) (\<lambda>(r2, f).
          case r2 of
            SPI_OK_SELECT rows2 \<Rightarrow>
              let vals = (case rows2 of
                  [] \<Rightarrow> vals
                | row # _ \<Rightarrow> vals(tsf1_cust_l_name := Ptr (SPI_getvalue row 1), tsf1_cust_f_name := Ptr (SPI_getvalue row 2),
                                 tsf1_broker_name := Ptr (SPI_getvalue row 3))) in
              srf_return (map vals tsf1_order) f
          | _ \<Rightarrow> Ok ([], FAIL_FRAME_SET TSF1_2 f)))
      | _ \<Rightarrow> Ok ([], FAIL_FRAME_SET TSF1_1 f))))"

section \<open>What it returns\<close>

text \<open>The text of each column for the trades the query selects, and when all of them fit.\<close>

definition ts_column :: "pgapi \<Rightarrow> status_row list \<Rightarrow> nat \<Rightarrow> string" where
  "ts_column pg ts j = array_text (column TSF1_quotes (map (ts_values pg) ts) j)"

definition ts_fits :: "pgapi \<Rightarrow> status_row list \<Rightarrow> bool" where
  "ts_fits pg ts \<longleftrightarrow> (\<forall>j < 10. length (ts_column pg ts j) < nat (TSF1_lengths ! j))"

definition ts_owner :: "int \<Rightarrow> db \<Rightarrow> string option \<times> string option \<times> string option" where
  "ts_owner acct d = (case ts_owners acct d of [] \<Rightarrow> (None, None, None) | (l, f, b) # _ \<Rightarrow> (Some l, Some f, Some b))"

definition ts_out :: "pgapi \<Rightarrow> int \<Rightarrow> db \<Rightarrow> spi_row" where
  "ts_out pg acct d = (case ts_owner acct d of (l, f, b) \<Rightarrow>
     let ts = ts_trades acct d; col = (\<lambda>j. Some (ts_column pg ts j)) in
     [b, col 7, l, f, col 9, col 6, int_txt (int (length ts)), col 8, col 2, col 4, col 1, col 0, col 5, col 3])"

lemma length_ts_values [simp]: "length (ts_values pg x) = 10"
  by (cases x) simp

lemma ts_arrays:
  "build_arrays TSF1_warnings TSF1_quotes TSF1_lengths (map (\<lambda>x. map Some (ts_values pg x)) ts) f =
   (if ts_fits pg ts then Ok (map (ts_column pg ts) [0..<10], f) else Fail Crash)"
proof -
  have "build_arrays TSF1_warnings TSF1_quotes TSF1_lengths (map (map Some) (map (ts_values pg) ts)) f =
    (if \<forall>j < 10. length (array_text (column TSF1_quotes (map (ts_values pg) ts) j)) < nat (TSF1_lengths ! j)
     then Ok (map (\<lambda>j. array_text (column TSF1_quotes (map (ts_values pg) ts) j)) [0..<10], f) else Fail Crash)"
    by (rule build_arrays_spec) (auto simp: TSF1_warnings_def TSF1_lengths_def)
  then show ?thesis by (simp add: ts_fits_def ts_column_def comp_def)
qed

lemma ts_frame_runs:
  assumes prep: "\<And>s. s \<in> set TSF1_statements \<Longrightarrow> prepare s"
  shows "\<exists>ps. TradeStatusFrame1 prepare (tsf_spi pg) acct f =
    (if ts_fits pg (ts_trades acct (snap_of f))
     then Ok ([ts_out pg acct (snap_of f)], f\<lparr>max_calls := 1, plans := ps\<rparr>) else Fail Crash)"
proof -
  obtain ps where ps: "plan_queries prepare TSF1_statements (f\<lparr>max_calls := 1\<rparr>) =
      Ok (f\<lparr>max_calls := 1, plans := ps\<rparr>)" "set TSF1_statements \<subseteq> set ps"
    using planned [of TSF1_statements prepare "f\<lparr>max_calls := 1\<rparr>", OF prep] by auto
  then have mem: "TSF1_1 \<in> set ps" "TSF1_2 \<in> set ps" by (auto simp: TSF1_statements_def)
  let ?ts = "ts_trades acct (snap_of f)"
  have "length ?ts < 10 ^ 2" by (simp add: ts_trades_def)
  then have "length (show_nat (length ?ts)) \<le> 2" by (intro length_show_nat) simp_all
  then have n: "snprintf_d (BIGINT_LEN + 1) (int (length ?ts)) = show_int (int (length ?ts))"
    by (simp add: snprintf_d_def show_int_def)
  have "[0..<10] = [0, 1, 2, 3, 4, 5, 6, 7, 8, 9]" by (simp add: upt_rec)
  with ps(1) mem n show ?thesis
    by (intro exI [of _ ps]) (simp add: TradeStatusFrame1_def tsf.exec_read_eq tsf_sql_def SQLTSF1_1_def SQLTSF1_2_def
        ts_arrays Let_def TSF1_columns_def tsf1_order_def srf_return_def ts_out_def ts_owner_def
        del: SPI_execute_plan_planned split: list.split)
qed

text \<open>The widths the buffers are made for.\<close>

definition ts_widths :: "nat list" where
  "ts_widths = [BIGINT_LEN, MAXDATELEN, ST_NAME_LEN, TT_NAME_LEN, S_SYMB_LEN, INTEGER_LEN, T_EXEC_NAME_LEN, VALUE_T_LEN,
     S_NAME_LEN, EX_NAME_LEN]"

definition ts_sized :: "pgapi \<Rightarrow> status_row \<Rightarrow> bool" where
  "ts_sized pg x \<longleftrightarrow> list_all2 (\<lambda>v w. length v \<le> w) (ts_values pg x) ts_widths"

lemma ts_lengths_enough:
  assumes "j < 10"
  shows "(ts_widths ! j + (if TSF1_quotes ! j then 2 else 0) + 1) * 49 + 2 < nat (TSF1_lengths ! j)"
proof -
  have "list_all (\<lambda>j. (ts_widths ! j + (if TSF1_quotes ! j then 2 else 0) + 1) * 49 + 2 < nat (TSF1_lengths ! j)) [0..<10]"
    by code_simp
  with assms show ?thesis by (simp only: list_all_iff set_upt atLeastLessThan_iff) simp
qed

lemma ts_fits_below:
  assumes "length ts < 50" "\<forall>x \<in> set ts. ts_sized pg x"
  shows "ts_fits pg ts"
  unfolding ts_fits_def
proof (intro allI impI)
  fix j :: nat
  assume j: "j < 10"
  let ?k = "ts_widths ! j + (if TSF1_quotes ! j then 2 else 0)"
  have "length (ts_values pg x ! j) \<le> ts_widths ! j" if "x \<in> set ts" for x
    using assms(2) that j by (auto simp: ts_sized_def list_all2_conv_all_nth)
  then have "length (array_text (column TSF1_quotes (map (ts_values pg) ts) j)) \<le>
      (?k + 1) * length (column TSF1_quotes (map (ts_values pg) ts) j) + 2"
    by (intro length_array_text_le) (auto simp: column_def quoted_def)
  also have "\<dots> \<le> (?k + 1) * 49 + 2" using assms(1) by (intro add_mono mult_le_mono) (simp_all add: column_def)
  also have "\<dots> < nat (TSF1_lengths ! j)" using j by (rule ts_lengths_enough)
  finally show "length (ts_column pg ts j) < nat (TSF1_lengths ! j)" by (simp add: ts_column_def)
qed

text \<open>
  C29. Trade-Status returns one row for every account: the ten columns of its most recent trades
  as arrays in the same order, their number, and the names of the customer and of the broker
  (null if the account has none).  As long as there are fewer than fifty trades and every
  column respects the width its buffer is made for, all ten texts fit, no warning is issued
  and nothing changes.
\<close>

theorem trade_status_arrays:
  assumes "\<And>s. s \<in> set TSF1_statements \<Longrightarrow> prepare s"
    and "length (ts_trades acct (snap_of f)) < 50" "\<forall>x \<in> set (ts_trades acct (snap_of f)). ts_sized pg x"
  shows "\<exists>ps. TradeStatusFrame1 prepare (tsf_spi pg) acct f =
    Ok ([ts_out pg acct (snap_of f)], f\<lparr>max_calls := 1, plans := ps\<rparr>)"
  using ts_frame_runs [of prepare pg acct f, OF assms(1)] ts_fits_below [OF assms(2,3)] by simp

text \<open>
  The fiftieth trade can break it.  A buffer has room for fifty values of the full width with
  their quotes and commas, but not for the braces and the terminator; running short only
  issues a warning.  An account whose fifty most recent trades are all in securities with
  symbols of fifteen characters, the width of \<open>s_symb\<close>, makes the frame write past the end of the
  buffer.
\<close>

theorem trade_status_overflow:
  assumes "\<And>s. s \<in> set TSF1_statements \<Longrightarrow> prepare s"
    and "length (ts_trades acct (snap_of f)) = 50"
    and "\<forall>(t, _) \<in> set (ts_trades acct (snap_of f)). length (t_s_symb t) = 15"
  shows "TradeStatusFrame1 prepare (tsf_spi pg) acct f = Fail Crash"
proof -
  let ?ts = "ts_trades acct (snap_of f)" and ?xs = "column TSF1_quotes (map (ts_values pg) (ts_trades acct (snap_of f))) 4"
  have n: "length ?xs = 50" using assms(2) by (simp add: column_def)
  have "(17 + 1) * length ?xs + 1 \<le> length (array_text ?xs)"
    using assms(3) n by (intro length_array_text_ge) (auto simp: column_def quoted_def TSF1_quotes_def)
  then have "\<not> length (ts_column pg ?ts 4) < nat (TSF1_lengths ! 4)"
    using n by (simp add: ts_column_def TSF1_lengths_def)
  then have "\<not> ts_fits pg ?ts" unfolding ts_fits_def by (intro notI) (drule spec [of _ 4], simp)
  then show ?thesis using ts_frame_runs [of prepare pg acct f, OF assms(1)] by auto
qed

section \<open>Witnesses\<close>

text \<open>An account with \<open>n\<close> trades, one per second, in one security.\<close>

definition busy_trade :: "string \<Rightarrow> nat \<Rightarrow> trade_row" where
  "busy_trade symb i = sample_trade\<lparr>t_id := int i, t_dts := int i, t_s_symb := symb\<rparr>"

definition busy_db :: "string \<Rightarrow> nat \<Rightarrow> db" where
  "busy_db symb n = sample_db\<lparr>trade_tbl := map (busy_trade symb) [0..<n],
     status_type_tbl := [\<lparr>st_id = ''SBMT'', st_name = ''Submitted''\<rparr>],
     security_tbl := [sample_security\<lparr>s_symb := symb\<rparr>],
     exchange_tbl := [\<lparr>ex_id = ''NYSE'', ex_name = ''New York'', ex_num_symb = 1, ex_open = 0, ex_close = 0,
       ex_desc = None, ex_ad_id = 1\<rparr>]\<rparr>"

definition busy_ctx :: "string \<Rightarrow> nat \<Rightarrow> (tsf_stmt, pgsession) fctx" where
  "busy_ctx symb n = \<lparr>session = start_call (busy_db symb n), plans = [], warnings = [], max_calls = 0\<rparr>"

lemma busy_snap: "snap_of (busy_ctx symb n) = busy_db symb n"
  by (simp add: busy_ctx_def snap_of_def)

lemma busy_join: "map fst (ts_join 1 (busy_db symb n)) = map (busy_trade symb) [0..<n]"
  by (simp add: ts_join_def busy_db_def map_concat comp_def busy_trade_def sample_rows concat_map_singleton)

lemma busy_trades:
  "length (ts_trades 1 (busy_db symb n)) = min 50 n"
  "x \<in> set (ts_trades 1 (busy_db symb n)) \<Longrightarrow> t_s_symb (fst x) = symb"
proof -
  have "length (map fst (ts_join 1 (busy_db symb n))) = n" by (simp only: busy_join) simp
  then show "length (ts_trades 1 (busy_db symb n)) = min 50 n" by (simp add: ts_trades_def order_desc_def)
  assume "x \<in> set (ts_trades 1 (busy_db symb n))"
  then have "fst x \<in> set (map fst (ts_join 1 (busy_db symb n)))"
    by (auto simp: ts_trades_def order_desc_def dest: in_set_takeD)
  then show "t_s_symb (fst x) = symb" 
    by (simp only: busy_join) (auto simp: busy_trade_def)
qed

theorem trade_status_arrays_witness:
  "\<exists>ps. TradeStatusFrame1 (\<lambda>_. True) (tsf_spi sample_pg) 1 (busy_ctx ''AB'' 2) =
    Ok ([ts_out sample_pg 1 (busy_db ''AB'' 2)], (busy_ctx ''AB'' 2)\<lparr>max_calls := 1, plans := ps\<rparr>)"
proof -
  have "[0..<2] = [0, 1 :: nat]" by (simp add: upt_rec)
  then have "list_all (ts_sized sample_pg) (ts_join 1 (busy_db ''AB'' 2))"
    by (simp add: ts_join_def busy_db_def busy_trade_def sample_rows ts_sized_def ts_widths_def sample_pg_def
        show_int_def show_nat.simps numeric_out_def)
  then have "list_all (ts_sized sample_pg) (ts_trades 1 (busy_db ''AB'' 2))"
    by (auto simp: list_all_iff ts_trades_def order_desc_def dest: in_set_takeD)
  then show ?thesis
    using trade_status_arrays [of "\<lambda>_. True" 1 "busy_ctx ''AB'' 2" sample_pg]
    by (simp add: busy_snap busy_trades list_all_iff)
qed

theorem trade_status_overflow_witness:
  "TradeStatusFrame1 (\<lambda>_. True) (tsf_spi sample_pg) 1 (busy_ctx ''ABCDEFGHIJKLMNO'' 50) = Fail Crash"
proof (rule trade_status_overflow)
  let ?sy = "''ABCDEFGHIJKLMNO''"
  show "length (ts_trades 1 (snap_of (busy_ctx ?sy 50))) = 50" by (simp add: busy_snap busy_trades)
  have "length (t_s_symb t) = 15" if "(t, y) \<in> set (ts_trades 1 (busy_db ?sy 50))" for t y
    using busy_trades(2) [OF that] by simp
  then show "\<forall>(t, _) \<in> set (ts_trades 1 (snap_of (busy_ctx ?sy 50))). length (t_s_symb t) = 15"
    by (auto simp only: busy_snap)
qed simp

end
