(* ===== verification/BrokerVolume.thy ===== *)
theory BrokerVolume
  imports ArrayBuf Settlement
begin

text \<open>
  The Broker-Volume transaction, \<^verbatim>\<open>storedproc/pgsql/c/broker_volume.c\<close>: the volume of the pending
  requests of given brokers in one sector, as two arrays assembled in buffers.
\<close>

section \<open>SQL statement\<close>

text \<open>The last two constructors stand for the texts of the two warnings about the buffers.\<close>

datatype bvf_stmt = BVF1_1 | BVF1_broker_name_small | BVF1_volume_small

definition BVF1_statements :: "bvf_stmt list" where
  "BVF1_statements = [BVF1_1]"

text \<open>
  The join, the groups (one per broker name that occurs) and the order by volume.  Prices are
  in cents, so the volumes are; groups with equal volumes keep the order of the join.
\<close>

definition bv_join :: "string list \<Rightarrow> string \<Rightarrow> db \<Rightarrow> (string \<times> int) list" where
  "bv_join brokers sect d = [(b_name b, tr_qty r * tr_bid_price r).
     r \<leftarrow> trade_request_tbl d, sc \<leftarrow> sector_tbl d, i \<leftarrow> industry_tbl d, co \<leftarrow> company_tbl d,
     b \<leftarrow> broker_tbl d, s \<leftarrow> security_tbl d,
     tr_b_id r = b_id b \<and> tr_s_symb r = s_symb s \<and> s_co_id s = co_id co \<and> co_in_id co = in_id i
     \<and> sc_id sc = in_sc_id i \<and> b_name b \<in> set brokers \<and> sc_name sc = sect]"

definition bv_volumes :: "string list \<Rightarrow> string \<Rightarrow> db \<Rightarrow> (string \<times> int) list" where
  "bv_volumes brokers sect d = order_desc snd (group_sum (bv_join brokers sect d))"

definition SQLBVF1_1 :: "string list \<Rightarrow> string \<Rightarrow> sql" where
  "SQLBVF1_1 brokers sect d =
     sql_select (map (\<lambda>(nm, v). [Some nm, num_txt 2 v]) (bv_volumes brokers sect d)) d"

primrec bvf_sql :: "datum list \<Rightarrow> bvf_stmt \<Rightarrow> sql" where
  "bvf_sql as BVF1_1 =
     (case as of [DTextArray bs, DText sect] \<Rightarrow> SQLBVF1_1 bs sect | _ \<Rightarrow> (\<lambda>d. Fail Sql_Error))"
| "bvf_sql as BVF1_broker_name_small = (\<lambda>d. Fail Sql_Error)"
| "bvf_sql as BVF1_volume_small = (\<lambda>d. Fail Sql_Error)"

definition bvf_spi :: "(bvf_stmt, pgsession) spi" where
  "bvf_spi stmt as read_only s = run_sql (bvf_sql as stmt) read_only s"

interpretation bvf: sql_provider bvf_spi bvf_sql
  by unfold_locales (simp add: bvf_spi_def)

section \<open>The frame\<close>

datatype bvf1 = bvf1_broker_name | bvf1_list_len | bvf1_volume

definition bvf1_order :: "bvf1 list" where
  "bvf1_order = [bvf1_broker_name, bvf1_list_len, bvf1_volume]"

text \<open>The rows: a quoted name and a volume each, with a comma before all but the first.\<close>

fun BVF1_rows ::
    "bool \<Rightarrow> spi_row list \<Rightarrow> abuf \<Rightarrow> abuf \<Rightarrow> (bvf_stmt, 'd) fctx \<Rightarrow> ((abuf \<times> abuf) \<times> (bvf_stmt, 'd) fctx) outcome" where
  "BVF1_rows first [] bn v f = Ok ((bn, v), f)"
| "BVF1_rows first (row # rows) bn v f =
     obind (from_ptr (SPI_getvalue row 1)) (\<lambda>nm.
     obind (puts BVF1_broker_name_small [if first then ''\"'' else '',\"'', nm, ''\"''] bn f) (\<lambda>(bn, f).
     obind (from_ptr (SPI_getvalue row 2)) (\<lambda>vol.
     obind (puts BVF1_volume_small (if first then [vol] else ['','', vol]) v f) (\<lambda>(v, f).
     BVF1_rows False rows bn v f))))"

definition BVF1_arrays ::
    "spi_row list \<Rightarrow> (bvf_stmt, 'd) fctx \<Rightarrow> ((string \<times> string) \<times> (bvf_stmt, 'd) fctx) outcome" where
  "BVF1_arrays rows f =
     (let n = int (length rows) in
      if rows = [] then Ok ((''{}'', ''{}''), f)
      else
        obind (open_array (i32 ((int B_NAME_LEN + 2) * (n + 1) + 3))) (\<lambda>bn.
        obind (open_array (i32 (int FIN_AGG_T_LEN * (n + 1) + 3))) (\<lambda>v.
        obind (BVF1_rows True rows bn v f) (\<lambda>((bn, v), f).
        obind (put BVF1_broker_name_small ''}'' bn f) (\<lambda>(bn, f).
        obind (put BVF1_volume_small ''}'' v f) (\<lambda>(v, f).
        Ok ((ctext (fst bn), ctext (fst v)), f)))))))"

definition BrokerVolumeFrame1 ::
    "(bvf_stmt \<Rightarrow> bool) \<Rightarrow> (bvf_stmt, 'd) spi \<Rightarrow> string list \<Rightarrow> string \<Rightarrow> (bvf_stmt, 'd) fctx \<Rightarrow>
     (spi_row list \<times> (bvf_stmt, 'd) fctx) outcome" where
  "BrokerVolumeFrame1 prepare spi broker_list sect f =
     obind (plan_queries prepare BVF1_statements (f\<lparr>max_calls := 1\<rparr>)) (\<lambda>f.
     obind (SPI_execute_plan spi BVF1_1 [DTextArray broker_list, DText sect] True f) (\<lambda>(r, f).
     case r of
       SPI_OK_SELECT rows \<Rightarrow>
         obind (BVF1_arrays rows f) (\<lambda>((bn, v), f).
         srf_return (map ((\<lambda>_. Uninit)(bvf1_broker_name := Str bn, bvf1_volume := Str v,
             bvf1_list_len := Str (snprintf_d (SMALLINT_LEN + 1) (int (length rows))))) bvf1_order) f)
     | _ \<Rightarrow> Ok ([], FAIL_FRAME_SET BVF1_1 f)))"

section \<open>The arrays\<close>

definition bv_names :: "(string \<times> int) list \<Rightarrow> string list" where
  "bv_names vs = map (\<lambda>(nm, v). quoted nm) vs"

definition bv_texts :: "(string \<times> int) list \<Rightarrow> string list" where
  "bv_texts vs = map (\<lambda>(nm, v). numeric_out 2 v) vs"

lemma bv_rows:
  assumes "tracks bn" "tracks v"
  shows "BVF1_rows first (map (\<lambda>(nm, v). [Some nm, num_txt 2 v]) vs) bn v f =
    (if length (ctext (fst bn)) + length (joined first (bv_names vs)) < cap (fst bn)
        \<and> length (ctext (fst v)) + length (joined first (bv_texts vs)) < cap (fst v)
     then Ok ((grown (joined first (bv_names vs)) bn, grown (joined first (bv_texts vs)) v), f) else Fail Crash)"
  using assms
proof (induction vs arbitrary: first bn v)
  case Nil
  then show ?case by (auto simp: bv_names_def bv_texts_def grown_nil tracks_def case_prod_unfold)
next
  case (Cons x vs)
  obtain nm w where x: "x = (nm, w)" by fastforce
  let ?n = "concat [if first then ''\"'' else '',\"'', nm, ''\"'']"
  let ?w = "concat (if first then [numeric_out 2 w] else ['','', numeric_out 2 w])"
  have j: "joined first (bv_names (x # vs)) = ?n @ joined False (bv_names vs)"
    "joined first (bv_texts (x # vs)) = ?w @ joined False (bv_texts vs)"
    by (simp_all add: x bv_names_def bv_texts_def quoted_def)
  note pn = puts_iff [OF Cons.prems(1), of BVF1_broker_name_small "[if first then ''\"'' else '',\"'', nm, ''\"'']" f]
  note pw = puts_iff [OF Cons.prems(2), of BVF1_volume_small "if first then [numeric_out 2 w] else ['','', numeric_out 2 w]" f]
  have step: "BVF1_rows first (map (\<lambda>(nm, v). [Some nm, num_txt 2 v]) (x # vs)) bn v f =
      obind (puts BVF1_broker_name_small [if first then ''\"'' else '',\"'', nm, ''\"''] bn f) (\<lambda>(bn, f).
      obind (puts BVF1_volume_small (if first then [numeric_out 2 w] else ['','', numeric_out 2 w]) v f) (\<lambda>(v, f).
      BVF1_rows False (map (\<lambda>(nm, v). [Some nm, num_txt 2 v]) vs) bn v f))"
    by (simp add: x del: puts.simps)
  show ?case
  proof (cases "length (ctext (fst bn)) + length ?n < cap (fst bn) \<and> length (ctext (fst v)) + length ?w < cap (fst v)")
    case True
    then have "tracks (grown ?n bn)" "tracks (grown ?w v)" using Cons.prems by (blast intro: tracks_grown)+
    note ih = Cons.IH [OF this, of False]
    from True show ?thesis unfolding step j
      by (simp only: pn pw if_True simp_thms obind.simps prod.case ih grown_simps length_append add.assoc)
  next
    case False
    then consider "\<not> length (ctext (fst bn)) + length ?n < cap (fst bn)"
      | "length (ctext (fst bn)) + length ?n < cap (fst bn)" "\<not> length (ctext (fst v)) + length ?w < cap (fst v)" by blast
    then show ?thesis
    proof cases
      case 1
      then show ?thesis unfolding step j by (simp only: pn if_False obind.simps length_append) (simp del: concat.simps)
    next
      case 2
      then show ?thesis unfolding step j
        by (simp only: pn pw if_True if_False obind.simps prod.case length_append) (simp del: concat.simps)
    qed
  qed
qed

text \<open>When both texts fit the buffers the frame allocates for \<open>n\<close> rows.\<close>

definition bv_fits :: "(string \<times> int) list \<Rightarrow> bool" where
  "bv_fits vs \<longleftrightarrow> length (array_text (bv_names vs)) < 102 * (length vs + 1) + 3
     \<and> length (array_text (bv_texts vs)) < 17 * (length vs + 1) + 3"

lemma bv_arrays:
  assumes n: "length vs < 10 ^ 7"
  shows "BVF1_arrays (map (\<lambda>(nm, v). [Some nm, num_txt 2 v]) vs) f =
    (if bv_fits vs then Ok ((array_text (bv_names vs), array_text (bv_texts vs)), f) else Fail Crash)"
proof (cases "vs = []")
  case True
  then show ?thesis by (simp add: BVF1_arrays_def bv_fits_def bv_names_def bv_texts_def array_text_def)
next
  case False
  let ?c1 = "105 + 102 * int (length vs)" and ?c2 = "20 + 17 * int (length vs)"
  have i: "i32 ?c1 = ?c1" "i32 ?c2 = ?c2" using n by (simp_all add: in_i32_def)
  obtain bn where bn: "open_array ?c1 = Ok bn" "tracks bn" "ctext (fst bn) = ''{''" "cap (fst bn) = nat ?c1"
    using open_array_ok [of ?c1] n by auto
  obtain v where v: "open_array ?c2 = Ok v" "tracks v" "ctext (fst v) = ''{''" "cap (fst v) = nat ?c2"
    using open_array_ok [of ?c2] n by auto
  have c: "nat ?c1 = 102 * (length vs + 1) + 3" "nat ?c2 = 17 * (length vs + 1) + 3" by (simp_all add: nat_eq_iff)
  let ?jn = "joined True (bv_names vs)" and ?jv = "joined True (bv_texts vs)"
  have unf: "BVF1_arrays (map (\<lambda>(nm, v). [Some nm, num_txt 2 v]) vs) f =
      obind (BVF1_rows True (map (\<lambda>(nm, v). [Some nm, num_txt 2 v]) vs) bn v f) (\<lambda>((bn, v), f).
        obind (put BVF1_broker_name_small ''}'' bn f) (\<lambda>(bn, f).
        obind (put BVF1_volume_small ''}'' v f) (\<lambda>(v, f). Ok ((ctext (fst bn), ctext (fst v)), f))))"
    using False by (simp add: BVF1_arrays_def Let_def i bn(1) v(1))
  show ?thesis
  proof (cases "1 + length ?jn < nat ?c1 \<and> 1 + length ?jv < nat ?c2")
    case True
    then have t: "tracks (grown ?jn bn)" "tracks (grown ?jv v)" using bn v by (auto intro: tracks_grown)
    from True show ?thesis
      unfolding unf by (simp add: bv_rows bn v put_iff [OF t(1)] put_iff [OF t(2)] bv_fits_def array_text_joined c)
  next
    case False
    then show ?thesis unfolding unf by (auto simp: bv_rows bn v bv_fits_def array_text_joined c)
  qed
qed

lemma bv_frame_runs:
  assumes prep: "\<And>s. s \<in> set BVF1_statements \<Longrightarrow> prepare s" and n: "length (bv_volumes brokers sect (snap_of f)) < 10 ^ 7"
  shows "\<exists>ps. BrokerVolumeFrame1 prepare bvf_spi brokers sect f =
    (let vs = bv_volumes brokers sect (snap_of f) in
     if bv_fits vs then
       Ok ([[Some (array_text (bv_names vs)), Some (take 5 (show_int (int (length vs)))), Some (array_text (bv_texts vs))]],
           f\<lparr>max_calls := 1, plans := ps\<rparr>)
     else Fail Crash)"
proof -
  obtain ps where ps: "plan_queries prepare BVF1_statements (f\<lparr>max_calls := 1\<rparr>) =
      Ok (f\<lparr>max_calls := 1, plans := ps\<rparr>)" "set BVF1_statements \<subseteq> set ps"
    using planned [of BVF1_statements prepare "f\<lparr>max_calls := 1\<rparr>", OF prep] by auto
  then have "BVF1_1 \<in> set ps" by (auto simp: BVF1_statements_def)
  with ps(1) show ?thesis
    by (intro exI [of _ ps]) (simp add: BrokerVolumeFrame1_def bvf.exec_read_eq SQLBVF1_1_def bv_arrays [OF n] Let_def
        srf_return_def bvf1_order_def snprintf_d_def del: SPI_execute_plan_planned)
qed

lemma length_numeric_out_ge:
  assumes "10 ^ 15 \<le> v"
  shows "17 \<le> length (numeric_out 2 v)"
proof -
  have "10 ^ 13 \<le> nat \<bar>v\<bar> div 10 ^ 2" using assms by (simp add: less_eq_div_iff_mult_less_eq le_nat_iff)
  then have "13 < length (show_nat (nat \<bar>v\<bar> div 10 ^ 2))" by (rule length_show_nat_ge)
  with assms show ?thesis by (simp add: numeric_out_def Let_def)
qed

lemma bv_fits_enough:
  assumes "\<forall>(nm, v) \<in> set vs. length nm \<le> 49 \<and> 0 \<le> v \<and> v < 10 ^ 15"
  shows "bv_fits vs"
proof -
  have "length (array_text (bv_names vs)) \<le> (51 + 1) * length (bv_names vs) + 2"
    using assms by (intro length_array_text_le) (auto simp: bv_names_def quoted_def)
  moreover have "length (array_text (bv_texts vs)) \<le> (16 + 1) * length (bv_texts vs) + 2"
  proof (rule length_array_text_le)
    fix x
    assume "x \<in> set (bv_texts vs)"
    then obtain nm v where "(nm, v) \<in> set vs" and x: "x = numeric_out 2 v" by (auto simp: bv_texts_def)
    with assms have "0 \<le> v" "v < 10 ^ 15" by auto
    then show "length x \<le> 16" using length_numeric_out [of v 15] by (simp add: x)
  qed
  ultimately show ?thesis by (simp add: bv_fits_def bv_names_def bv_texts_def)
qed

lemma bv_overflow:
  assumes "19 \<le> length vs" "\<forall>(nm, v) \<in> set vs. 10 ^ 15 \<le> v"
  shows "\<not> bv_fits vs"
proof -
  have "(17 + 1) * length (bv_texts vs) + 1 \<le> length (array_text (bv_texts vs))"
    using assms length_numeric_out_ge by (intro length_array_text_ge) (auto simp: bv_texts_def)
  with assms(1) show ?thesis by (simp add: bv_fits_def bv_texts_def)
qed

lemma bv_frame_ok:
  assumes "\<And>s. s \<in> set BVF1_statements \<Longrightarrow> prepare s"
    and "length (bv_volumes brokers sect (snap_of f)) < 10 ^ 5"
    and "\<forall>(nm, v) \<in> set (bv_volumes brokers sect (snap_of f)). length nm \<le> 49 \<and> 0 \<le> v \<and> v < 10 ^ 15"
  shows "\<exists>ps. BrokerVolumeFrame1 prepare bvf_spi brokers sect f =
    (let vs = bv_volumes brokers sect (snap_of f) in
     Ok ([[Some (array_text (bv_names vs)), Some (show_int (int (length vs))), Some (array_text (bv_texts vs))]],
         f\<lparr>max_calls := 1, plans := ps\<rparr>))"
proof -
  let ?n = "int (length (bv_volumes brokers sect (snap_of f)))"
  have "length (show_nat (nat ?n)) \<le> 5" using assms(2) by (intro length_show_nat) simp_all
  then have "take 5 (show_int ?n) = show_int ?n" by (simp add: show_int_def)
  then show ?thesis
    using bv_frame_runs [of prepare, OF assms(1), of brokers sect f] bv_fits_enough [OF assms(3)] assms(2)
    by (simp add: Let_def)
qed

text \<open>Which brokers the query finds, with which volumes, and in which order.\<close>

lemma bv_volumes_spec:
  assumes "vs = bv_volumes brokers sect d"
  shows "sorted_wrt (\<lambda>x y. snd y \<le> snd x) vs" "distinct (map fst vs)"
    "set (map fst vs) = fst ` set (bv_join brokers sect d)"
    "\<forall>(nm, v) \<in> set vs. v = (\<Sum>(n, w) \<leftarrow> bv_join brokers sect d. if n = nm then w else 0)"
proof -
  let ?g = "group_sum (bv_join brokers sect d)"
  have vs: "vs = sort_key (\<lambda>x. - snd x) ?g" by (simp add: assms bv_volumes_def order_desc_def)
  then have "sorted (map (\<lambda>x. - snd x) vs)" by simp
  then show "sorted_wrt (\<lambda>x y. snd y \<le> snd x) vs" by (simp add: sorted_map)
  have "mset (map fst vs) = mset (map fst ?g)" by (simp add: vs)
  then show "distinct (map fst vs)"
    by (metis (no_types, lifting) comp_apply distinct_remdups fst_conv group_sum_def list.map_comp map_idI mset_eq_imp_distinct_iff)
  show "set (map fst vs) = fst ` set (bv_join brokers sect d)" by (force simp: vs group_sum_def)
  have "sum_list (map snd (filter (\<lambda>x. fst x = nm) xs)) = (\<Sum>(n, w) \<leftarrow> xs. if n = nm then w else 0)"
    for nm :: string and xs :: "(string \<times> int) list" by (induction xs) auto
  then show "\<forall>(nm, v) \<in> set vs. v = (\<Sum>(n, w) \<leftarrow> bv_join brokers sect d. if n = nm then w else 0)"
    by (auto simp: vs group_sum_def)
qed

text \<open>
  C27. Broker-Volume returns one row: the array of the quoted broker names, the number of brokers,
  and the array of their volumes.  The brokers are those of the request with pending requests in
  the sector, each once, with the sum over these requests, in descending order of volume.  With
  fewer than \<open>10 ^ 5\<close> brokers, names of at most 49 characters (the width of \<open>b_name\<close>) and volumes
  below \<open>10 ^ 13\<close> the two texts fit the buffers; no warning is issued and no table changes.
\<close>

theorem broker_volume_arrays:
  assumes "\<And>s. s \<in> set BVF1_statements \<Longrightarrow> prepare s"
    and "length (bv_volumes brokers sect (snap_of f)) < 10 ^ 5"
    and "\<forall>(nm, v) \<in> set (bv_volumes brokers sect (snap_of f)). length nm \<le> 49 \<and> 0 \<le> v \<and> v < 10 ^ 15"
  shows "let vs = bv_volumes brokers sect (snap_of f) in
    (\<exists>ps. BrokerVolumeFrame1 prepare bvf_spi brokers sect f =
      Ok ([[Some (array_text (bv_names vs)), Some (show_int (int (length vs))), Some (array_text (bv_texts vs))]],
         f\<lparr>max_calls := 1, plans := ps\<rparr>))
    \<and> sorted_wrt (\<lambda>x y. snd y \<le> snd x) vs \<and> distinct (map fst vs)
    \<and> set (map fst vs) = fst ` set (bv_join brokers sect (snap_of f))
    \<and> (\<forall>(nm, v) \<in> set vs. v = (\<Sum>(n, w) \<leftarrow> bv_join brokers sect (snap_of f). if n = nm then w else 0))"
  using bv_frame_ok [of prepare, OF assms] bv_volumes_spec [OF refl, of brokers sect "snap_of f"]
  unfolding Let_def by blast

text \<open>
  C28. The bound on the volumes is sharp.  A row has 17 bytes in the buffer of the volumes and
  needs one for the comma; running out of space only issues a warning, after which the
  remaining length is negative and \<open>strncat\<close> unlimited.  With 19 or more brokers whose volumes
  reach \<open>10 ^ 13\<close>, which quantity and price columns admit for a single request, the frame writes
  past the end of the buffer.
\<close>

theorem broker_volume_overflow:
  assumes "\<And>s. s \<in> set BVF1_statements \<Longrightarrow> prepare s"
    and "19 \<le> length (bv_volumes brokers sect (snap_of f))" "length (bv_volumes brokers sect (snap_of f)) < 10 ^ 7"
    and "\<forall>(nm, v) \<in> set (bv_volumes brokers sect (snap_of f)). 10 ^ 15 \<le> v"
  shows "BrokerVolumeFrame1 prepare bvf_spi brokers sect f = Fail Crash"
  using bv_frame_runs [of prepare, OF assms(1,3)] bv_overflow [OF assms(2,4)] by (simp add: Let_def)

section \<open>Witnesses\<close>

text \<open>A database with \<open>n\<close> brokers and one request for \<open>q\<close> shares at 100,000.00 each.\<close>

definition crowd_name :: "nat \<Rightarrow> string" where
  "crowd_name i = ''Broker '' @ frac_digits 3 i"

definition crowd_db :: "int \<Rightarrow> nat \<Rightarrow> db" where
  "crowd_db q n = empty_db\<lparr>
     sector_tbl := [\<lparr>sc_id = ''EN'', sc_name = ''Energy''\<rparr>],
     industry_tbl := [\<lparr>in_id = ''OG'', in_name = ''Oil'', in_sc_id = ''EN''\<rparr>],
     company_tbl := [sample_company\<lparr>co_in_id := ''OG''\<rparr>], security_tbl := [sample_security],
     broker_tbl := map (\<lambda>i. \<lparr>b_id = int i, b_st_id = ''ACTV'', b_name = crowd_name i, b_num_trades = 0, b_comm_total = 0\<rparr>) [0..<n],
     trade_request_tbl := map (\<lambda>i. \<lparr>tr_t_id = int i, tr_tt_id = ''TLB'', tr_s_symb = ''AB'', tr_qty = q, tr_bid_price = 10 ^ 7,
       tr_b_id = int i\<rparr>) [0..<n]\<rparr>"

definition crowd_ctx :: "int \<Rightarrow> nat \<Rightarrow> (bvf_stmt, pgsession) fctx" where
  "crowd_ctx q n = \<lparr>session = start_call (crowd_db q n), plans = [], warnings = [], max_calls = 0\<rparr>"

lemma crowd_snap: "snap_of (crowd_ctx q n) = crowd_db q n"
  by (simp add: crowd_ctx_def snap_of_def)

lemma crowd_name_inj: "inj_on crowd_name {..<1000}"
proof (rule inj_onI)
  fix i j :: nat
  assume "i \<in> {..<1000}" "j \<in> {..<1000}" "crowd_name i = crowd_name j"
  then have eq: "frac_digits 3 i = frac_digits 3 j" and lt: "i < 10 ^ 3" "j < 10 ^ 3"
    by (simp_all add: crowd_name_def)
  have "(0 * 10 ^ 3 + i, []) = (0 * 10 ^ 3 + j, [] :: string)"
    unfolding read_nat_frac_digits [OF lt(1), symmetric] read_nat_frac_digits [OF lt(2), symmetric] eq ..
  then show "i = j" by simp
qed

lemma crowd_join:
  "set (bv_join (map crowd_name [0..<n]) ''Energy'' (crowd_db q n)) = (\<lambda>i. (crowd_name i, q * 10 ^ 7)) ` {..<n}"
  by (auto simp: bv_join_def crowd_db_def empty_db_def sample_rows atLeast0LessThan image_UN)

lemma bv_volumes_names: "set (map fst (bv_volumes bs sect d)) = set (map fst (bv_join bs sect d))"
  "length (bv_volumes bs sect d) = card (fst ` set (bv_join bs sect d))"
  by (simp_all add: bv_volumes_def group_sum_def order_desc_def image_image length_remdups_card_conv)

text \<open>A group of equal positive volumes adds up to at least one of them.\<close>

lemma bv_volumes_ge:
  assumes "(nm, v) \<in> set (bv_volumes bs sect d)" "\<forall>x \<in> set (bv_join bs sect d). k \<le> snd x" "0 \<le> k"
  shows "k \<le> v"
proof -
  let ?xs = "filter (\<lambda>x. fst x = nm) (bv_join bs sect d)"
  from assms(1) have v: "v = sum_list (map snd ?xs)" and "?xs \<noteq> []"
    by (auto simp: bv_volumes_def group_sum_def order_desc_def filter_empty_conv)
  then obtain x xs where xs: "?xs = x # xs" by (cases ?xs) auto
  have "k \<le> snd y" if "y \<in> set ?xs" for y using that assms(2) by auto
  then have "k \<le> snd x" and k: "\<And>y. y \<in> set xs \<Longrightarrow> k \<le> snd y" unfolding xs by simp_all
  moreover have "0 \<le> sum_list (map snd xs)"
    using assms(3) by (intro sum_list_nonneg) (force dest: k)
  ultimately show ?thesis unfolding v xs by simp
qed

lemma crowd_count:
  assumes "n \<le> 1000"
  shows "length (bv_volumes (map crowd_name [0..<n]) ''Energy'' (crowd_db q n)) = n"
proof -
  have "inj_on crowd_name {..<n}" using crowd_name_inj by (rule inj_on_subset) (use assms in auto)
  then show ?thesis by (simp only: bv_volumes_names crowd_join) (simp add: image_image card_image)
qed

text \<open>Two brokers of which the second has two requests, and so the greater volume.\<close>

definition pair_db :: db where
  "pair_db = (crowd_db 5 2)\<lparr>trade_request_tbl := map (\<lambda>(i, q). \<lparr>tr_t_id = i, tr_tt_id = ''TLB'', tr_s_symb = ''AB'', tr_qty = q,
     tr_bid_price = 10 ^ 7, tr_b_id = min i 1\<rparr>) [(0, 5), (1, 4), (2, 3)]\<rparr>"

definition pair_ctx :: "(bvf_stmt, pgsession) fctx" where
  "pair_ctx = \<lparr>session = start_call pair_db, plans = [], warnings = [], max_calls = 0\<rparr>"

theorem broker_volume_arrays_witness:
  "\<exists>ps. BrokerVolumeFrame1 (\<lambda>_. True) bvf_spi [crowd_name 0, crowd_name 1] ''Energy'' pair_ctx =
     Ok ([[Some (array_text [quoted (crowd_name 1), quoted (crowd_name 0)]), Some ''2'',
           Some (array_text [numeric_out 2 (7 * 10 ^ 7), numeric_out 2 (5 * 10 ^ 7)])]],
         pair_ctx\<lparr>max_calls := 1, plans := ps\<rparr>)"
proof -
  have nm: "crowd_name 0 = ''Broker 000''" "crowd_name 1 = ''Broker 001''" by code_simp+
  have bs: "broker_tbl pair_db = [\<lparr>b_id = 0, b_st_id = ''ACTV'', b_name = crowd_name 0, b_num_trades = 0, b_comm_total = 0\<rparr>,
      \<lparr>b_id = 1, b_st_id = ''ACTV'', b_name = crowd_name 1, b_num_trades = 0, b_comm_total = 0\<rparr>]"
    by (simp add: pair_db_def crowd_db_def upt_rec)
  have vs: "bv_volumes [crowd_name 0, crowd_name 1] ''Energy'' pair_db = [(crowd_name 1, 7 * 10 ^ 7), (crowd_name 0, 5 * 10 ^ 7)]"
    by (simp add: bv_volumes_def group_sum_def order_desc_def bv_join_def bs)
      (simp add: pair_db_def crowd_db_def empty_db_def sample_rows nm nm(2) [unfolded One_nat_def])
  have "show_int 2 = ''2''" by code_simp
  moreover have "snap_of pair_ctx = pair_db" by (simp add: pair_ctx_def snap_of_def)
  note sel = this vs Let_def
  ultimately show ?thesis
    using broker_volume_arrays [of "\<lambda>_. True" "[crowd_name 0, crowd_name 1]" "''Energy''" pair_ctx]
    unfolding sel by (simp add: bv_names_def bv_texts_def nm del: One_nat_def)
qed

theorem broker_volume_overflow_witness:
  "BrokerVolumeFrame1 (\<lambda>_. True) bvf_spi (map crowd_name [0..<19]) ''Energy'' (crowd_ctx (10 ^ 9) 19) = Fail Crash"
proof (rule broker_volume_overflow)
  let ?vs = "bv_volumes (map crowd_name [0..<19]) ''Energy'' (snap_of (crowd_ctx (10 ^ 9) 19))"
  have n: "length ?vs = 19" by (simp only: crowd_snap crowd_count)
  show "19 \<le> length ?vs" "length ?vs < 10 ^ 7" by (simp_all only: n) simp_all
  show "\<forall>(nm, v) \<in> set ?vs. 10 ^ 15 \<le> v"
    using bv_volumes_ge [of _ _ "map crowd_name [0..<19]" "''Energy''" "crowd_db (10 ^ 9) 19" "10 ^ 15"]
    by (auto simp only: crowd_snap crowd_join) auto
qed simp

end
