(* ===== verification/Wire.thy ===== *)
theory Wire
  imports ArrayBuf
begin

text \<open>
  The text formats between the transaction harness and the server, as
  \<^verbatim>\<open>src/transactions/pgsql/DBConnectionServerSide.cpp\<close> reads and writes them: \<open>TokenizeSmart\<close> splits an
  array literal, \<open>TokenizeComposite\<close> a composite literal, and the loop of the Broker-Volume
  request writes an array literal.

  A C++ loop over an index \<open>i\<close> of \<open>str\<close> is a recursion on the characters from \<open>i\<close> on; an index at or
  past the end is the empty rest.
\<close>

section \<open>Array literals\<close>

text \<open>The inner loop for a quoted element, after the opening quote: the element and the rest.\<close>

fun smart_quoted :: "string \<Rightarrow> string \<times> string" where
  "smart_quoted [] = ([], [])"
| "smart_quoted [c] = (if c = CHR ''\"'' then ([], []) else ([c], []))"
| "smart_quoted (c # d # cs) =
     (if c = CHR ''\"'' then ([], d # cs)
      else if c = CHR 0x5C then (let (tok, rest) = smart_quoted cs in (d # tok, rest))
      else (let (tok, rest) = smart_quoted (d # cs) in (c # tok, rest)))"

text \<open>The inner loop for an element without quotes.\<close>

definition smart_plain :: "string \<Rightarrow> string \<times> string" where
  "smart_plain s =
     (let stop = (\<lambda>c. c = CHR '','' \<or> c = CHR ''}''); tok = takeWhile (\<lambda>c. \<not> stop c) s in
      (if tok = ''NULL'' then [] else tok, dropWhile (\<lambda>c. \<not> stop c) s))"

definition smart_element :: "string \<Rightarrow> string \<times> string" where
  "smart_element s = (case s of c # cs \<Rightarrow> if c = CHR ''\"'' then smart_quoted cs else smart_plain s | [] \<Rightarrow> ([], []))"

definition skip_comma :: "string \<Rightarrow> string" where
  "skip_comma s = (case s of c # cs \<Rightarrow> if c = CHR '','' then cs else s | [] \<Rightarrow> [])"

lemma length_smart_quoted: "length (snd (smart_quoted s)) \<le> length s"
  by (induction s rule: smart_quoted.induct) (auto simp: case_prod_unfold Let_def)

lemma length_skip_comma: "length (skip_comma s) \<le> length s"
  by (cases s) (simp_all add: skip_comma_def)

lemma smart_progress:
  assumes "s \<noteq> []" "hd s \<noteq> CHR ''}''"
  shows "length (skip_comma (snd (smart_element s))) < length s"
proof (cases s)
  case Nil
  with assms show ?thesis by simp
next
  case (Cons c cs)
  consider "c = CHR ''\"''" | "c = CHR '',''" | "c \<noteq> CHR ''\"''" "c \<noteq> CHR '',''" by blast
  then show ?thesis
  proof cases
    case 1
    then show ?thesis
      using length_smart_quoted [of cs] length_skip_comma [of "snd (smart_quoted cs)"] by (simp add: Cons smart_element_def)
  next
    case 2
    then show ?thesis by (simp add: Cons smart_element_def smart_plain_def skip_comma_def)
  next
    case 3
    let ?r = "dropWhile (\<lambda>c. \<not> (c = CHR '','' \<or> c = CHR ''}'')) cs"
    from 3 assms(2) have "snd (smart_element s) = ?r" by (simp add: Cons smart_element_def smart_plain_def Let_def)
    then show ?thesis
      using length_dropWhile_le [of "\<lambda>c. \<not> (c = CHR '','' \<or> c = CHR ''}'')" cs] length_skip_comma [of ?r] by (simp add: Cons)
  qed
qed

function smart_tokens :: "string \<Rightarrow> string list" where
  "smart_tokens s =
     (if s = [] \<or> hd s = CHR ''}'' then []
      else fst (smart_element s) # smart_tokens (skip_comma (snd (smart_element s))))"
  by pat_completeness auto
termination
  by (relation "measure length") (simp_all add: smart_progress)

declare smart_tokens.simps [simp del]

definition TokenizeSmart :: "string \<Rightarrow> string list \<Rightarrow> string list" where
  "TokenizeSmart str tokens =
     (if length str < 3 \<or> hd str \<noteq> CHR ''{'' then tokens else tokens @ smart_tokens (tl str))"

section \<open>Composite literals\<close>

fun comp_quoted :: "string \<Rightarrow> string \<times> string" where
  "comp_quoted [] = ([], [])"
| "comp_quoted [c] = (if c = CHR ''\"'' then ([], []) else ([c], []))"
| "comp_quoted (c # d # cs) =
     (if c = CHR ''\"'' then
        (if d = CHR ''\"'' then (let (fld, rest) = comp_quoted cs in (CHR ''\"'' # fld, rest)) else ([], d # cs))
      else if c = CHR 0x5C then (let (fld, rest) = comp_quoted cs in (d # fld, rest))
      else (let (fld, rest) = comp_quoted (d # cs) in (c # fld, rest)))"

definition comp_plain :: "string \<Rightarrow> string \<times> string" where
  "comp_plain s =
     (let stop = (\<lambda>c. c = CHR '','' \<or> c = CHR '')'') in (takeWhile (\<lambda>c. \<not> stop c) s, dropWhile (\<lambda>c. \<not> stop c) s))"

definition comp_field :: "string \<Rightarrow> string \<times> string" where
  "comp_field s = (case s of c # cs \<Rightarrow> if c = CHR ''\"'' then comp_quoted cs else comp_plain s | [] \<Rightarrow> ([], []))"

lemma length_comp_quoted: "length (snd (comp_quoted s)) \<le> length s"
  by (induction s rule: comp_quoted.induct) (auto simp: case_prod_unfold Let_def)

lemma length_comp_field: "length (snd (comp_field s)) \<le> length s"
proof (cases s)
  case Nil
  then show ?thesis by (simp add: comp_field_def)
next
  case (Cons c cs)
  then show ?thesis
    using length_comp_quoted [of cs] length_dropWhile_le [of "\<lambda>c. \<not> (c = CHR '','' \<or> c = CHR '')'')" s]
    by (auto simp: comp_field_def comp_plain_def Let_def)
qed

text \<open>The loop goes on exactly when a comma follows the field.\<close>

function comp_fields :: "string \<Rightarrow> string list" where
  "comp_fields s =
     (case snd (comp_field s) of
        c # rest \<Rightarrow> fst (comp_field s) # (if c = CHR '','' then comp_fields rest else [])
      | [] \<Rightarrow> [fst (comp_field s)])"
  by pat_completeness auto
termination
proof (relation "measure length")
  fix s c and rest :: string
  assume "snd (comp_field s) = c # rest"
  then show "(rest, s) \<in> measure length" using length_comp_field [of s] by simp
qed simp

declare comp_fields.simps [simp del]

definition TokenizeComposite :: "string \<Rightarrow> string list \<Rightarrow> string list" where
  "TokenizeComposite str flds =
     (if length str < 2 \<or> hd str \<noteq> CHR ''('' then flds
      else if str ! 1 = CHR '')'' then flds
      else flds @ comp_fields (tl str))"

section \<open>Renderings\<close>

text \<open>
  How an element may be written in an array literal: in quotes with quotes and backslashes
  escaped, or as it is if it cannot be mistaken.  The server writes either form, the harness
  the first.
\<close>

definition escape :: "string \<Rightarrow> string" where
  "escape s = concat (map (\<lambda>c. if c = CHR ''\"'' \<or> c = CHR 0x5C then [CHR 0x5C, c] else [c]) s)"

definition plain_element :: "string \<Rightarrow> bool" where
  "plain_element s \<longleftrightarrow> s \<noteq> [] \<and> s \<noteq> ''NULL'' \<and> (\<forall>c \<in> set s. c \<notin> {CHR ''\"'', CHR 0x5C, CHR '','', CHR ''{'', CHR ''}''})"

definition array_element :: "string \<Rightarrow> string \<Rightarrow> bool" where
  "array_element x s \<longleftrightarrow> s = quoted (escape x) \<or> s = x \<and> plain_element x"

text \<open>
  How the server writes a field of a composite: in quotes with quotes and backslashes doubled, or
  as it is.  A null is written as nothing.
\<close>

definition double_up :: "string \<Rightarrow> string" where
  "double_up s = concat (map (\<lambda>c. if c = CHR ''\"'' \<or> c = CHR 0x5C then [c, c] else [c]) s)"

definition composite_field :: "string \<Rightarrow> string \<Rightarrow> bool" where
  "composite_field x s \<longleftrightarrow> s = quoted (double_up x)
     \<or> s = x \<and> (\<forall>c \<in> set x. c \<notin> {CHR ''\"'', CHR 0x5C, CHR '','', CHR ''('', CHR '')''})"

definition composite_text :: "string list \<Rightarrow> string" where
  "composite_text ss = ''('' @ commas ss @ '')''"

lemma smart_quoted_plain:
  "s \<noteq> [] \<Longrightarrow> c \<noteq> CHR ''\"'' \<Longrightarrow> c \<noteq> CHR 0x5C \<Longrightarrow>
   smart_quoted (c # s) = (c # fst (smart_quoted s), snd (smart_quoted s))"
  by (cases s) (simp_all add: case_prod_unfold Let_def)

lemma smart_quoted_escape: "smart_quoted (escape x @ CHR ''\"'' # r) = (x, r)"
proof (induction x)
  case Nil
  then show ?case by (cases r) (simp_all add: escape_def)
next
  case (Cons c x)
  show ?case
  proof (cases "c = CHR ''\"'' \<or> c = CHR 0x5C")
    case True
    then have "escape (c # x) = CHR 0x5C # c # escape x" by (simp add: escape_def)
    then show ?thesis using Cons by simp
  next
    case False
    then have "escape (c # x) = c # escape x" by (simp add: escape_def)
    then show ?thesis using Cons False by (simp add: smart_quoted_plain)
  qed
qed

lemma takeWhile_stop:
  assumes "\<forall>c \<in> set x. P c" "\<not> P d"
  shows "takeWhile P (x @ d # r) = x" "dropWhile P (x @ d # r) = d # r"
  using assms by (simp_all add: takeWhile_append dropWhile_append)

lemma smart_element_read:
  assumes "array_element x s" "d = CHR '','' \<or> d = CHR ''}''"
  shows "smart_element (s @ d # r) = (x, d # r)"
proof (cases "s = quoted (escape x)")
  case True
  then show ?thesis by (simp add: smart_element_def quoted_def smart_quoted_escape)
next
  case False
  with assms(1) have p: "s = x" "x \<noteq> []" "x \<noteq> ''NULL''" "\<forall>c \<in> set x. \<not> (c = CHR '','' \<or> c = CHR ''}'')" "\<forall>c \<in> set x. c \<noteq> CHR ''\"''"
    by (auto simp: array_element_def plain_element_def)
  then obtain c cs where c: "x = c # cs" "c \<noteq> CHR ''\"''" by (cases x) auto
  have "smart_plain (x @ d # r) = (x, d # r)"
    using takeWhile_stop [OF p(4), of d r] assms(2) p(3) by (simp add: smart_plain_def Let_def)
  then show ?thesis using c p(1) by (simp add: smart_element_def)
qed

lemma array_element_hd: "array_element x s \<Longrightarrow> s \<noteq> [] \<and> hd s \<noteq> CHR ''}''"
proof -
  assume e: "array_element x s"
  show ?thesis
  proof (cases "s = quoted (escape x)")
    case True
    then show ?thesis by (simp add: quoted_def)
  next
    case False
    with e have "s \<noteq> []" "\<forall>c \<in> set s. c \<noteq> CHR ''}''" by (simp_all add: array_element_def plain_element_def)
    then show ?thesis by (cases s) simp_all
  qed
qed

lemma smart_tokens_step:
  assumes "array_element x s" "d = CHR '','' \<or> d = CHR ''}''"
  shows "smart_tokens (s @ d # r) = x # smart_tokens (skip_comma (d # r))"
proof -
  have "s @ d # r \<noteq> []" "hd (s @ d # r) \<noteq> CHR ''}''" using array_element_hd [OF assms(1)] by (simp_all add: hd_append)
  then show ?thesis
    unfolding smart_tokens.simps [of "s @ d # r"] by (simp only: smart_element_read [OF assms] fst_conv snd_conv) simp
qed

lemma smart_tokens_read:
  "list_all2 array_element xs ss \<Longrightarrow> smart_tokens (commas ss @ ''}'') = xs"
proof (induction ss arbitrary: xs rule: commas.induct)
  case 1
  then show ?case by (simp add: smart_tokens.simps)
next
  case (2 s)
  then obtain x where x: "xs = [x]" "array_element x s" by (auto simp: list_all2_Cons2)
  then show ?case by (simp add: smart_tokens_step skip_comma_def smart_tokens.simps [of "''}''"])
next
  case (3 s s' ss)
  then obtain x xs' where x: "xs = x # xs'" "array_element x s" "list_all2 array_element xs' (s' # ss)"
    by (auto simp: list_all2_Cons2)
  then show ?case using "3.IH" [OF x(3)] by (simp add: smart_tokens_step skip_comma_def)
qed

lemma TokenizeSmart_reads:
  assumes "list_all2 array_element xs ss"
  shows "TokenizeSmart (array_text ss) tokens = tokens @ xs"
proof (cases ss)
  case Nil
  with assms show ?thesis by (simp add: TokenizeSmart_def array_text_def)
next
  case (Cons s rest)
  then have "array_element (hd xs) s" using assms by (auto simp: list_all2_Cons2)
  then have "\<not> length (array_text ss) < 3"
    using array_element_hd [of "hd xs" s] by (auto simp: array_text_def commas_Cons Cons neq_Nil_conv)
  then show ?thesis using smart_tokens_read [OF assms] by (simp add: TokenizeSmart_def array_text_def)
qed

lemma comp_quoted_plain:
  "s \<noteq> [] \<Longrightarrow> c \<noteq> CHR ''\"'' \<Longrightarrow> c \<noteq> CHR 0x5C \<Longrightarrow>
   comp_quoted (c # s) = (c # fst (comp_quoted s), snd (comp_quoted s))"
  by (cases s) (simp_all add: case_prod_unfold Let_def)

lemma comp_quoted_double: "d \<noteq> CHR ''\"'' \<Longrightarrow> comp_quoted (double_up x @ CHR ''\"'' # d # r) = (x, d # r)"
proof (induction x)
  case Nil
  then show ?case by (simp add: double_up_def)
next
  case (Cons c x)
  show ?case
  proof (cases "c = CHR ''\"'' \<or> c = CHR 0x5C")
    case True
    then have "double_up (c # x) = c # c # double_up x" by (simp add: double_up_def)
    then show ?thesis using Cons True by auto
  next
    case False
    then have "double_up (c # x) = c # double_up x" by (simp add: double_up_def)
    then show ?thesis using Cons False by (simp add: comp_quoted_plain)
  qed
qed

lemma comp_field_read:
  assumes "composite_field x s" "d = CHR '','' \<or> d = CHR '')''"
  shows "comp_field (s @ d # r) = (x, d # r)"
proof (cases "s = quoted (double_up x)")
  case True
  with assms(2) show ?thesis by (auto simp: comp_field_def quoted_def comp_quoted_double)
next
  case False
  with assms(1) have p: "s = x" "\<forall>c \<in> set x. \<not> (c = CHR '','' \<or> c = CHR '')'')" "\<forall>c \<in> set x. c \<noteq> CHR ''\"''"
    by (simp_all add: composite_field_def)
  have "comp_plain (x @ d # r) = (x, d # r)"
    using takeWhile_stop [OF p(2), of d r] assms(2) by (simp add: comp_plain_def Let_def)
  moreover have "hd (x @ d # r) \<noteq> CHR ''\"''" using p(3) assms(2) by (cases x) auto
  ultimately show ?thesis using p(1) by (cases "x @ d # r") (simp_all add: comp_field_def)
qed

lemma comp_fields_step:
  assumes "composite_field x s" "d = CHR '','' \<or> d = CHR '')''"
  shows "comp_fields (s @ d # r) = x # (if d = CHR '','' then comp_fields r else [])"
  unfolding comp_fields.simps [of "s @ d # r"] by (simp add: comp_field_read [OF assms])

lemma comp_fields_read:
  "ss \<noteq> [] \<Longrightarrow> list_all2 composite_field xs ss \<Longrightarrow> comp_fields (commas ss @ '')'') = xs"
proof (induction ss arbitrary: xs rule: commas.induct)
  case 1
  then show ?case by simp
next
  case (2 s)
  then obtain x where "xs = [x]" "composite_field x s" by (auto simp: list_all2_Cons2)
  then show ?case by (simp add: comp_fields_step)
next
  case (3 s s' ss)
  then obtain x xs' where x: "xs = x # xs'" "composite_field x s" "list_all2 composite_field xs' (s' # ss)"
    by (auto simp: list_all2_Cons2)
  then show ?case using "3.IH" [OF _ x(3)] by (simp add: comp_fields_step)
qed

lemma composite_field_hd: "composite_field x s \<Longrightarrow> s \<noteq> [] \<Longrightarrow> hd s \<noteq> CHR '')''"
proof -
  assume e: "composite_field x s" and n: "s \<noteq> []"
  show ?thesis
  proof (cases "s = quoted (double_up x)")
    case True
    then show ?thesis by (simp add: quoted_def)
  next
    case False
    with e have "\<forall>c \<in> set s. c \<noteq> CHR '')''" by (simp add: composite_field_def)
    with n show ?thesis by (cases s) simp_all
  qed
qed

lemma TokenizeComposite_reads:
  assumes "list_all2 composite_field xs ss" "ss \<noteq> []" "ss \<noteq> [[]]"
  shows "TokenizeComposite (composite_text ss) flds = flds @ xs"
proof -
  obtain s rest where ss: "ss = s # rest" using assms(2) by (cases ss) auto
  then have "composite_field (hd xs) s" using assms(1) by (auto simp: list_all2_Cons2)
  then have "(commas ss @ '')'') ! 0 \<noteq> CHR '')''"
    using composite_field_hd [of "hd xs" s] assms(3) ss
    by (cases s; cases rest) (auto simp: commas_Cons)
  then show ?thesis
    using comp_fields_read [OF assms(2,1)] by (simp add: TokenizeComposite_def composite_text_def)
qed

text \<open>
  C31. \<open>TokenizeSmart\<close> undoes every array literal of the server or the harness: whichever elements
  are quoted, the tokens are the elements, quotes, commas, braces and backslashes in them
  included, and they are appended to the tokens already there.
\<close>

theorem tokenize_array_roundtrip:
  assumes "list_all2 array_element xs ss"
  shows "TokenizeSmart (array_text ss) tokens = tokens @ xs"
  using assms by (rule TokenizeSmart_reads)

theorem tokenize_array_roundtrip_witness:
  "TokenizeSmart (array_text [quoted (escape ''a\"b,{''), ''cd'']) [''x''] = [''x'', ''a\"b,{'', ''cd'']"
  using tokenize_array_roundtrip [of "[''a\"b,{'', ''cd'']" "[quoted (escape ''a\"b,{''), ''cd'']" "[''x'']"]
  by (simp add: array_element_def plain_element_def)

text \<open>
  C32. Composites nested in an array, as Security-Detail returns them, come back whole: splitting
  the array and then each of its elements gives the fields of every composite, however the
  server quoted the fields and the composites.  (A composite of one null field is written
  like one without fields and excluded.)
\<close>

theorem tokenize_nested_roundtrip:
  assumes "list_all2 (\<lambda>xs c. \<exists>ss. c = composite_text ss \<and> list_all2 composite_field xs ss \<and> ss \<notin> {[], [[]]}) xss cs"
    and "list_all2 array_element cs ts"
  shows "map (\<lambda>c. TokenizeComposite c []) (TokenizeSmart (array_text ts) []) = xss"
proof -
  have "TokenizeComposite c [] = xs"
    if "\<exists>ss. c = composite_text ss \<and> list_all2 composite_field xs ss \<and> ss \<notin> {[], [[]]}" for c xs
    using that TokenizeComposite_reads [of xs _ "[]"] by auto
  then have "list_all2 (\<lambda>xs c. TokenizeComposite c [] = xs) xss cs"
    using assms(1) by (rule list_all2_mono [rotated])
  then have "map (\<lambda>c. TokenizeComposite c []) cs = xss"
    by (simp add: list_all2_conv_all_nth list_eq_iff_nth_eq)
  with TokenizeSmart_reads [OF assms(2), of "[]"] show ?thesis by simp
qed

theorem tokenize_nested_roundtrip_witness:
  "map (\<lambda>c. TokenizeComposite c [])
     (TokenizeSmart (array_text [quoted (escape (composite_text [''1'', quoted (double_up ''a\"b''), []]))]) []) =
   [[''1'', ''a\"b'', []]]"
proof -
  let ?ss = "[''1'', quoted (double_up ''a\"b''), []]"
  have "list_all2 composite_field [''1'', ''a\"b'', []] ?ss" by (simp add: composite_field_def)
  then have "\<exists>ss. composite_text ?ss = composite_text ss \<and> list_all2 composite_field [''1'', ''a\"b'', []] ss \<and> ss \<notin> {[], [[]]}"
    by (intro exI [of _ ?ss]) simp
  then show ?thesis
    using tokenize_nested_roundtrip [of "[[''1'', ''a\"b'', []]]" "[composite_text ?ss]" "[quoted (escape (composite_text ?ss))]"]
    by (simp add: array_element_def)
qed

end
