(* ===== verification/Harness.thy ===== *)
theory Harness
  imports BrokerVolume Wire
begin

text \<open>
  The harness side of the Broker-Volume transaction:
  \<^verbatim>\<open>CDBConnectionServerSide::execute(const TBrokerVolumeFrame1Input *, \<dots>)\<close> of
  \<^verbatim>\<open>src/transactions/pgsql/DBConnectionServerSide.cpp\<close>, and the way of a request through it, the
  server and the frame and back.

  The bounds \<open>max_broker_list_len\<close> and \<open>cB_NAME_len\<close> come from the EGen headers and are parameters,
  as is \<open>exec\<close>, which sends the call to the server and returns the columns of the rows by name.
\<close>

section \<open>The request\<close>

text \<open>The loop that writes the array literal, from element \<open>i\<close> on.\<close>

fun broker_elements :: "nat \<Rightarrow> nat \<Rightarrow> string list \<Rightarrow> string" where
  "broker_elements max_broker_list_len i [] = []"
| "broker_elements max_broker_list_len i (b # bs) =
     (if i < max_broker_list_len \<and> b \<noteq> [] then
        (if 0 < i then '','' else []) @ ''\"'' @ escape b @ ''\"'' @ broker_elements max_broker_list_len (Suc i) bs
      else [])"

definition broker_literal :: "nat \<Rightarrow> string list \<Rightarrow> string" where
  "broker_literal max_broker_list_len broker_list = ''{'' @ broker_elements max_broker_list_len 0 broker_list @ ''}''"

record TBrokerVolumeFrame1Output =
  list_len :: int
  broker_name :: "string list"
  volume :: "double list"

text \<open>The first \<open>n\<close> entries of an output array are replaced by as many values as there are.\<close>

definition fill :: "nat \<Rightarrow> 'a list \<Rightarrow> 'a list \<Rightarrow> 'a list" where
  "fill n new old = take n new @ drop (length (take n new)) old"

definition execute_BrokerVolumeFrame1 ::
    "nat \<Rightarrow> nat \<Rightarrow> (string \<Rightarrow> string \<Rightarrow> (string \<times> string \<times> string) list outcome) \<Rightarrow> string list \<Rightarrow> string \<Rightarrow>
     TBrokerVolumeFrame1Output \<Rightarrow> TBrokerVolumeFrame1Output outcome" where
  "execute_BrokerVolumeFrame1 max_broker_list_len cB_NAME_len exec broker_list sector_name out =
     obind (exec (broker_literal max_broker_list_len broker_list) sector_name) (\<lambda>rows.
     case rows of
       [] \<Rightarrow> Ok out
     | (names, len, vols) # _ \<Rightarrow>
         Ok (out\<lparr>list_len := atoi len,
                 broker_name := fill max_broker_list_len
                   (map (\<lambda>t. copy_len cB_NAME_len (c_str t)) (TokenizeSmart names [])) (broker_name out),
                 volume := fill max_broker_list_len (map (\<lambda>t. atof (c_str t)) (TokenizeSmart vols [])) (volume out)\<rparr>))"

section \<open>From the harness to the frame and back\<close>

text \<open>
  The server between them: the argument and the two array columns pass through the input and
  output functions of array types, \<open>array_in\<close> and \<open>array_out\<close>.
\<close>

fun typed_rows ::
    "(string \<Rightarrow> string list outcome) \<Rightarrow> (string list \<Rightarrow> string) \<Rightarrow> spi_row list \<Rightarrow> (string \<times> string \<times> string) list outcome" where
  "typed_rows array_in array_out [] = Ok []"
| "typed_rows array_in array_out ([Some n, Some l, Some v] # rows) =
     obind (array_in n) (\<lambda>ns. obind (array_in v) (\<lambda>vs.
     obind (typed_rows array_in array_out rows) (\<lambda>rs. Ok ((array_out ns, l, array_out vs) # rs))))"
| "typed_rows array_in array_out (_ # rows) = Fail Sql_Error"

definition call_BrokerVolumeFrame1 ::
    "(string \<Rightarrow> string list outcome) \<Rightarrow> (string list \<Rightarrow> string) \<Rightarrow> (bvf_stmt \<Rightarrow> bool) \<Rightarrow> (bvf_stmt, 'd) spi \<Rightarrow>
     (bvf_stmt, 'd) fctx \<Rightarrow> string \<Rightarrow> string \<Rightarrow> (string \<times> string \<times> string) list outcome" where
  "call_BrokerVolumeFrame1 array_in array_out prepare spi f lit sect =
     obind (array_in lit) (\<lambda>bs.
     obind (BrokerVolumeFrame1 prepare spi bs sect f) (\<lambda>(rows, f). typed_rows array_in array_out rows))"

text \<open>
  What the harness relies on, as PostgreSQL documents it.  An element in double quotes, with a
  backslash before each quote and backslash, is taken as it is.  An element without quotes is
  taken as it is unless it is empty, contains one of the characters of the syntax, begins or ends
  with white space, which is skipped, or is \<open>NULL\<close> in any mixture of small and capital letters,
  which is the null.  The output function renders its elements in one of these two ways.  This is
  asked for lists within any limit of the server, of texts that every encoding has.
\<close>

definition array_isspace :: "char \<Rightarrow> bool" where
  "array_isspace c \<longleftrightarrow> c \<in> {CHR '' '', CHR 0x09, CHR 0x0A, CHR 0x0B, CHR 0x0C, CHR 0x0D}"

definition null_word :: "string \<Rightarrow> bool" where
  "null_word s \<longleftrightarrow> list_all2 (\<lambda>c cs. c \<in> set cs) s [''nN'', ''uU'', ''lL'', ''lL'']"

definition server_element :: "string \<Rightarrow> string \<Rightarrow> bool" where
  "server_element x s \<longleftrightarrow> s = quoted (escape x)
     \<or> s = x \<and> plain_element x \<and> \<not> array_isspace (hd x) \<and> \<not> array_isspace (last x) \<and> \<not> null_word x"

definition server_texts :: "string list \<Rightarrow> bool" where
  "server_texts xs \<longleftrightarrow> length xs \<le> 10 ^ 5
     \<and> (\<forall>x \<in> set xs. length x \<le> 1000 \<and> (\<forall>c \<in> set x. c \<noteq> NUL \<and> of_char c < (128 :: nat)))"

definition array_io :: "(string \<Rightarrow> string list outcome) \<Rightarrow> (string list \<Rightarrow> string) \<Rightarrow> bool" where
  "array_io array_in array_out \<longleftrightarrow>
     (\<forall>xs ss. server_texts xs \<and> list_all2 server_element xs ss \<longrightarrow> array_in (array_text ss) = Ok xs) \<and>
     (\<forall>xs. server_texts xs \<longrightarrow> (\<exists>ss. list_all2 server_element xs ss \<and> array_out xs = array_text ss))"

lemma server_element_renders: "list_all2 server_element xs ss \<Longrightarrow> list_all2 array_element xs ss"
  by (erule list_all2_mono) (auto simp: server_element_def array_element_def)

lemma server_texts_cstr: "server_texts xs \<Longrightarrow> x \<in> set xs \<Longrightarrow> is_cstr x"
  by (auto simp: server_texts_def is_cstr_def)

definition asked :: "nat \<Rightarrow> string list \<Rightarrow> string list" where
  "asked m bs = takeWhile (\<lambda>b. b \<noteq> []) (take m bs)"

definition bv_answer :: "nat \<Rightarrow> string list \<Rightarrow> string \<Rightarrow> (bvf_stmt, pgsession) fctx \<Rightarrow> (string \<times> int) list" where
  "bv_answer m bs sect f = bv_volumes (asked m bs) sect (snap_of f)"

lemma broker_elements_eq:
  "broker_elements m i bs = joined (i = 0) (map (\<lambda>b. quoted (escape b)) (asked (m - i) bs))"
proof (induction bs arbitrary: i)
  case Nil
  show ?case by (simp add: asked_def)
next
  case (Cons b bs)
  show ?case
  proof (cases "i < m")
    case True
    then have "m - i = Suc (m - Suc i)" by simp
    then show ?thesis using Cons True by (auto simp: asked_def quoted_def)
  next
    case False
    then show ?thesis by (simp add: asked_def)
  qed
qed

lemma broker_literal_eq: "broker_literal m bs = array_text (map (\<lambda>b. quoted (escape b)) (asked m bs))"
  by (simp add: broker_literal_def broker_elements_eq array_text_joined)

lemma list_all2_quoted: "list_all2 server_element xs (map (\<lambda>b. quoted (escape b)) xs)"
  by (simp add: list_all2_conv_all_nth server_element_def)

lemma escape_id: "\<forall>c \<in> set s. c \<noteq> CHR ''\"'' \<and> c \<noteq> CHR 0x5C \<Longrightarrow> escape s = s"
  by (induction s) (auto simp: escape_def)

lemma numeric_chars: "c \<in> set (numeric_out 2 v) \<Longrightarrow> (\<exists>d < 10. c = digit_char d) \<or> c = CHR ''.'' \<or> c = CHR ''-''"
  using show_nat_chars by (fastforce simp: numeric_out_def Let_def frac_digits_2 split: if_splits)

lemma digit_char_clean:
  "d < 10 \<Longrightarrow> digit_char d \<notin> {CHR ''\"'', CHR 0x5C, CHR '','', CHR ''{'', CHR ''}'', CHR ''N'', NUL}"
  by (erule digit_cases) (simp_all add: digit_char_def)

lemma numeric_clean:
  "c \<in> set (numeric_out 2 v) \<Longrightarrow> c \<notin> {CHR ''\"'', CHR 0x5C, CHR '','', CHR ''{'', CHR ''}'', CHR ''N'', NUL}"
proof -
  assume "c \<in> set (numeric_out 2 v)"
  then consider d where "d < 10" "c = digit_char d" | "c = CHR ''.''" | "c = CHR ''-''"
    using numeric_chars by blast
  then show ?thesis by cases (use digit_char_clean in auto)
qed

lemma numeric_plain: "plain_element (numeric_out 2 v)" "is_cstr (numeric_out 2 v)"
proof -
  have "numeric_out 2 v \<noteq> []" by (simp add: numeric_out_def Let_def)
  moreover have "numeric_out 2 v \<noteq> ''NULL''" using numeric_clean [of "CHR ''N''" v] by auto
  ultimately show "plain_element (numeric_out 2 v)" using numeric_clean by (auto simp: plain_element_def)
  show "is_cstr (numeric_out 2 v)" using numeric_clean [of NUL v] by (auto simp: is_cstr_def)
qed

text \<open>A number is read as it is: it has neither white space nor letters.\<close>

lemma numeric_server: "server_element (numeric_out 2 v) (numeric_out 2 v)"
proof -
  have ne: "numeric_out 2 v \<noteq> []" by (simp add: numeric_out_def Let_def)
  have "\<not> array_isspace c \<and> c \<notin> {CHR ''n'', CHR ''N''}" if c: "c \<in> set (numeric_out 2 v)" for c
  proof -
    consider d where "d < 10" "c = digit_char d" | "c = CHR ''.''" | "c = CHR ''-''"
      using numeric_chars [OF c] by blast
    then show ?thesis by cases (erule digit_cases, auto simp: array_isspace_def digit_char_def)
  qed
  moreover have "hd (numeric_out 2 v) \<in> set (numeric_out 2 v)" "last (numeric_out 2 v) \<in> set (numeric_out 2 v)"
    using ne by simp_all
  ultimately show ?thesis
    using numeric_plain(1) by (auto simp: server_element_def null_word_def list_all2_Cons2)
qed

lemma numeric_ascii: "c \<in> set (numeric_out 2 v) \<Longrightarrow> c \<noteq> NUL \<and> of_char c < (128 :: nat)"
proof -
  assume "c \<in> set (numeric_out 2 v)"
  then consider d where "d < 10" "c = digit_char d" | "c = CHR ''.''" | "c = CHR ''-''"
    using numeric_chars by blast
  then show ?thesis by cases (erule digit_cases, auto simp: digit_char_def)
qed

lemma c_str_id: "is_cstr s \<Longrightarrow> c_str s = s"
  by (auto simp: c_str_def is_cstr_def takeWhile_eq_all_conv)

lemma names_rendered:
  assumes "\<forall>(nm, v) \<in> set vs. \<forall>c \<in> set nm. c \<noteq> CHR ''\"'' \<and> c \<noteq> CHR 0x5C"
  shows "list_all2 server_element (map fst vs) (bv_names vs)"
proof -
  have "server_element (fst x) (quoted (fst x))" if "x \<in> set vs" for x
    using assms that escape_id [of "fst x"] by (simp add: server_element_def case_prod_unfold)
  then show ?thesis
    by (simp add: bv_names_def list_all2_map1 list_all2_map2 list_all2_same case_prod_unfold)
qed

lemma volumes_rendered: "list_all2 server_element (map (\<lambda>(nm, v). numeric_out 2 v) vs) (bv_texts vs)"
  by (simp add: bv_texts_def list_all2_map1 list_all2_map2 list_all2_same numeric_server case_prod_unfold)

lemma volumes_texts:
  assumes "length vs < 10 ^ 5" "\<forall>(nm, v) \<in> set vs. 0 \<le> v \<and> v < 10 ^ 12"
  shows "server_texts (map (\<lambda>(nm, v). numeric_out 2 v) vs)"
proof -
  have "length (numeric_out 2 v) \<le> 1000" if "(nm, v) \<in> set vs" for nm v
    using assms(2) that length_numeric_out [of v 12] by fastforce
  then show ?thesis using assms(1) numeric_ascii by (auto simp: server_texts_def)
qed

text \<open>
  C33. A Broker-Volume request from the harness to the tables and back.  The brokers whose volumes
  are summed are exactly those of the request up to the first empty entry, whatever ASCII
  characters their names contain, and the harness ends up with their number, the names and the
  volumes in the order of the frame.  Names the frame returns must not contain quotes or
  backslashes, which it does not escape.
\<close>

theorem broker_volume_end_to_end:
  assumes "\<And>s. s \<in> set BVF1_statements \<Longrightarrow> prepare s" "array_io array_in array_out"
    and "server_texts (asked m bs)" "server_texts (map fst (bv_answer m bs sect f))"
    and "length (bv_answer m bs sect f) \<le> m" "length (bv_answer m bs sect f) < 10 ^ 5"
    and "\<forall>(nm, v) \<in> set (bv_answer m bs sect f). length nm \<le> 49 \<and> 0 \<le> v \<and> v < 10 ^ 12"
    and "\<forall>(nm, v) \<in> set (bv_answer m bs sect f). \<forall>c \<in> set nm. c \<noteq> CHR ''\"'' \<and> c \<noteq> CHR 0x5C" "49 \<le> k"
  shows "execute_BrokerVolumeFrame1 m k (call_BrokerVolumeFrame1 array_in array_out prepare bvf_spi f) bs sect out =
    Ok (out\<lparr>list_len := int (length (bv_answer m bs sect f)),
            broker_name := map fst (bv_answer m bs sect f) @ drop (length (bv_answer m bs sect f)) (broker_name out),
            volume := map (\<lambda>(nm, v). rnd64 (of_int v / 10 ^ 2)) (bv_answer m bs sect f) @ drop (length (bv_answer m bs sect f)) (volume out)\<rparr>)"
proof -
  let ?vs = "bv_answer m bs sect f"
  let ?vtx = "map (\<lambda>(nm, v). numeric_out 2 v) ?vs"
  have big: "\<forall>(nm, v) \<in> set ?vs. length nm \<le> 49 \<and> 0 \<le> v \<and> v < 10 ^ 15" using assms(7) by force
  have vtx: "server_texts ?vtx" by (rule volumes_texts) (use assms(6,7) in auto)
  have rd: "array_in (array_text ss) = Ok xs" if "server_texts xs" "list_all2 server_element xs ss" for xs ss
    using assms(2) that by (simp add: array_io_def)
  obtain ns where ns: "list_all2 server_element (map fst ?vs) ns" "array_out (map fst ?vs) = array_text ns"
    using assms(2,4) unfolding array_io_def by blast
  obtain ws where ws: "list_all2 server_element ?vtx ws" "array_out ?vtx = array_text ws"
    using assms(2) vtx unfolding array_io_def by blast
  note tokens = TokenizeSmart_reads [OF server_element_renders [OF ns(1)]] TokenizeSmart_reads [OF server_element_renders [OF ws(1)]]
  have "\<exists>ps. BrokerVolumeFrame1 prepare bvf_spi (asked m bs) sect f =
      Ok ([[Some (array_text (bv_names ?vs)), Some (show_int (int (length ?vs))), Some (array_text (bv_texts ?vs))]],
          f\<lparr>max_calls := 1, plans := ps\<rparr>)"
    using bv_frame_ok [of prepare, OF assms(1), of "asked m bs" sect f] assms(6) big by (simp add: bv_answer_def Let_def)
  then have call: "call_BrokerVolumeFrame1 array_in array_out prepare bvf_spi f (broker_literal m bs) sect =
      Ok [(array_text ns, show_int (int (length ?vs)), array_text ws)]"
    using rd [OF assms(4) names_rendered [OF assms(8)]] rd [OF vtx volumes_rendered] rd [OF assms(3) list_all2_quoted] ns(2) ws(2)
    by (auto simp: call_BrokerVolumeFrame1_def broker_literal_eq)
  have "is_cstr (fst x) \<and> length (fst x) \<le> k" if "x \<in> set ?vs" for x
    using assms(7,9) that server_texts_cstr [OF assms(4)] by (force simp: case_prod_unfold)
  then have names: "map (\<lambda>t. copy_len k (c_str t)) (map fst ?vs) = map fst ?vs"
    by (simp add: c_str_id comp_def)
  have vols: "map (\<lambda>t. atof (c_str t)) ?vtx = map (\<lambda>(nm, v). rnd64 (of_int v / 10 ^ 2)) ?vs"
    by (simp add: c_str_id numeric_plain atof_numeric_out comp_def case_prod_unfold)
  show ?thesis
    using assms(5,6) names vols by (simp add: execute_BrokerVolumeFrame1_def call tokens fill_def in_i32_def)
qed

lemma array_io_sample:
  "array_io (\<lambda>s. Ok (TokenizeSmart s [])) (\<lambda>xs. array_text (map (\<lambda>x. quoted (escape x)) xs))"
  unfolding array_io_def using TokenizeSmart_reads [OF server_element_renders, of _ _ "[]"] list_all2_quoted by auto

theorem broker_volume_end_to_end_witness:
  "execute_BrokerVolumeFrame1 40 49
     (call_BrokerVolumeFrame1 (\<lambda>s. Ok (TokenizeSmart s [])) (\<lambda>xs. array_text (map (\<lambda>x. quoted (escape x)) xs))
        (\<lambda>_. True) bvf_spi (crowd_ctx 5 1)) [crowd_name 0, []] ''Energy'' \<lparr>list_len = 0, broker_name = [''x'', ''y''], volume = [1, 2]\<rparr> =
   Ok \<lparr>list_len = 1, broker_name = [crowd_name 0, ''y''], volume = [rnd64 (of_int (5 * 10 ^ 7) / 10 ^ 2), 2]\<rparr>"
proof -
  have asked: "asked 40 [crowd_name 0, []] = [crowd_name 0]" by (simp add: asked_def crowd_name_def)
  then have vs: "bv_answer 40 [crowd_name 0, []] ''Energy'' (crowd_ctx 5 1) = [(crowd_name 0, 5 * 10 ^ 7)]"
    by (simp add: bv_answer_def crowd_snap bv_volumes_def group_sum_def order_desc_def bv_join_def crowd_db_def empty_db_def sample_rows)
  have nm: "crowd_name 0 = ''Broker 000''" by code_simp
  show ?thesis
    using broker_volume_end_to_end [of "\<lambda>_. True" "\<lambda>s. Ok (TokenizeSmart s [])" "\<lambda>xs. array_text (map (\<lambda>x. quoted (escape x)) xs)"
        40 "[crowd_name 0, []]" "''Energy''" "crowd_ctx 5 1" 49 "\<lparr>list_len = 0, broker_name = [''x'', ''y''], volume = [1, 2]\<rparr>"]
      array_io_sample
    by (simp only: vs asked) (simp add: nm server_texts_def)
qed

end
