(* ===== verification/DataMaintenance.thy ===== *)
theory DataMaintenance
  imports Settlement "HOL-Library.List_Lexorder" "HOL-Library.Char_ord" "HOL-Library.Signed_Division"
begin

text \<open>
  The Data-Maintenance transaction, \<^verbatim>\<open>storedproc/pgsql/c/data_maintenance.c\<close>: one small change to one
  of twelve tables, chosen by name, made so that it can be repeated for ever.

  Text is ordered by character code, as in a database with the C collation.
\<close>

abbreviation (input) "TABLE_NAME_LEN \<equiv> 18 :: nat"
abbreviation (input) "TX_ID_LEN \<equiv> 4 :: nat"
abbreviation (input) "TX_NAME_LEN \<equiv> 50 :: nat"

section \<open>SQL statements\<close>

text \<open>\<open>DMF1_unknown_table\<close> stands for the warning about an unknown table.\<close>

datatype dmf_stmt = DMF1_1 | DMF1_2 | DMF1_3a | DMF1_3b | DMF1_4 | DMF1_5 | DMF1_6 | DMF1_7 | DMF1_8 | DMF1_9
  | DMF1_10 | DMF1_11 | DMF1_12 | DMF1_13a | DMF1_13b | DMF1_14 | DMF1_15a | DMF1_15b | DMF1_16 | DMF1_17 | DMF1_18
  | DMF1_19 | DMF1_20 | DMF1_21 | DMF1_22 | DMF1_23 | DMF1_unknown_table

definition DMF1_statements :: "dmf_stmt list" where
  "DMF1_statements = [DMF1_1, DMF1_2, DMF1_3a, DMF1_3b, DMF1_4, DMF1_5, DMF1_6, DMF1_7, DMF1_8, DMF1_9, DMF1_10,
     DMF1_11, DMF1_12, DMF1_13a, DMF1_13b, DMF1_14, DMF1_15a, DMF1_15b, DMF1_16, DMF1_17, DMF1_18, DMF1_19, DMF1_20,
     DMF1_21, DMF1_22, DMF1_23]"

definition SQLDMF1_1 :: "int \<Rightarrow> sql" where
  "SQLDMF1_1 ca d = sql_select (map (\<lambda>a. [Some a])
     (take 1 (rev (sort (map ap_acl (filter (\<lambda>r. ap_ca_id r = ca) (account_permission_tbl d))))))) d"

definition SQLDMF1_2 :: "string \<Rightarrow> int \<Rightarrow> string \<Rightarrow> sql" where
  "SQLDMF1_2 new ca old d =
     (let p = (\<lambda>r. ap_ca_id r = ca \<and> ap_acl r = old) in
      Ok (SPI_OK_UPDATE (length (filter p (account_permission_tbl d))),
          d\<lparr>account_permission_tbl := update_where p (\<lambda>r. r\<lparr>ap_acl := new\<rparr>) (account_permission_tbl d)\<rparr>))"

definition SQLDMF1_3a :: "int \<Rightarrow> sql" where
  "SQLDMF1_3a c d = sql_select [[ad_line2 a, int_txt (ad_id a)]. a \<leftarrow> address_tbl d, cu \<leftarrow> customer_tbl d,
     ad_id a = c_ad_id cu \<and> c_id cu = c] d"

definition SQLDMF1_3b :: "int \<Rightarrow> sql" where
  "SQLDMF1_3b co d = sql_select [[ad_line2 a, int_txt (ad_id a)]. a \<leftarrow> address_tbl d, cm \<leftarrow> company_tbl d,
     ad_id a = co_ad_id cm \<and> co_id cm = co] d"

definition SQLDMF1_4 :: "string \<Rightarrow> int \<Rightarrow> sql" where
  "SQLDMF1_4 line2 ad d =
     (let p = (\<lambda>r. ad_id r = ad) in
      Ok (SPI_OK_UPDATE (length (filter p (address_tbl d))),
          d\<lparr>address_tbl := update_where p (\<lambda>r. r\<lparr>ad_line2 := Some line2\<rparr>) (address_tbl d)\<rparr>))"

definition SQLDMF1_5 :: "int \<Rightarrow> sql" where
  "SQLDMF1_5 co d = sql_select (map (\<lambda>r. [Some (co_sp_rate r)]) (filter (\<lambda>r. co_id r = co) (company_tbl d))) d"

definition SQLDMF1_6 :: "string \<Rightarrow> int \<Rightarrow> sql" where
  "SQLDMF1_6 rate co d =
     (let p = (\<lambda>r. co_id r = co) in
      Ok (SPI_OK_UPDATE (length (filter p (company_tbl d))),
          d\<lparr>company_tbl := update_where p (\<lambda>r. r\<lparr>co_sp_rate := rate\<rparr>) (company_tbl d)\<rparr>))"

definition SQLDMF1_7 :: "int \<Rightarrow> sql" where
  "SQLDMF1_7 c d = sql_select (map (\<lambda>r. [c_email_2 r]) (filter (\<lambda>r. c_id r = c) (customer_tbl d))) d"

text \<open>
  \<open>substring(s FROM '#"%@#"%' FOR '#')\<close>: the longest part up to an at sign, null if there is none.
\<close>

definition upto_at :: "string \<Rightarrow> string option" where
  "upto_at s = (if CHR ''@'' \<in> set s then Some (rev (dropWhile (\<lambda>c. c \<noteq> CHR ''@'') (rev s))) else None)"

definition new_email :: "string \<Rightarrow> string option \<Rightarrow> string option" where
  "new_email domn e = Option.bind e (\<lambda>s. map_option (\<lambda>l. l @ domn) (upto_at s))"

definition SQLDMF1_8 :: "string \<Rightarrow> int \<Rightarrow> sql" where
  "SQLDMF1_8 domn c d =
     (let p = (\<lambda>r. c_id r = c) in
      sql_check (\<forall>r \<in> set (filter p (customer_tbl d)). case new_email domn (c_email_2 r) of None \<Rightarrow> True | Some s \<Rightarrow> length s \<le> 50)
       (Ok (SPI_OK_UPDATE (length (filter p (customer_tbl d))),
          d\<lparr>customer_tbl := update_where p (\<lambda>r. r\<lparr>c_email_2 := new_email domn (c_email_2 r)\<rparr>) (customer_tbl d)\<rparr>)))"

definition SQLDMF1_9 :: "int \<Rightarrow> sql" where
  "SQLDMF1_9 c d = sql_select (map (\<lambda>r. [Some (cx_tx_id r)])
     (filter (\<lambda>r. cx_c_id r = c \<and> (take 2 (cx_tx_id r) = ''US'' \<or> take 2 (cx_tx_id r) = ''CN'')) (customer_taxrate_tbl d))) d"

definition SQLDMF1_10 :: "string \<Rightarrow> int \<Rightarrow> string \<Rightarrow> sql" where
  "SQLDMF1_10 new c old d =
     (let p = (\<lambda>r. cx_c_id r = c \<and> cx_tx_id r = old); rs = filter p (customer_taxrate_tbl d) in
      sql_check (rs = [] \<or> length new \<le> 4 \<and> (new = old \<or> (c, new) \<notin> (\<lambda>r. (cx_c_id r, cx_tx_id r)) ` set (customer_taxrate_tbl d)))
       (Ok (SPI_OK_UPDATE (length rs),
          d\<lparr>customer_taxrate_tbl := update_where p (\<lambda>r. r\<lparr>cx_tx_id := new\<rparr>) (customer_taxrate_tbl d)\<rparr>)))"

definition SQLDMF1_11 :: "pgapi \<Rightarrow> int \<Rightarrow> string \<Rightarrow> int \<Rightarrow> sql" where
  "SQLDMF1_11 pg v symb day d =
     (let p = (\<lambda>r. dm_s_symb r = symb \<and> day_of pg (dm_date r) = day) in
      sql_check (\<forall>r \<in> set (filter p (daily_market_tbl d)). in_i64 (dm_vol r + v))
       (Ok (SPI_OK_UPDATE (length (filter p (daily_market_tbl d))),
          d\<lparr>daily_market_tbl := update_where p (\<lambda>r. r\<lparr>dm_vol := dm_vol r + v\<rparr>) (daily_market_tbl d)\<rparr>)))"

definition stamped :: "string option \<Rightarrow> bool" where
  "stamped e = (case e of None \<Rightarrow> False | Some s \<Rightarrow> strstr s ''LAST UPDATED'' \<noteq> None)"

definition SQLDMF1_12 :: sql where
  "SQLDMF1_12 d = sql_select [[int_txt (int (length (filter (\<lambda>r. stamped (ex_desc r)) (exchange_tbl d))))]] d"

definition SQLDMF1_13a :: "pgapi \<Rightarrow> sql" where
  "SQLDMF1_13a pg d =
     (let new = map_option (\<lambda>s. s @ '' LAST UPDATED '' @ now_char pg) in
      sql_check (\<forall>r \<in> set (exchange_tbl d). case new (ex_desc r) of None \<Rightarrow> True | Some s \<Rightarrow> length s \<le> 150)
       (Ok (SPI_OK_UPDATE (length (exchange_tbl d)),
          d\<lparr>exchange_tbl := map (\<lambda>r. r\<lparr>ex_desc := new (ex_desc r)\<rparr>) (exchange_tbl d)\<rparr>)))"

text \<open>A negative length given to \<open>substring\<close> is an error.\<close>

definition SQLDMF1_13b :: "pgapi \<Rightarrow> sql" where
  "SQLDMF1_13b pg d =
     (let new = map_option (\<lambda>s. take (length s - length (now_char pg)) s @ now_char pg) in
      sql_check (\<forall>r \<in> set (exchange_tbl d). case ex_desc r of None \<Rightarrow> True | Some s \<Rightarrow> length (now_char pg) \<le> length s)
       (Ok (SPI_OK_UPDATE (length (exchange_tbl d)),
          d\<lparr>exchange_tbl := map (\<lambda>r. r\<lparr>ex_desc := new (ex_desc r)\<rparr>) (exchange_tbl d)\<rparr>)))"

definition SQLDMF1_14 :: "pgapi \<Rightarrow> int \<Rightarrow> sql" where
  "SQLDMF1_14 pg co d = sql_select
     [[int_txt (int (length (filter (\<lambda>r. fi_co_id r = co \<and> day_of pg (fi_qtr_start_date r) = 1) (financial_tbl d))))]] d"

text \<open>\<open>SQLDMF1_15a\<close> moves the start of the quarter a day on, \<open>SQLDMF1_15b\<close> a day back.\<close>

definition shift_quarters :: "int \<Rightarrow> int \<Rightarrow> sql" where
  "shift_quarters k co d =
     (let p = (\<lambda>r. fi_co_id r = co) in
      Ok (SPI_OK_UPDATE (length (filter p (financial_tbl d))),
          d\<lparr>financial_tbl := update_where p (\<lambda>r. r\<lparr>fi_qtr_start_date := fi_qtr_start_date r + k\<rparr>) (financial_tbl d)\<rparr>))"

definition SQLDMF1_15a :: "int \<Rightarrow> sql" where
  "SQLDMF1_15a = shift_quarters 1"

definition SQLDMF1_15b :: "int \<Rightarrow> sql" where
  "SQLDMF1_15b = shift_quarters (- 1)"

abbreviation (input) "usecs_per_day \<equiv> 86400000000 :: int"

definition SQLDMF1_16 :: "int \<Rightarrow> sql" where
  "SQLDMF1_16 co d =
     (let ids = map nx_ni_id (filter (\<lambda>x. nx_co_id x = co) (news_xref_tbl d)); p = (\<lambda>r. ni_id r \<in> set ids) in
      Ok (SPI_OK_UPDATE (length (filter p (news_item_tbl d))),
          d\<lparr>news_item_tbl := update_where p (\<lambda>r. r\<lparr>ni_dts := ni_dts r + usecs_per_day\<rparr>) (news_item_tbl d)\<rparr>))"

definition SQLDMF1_17 :: "string \<Rightarrow> sql" where
  "SQLDMF1_17 symb d =
     (let p = (\<lambda>r. s_symb r = symb) in
      Ok (SPI_OK_UPDATE (length (filter p (security_tbl d))),
          d\<lparr>security_tbl := update_where p (\<lambda>r. r\<lparr>s_exch_date := s_exch_date r + 1\<rparr>) (security_tbl d)\<rparr>))"

definition SQLDMF1_18 :: "string \<Rightarrow> sql" where
  "SQLDMF1_18 tx d = sql_select (map (\<lambda>r. [Some (tx_name r)]) (filter (\<lambda>r. tx_id r = tx) (taxrate_tbl d))) d"

definition SQLDMF1_19 :: "string \<Rightarrow> string \<Rightarrow> sql" where
  "SQLDMF1_19 nm tx d =
     (let p = (\<lambda>r. tx_id r = tx) in
      Ok (SPI_OK_UPDATE (length (filter p (taxrate_tbl d))),
          d\<lparr>taxrate_tbl := update_where p (\<lambda>r. r\<lparr>tx_name := nm\<rparr>) (taxrate_tbl d)\<rparr>))"

definition watch_symbols :: "int \<Rightarrow> db \<Rightarrow> string list" where
  "watch_symbols c d = [wi_s_symb wi. wi \<leftarrow> watch_item_tbl d, wl \<leftarrow> watch_list_tbl d, wl_c_id wl = c \<and> wi_wl_id wi = wl_id wl]"

definition SQLDMF1_20 :: "int \<Rightarrow> sql" where
  "SQLDMF1_20 c d = sql_select [[int_txt (int (length (watch_symbols c d)))]] d"

text \<open>A negative \<open>OFFSET\<close> is an error.\<close>

definition SQLDMF1_21 :: "int \<Rightarrow> int \<Rightarrow> sql" where
  "SQLDMF1_21 c off d =
     sql_check (0 \<le> off) (sql_select (map (\<lambda>s. [Some s]) (take 1 (drop (nat off) (sort (watch_symbols c d))))) d)"

definition SQLDMF1_22 :: "string \<Rightarrow> int \<Rightarrow> sql" where
  "SQLDMF1_22 old c d = sql_select (map (\<lambda>s. [Some s])
     (take 1 (sort (filter (\<lambda>s. old < s \<and> s \<notin> set (watch_symbols c d)) (map s_symb (security_tbl d)))))) d"

definition SQLDMF1_23 :: "string \<Rightarrow> int \<Rightarrow> string \<Rightarrow> sql" where
  "SQLDMF1_23 new c old d =
     (let p = (\<lambda>r. wi_s_symb r = old \<and> (\<exists>wl \<in> set (watch_list_tbl d). wl_c_id wl = c \<and> wi_wl_id r = wl_id wl));
          tbl = update_where p (\<lambda>r. r\<lparr>wi_s_symb := new\<rparr>) (watch_item_tbl d) in
      sql_check (distinct (map (\<lambda>r. (wi_wl_id r, wi_s_symb r)) tbl))
       (Ok (SPI_OK_UPDATE (length (filter p (watch_item_tbl d))), d\<lparr>watch_item_tbl := tbl\<rparr>)))"

definition dmf_sql :: "pgapi \<Rightarrow> datum list \<Rightarrow> dmf_stmt \<Rightarrow> sql" where
  "dmf_sql pg as stmt =
     (case (stmt, as) of
        (DMF1_1, [DInt64 ca]) \<Rightarrow> SQLDMF1_1 ca
      | (DMF1_2, [DText new, DInt64 ca, DText old]) \<Rightarrow> SQLDMF1_2 new ca old
      | (DMF1_3a, [DInt64 c]) \<Rightarrow> SQLDMF1_3a c
      | (DMF1_3b, [DInt64 co]) \<Rightarrow> SQLDMF1_3b co
      | (DMF1_4, [DText l, DInt64 ad]) \<Rightarrow> SQLDMF1_4 l ad
      | (DMF1_5, [DInt64 co]) \<Rightarrow> SQLDMF1_5 co
      | (DMF1_6, [DText r, DInt64 co]) \<Rightarrow> SQLDMF1_6 r co
      | (DMF1_7, [DInt64 c]) \<Rightarrow> SQLDMF1_7 c
      | (DMF1_8, [DText domn, DInt64 c]) \<Rightarrow> SQLDMF1_8 domn c
      | (DMF1_9, [DInt64 c]) \<Rightarrow> SQLDMF1_9 c
      | (DMF1_10, [DText new, DInt64 c, DText old]) \<Rightarrow> SQLDMF1_10 new c old
      | (DMF1_11, [DInt64 v, DText s, DInt16 day]) \<Rightarrow> SQLDMF1_11 pg v s day
      | (DMF1_12, []) \<Rightarrow> SQLDMF1_12
      | (DMF1_13a, []) \<Rightarrow> SQLDMF1_13a pg
      | (DMF1_13b, []) \<Rightarrow> SQLDMF1_13b pg
      | (DMF1_14, [DInt64 co]) \<Rightarrow> SQLDMF1_14 pg co
      | (DMF1_15a, [DInt64 co]) \<Rightarrow> SQLDMF1_15a co
      | (DMF1_15b, [DInt64 co]) \<Rightarrow> SQLDMF1_15b co
      | (DMF1_16, [DInt64 co]) \<Rightarrow> SQLDMF1_16 co
      | (DMF1_17, [DText s]) \<Rightarrow> SQLDMF1_17 s
      | (DMF1_18, [DText tx]) \<Rightarrow> SQLDMF1_18 tx
      | (DMF1_19, [DText nm, DText tx]) \<Rightarrow> SQLDMF1_19 nm tx
      | (DMF1_20, [DInt64 c]) \<Rightarrow> SQLDMF1_20 c
      | (DMF1_21, [DInt64 c, DInt16 off]) \<Rightarrow> SQLDMF1_21 c off
      | (DMF1_22, [DText old, DInt64 c]) \<Rightarrow> SQLDMF1_22 old c
      | (DMF1_23, [DText new, DInt64 c, DText old]) \<Rightarrow> SQLDMF1_23 new c old
      | _ \<Rightarrow> (\<lambda>d. Fail Sql_Error))"

definition dmf_spi :: "pgapi \<Rightarrow> (dmf_stmt, pgsession) spi" where
  "dmf_spi pg stmt as read_only s = run_sql (dmf_sql pg as stmt) read_only s"

interpretation dmf: sql_provider "dmf_spi pg" "dmf_sql pg" for pg
  by unfold_locales (simp add: dmf_spi_def)

section \<open>The frame\<close>

text \<open>
  The two idioms of every branch: a query whose first row is used, and an update; if either
  does not succeed the frame warns and returns 1.
\<close>

definition DMF1_query ::
    "(dmf_stmt, 'd) spi \<Rightarrow> dmf_stmt \<Rightarrow> datum list \<Rightarrow> (dmf_stmt, 'd) fctx \<Rightarrow>
     (spi_row \<Rightarrow> (dmf_stmt, 'd) fctx \<Rightarrow> (int \<times> (dmf_stmt, 'd) fctx) outcome) \<Rightarrow> (int \<times> (dmf_stmt, 'd) fctx) outcome" where
  "DMF1_query spi stmt args f k = obind (first_row spi stmt args f) (\<lambda>(r, f).
     case r of None \<Rightarrow> Ok (1, FAIL_FRAME stmt f) | Some row \<Rightarrow> k row f)"

definition DMF1_update ::
    "(dmf_stmt, 'd) spi \<Rightarrow> dmf_stmt \<Rightarrow> datum list \<Rightarrow> (dmf_stmt, 'd) fctx \<Rightarrow> (int \<times> (dmf_stmt, 'd) fctx) outcome" where
  "DMF1_update spi stmt args f = obind (SPI_execute_plan spi stmt args False f) (\<lambda>(r, f).
     case r of SPI_OK_UPDATE n \<Rightarrow> Ok (0, f) | _ \<Rightarrow> Ok (1, FAIL_FRAME stmt f))"

definition DMF1_account_permission ::
    "(dmf_stmt, 'd) spi \<Rightarrow> int \<Rightarrow> (dmf_stmt, 'd) fctx \<Rightarrow> (int \<times> (dmf_stmt, 'd) fctx) outcome" where
  "DMF1_account_permission spi acct_id f =
     DMF1_query spi DMF1_1 [DInt64 acct_id] f (\<lambda>row f.
     obind (from_ptr (SPI_getvalue row 1)) (\<lambda>acl.
     DMF1_update spi DMF1_2 [DText (if acl \<noteq> ''1111'' then ''1111'' else ''0011''), DInt64 acct_id, DText acl] f))"

definition DMF1_address ::
    "(dmf_stmt, 'd) spi \<Rightarrow> int \<Rightarrow> int \<Rightarrow> (dmf_stmt, 'd) fctx \<Rightarrow> (int \<times> (dmf_stmt, 'd) fctx) outcome" where
  "DMF1_address spi cust_id comp_id f =
     DMF1_query spi (if cust_id \<noteq> 0 then DMF1_3a else DMF1_3b) [DInt64 (if cust_id \<noteq> 0 then cust_id else comp_id)] f (\<lambda>row f.
     let line2 = SPI_getvalue row 1 in
     obind (getvalue_atoll row 2) (\<lambda>addr_id.
     DMF1_update spi DMF1_4
       [DText (if line2 \<noteq> Some ''Apt. 10C'' then ''Apt. 10C'' else ''Apt. 22''), DInt64 addr_id] f))"

definition DMF1_company ::
    "(dmf_stmt, 'd) spi \<Rightarrow> int \<Rightarrow> (dmf_stmt, 'd) fctx \<Rightarrow> (int \<times> (dmf_stmt, 'd) fctx) outcome" where
  "DMF1_company spi comp_id f =
     DMF1_query spi DMF1_5 [DInt64 comp_id] f (\<lambda>row f.
     obind (from_ptr (SPI_getvalue row 1)) (\<lambda>sprate.
     DMF1_update spi DMF1_6 [DText (if sprate \<noteq> ''ABA'' then ''ABA'' else ''AAA''), DInt64 comp_id] f))"

definition DMF1_domain :: "string option \<Rightarrow> string" where
  "DMF1_domain email2 =
     (case email2 of
        None \<Rightarrow> ''mindspring.com''
      | Some e \<Rightarrow> if int (length e) - 15 > 0 \<and> strstr e ''@mindspring.com'' \<noteq> None then ''earthlink.com'' else ''mindspring.com'')"

definition DMF1_customer ::
    "(dmf_stmt, 'd) spi \<Rightarrow> int \<Rightarrow> (dmf_stmt, 'd) fctx \<Rightarrow> (int \<times> (dmf_stmt, 'd) fctx) outcome" where
  "DMF1_customer spi cust_id f =
     DMF1_query spi DMF1_7 [DInt64 cust_id] f (\<lambda>row f.
     DMF1_update spi DMF1_8 [DText (DMF1_domain (SPI_getvalue row 1)), DInt64 cust_id] f)"

text \<open>The next tax rate of the same country.  The third character of a text of two is its terminator.\<close>

definition char_at :: "string \<Rightarrow> nat \<Rightarrow> char" where
  "char_at s i = (if i < length s then s ! i else NUL)"

definition next_char :: "char \<Rightarrow> char" where
  "next_char c = char_of ((of_char c + 1) mod 256 :: nat)"

definition DMF1_next_rate :: "string \<Rightarrow> string" where
  "DMF1_next_rate old =
     (if take 2 old = ''US'' then
        (if char_at old 2 = CHR ''5'' then ''US1'' else c_str (''US'' @ [next_char (char_at old 2)]))
      else
        (if char_at old 2 = CHR ''4'' then ''CN1'' else c_str (''CN'' @ [next_char (char_at old 2)])))"

definition DMF1_customer_taxrate ::
    "(dmf_stmt, 'd) spi \<Rightarrow> int \<Rightarrow> (dmf_stmt, 'd) fctx \<Rightarrow> (int \<times> (dmf_stmt, 'd) fctx) outcome" where
  "DMF1_customer_taxrate spi cust_id f =
     DMF1_query spi DMF1_9 [DInt64 cust_id] f (\<lambda>row f.
     obind (from_ptr (SPI_getvalue row 1)) (\<lambda>old_tax_rate.
     DMF1_update spi DMF1_10 [DText (DMF1_next_rate old_tax_rate), DInt64 cust_id, DText old_tax_rate] f))"

definition DMF1_exchange ::
    "(dmf_stmt, 'd) spi \<Rightarrow> (dmf_stmt, 'd) fctx \<Rightarrow> (int \<times> (dmf_stmt, 'd) fctx) outcome" where
  "DMF1_exchange spi f =
     DMF1_query spi DMF1_12 [] f (\<lambda>row f.
     obind (getvalue_atoi row 1) (\<lambda>rowcount.
     DMF1_update spi (if rowcount = 0 then DMF1_13a else DMF1_13b) [] f))"

definition DMF1_financial ::
    "(dmf_stmt, 'd) spi \<Rightarrow> int \<Rightarrow> (dmf_stmt, 'd) fctx \<Rightarrow> (int \<times> (dmf_stmt, 'd) fctx) outcome" where
  "DMF1_financial spi comp_id f =
     DMF1_query spi DMF1_14 [DInt64 comp_id] f (\<lambda>row f.
     obind (getvalue_atoi row 1) (\<lambda>rowcount.
     DMF1_update spi (if 0 < rowcount then DMF1_15a else DMF1_15b) [DInt64 comp_id] f))"

definition DMF1_toggle_tax :: "string \<Rightarrow> string" where
  "DMF1_toggle_tax nm =
     (case strstr nm '' Tax '' of
        Some i \<Rightarrow> nm[i + 1 := CHR ''t'']
      | None \<Rightarrow> (case strstr nm '' tax '' of Some i \<Rightarrow> nm[i + 1 := CHR ''T''] | None \<Rightarrow> nm))"

definition DMF1_taxrate ::
    "(dmf_stmt, 'd) spi \<Rightarrow> string \<Rightarrow> (dmf_stmt, 'd) fctx \<Rightarrow> (int \<times> (dmf_stmt, 'd) fctx) outcome" where
  "DMF1_taxrate spi txid f =
     DMF1_query spi DMF1_18 [DText txid] f (\<lambda>row f.
     obind (from_ptr (SPI_getvalue row 1)) (\<lambda>nm.
     DMF1_update spi DMF1_19 [DText (DMF1_toggle_tax (copy_sizeof (TX_NAME_LEN + 1) nm)), DText txid] f))"

definition DMF1_watch_item ::
    "(dmf_stmt, 'd) spi \<Rightarrow> int \<Rightarrow> (dmf_stmt, 'd) fctx \<Rightarrow> (int \<times> (dmf_stmt, 'd) fctx) outcome" where
  "DMF1_watch_item spi cust_id f =
     DMF1_query spi DMF1_20 [DInt64 cust_id] f (\<lambda>row f.
     obind (getvalue_atoi row 1) (\<lambda>cnt.
     let cnt = i32 (i32 (cnt + 1) sdiv 2 - 1); cnt = (if cnt < 0 then 0 else cnt) in
     DMF1_query spi DMF1_21 [DInt64 cust_id, DInt16 (i16 cnt)] f (\<lambda>row f.
     obind (from_ptr (SPI_getvalue row 1)) (\<lambda>old_symbol.
     DMF1_query spi DMF1_22 [DText old_symbol, DInt64 cust_id] f (\<lambda>row f.
     obind (from_ptr (SPI_getvalue row 1)) (\<lambda>new_symbol.
     DMF1_update spi DMF1_23 [DText new_symbol, DInt64 cust_id, DText old_symbol] f))))))"

definition DataMaintenanceFrame1 ::
    "(dmf_stmt \<Rightarrow> bool) \<Rightarrow> (dmf_stmt, 'd) spi \<Rightarrow> int \<Rightarrow> int \<Rightarrow> int \<Rightarrow> int \<Rightarrow> string \<Rightarrow> string \<Rightarrow> string \<Rightarrow> int \<Rightarrow>
     (dmf_stmt, 'd) fctx \<Rightarrow> (int \<times> (dmf_stmt, 'd) fctx) outcome" where
  "DataMaintenanceFrame1 prepare spi acct_id cust_id comp_id day_of_month symbol_p table_name_p tx_id_p vol_incr f =
     (let symb = copy_len S_SYMB_LEN symbol_p; table_name = copy_len TABLE_NAME_LEN table_name_p;
          txid = copy_len TX_ID_LEN tx_id_p in
      obind (plan_queries prepare DMF1_statements f) (\<lambda>f.
      if table_name = ''ACCOUNT_PERMISSION'' then DMF1_account_permission spi acct_id f
      else if table_name = ''ADDRESS'' then DMF1_address spi cust_id comp_id f
      else if table_name = ''COMPANY'' then DMF1_company spi comp_id f
      else if table_name = ''CUSTOMER'' then DMF1_customer spi cust_id f
      else if table_name = ''CUSTOMER_TAXRATE'' then DMF1_customer_taxrate spi cust_id f
      else if table_name = ''DAILY_MARKET'' then
        DMF1_update spi DMF1_11 [DInt64 vol_incr, DText symb, DInt16 (i16 day_of_month)] f
      else if table_name = ''EXCHANGE'' then DMF1_exchange spi f
      else if table_name = ''FINANCIAL'' then DMF1_financial spi comp_id f
      else if table_name = ''NEWS_ITEM'' then DMF1_update spi DMF1_16 [DInt64 comp_id] f
      else if table_name = ''SECURITY'' then DMF1_update spi DMF1_17 [DText symb] f
      else if table_name = ''TAXRATE'' then DMF1_taxrate spi txid f
      else if table_name = ''WATCH_ITEM'' then DMF1_watch_item spi cust_id f
      else Ok (1, FAIL_FRAME DMF1_unknown_table f)))"

section \<open>Only the named table\<close>

text \<open>\<open>only_table nm d d'\<close>: of the tables of \<open>d\<close>, only the one called \<open>nm\<close> may be different in \<open>d'\<close>.\<close>

definition only_table :: "string \<Rightarrow> db \<Rightarrow> db \<Rightarrow> bool" where
  "only_table nm d d' \<longleftrightarrow>
     (if nm = ''ACCOUNT_PERMISSION'' then d' = d\<lparr>account_permission_tbl := account_permission_tbl d'\<rparr>
      else if nm = ''ADDRESS'' then d' = d\<lparr>address_tbl := address_tbl d'\<rparr>
      else if nm = ''COMPANY'' then d' = d\<lparr>company_tbl := company_tbl d'\<rparr>
      else if nm = ''CUSTOMER'' then d' = d\<lparr>customer_tbl := customer_tbl d'\<rparr>
      else if nm = ''CUSTOMER_TAXRATE'' then d' = d\<lparr>customer_taxrate_tbl := customer_taxrate_tbl d'\<rparr>
      else if nm = ''DAILY_MARKET'' then d' = d\<lparr>daily_market_tbl := daily_market_tbl d'\<rparr>
      else if nm = ''EXCHANGE'' then d' = d\<lparr>exchange_tbl := exchange_tbl d'\<rparr>
      else if nm = ''FINANCIAL'' then d' = d\<lparr>financial_tbl := financial_tbl d'\<rparr>
      else if nm = ''NEWS_ITEM'' then d' = d\<lparr>news_item_tbl := news_item_tbl d'\<rparr>
      else if nm = ''SECURITY'' then d' = d\<lparr>security_tbl := security_tbl d'\<rparr>
      else if nm = ''TAXRATE'' then d' = d\<lparr>taxrate_tbl := taxrate_tbl d'\<rparr>
      else if nm = ''WATCH_ITEM'' then d' = d\<lparr>watch_item_tbl := watch_item_tbl d'\<rparr>
      else False)"

text \<open>
  What a run of a branch may do: succeed with a change of the allowed kind and no warning, give
  up with one warning and no change, or be refused by the server.
\<close>

definition maintains :: "(db \<Rightarrow> db \<Rightarrow> bool) \<Rightarrow> (dmf_stmt, pgsession) fctx \<Rightarrow> (int \<times> (dmf_stmt, pgsession) fctx) outcome \<Rightarrow> bool" where
  "maintains T f m \<longleftrightarrow> (case m of
     Ok (st, f') \<Rightarrow> st = 0 \<and> warnings f' = warnings f \<and> T (db_of f) (db_of f')
       \<or> st = 1 \<and> (\<exists>s. warnings f' = warnings f @ [s]) \<and> db_of f' = db_of f
   | Fail e \<Rightarrow> e = Sql_Error)"

definition updates :: "(db \<Rightarrow> db \<Rightarrow> bool) \<Rightarrow> sql \<Rightarrow> bool" where
  "updates T q \<longleftrightarrow> (\<forall>d. q d = Fail Sql_Error \<or> (\<exists>n d'. q d = Ok (SPI_OK_UPDATE n, d') \<and> T d d'))"

definition queries :: "(spi_row \<Rightarrow> bool) \<Rightarrow> sql \<Rightarrow> bool" where
  "queries R q \<longleftrightarrow> (\<forall>d. q d = Fail Sql_Error \<or> (\<exists>rows. q d = Ok (SPI_OK_SELECT rows, d) \<and> (\<forall>row \<in> set rows. R row)))"

lemma maintains_update:
  assumes "stmt \<in> set (plans f)" "updates T (dmf_sql pg as stmt)"
  shows "maintains T f (DMF1_update (dmf_spi pg) stmt as f)"
proof -
  from assms(2) consider "dmf_sql pg as stmt (db_of f) = Fail Sql_Error"
    | n d' where "dmf_sql pg as stmt (db_of f) = Ok (SPI_OK_UPDATE n, d')" "T (db_of f) d'"
    unfolding updates_def by blast
  then show ?thesis
    by cases (simp_all add: DMF1_update_def maintains_def dmf.exec_write_eq [OF assms(1)] del: SPI_execute_plan_planned)
qed

lemma maintains_query:
  assumes "stmt \<in> set (plans f)" "queries R (dmf_sql pg as stmt)" "\<And>row. R row \<Longrightarrow> maintains T f (k row f)"
  shows "maintains T f (DMF1_query (dmf_spi pg) stmt as f k)"
proof -
  from assms(2) consider "dmf_sql pg as stmt (snap_of f) = Fail Sql_Error"
    | rows where "dmf_sql pg as stmt (snap_of f) = Ok (SPI_OK_SELECT rows, snap_of f)" "\<forall>row \<in> set rows. R row"
    unfolding queries_def by blast
  then show ?thesis
  proof cases
    case 1
    then show ?thesis
      by (simp add: DMF1_query_def first_row_def maintains_def dmf.exec_read_eq [OF assms(1)] del: SPI_execute_plan_planned)
  next
    case 2
    then show ?thesis
      using assms(3) by (cases rows) (simp_all add: DMF1_query_def dmf.first_row_eq [OF assms(1) 2(1)] maintains_def)
  qed
qed

text \<open>The rows the queries deliver have no nulls in the columns the branches read.\<close>

definition text_row :: "spi_row \<Rightarrow> bool" where
  "text_row row \<longleftrightarrow> (\<exists>s. SPI_getvalue row 1 = Some s)"

lemma dmf_queries:
  "queries text_row (dmf_sql pg [DInt64 ca] DMF1_1)" "queries text_row (dmf_sql pg [DInt64 co] DMF1_5)"
  "queries text_row (dmf_sql pg [DInt64 c] DMF1_9)" "queries text_row (dmf_sql pg [] DMF1_12)"
  "queries text_row (dmf_sql pg [DInt64 co] DMF1_14)" "queries text_row (dmf_sql pg [DText tx] DMF1_18)"
  "queries text_row (dmf_sql pg [DInt64 c] DMF1_20)" "queries text_row (dmf_sql pg [DInt64 c, DInt16 n] DMF1_21)"
  "queries text_row (dmf_sql pg [DText s, DInt64 c] DMF1_22)"
  by (auto simp: queries_def text_row_def dmf_sql_def sql_check_def SQLDMF1_1_def SQLDMF1_5_def SQLDMF1_9_def SQLDMF1_12_def
      SQLDMF1_14_def SQLDMF1_18_def SQLDMF1_20_def SQLDMF1_21_def SQLDMF1_22_def)

lemma dmf_queries_address:
  "queries (\<lambda>row. \<exists>s. SPI_getvalue row 2 = Some s) (dmf_sql pg [DInt64 x] (if b then DMF1_3a else DMF1_3b))"
  "queries (\<lambda>_. True) (dmf_sql pg [DInt64 c] DMF1_7)"
  by (auto simp: queries_def dmf_sql_def SQLDMF1_3a_def SQLDMF1_3b_def SQLDMF1_7_def)

lemma dmf_updates:
  "updates (only_table ''ACCOUNT_PERMISSION'') (dmf_sql pg [DText a, DInt64 x, DText b] DMF1_2)"
  "updates (only_table ''ADDRESS'') (dmf_sql pg [DText a, DInt64 x] DMF1_4)"
  "updates (only_table ''COMPANY'') (dmf_sql pg [DText a, DInt64 x] DMF1_6)"
  "updates (only_table ''CUSTOMER'') (dmf_sql pg [DText a, DInt64 x] DMF1_8)"
  "updates (only_table ''CUSTOMER_TAXRATE'') (dmf_sql pg [DText a, DInt64 x, DText b] DMF1_10)"
  "updates (only_table ''DAILY_MARKET'') (dmf_sql pg [DInt64 x, DText a, DInt16 n] DMF1_11)"
  "updates (only_table ''EXCHANGE'') (dmf_sql pg [] (if e then DMF1_13a else DMF1_13b))"
  "updates (only_table ''FINANCIAL'') (dmf_sql pg [DInt64 x] (if e then DMF1_15a else DMF1_15b))"
  "updates (only_table ''NEWS_ITEM'') (dmf_sql pg [DInt64 x] DMF1_16)"
  "updates (only_table ''SECURITY'') (dmf_sql pg [DText a] DMF1_17)"
  "updates (only_table ''TAXRATE'') (dmf_sql pg [DText a, DText b] DMF1_19)"
  "updates (only_table ''WATCH_ITEM'') (dmf_sql pg [DText a, DInt64 x, DText b] DMF1_23)"
  by (auto simp: updates_def only_table_def dmf_sql_def sql_check_def Let_def SQLDMF1_2_def SQLDMF1_4_def SQLDMF1_6_def
      SQLDMF1_8_def SQLDMF1_10_def SQLDMF1_11_def SQLDMF1_13a_def SQLDMF1_13b_def SQLDMF1_15a_def SQLDMF1_15b_def
      shift_quarters_def SQLDMF1_16_def SQLDMF1_17_def SQLDMF1_19_def SQLDMF1_23_def)

lemma plan_queries_Fail: "plan_queries prepare ss f = Fail e \<Longrightarrow> e = Sql_Error"
  by (induction ss arbitrary: f) (auto split: if_splits)

lemma planned_dm:
  assumes "set DMF1_statements \<subseteq> set (plans f)" "s \<noteq> DMF1_unknown_table"
  shows "s \<in> set (plans f)"
proof -
  have "s \<in> set DMF1_statements" using assms(2) by (cases s) (simp_all add: DMF1_statements_def)
  with assms(1) show ?thesis by blast
qed

lemma text_rowD: "text_row row \<Longrightarrow> (\<And>s. maintains T f (k s)) \<Longrightarrow> maintains T f (obind (from_ptr (SPI_getvalue row 1)) k)"
  by (auto simp: text_row_def)

lemma text_row_atoi: "text_row row \<Longrightarrow> (\<And>n. maintains T f (k n)) \<Longrightarrow> maintains T f (obind (getvalue_atoi row 1) k)"
  by (auto simp: text_row_def getvalue_atoi_def)

lemmas maintains_intros = maintains_query [OF _ dmf_queries(1)] maintains_query [OF _ dmf_queries(2)]
  maintains_query [OF _ dmf_queries(3)] maintains_query [OF _ dmf_queries(4)] maintains_query [OF _ dmf_queries(5)]
  maintains_query [OF _ dmf_queries(6)] maintains_query [OF _ dmf_queries(7)] maintains_query [OF _ dmf_queries(8)]
  maintains_query [OF _ dmf_queries(9)] maintains_query [OF _ dmf_queries_address(2)]
  maintains_update [OF _ dmf_updates(1)] maintains_update [OF _ dmf_updates(2)] maintains_update [OF _ dmf_updates(3)]
  maintains_update [OF _ dmf_updates(4)] maintains_update [OF _ dmf_updates(5)] maintains_update [OF _ dmf_updates(6)]
  maintains_update [OF _ dmf_updates(7)] maintains_update [OF _ dmf_updates(8)] maintains_update [OF _ dmf_updates(9)]
  maintains_update [OF _ dmf_updates(10)] maintains_update [OF _ dmf_updates(11)] maintains_update [OF _ dmf_updates(12)]
  text_rowD text_row_atoi

lemma branches_maintain:
  assumes p: "set DMF1_statements \<subseteq> set (plans f)"
  shows "maintains (only_table ''ACCOUNT_PERMISSION'') f (DMF1_account_permission (dmf_spi pg) x f)"
    "maintains (only_table ''ADDRESS'') f (DMF1_address (dmf_spi pg) x y f)"
    "maintains (only_table ''COMPANY'') f (DMF1_company (dmf_spi pg) x f)"
    "maintains (only_table ''CUSTOMER'') f (DMF1_customer (dmf_spi pg) x f)"
    "maintains (only_table ''CUSTOMER_TAXRATE'') f (DMF1_customer_taxrate (dmf_spi pg) x f)"
    "maintains (only_table ''EXCHANGE'') f (DMF1_exchange (dmf_spi pg) f)"
    "maintains (only_table ''FINANCIAL'') f (DMF1_financial (dmf_spi pg) x f)"
    "maintains (only_table ''TAXRATE'') f (DMF1_taxrate (dmf_spi pg) a f)"
    "maintains (only_table ''WATCH_ITEM'') f (DMF1_watch_item (dmf_spi pg) x f)"
proof -
  note pl = planned_dm [OF p]
  show "maintains (only_table ''ACCOUNT_PERMISSION'') f (DMF1_account_permission (dmf_spi pg) x f)"
    unfolding DMF1_account_permission_def by (intro maintains_intros pl) simp_all
  show "maintains (only_table ''ADDRESS'') f (DMF1_address (dmf_spi pg) x y f)"
    unfolding DMF1_address_def Let_def
    by (rule maintains_query [OF _ dmf_queries_address(1)])
      (auto simp: getvalue_atoll_def pl intro!: maintains_update [OF _ dmf_updates(2)])
  show "maintains (only_table ''COMPANY'') f (DMF1_company (dmf_spi pg) x f)"
    unfolding DMF1_company_def by (intro maintains_intros pl) simp_all
  show "maintains (only_table ''CUSTOMER'') f (DMF1_customer (dmf_spi pg) x f)"
    unfolding DMF1_customer_def by (intro maintains_intros pl) simp_all
  show "maintains (only_table ''CUSTOMER_TAXRATE'') f (DMF1_customer_taxrate (dmf_spi pg) x f)"
    unfolding DMF1_customer_taxrate_def by (intro maintains_intros pl) simp_all
  show "maintains (only_table ''EXCHANGE'') f (DMF1_exchange (dmf_spi pg) f)"
    unfolding DMF1_exchange_def by (intro maintains_intros pl) simp_all
  show "maintains (only_table ''FINANCIAL'') f (DMF1_financial (dmf_spi pg) x f)"
    unfolding DMF1_financial_def by (intro maintains_intros pl) simp_all
  show "maintains (only_table ''TAXRATE'') f (DMF1_taxrate (dmf_spi pg) a f)"
    unfolding DMF1_taxrate_def by (intro maintains_intros pl) simp_all
  show "maintains (only_table ''WATCH_ITEM'') f (DMF1_watch_item (dmf_spi pg) x f)"
    unfolding DMF1_watch_item_def Let_def by (intro maintains_intros pl) simp_all
qed

lemma maintains_if:
  "(b \<Longrightarrow> maintains T f m) \<Longrightarrow> (\<not> b \<Longrightarrow> maintains T f m') \<Longrightarrow> maintains T f (if b then m else m')"
  by simp

lemma maintains_unknown: "maintains T f (Ok (1, FAIL_FRAME s f))"
  by (simp add: maintains_def)

text \<open>
  C34. Data-Maintenance, on every database and for all arguments, does one of three things: it
  returns 0 without a warning, having changed at most the table it was asked to maintain; it
  returns 1 with exactly one warning, having changed nothing, as it does for an unknown table;
  or the server refuses a statement.  It never follows a null pointer.
\<close>

theorem data_maintenance_safe:
  "case DataMaintenanceFrame1 prepare (dmf_spi pg) acct cust co day symb tbl tx vol f of
     Ok (st, f') \<Rightarrow> st = 0 \<and> warnings f' = warnings f \<and> only_table (copy_len 18 tbl) (db_of f) (db_of f')
       \<or> st = 1 \<and> (\<exists>s. warnings f' = warnings f @ [s]) \<and> db_of f' = db_of f
   | Fail e \<Rightarrow> e = Sql_Error"
proof (cases "plan_queries prepare DMF1_statements f")
  case (Fail e)
  then have "e = Sql_Error" by (rule plan_queries_Fail)
  then show ?thesis using Fail by (simp add: DataMaintenanceFrame1_def Let_def)
next
  case (Ok g)
  then obtain ps where g: "g = f\<lparr>plans := ps\<rparr>" and pl: "set DMF1_statements \<subseteq> set (plans g)"
    using plan_queries_result by blast
  note pl' = planned_dm [OF pl]
  have "maintains (only_table (copy_len 18 tbl)) g (DataMaintenanceFrame1 prepare (dmf_spi pg) acct cust co day symb tbl tx vol f)"
    unfolding DataMaintenanceFrame1_def Let_def Ok obind.simps
    by (intro maintains_if) (simp_all add: branches_maintain [OF pl] maintains_update [OF pl' dmf_updates(6)]
        maintains_update [OF pl' dmf_updates(9)] maintains_update [OF pl' dmf_updates(10)] maintains_unknown)
  moreover have "warnings g = warnings f" "db_of g = db_of f" by (simp_all add: g)
  ultimately show ?thesis unfolding maintains_def by (simp only:)
qed

section \<open>Watch lists\<close>

text \<open>No symbol is watched twice: the keys of the two tables, and the items of each customer.\<close>

definition watch_ok :: "db \<Rightarrow> bool" where
  "watch_ok d \<longleftrightarrow> distinct (map wl_id (watch_list_tbl d)) \<and> distinct (map (\<lambda>r. (wi_wl_id r, wi_s_symb r)) (watch_item_tbl d))
     \<and> (\<forall>c. distinct (watch_symbols c d))"

text \<open>
  The item to replace, the middle one in the order of the symbols, and its replacement, the
  next symbol that the customer does not watch.
\<close>

definition watch_pick :: "int \<Rightarrow> db \<Rightarrow> (string \<times> string) option" where
  "watch_pick c d =
     (let ws = sort (watch_symbols c d); old = ws ! ((length ws + 1) div 2 - 1) in
      if ws = [] then None
      else case sort (filter (\<lambda>s. old < s \<and> s \<notin> set ws) (map s_symb (security_tbl d))) of
             [] \<Rightarrow> None | new # _ \<Rightarrow> Some (old, new))"

definition watch_replaced :: "int \<Rightarrow> string \<Rightarrow> string \<Rightarrow> db \<Rightarrow> watch_item_row list" where
  "watch_replaced c old new d =
     update_where (\<lambda>r. wi_s_symb r = old \<and> (\<exists>wl \<in> set (watch_list_tbl d). wl_c_id wl = c \<and> wi_wl_id r = wl_id wl))
       (\<lambda>r. r\<lparr>wi_s_symb := new\<rparr>) (watch_item_tbl d)"

lemma watch_pickD:
  assumes "watch_pick c d = Some (old, new)"
  shows "old \<in> set (watch_symbols c d)" "new \<notin> set (watch_symbols c d)" "old < new"
proof -
  let ?ws = "sort (watch_symbols c d)"
  let ?old = "?ws ! ((length ?ws + 1) div 2 - 1)"
  let ?new = "sort (filter (\<lambda>s. ?old < s \<and> s \<notin> set ?ws) (map s_symb (security_tbl d)))"
  from assms obtain rest where ne: "?ws \<noteq> []" and o: "old = ?old" and n: "?new = new # rest"
    by (auto simp: watch_pick_def Let_def split: if_splits list.splits)
  from ne have "(length ?ws + 1) div 2 - 1 < length ?ws" by (cases ?ws) auto
  then have "old \<in> set ?ws" unfolding o by (rule nth_mem)
  then show "old \<in> set (watch_symbols c d)" by simp
  have "new \<in> set ?new" unfolding n by simp
  then show "new \<notin> set (watch_symbols c d)" "old < new" by (simp_all add: o)
qed

lemma watch_item_member:
  "s \<in> set (watch_symbols c d) \<longleftrightarrow>
   (\<exists>r \<in> set (watch_item_tbl d). wi_s_symb r = s \<and> (\<exists>wl \<in> set (watch_list_tbl d). wl_c_id wl = c \<and> wi_wl_id r = wl_id wl))"
  by (auto simp: watch_symbols_def)

lemma concat_if: "concat (map (\<lambda>y. if P y then [g y] else []) ys) = map g (filter P ys)"
  by (induction ys) auto

lemma watch_symbols_replaced:
  assumes "watch_ok d"
  shows "watch_symbols c' (d\<lparr>watch_item_tbl := watch_replaced c old new d\<rparr>) =
    (if c' = c then map (\<lambda>s. if s = old then new else s) (watch_symbols c d) else watch_symbols c' d)"
proof -
  let ?p = "\<lambda>r. wi_s_symb r = old \<and> (\<exists>wl \<in> set (watch_list_tbl d). wl_c_id wl = c \<and> wi_wl_id r = wl_id wl)"
  let ?g = "\<lambda>r. if ?p r then r\<lparr>wi_s_symb := new\<rparr> else r"
  let ?sel = "\<lambda>c r. filter (\<lambda>wl. wl_c_id wl = c \<and> wi_wl_id r = wl_id wl) (watch_list_tbl d)"
  have eq: "watch_symbols c d = concat (map (\<lambda>r. map (\<lambda>_. wi_s_symb r) (?sel c r)) (watch_item_tbl d))" for c
    by (simp add: watch_symbols_def concat_if)
  have eq': "watch_symbols c' (d\<lparr>watch_item_tbl := watch_replaced c old new d\<rparr>) =
      concat (map (\<lambda>r. map (\<lambda>_. wi_s_symb (?g r)) (?sel c' r)) (watch_item_tbl d))"
    by (simp add: watch_symbols_def watch_replaced_def update_where_def comp_def concat_if if_distrib cong: if_cong)
  show ?thesis
  proof (cases "c' = c")
    case True
    have e: "map (\<lambda>_. wi_s_symb (?g r)) (?sel c r) = map (\<lambda>s. if s = old then new else s) (map (\<lambda>_. wi_s_symb r) (?sel c r))" for r
      by (auto simp: filter_empty_conv)
    have "watch_symbols c' (d\<lparr>watch_item_tbl := watch_replaced c old new d\<rparr>) = map (\<lambda>s. if s = old then new else s) (watch_symbols c d)"
      unfolding eq' [unfolded True] True e by (simp add: eq map_concat comp_def)
    with True show ?thesis by simp
  next
    case False
    have e: "map (\<lambda>_. wi_s_symb (?g r)) (?sel c' r) = map (\<lambda>_. wi_s_symb r) (?sel c' r)" for r
    proof (cases "?sel c' r = []")
      case True
      then show ?thesis by simp
    next
      case nonempty: False
      then obtain wl' where wl': "wl' \<in> set (watch_list_tbl d)" "wl_c_id wl' = c'" "wi_wl_id r = wl_id wl'"
        by (auto simp: filter_empty_conv)
      have "\<not> ?p r"
      proof
        assume "?p r"
        then obtain wl where wl: "wl \<in> set (watch_list_tbl d)" "wl_c_id wl = c" "wi_wl_id r = wl_id wl" by blast
        then have "wl = wl'" using wl' assms by (auto simp: watch_ok_def distinct_map dest: inj_onD)
        then show False using wl wl' False by simp
      qed
      then show ?thesis by (simp only: if_False)
    qed
    with False show ?thesis unfolding eq' e eq by simp
  qed
qed

lemma watch_replaced_keys:
  assumes "watch_ok d" "new \<notin> set (watch_symbols c d)"
  shows "distinct (map (\<lambda>r. (wi_wl_id r, wi_s_symb r)) (watch_replaced c old new d))"
proof -
  let ?p = "\<lambda>r. wi_s_symb r = old \<and> (\<exists>wl \<in> set (watch_list_tbl d). wl_c_id wl = c \<and> wi_wl_id r = wl_id wl)"
  let ?k = "\<lambda>r. (wi_wl_id r, wi_s_symb r)"
  let ?g = "\<lambda>r. if ?p r then r\<lparr>wi_s_symb := new\<rparr> else r"
  have dist: "distinct (watch_item_tbl d)" and inj: "inj_on ?k (set (watch_item_tbl d))"
    using assms(1) by (auto simp: watch_ok_def distinct_map)
  have "inj_on (\<lambda>r. ?k (?g r)) (set (watch_item_tbl d))"
  proof (rule inj_onI)
    fix r r'
    assume r: "r \<in> set (watch_item_tbl d)" "r' \<in> set (watch_item_tbl d)" and e: "?k (?g r) = ?k (?g r')"
    have no: "\<not> (wi_s_symb y = new \<and> ?p x \<and> wi_wl_id x = wi_wl_id y)" if "y \<in> set (watch_item_tbl d)" for x y
      using that assms(2) unfolding watch_item_member by metis
    have "?k r = ?k r'" using e no [OF r(1), of r'] no [OF r(2), of r] by (auto split: if_splits)
    then show "r = r'" using inj r by (auto dest: inj_onD)
  qed
  then show ?thesis using dist by (simp add: watch_replaced_def update_where_def distinct_map comp_def inj_on_def)
qed

lemma watch_ok_replaced:
  assumes "watch_ok d" "new \<notin> set (watch_symbols c d)"
  shows "watch_ok (d\<lparr>watch_item_tbl := watch_replaced c old new d\<rparr>)"
  using watch_replaced_keys [OF assms] assms
  by (auto simp: watch_ok_def watch_symbols_replaced [OF assms(1)] distinct_map intro!: inj_onI split: if_splits)

lemma watch_offset:
  assumes "n < 2 ^ 16"
  shows "(let cnt = i32 (i32 (int n + 1) sdiv 2 - 1) in i16 (if cnt < 0 then 0 else cnt)) = int ((n + 1) div 2 - 1)"
proof -
  have "i32 (int n + 1) = int n + 1" using assms by (simp add: in_i32_def)
  moreover have "int n < 65536" using assms by simp
  then have "in_i32 ((int n + 1) div 2 - 1)" unfolding in_i32_def by linarith
  ultimately have "i32 (i32 (int n + 1) sdiv 2 - 1) = (int n + 1) div 2 - 1" by (simp add: signed_divide_int_def)
  moreover have "i16 x = x" if "0 \<le> x" "x < 2 ^ 15" for x using that by (simp add: i16_def)
  ultimately show ?thesis using assms by (auto simp: Let_def zdiv_int)
qed

lemma DMF1_query_eq:
  "stmt \<in> set (plans f) \<Longrightarrow> dmf_sql pg as stmt (snap_of f) = Ok (SPI_OK_SELECT rows, d) \<Longrightarrow>
   DMF1_query (dmf_spi pg) stmt as f k = (case rows of [] \<Rightarrow> Ok (1, FAIL_FRAME stmt f) | row # _ \<Rightarrow> k row f)"
  by (cases rows) (simp_all add: DMF1_query_def dmf.first_row_eq)

lemma DMF1_update_eq:
  "stmt \<in> set (plans f) \<Longrightarrow> dmf_sql pg as stmt (db_of f) = Ok (SPI_OK_UPDATE n, d) \<Longrightarrow>
   DMF1_update (dmf_spi pg) stmt as f = Ok (0, set_db d f)"
  by (simp add: DMF1_update_def dmf.exec_write del: SPI_execute_plan_planned)

text \<open>The branch as the choice it makes, before the last update.\<close>

lemma watch_frame_choice:
  assumes pl: "set DMF1_statements \<subseteq> set (plans f)" and fresh: "snap_of f = db_of f"
    and n: "length (watch_symbols c (db_of f)) < 2 ^ 16"
  shows "\<exists>s. DMF1_watch_item (dmf_spi pg) c f =
    (case watch_pick c (db_of f) of
       None \<Rightarrow> Ok (1, FAIL_FRAME s f)
     | Some (old, new) \<Rightarrow> DMF1_update (dmf_spi pg) DMF1_23 [DText new, DInt64 c, DText old] f)"
proof -
  note pl = planned_dm [OF pl]
  let ?d = "db_of f"
  let ?n = "length (watch_symbols c ?d)" and ?ws = "sort (watch_symbols c ?d)"
  let ?k = "(?n + 1) div 2 - 1"
  let ?news = "\<lambda>old. sort (filter (\<lambda>s. old < s \<and> s \<notin> set (watch_symbols c ?d)) (map s_symb (security_tbl ?d)))"
  have off: "i16 (if i32 (i32 (int ?n + 1) sdiv 2 - 1) < 0 then 0 else i32 (i32 (int ?n + 1) sdiv 2 - 1)) = int ?k"
    using watch_offset [OF n] by (simp only: Let_def)
  have atoi: "atoi (show_int (int ?n)) = int ?n" using n by (simp add: in_i32_def)
  have sql: "dmf_sql pg [DInt64 c] DMF1_20 (snap_of f) = Ok (SPI_OK_SELECT [[int_txt (int ?n)]], ?d)"
    "dmf_sql pg [DInt64 c, DInt16 (int ?k)] DMF1_21 (snap_of f) = Ok (SPI_OK_SELECT (map (\<lambda>s. [Some s]) (take 1 (drop ?k ?ws))), ?d)"
    "dmf_sql pg [DText old, DInt64 c] DMF1_22 (snap_of f) = Ok (SPI_OK_SELECT (map (\<lambda>s. [Some s]) (take 1 (?news old))), ?d)" for old
    by (simp_all add: dmf_sql_def SQLDMF1_20_def SQLDMF1_21_def SQLDMF1_22_def fresh)
  have g1: "SPI_getvalue (v # r) 1 = v" for v r by simp
  have step: "DMF1_watch_item (dmf_spi pg) c f =
      (case take 1 (drop ?k ?ws) of [] \<Rightarrow> Ok (1, FAIL_FRAME DMF1_21 f)
       | old # _ \<Rightarrow> (case take 1 (?news old) of [] \<Rightarrow> Ok (1, FAIL_FRAME DMF1_22 f)
         | new # _ \<Rightarrow> DMF1_update (dmf_spi pg) DMF1_23 [DText new, DInt64 c, DText old] f))"
    (is "_ = (case ?olds of [] \<Rightarrow> _ | old # _ \<Rightarrow> ?inner old)")
  proof -
    have inner: "DMF1_query (dmf_spi pg) DMF1_22 [DText old, DInt64 c] f (\<lambda>row f. obind (from_ptr (SPI_getvalue row 1))
        (\<lambda>new. DMF1_update (dmf_spi pg) DMF1_23 [DText new, DInt64 c, DText old] f)) = ?inner old" for old
      by (cases "take 1 (?news old)") (simp_all only: DMF1_query_eq [OF pl sql(3)] list.map list.case g1 from_ptr.simps obind.simps dmf_stmt.distinct not_False_eq_True)
    show ?thesis
      unfolding DMF1_watch_item_def
      by (cases ?olds) (simp_all only: DMF1_query_eq [OF pl sql(1)] DMF1_query_eq [OF pl sql(2)] getvalue_atoi_def atoi Let_def off
          inner list.map list.case g1 from_ptr.simps obind.simps dmf_stmt.distinct not_False_eq_True)
  qed
  show ?thesis
  proof (cases "?ws = []")
    case True
    then show ?thesis unfolding step by (intro exI [of _ DMF1_21]) (simp add: watch_pick_def)
  next
    case False
    then have "0 < ?n" by (metis length_greater_0_conv length_sort)
    then have "?k < ?n" by linarith
    then have "?k < length ?ws" by (simp only: length_sort)
    then have one: "take 1 (drop ?k ?ws) = [?ws ! ?k]" by (simp add: Cons_nth_drop_Suc [symmetric])
    show ?thesis
      unfolding step one using False
      by (intro exI [of _ DMF1_22]) (auto simp: watch_pick_def Let_def split: list.split)
  qed
qed

lemma watch_frame_runs:
  assumes pl: "set DMF1_statements \<subseteq> set (plans f)" and fresh: "snap_of f = db_of f"
    and ok: "watch_ok (db_of f)" "length (watch_symbols c (db_of f)) < 2 ^ 16"
  shows "\<exists>s. DMF1_watch_item (dmf_spi pg) c f =
    (case watch_pick c (db_of f) of
       None \<Rightarrow> Ok (1, FAIL_FRAME s f)
     | Some (old, new) \<Rightarrow> Ok (0, set_db ((db_of f)\<lparr>watch_item_tbl := watch_replaced c old new (db_of f)\<rparr>) f))"
proof -
  note pl' = planned_dm [OF pl]
  have "DMF1_update (dmf_spi pg) DMF1_23 [DText new, DInt64 c, DText old] f =
      Ok (0, set_db ((db_of f)\<lparr>watch_item_tbl := watch_replaced c old new (db_of f)\<rparr>) f)"
    if "watch_pick c (db_of f) = Some (old, new)" for old new
  proof -
    have "distinct (map (\<lambda>r. (wi_wl_id r, wi_s_symb r)) (watch_replaced c old new (db_of f)))"
      using watch_replaced_keys [OF ok(1) watch_pickD(2) [OF that]] .
    then have "\<exists>n. dmf_sql pg [DText new, DInt64 c, DText old] DMF1_23 (db_of f) =
        Ok (SPI_OK_UPDATE n, (db_of f)\<lparr>watch_item_tbl := watch_replaced c old new (db_of f)\<rparr>)"
      by (simp add: dmf_sql_def SQLDMF1_23_def Let_def watch_replaced_def)
    then show ?thesis using DMF1_update_eq [OF pl'] by fastforce
  qed
  then show ?thesis
    using watch_frame_choice [OF pl fresh ok(2), of pg] by (auto split: option.split)
qed

text \<open>
  C35. Maintaining \<open>WATCH_ITEM\<close> keeps the watch lists free of duplicates.  The frame replaces the
  middle item of the customer by the next symbol that the customer does not watch yet;
  nothing else of the customer's list and no other customer's list changes, and the insertion
  never collides with a key.  If there is no item or no such symbol it reports that and
  changes nothing.
\<close>

theorem data_maintenance_watch:
  assumes "\<And>s. s \<in> set DMF1_statements \<Longrightarrow> prepare s" "snap_of f = db_of f"
    and "watch_ok (db_of f)" "length (watch_symbols cust (db_of f)) < 2 ^ 16"
  shows "\<exists>st f'. DataMaintenanceFrame1 prepare (dmf_spi pg) acct cust co day symb ''WATCH_ITEM'' tx vol f = Ok (st, f')
    \<and> watch_ok (db_of f')
    \<and> (case watch_pick cust (db_of f) of
         None \<Rightarrow> st = 1 \<and> db_of f' = db_of f
       | Some (old, new) \<Rightarrow> st = 0 \<and> old < new \<and> new \<notin> set (watch_symbols cust (db_of f))
           \<and> watch_symbols cust (db_of f') = map (\<lambda>s. if s = old then new else s) (watch_symbols cust (db_of f))
           \<and> (\<forall>c. c \<noteq> cust \<longrightarrow> watch_symbols c (db_of f') = watch_symbols c (db_of f)))"
proof -
  obtain ps where ps: "plan_queries prepare DMF1_statements f = Ok (f\<lparr>plans := ps\<rparr>)" "set DMF1_statements \<subseteq> set ps"
    using planned [of DMF1_statements prepare f, OF assms(1)] by auto
  have "copy_len 18 ''WATCH_ITEM'' = ''WATCH_ITEM''" by (simp add: is_cstr_def)
  then have run: "DataMaintenanceFrame1 prepare (dmf_spi pg) acct cust co day symb ''WATCH_ITEM'' tx vol f =
      DMF1_watch_item (dmf_spi pg) cust (f\<lparr>plans := ps\<rparr>)"
    by (simp add: DataMaintenanceFrame1_def ps(1) Let_def)
  have "set DMF1_statements \<subseteq> set (plans (f\<lparr>plans := ps\<rparr>))" using ps(2) by simp
  from watch_frame_runs [OF this, unfolded ctx_update_simps, OF assms(2-4)]
  obtain s where "DMF1_watch_item (dmf_spi pg) cust (f\<lparr>plans := ps\<rparr>) =
      (case watch_pick cust (db_of f) of
         None \<Rightarrow> Ok (1, FAIL_FRAME s (f\<lparr>plans := ps\<rparr>))
       | Some (old, new) \<Rightarrow> Ok (0, set_db ((db_of f)\<lparr>watch_item_tbl := watch_replaced cust old new (db_of f)\<rparr>) (f\<lparr>plans := ps\<rparr>)))"
    by blast
  then show ?thesis
    using assms(3) watch_pickD [of cust "db_of f"]
    by (cases "watch_pick cust (db_of f)")
      (auto simp: run watch_ok_replaced watch_symbols_replaced)
qed

section \<open>Quarters\<close>

lemma financial_frame_runs:
  assumes pl: "set DMF1_statements \<subseteq> set (plans f)" and fresh: "snap_of f = db_of f"
    and n: "length (financial_tbl (db_of f)) < 2 ^ 31"
  shows "\<exists>d. shift_quarters (if \<exists>r \<in> set (financial_tbl (db_of f)). fi_co_id r = co \<and> day_of pg (fi_qtr_start_date r) = 1 then 1 else - 1)
      co (db_of f) = Ok d \<and> DMF1_financial (dmf_spi pg) co f = Ok (0, set_db (snd d) f)"
proof -
  note pl = planned_dm [OF pl]
  let ?p = "\<lambda>r. fi_co_id r = co \<and> day_of pg (fi_qtr_start_date r) = 1"
  let ?n = "length (filter ?p (financial_tbl (db_of f)))"
  have "?n < 2 ^ 31" using length_filter_le n by (rule le_less_trans)
  then have "in_i32 (int ?n)" by (simp add: in_i32_def)
  then have atoi: "atoi (show_int (int ?n)) = int ?n" by simp
  have sql: "dmf_sql pg [DInt64 co] DMF1_14 (snap_of f) = Ok (SPI_OK_SELECT [[int_txt (int ?n)]], db_of f)"
    by (simp add: dmf_sql_def SQLDMF1_14_def fresh)
  have pos: "0 < int ?n \<longleftrightarrow> (\<exists>r \<in> set (financial_tbl (db_of f)). ?p r)" by (auto simp: filter_empty_conv)
  let ?stmt = "if 0 < int ?n then DMF1_15a else DMF1_15b" and ?k = "if 0 < int ?n then 1 else - 1 :: int"
  have up: "dmf_sql pg [DInt64 co] ?stmt (db_of f) = shift_quarters ?k co (db_of f)"
    by (simp add: dmf_sql_def SQLDMF1_15a_def SQLDMF1_15b_def)
  obtain m d' where s: "shift_quarters ?k co (db_of f) = Ok (SPI_OK_UPDATE m, d')" by (simp add: shift_quarters_def Let_def)
  have "DMF1_financial (dmf_spi pg) co f = Ok (0, set_db d' f)"
    unfolding DMF1_financial_def
    by (simp add: DMF1_query_eq [OF pl sql] getvalue_atoi_def atoi DMF1_update_eq [OF pl up [unfolded s]] del: of_nat_0_less_iff)
  then show ?thesis using s by (simp only: pos) simp
qed

text \<open>
  C36. Maintaining \<open>FINANCIAL\<close> twice restores the table.  When all quarters of the company start
  on the first day of a month, the first call moves them to the second and the next call
  moves them back; no other company's rows and no other table change in between.
\<close>

theorem data_maintenance_financial:
  assumes "\<And>s. s \<in> set DMF1_statements \<Longrightarrow> prepare s" "snap_of f = db_of f"
    and "length (financial_tbl (db_of f)) < 2 ^ 31"
    and "\<exists>r \<in> set (financial_tbl (db_of f)). fi_co_id r = co"
    and "\<forall>r \<in> set (financial_tbl (db_of f)). fi_co_id r = co \<longrightarrow>
      day_of pg (fi_qtr_start_date r) = 1 \<and> day_of pg (fi_qtr_start_date r + 1) \<noteq> 1"
  shows "\<exists>f1 f2. DataMaintenanceFrame1 prepare (dmf_spi pg) acct cust co day symb ''FINANCIAL'' tx vol f = Ok (0, f1)
    \<and> financial_tbl (db_of f1) = update_where (\<lambda>r. fi_co_id r = co) (\<lambda>r. r\<lparr>fi_qtr_start_date := fi_qtr_start_date r + 1\<rparr>)
        (financial_tbl (db_of f))
    \<and> DataMaintenanceFrame1 prepare (dmf_spi pg) acct cust co day symb ''FINANCIAL'' tx vol
        (f1\<lparr>session := start_call (db_of f1)\<rparr>) = Ok (0, f2)
    \<and> db_of f2 = db_of f"
proof -
  let ?p = "\<lambda>r. fi_co_id r = co" and ?up = "\<lambda>k r. r\<lparr>fi_qtr_start_date := fi_qtr_start_date r + k\<rparr>"
  have run: "\<exists>f'. DataMaintenanceFrame1 prepare (dmf_spi pg) acct cust co day symb ''FINANCIAL'' tx vol f = Ok (0, f')
      \<and> db_of f' = (db_of f)\<lparr>financial_tbl := update_where ?p
          (?up (if \<exists>r \<in> set (financial_tbl (db_of f)). ?p r \<and> day_of pg (fi_qtr_start_date r) = 1 then 1 else - 1))
          (financial_tbl (db_of f))\<rparr>"
    if a: "snap_of f = db_of f" "length (financial_tbl (db_of f)) < 2 ^ 31" for f
  proof -
    obtain ps where ps: "plan_queries prepare DMF1_statements f = Ok (f\<lparr>plans := ps\<rparr>)" "set DMF1_statements \<subseteq> set ps"
      using planned [of DMF1_statements prepare f, OF assms(1)] by auto
    have "copy_len 18 ''FINANCIAL'' = ''FINANCIAL''" by (simp add: is_cstr_def)
    then have "DataMaintenanceFrame1 prepare (dmf_spi pg) acct cust co day symb ''FINANCIAL'' tx vol f =
        DMF1_financial (dmf_spi pg) co (f\<lparr>plans := ps\<rparr>)"
      by (simp add: DataMaintenanceFrame1_def ps(1) Let_def)
    moreover have "set DMF1_statements \<subseteq> set (plans (f\<lparr>plans := ps\<rparr>))" using ps(2) by simp
    ultimately show ?thesis
      using financial_frame_runs [of "f\<lparr>plans := ps\<rparr>" co pg] a
      by (auto simp: shift_quarters_def Let_def)
  qed
  have first: "(\<exists>r \<in> set (financial_tbl (db_of f)). ?p r \<and> day_of pg (fi_qtr_start_date r) = 1) = True"
    using assms(4,5) by blast
  from run [OF assms(2,3), unfolded first if_True] obtain f1 where f1: "DataMaintenanceFrame1 prepare (dmf_spi pg) acct cust co day symb ''FINANCIAL'' tx vol f = Ok (0, f1)"
    "db_of f1 = (db_of f)\<lparr>financial_tbl := update_where ?p (?up 1) (financial_tbl (db_of f))\<rparr>"
    by blast
  let ?g = "f1\<lparr>session := start_call (db_of f1)\<rparr>"
  have g: "snap_of ?g = db_of f1" "db_of ?g = db_of f1" by (simp_all add: snap_of_def db_of_def)
  have second: "(\<exists>r \<in> set (financial_tbl (db_of f1)). ?p r \<and> day_of pg (fi_qtr_start_date r) = 1) = False"
  proof -
    have ft: "financial_tbl (db_of f1) = map (\<lambda>r. if ?p r then ?up 1 r else r) (financial_tbl (db_of f))"
      unfolding f1(2) by (simp add: update_where_def)
    have "\<not> (?p r \<and> day_of pg (fi_qtr_start_date r) = 1)" if "r \<in> set (financial_tbl (db_of f1))" for r
    proof -
      from that obtain q where q: "q \<in> set (financial_tbl (db_of f))" "r = (if ?p q then ?up 1 q else q)"
        unfolding ft set_map by blast
      then show ?thesis using assms(5) by (cases "?p q") simp_all
    qed
    then show ?thesis by blast
  qed
  have "snap_of ?g = db_of ?g" "length (financial_tbl (db_of ?g)) < 2 ^ 31" using assms(3) by (simp_all only: g) (simp add: f1(2))
  from run [OF this, unfolded g second if_False] obtain f2 where f2: "DataMaintenanceFrame1 prepare (dmf_spi pg) acct cust co day symb ''FINANCIAL'' tx vol ?g = Ok (0, f2)"
    "db_of f2 = (db_of f1)\<lparr>financial_tbl := update_where ?p (?up (- 1)) (financial_tbl (db_of f1))\<rparr>"
    by blast
  have "update_where ?p (?up (- 1)) (update_where ?p (?up 1) rs) = rs" for rs :: "financial_row list"
    by (induction rs) simp_all
  then have "db_of f2 = db_of f" by (simp add: f2(2) f1(2))
  with f1 f2 show ?thesis by auto
qed

section \<open>Witnesses\<close>

definition sample_quarter :: financial_row where
  "sample_quarter = \<lparr>fi_co_id = 8, fi_year = 2010, fi_qtr = 1, fi_qtr_start_date = 30, fi_revenue = 0, fi_net_earn = 0,
     fi_basic_eps = 0, fi_dilut_eps = 0, fi_margin = 0, fi_inventory = 0, fi_assets = 0, fi_liability = 0, fi_out_basic = 0,
     fi_out_dilut = 0\<rparr>"

definition dm_db :: db where
  "dm_db = sample_db\<lparr>financial_tbl := [sample_quarter], watch_list_tbl := [\<lparr>wl_id = 4, wl_c_id = 3\<rparr>],
     watch_item_tbl := [\<lparr>wi_wl_id = 4, wi_s_symb = ''AA''\<rparr>]\<rparr>"

definition dm_ctx :: "(dmf_stmt, pgsession) fctx" where
  "dm_ctx = \<lparr>session = start_call dm_db, plans = [], warnings = [], max_calls = 0\<rparr>"

lemma dm_ctx_simps: "db_of dm_ctx = dm_db" "snap_of dm_ctx = dm_db"
  by (simp_all add: dm_ctx_def db_of_def snap_of_def)

theorem data_maintenance_watch_witness:
  "\<exists>f'. DataMaintenanceFrame1 (\<lambda>_. True) (dmf_spi sample_pg) 0 3 0 0 [] ''WATCH_ITEM'' [] 0 dm_ctx = Ok (0, f')
    \<and> watch_symbols 3 (db_of f') = [''AB'']"
proof -
  have d: "watch_symbols c dm_db = (if c = 3 then [''AA''] else [])" for c
    by (simp add: dm_db_def watch_symbols_def)
  have "watch_ok dm_db" unfolding watch_ok_def by (simp add: d) (simp add: dm_db_def)
  moreover have "watch_pick 3 dm_db = Some (''AA'', ''AB'')"
    by (simp add: watch_pick_def d) (simp add: dm_db_def sample_security_def less_char_def)
  ultimately show ?thesis
    using data_maintenance_watch [of "\<lambda>_. True" dm_ctx 3 sample_pg 0 0 0 "[]" "[]" 0] by (auto simp: dm_ctx_simps d)
qed

theorem data_maintenance_financial_witness:
  "\<exists>f1 f2. DataMaintenanceFrame1 (\<lambda>_. True) (dmf_spi sample_pg) 0 0 8 0 [] ''FINANCIAL'' [] 0 dm_ctx = Ok (0, f1)
    \<and> financial_tbl (db_of f1) = [sample_quarter\<lparr>fi_qtr_start_date := 31\<rparr>]
    \<and> DataMaintenanceFrame1 (\<lambda>_. True) (dmf_spi sample_pg) 0 0 8 0 [] ''FINANCIAL'' [] 0
        (f1\<lparr>session := start_call (db_of f1)\<rparr>) = Ok (0, f2)
    \<and> db_of f2 = dm_db"
proof -
  have d: "financial_tbl dm_db = [sample_quarter]" by (simp add: dm_db_def)
  show ?thesis
    using data_maintenance_financial [of "\<lambda>_. True" dm_ctx 8 sample_pg 0 0 0 "[]" "[]" 0]
    by (simp add: dm_ctx_simps d) (simp add: sample_quarter_def)
qed

end
