(* ===== verification/CustomerPosition.thy ===== *)
theory CustomerPosition
  imports ArrayBuf Settlement
begin

text \<open>
  The Customer-Position transaction, \<^verbatim>\<open>storedproc/pgsql/c/customer_position.c\<close>.  Frame 1 finds a
  customer by identifier or by tax identifier and reports the assets of up to ten accounts;
  frame 2 reports the history of the ten most recent trades of an account.
\<close>

section \<open>SQL statements\<close>

text \<open>
  The other constructors stand for the texts of the warnings: about the buffers (one per
  buffer, whatever its wording) and about the number of rows of the last query.
\<close>

datatype cpf_stmt = CPF1_1 | CPF1_2 | CPF1_3 | CPF2_1
  | CPF1_acct_id_small | CPF1_cash_bal_small | CPF1_asset_total_small
  | CPF2_hist_dts_small | CPF2_qty_small | CPF2_symbol_small | CPF2_trade_id_small | CPF2_trade_status_small
  | CPF2_should_return_rows

definition CPF1_statements :: "cpf_stmt list" where
  "CPF1_statements = [CPF1_1, CPF1_2, CPF1_3]"

definition CPF2_statements :: "cpf_stmt list" where
  "CPF2_statements = [CPF2_1]"

definition SQLCPF1_1 :: "string \<Rightarrow> sql" where
  "SQLCPF1_1 tax_id d = sql_select (map (\<lambda>c. [int_txt (c_id c)]) (filter (\<lambda>c. c_tax_id c = tax_id) (customer_tbl d))) d"

definition cp_values :: "pgapi \<Rightarrow> customer_row \<Rightarrow> spi_row" where
  "cp_values pg c = [Some (c_st_id c), Some (c_l_name c), Some (c_f_name c), c_m_name c, c_gndr c, int_txt (c_tier c),
     Some (date_out pg (c_dob c)), int_txt (c_ad_id c),
     c_ctry_1 c, c_area_1 c, c_local_1 c, c_ext_1 c, c_ctry_2 c, c_area_2 c, c_local_2 c, c_ext_2 c,
     c_ctry_3 c, c_area_3 c, c_local_3 c, c_ext_3 c, c_email_1 c, c_email_2 c]"

definition SQLCPF1_2 :: "pgapi \<Rightarrow> int \<Rightarrow> sql" where
  "SQLCPF1_2 pg cust d = sql_select (map (cp_values pg) (filter (\<lambda>c. c_id c = cust) (customer_tbl d))) d"

text \<open>
  The condition \<open>lt_s_symb = hs_s_symb\<close> drops the rows the outer join adds for accounts without
  holdings, so every product is there and \<open>coalesce\<close> has nothing to replace.  A total is in
  cents, as the price is.
\<close>

type_synonym account_total = "(int \<times> int) \<times> int"

definition cp_join :: "int \<Rightarrow> db \<Rightarrow> account_total list" where
  "cp_join cust d = [((ca_id a, ca_bal a), hs_qty h * lt_price l).
     a \<leftarrow> customer_account_tbl d, h \<leftarrow> holding_summary_tbl d, l \<leftarrow> last_trade_tbl d,
     hs_ca_id h = ca_id a \<and> ca_c_id a = cust \<and> lt_s_symb l = hs_s_symb h]"

definition cp_totals :: "int \<Rightarrow> db \<Rightarrow> account_total list" where
  "cp_totals cust d = take 10 (order_asc snd (group_sum (cp_join cust d)))"

fun total_values :: "account_total \<Rightarrow> string list" where
  "total_values ((ca, bal), v) = [show_int ca, numeric_out 2 bal, numeric_out 2 v]"

definition SQLCPF1_3 :: "int \<Rightarrow> sql" where
  "SQLCPF1_3 cust d = sql_select (map (map Some) (map total_values (cp_totals cust d))) d"

type_synonym event = "trade_row \<times> trade_history_row \<times> status_type_row"

definition cp_recent :: "int \<Rightarrow> db \<Rightarrow> trade_row list" where
  "cp_recent acct d = take 10 (order_desc t_dts (filter (\<lambda>t. t_ca_id t = acct) (trade_tbl d)))"

definition cp_events :: "int \<Rightarrow> db \<Rightarrow> event list" where
  "cp_events acct d = [(t, th, st). r \<leftarrow> cp_recent acct d, t \<leftarrow> trade_tbl d, th \<leftarrow> trade_history_tbl d,
     st \<leftarrow> status_type_tbl d, t_id t = t_id r \<and> th_t_id th = t_id t \<and> st_id st = th_st_id th]"

definition cp_history :: "int \<Rightarrow> db \<Rightarrow> event list" where
  "cp_history acct d = take 30 (order_desc (\<lambda>(t, th, st). th_dts th) (cp_events acct d))"

fun event_values :: "pgapi \<Rightarrow> event \<Rightarrow> string list" where
  "event_values pg (t, th, st) =
     [show_int (t_id t), t_s_symb t, show_int (t_qty t), st_name st, timestamp_out pg (th_dts th)]"

definition SQLCPF2_1 :: "pgapi \<Rightarrow> int \<Rightarrow> sql" where
  "SQLCPF2_1 pg acct d = sql_select (map (map Some) (map (event_values pg) (cp_history acct d))) d"

definition cpf_sql :: "pgapi \<Rightarrow> datum list \<Rightarrow> cpf_stmt \<Rightarrow> sql" where
  "cpf_sql pg as stmt =
     (case (stmt, as) of
        (CPF1_1, [DText tax_id]) \<Rightarrow> SQLCPF1_1 tax_id
      | (CPF1_2, [DInt64 cust]) \<Rightarrow> SQLCPF1_2 pg cust
      | (CPF1_3, [DInt64 cust]) \<Rightarrow> SQLCPF1_3 cust
      | (CPF2_1, [DInt64 acct]) \<Rightarrow> SQLCPF2_1 pg acct
      | _ \<Rightarrow> (\<lambda>d. Fail Sql_Error))"

definition cpf_spi :: "pgapi \<Rightarrow> (cpf_stmt, pgsession) spi" where
  "cpf_spi pg stmt as read_only s = run_sql (cpf_sql pg as stmt) read_only s"

interpretation cpf: sql_provider "cpf_spi pg" "cpf_sql pg" for pg
  by unfold_locales (simp add: cpf_spi_def)

section \<open>Frame 1\<close>

datatype cpf1 = cpf1_cust_id | cpf1_acct_id | cpf1_acct_len | cpf1_asset_total | cpf1_c_ad_id
  | cpf1_c_area_1 | cpf1_c_area_2 | cpf1_c_area_3 | cpf1_c_ctry_1 | cpf1_c_ctry_2 | cpf1_c_ctry_3
  | cpf1_c_dob | cpf1_c_email_1 | cpf1_c_email_2 | cpf1_c_ext_1 | cpf1_c_ext_2 | cpf1_c_ext_3
  | cpf1_c_f_name | cpf1_c_gndr | cpf1_c_l_name | cpf1_c_local_1 | cpf1_c_local_2 | cpf1_c_local_3
  | cpf1_c_m_name | cpf1_c_st_id | cpf1_c_tier | cpf1_cash_bal

definition cpf1_order :: "cpf1 list" where
  "cpf1_order = [cpf1_cust_id, cpf1_acct_id, cpf1_acct_len, cpf1_asset_total, cpf1_c_ad_id,
     cpf1_c_area_1, cpf1_c_area_2, cpf1_c_area_3, cpf1_c_ctry_1, cpf1_c_ctry_2, cpf1_c_ctry_3,
     cpf1_c_dob, cpf1_c_email_1, cpf1_c_email_2, cpf1_c_ext_1, cpf1_c_ext_2, cpf1_c_ext_3,
     cpf1_c_f_name, cpf1_c_gndr, cpf1_c_l_name, cpf1_c_local_1, cpf1_c_local_2, cpf1_c_local_3,
     cpf1_c_m_name, cpf1_c_st_id, cpf1_c_tier, cpf1_cash_bal]"

text \<open>The identifier of the customer, looked up by the tax identifier if it is 0.\<close>

definition CPF1_cust_id ::
    "(cpf_stmt, 'd) spi \<Rightarrow> int \<Rightarrow> string \<Rightarrow> (cpf_stmt, 'd) fctx \<Rightarrow> (int option \<times> (cpf_stmt, 'd) fctx) outcome" where
  "CPF1_cust_id spi cust_id tax_id f =
     (if cust_id = 0 then
        obind (first_row spi CPF1_1 [DText tax_id] f) (\<lambda>(r, f).
        case r of
          Some row \<Rightarrow> obind (getvalue_atoll row 1) (\<lambda>n. Ok (Some n, f))
        | None \<Rightarrow> Ok (None, f))
      else Ok (Some cust_id, f))"

text \<open>The columns of the customer in the order of the query.\<close>

definition CPF1_customer :: "spi_row \<Rightarrow> (cpf1 \<Rightarrow> slot) \<Rightarrow> (cpf1 \<Rightarrow> slot)" where
  "CPF1_customer row vals = vals(
     cpf1_c_st_id := Ptr (SPI_getvalue row 1), cpf1_c_l_name := Ptr (SPI_getvalue row 2),
     cpf1_c_f_name := Ptr (SPI_getvalue row 3), cpf1_c_m_name := Ptr (SPI_getvalue row 4),
     cpf1_c_gndr := Ptr (SPI_getvalue row 5), cpf1_c_tier := Ptr (SPI_getvalue row 6),
     cpf1_c_dob := Ptr (SPI_getvalue row 7), cpf1_c_ad_id := Ptr (SPI_getvalue row 8),
     cpf1_c_ctry_1 := Ptr (SPI_getvalue row 9), cpf1_c_area_1 := Ptr (SPI_getvalue row 10),
     cpf1_c_local_1 := Ptr (SPI_getvalue row 11), cpf1_c_ext_1 := Ptr (SPI_getvalue row 12),
     cpf1_c_ctry_2 := Ptr (SPI_getvalue row 13), cpf1_c_area_2 := Ptr (SPI_getvalue row 14),
     cpf1_c_local_2 := Ptr (SPI_getvalue row 15), cpf1_c_ext_2 := Ptr (SPI_getvalue row 16),
     cpf1_c_ctry_3 := Ptr (SPI_getvalue row 17), cpf1_c_area_3 := Ptr (SPI_getvalue row 18),
     cpf1_c_local_3 := Ptr (SPI_getvalue row 19), cpf1_c_ext_3 := Ptr (SPI_getvalue row 20),
     cpf1_c_email_1 := Ptr (SPI_getvalue row 21), cpf1_c_email_2 := Ptr (SPI_getvalue row 22))"

definition CPF1_arrays ::
    "spi_row list \<Rightarrow> (cpf_stmt, 'd) fctx \<Rightarrow> (string list \<times> (cpf_stmt, 'd) fctx) outcome" where
  "CPF1_arrays rows f =
     (let n = int (length rows) in
      build_columns [CPF1_acct_id_small, CPF1_cash_bal_small, CPF1_asset_total_small] [1, 2, 3] [False, False, False]
        [i32 ((int BIGINT_LEN + 1) * (n + 1) + 2), i32 ((int BALANCE_T_LEN + 1) * (n + 1) + 2),
         i32 ((int FIN_AGG_T_LEN + 1) * (n + 1) + 2)] rows f)"

definition CustomerPositionFrame1 ::
    "(cpf_stmt \<Rightarrow> bool) \<Rightarrow> (cpf_stmt, 'd) spi \<Rightarrow> int \<Rightarrow> string \<Rightarrow> (cpf_stmt, 'd) fctx \<Rightarrow>
     (spi_row list \<times> (cpf_stmt, 'd) fctx) outcome" where
  "CustomerPositionFrame1 prepare spi cust_id tax_id f =
     obind (plan_queries prepare CPF1_statements (f\<lparr>max_calls := 0\<rparr>)) (\<lambda>f.
     obind (CPF1_cust_id spi cust_id tax_id f) (\<lambda>(found, f).
     case found of
       None \<Rightarrow> Ok ([], FAIL_FRAME_SET CPF1_1 f)
     | Some cust_id \<Rightarrow>
         obind (first_row spi CPF1_2 [DInt64 cust_id] f) (\<lambda>(r, f).
         case r of
           None \<Rightarrow> Ok ([], FAIL_FRAME_SET CPF1_2 f)
         | Some row \<Rightarrow>
             let vals = CPF1_customer row (\<lambda>_. Uninit) in
             obind (SPI_execute_plan spi CPF1_3 [DInt64 cust_id] True f) (\<lambda>(r, f).
             let vals = vals(cpf1_acct_len := Str (snprintf_d (INTEGER_LEN + 1) (SPI_processed r))) in
             obind (case r of
                 SPI_OK_SELECT (row # rows) \<Rightarrow>
                   obind (CPF1_arrays (row # rows) (f\<lparr>max_calls := 1\<rparr>)) (\<lambda>(arrays, f).
                   Ok (set_slots [cpf1_acct_id, cpf1_cash_bal, cpf1_asset_total] arrays vals, f))
               | _ \<Rightarrow> Ok (vals, FAIL_FRAME_SET CPF1_3 f)) (\<lambda>(vals, f).
             let vals = vals(cpf1_cust_id := Str (snprintf_d (IDENT_T_LEN + 1) cust_id)) in
             srf_return (map vals cpf1_order) f)))))"

section \<open>Frame 2\<close>

datatype cpf2 = cpf2_hist_dts | cpf2_hist_len | cpf2_qty | cpf2_symbol | cpf2_trade_id | cpf2_trade_status

definition cpf2_order :: "cpf2 list" where
  "cpf2_order = [cpf2_hist_dts, cpf2_hist_len, cpf2_qty, cpf2_symbol, cpf2_trade_id, cpf2_trade_status]"

text \<open>The five arrays in the order the frame fills them: slot, warning, column of the query, quotes, size.\<close>

definition CPF2_columns :: "cpf2 list" where
  "CPF2_columns = [cpf2_hist_dts, cpf2_qty, cpf2_symbol, cpf2_trade_id, cpf2_trade_status]"

definition CPF2_warnings :: "cpf_stmt list" where
  "CPF2_warnings = [CPF2_hist_dts_small, CPF2_qty_small, CPF2_symbol_small, CPF2_trade_id_small, CPF2_trade_status_small]"

definition CPF2_fields :: "nat list" where
  "CPF2_fields = [5, 3, 2, 1, 4]"

definition CPF2_quotes :: "bool list" where
  "CPF2_quotes = [False, False, True, False, True]"

definition CPF2_lengths :: "int \<Rightarrow> int list" where
  "CPF2_lengths n = [i32 ((int MAXDATELEN + 1) * n + 3), i32 ((int INTEGER_LEN + 1) * n + 3),
     i32 ((int S_SYMB_LEN + 3) * n + 3), i32 ((int IDENT_T_LEN + 1) * n + 3), i32 ((int ST_NAME_LEN + 3) * n + 3)]"

definition CustomerPositionFrame2 ::
    "(cpf_stmt \<Rightarrow> bool) \<Rightarrow> (cpf_stmt, 'd) spi \<Rightarrow> int \<Rightarrow> (cpf_stmt, 'd) fctx \<Rightarrow>
     (spi_row list \<times> (cpf_stmt, 'd) fctx) outcome" where
  "CustomerPositionFrame2 prepare spi acct_id f =
     obind (plan_queries prepare CPF2_statements (f\<lparr>max_calls := 1\<rparr>)) (\<lambda>f.
     obind (SPI_execute_plan spi CPF2_1 [DInt64 acct_id] True f) (\<lambda>(r, f).
     let vals = (\<lambda>_. Uninit)(cpf2_hist_len := Str (snprintf_d (INTEGER_LEN + 1) (SPI_processed r))) in
     obind (case r of
         SPI_OK_SELECT (row # rows) \<Rightarrow>
           obind (build_columns CPF2_warnings CPF2_fields CPF2_quotes (CPF2_lengths (int (length (row # rows))))
               (row # rows) (f\<lparr>max_calls := 1\<rparr>)) (\<lambda>(arrays, f).
           Ok (set_slots CPF2_columns arrays vals, f))
       | _ \<Rightarrow>
           Ok (set_slots CPF2_columns [''{}'', ''{}'', ''{}'', ''{}'', ''{}''] vals,
             FAIL_FRAME_SET CPF2_1 (if r = SPI_OK_SELECT [] then FAIL_FRAME CPF2_should_return_rows f else f))) (\<lambda>(vals, f).
     srf_return (map vals cpf2_order) f)))"

section \<open>The totals of the accounts\<close>

text \<open>What the holdings of an account are worth at the prices of the last trades.\<close>

definition holding_values :: "int \<Rightarrow> db \<Rightarrow> int list" where
  "holding_values ca d = [hs_qty h * lt_price l. h \<leftarrow> holding_summary_tbl d, l \<leftarrow> last_trade_tbl d,
     hs_ca_id h = ca \<and> lt_s_symb l = hs_s_symb h]"

definition account_value :: "int \<Rightarrow> db \<Rightarrow> int" where
  "account_value ca d = sum_list (holding_values ca d)"

definition account_lots :: "int \<Rightarrow> db \<Rightarrow> customer_account_row \<Rightarrow> account_total list" where
  "account_lots cust d a = (if ca_c_id a = cust then map (Pair (ca_id a, ca_bal a)) (holding_values (ca_id a) d) else [])"

lemma cp_join_lots: "cp_join cust d = concat (map (account_lots cust d) (customer_account_tbl d))"
proof -
  have "[((ca_id a, ca_bal a), hs_qty h * lt_price l). h \<leftarrow> hs, l \<leftarrow> last_trade_tbl d,
      hs_ca_id h = ca_id a \<and> ca_c_id a = cust \<and> lt_s_symb l = hs_s_symb h] =
    (if ca_c_id a = cust then map (Pair (ca_id a, ca_bal a)) [hs_qty h * lt_price l. h \<leftarrow> hs, l \<leftarrow> last_trade_tbl d,
      hs_ca_id h = ca_id a \<and> lt_s_symb l = hs_s_symb h] else [])" for a hs
    by (induction hs) (auto simp: map_concat comp_def intro!: arg_cong [of _ _ concat])
  note lots = this
  show ?thesis unfolding cp_join_def account_lots_def holding_values_def by (simp only: lots)
qed

lemma lots_of_account:
  assumes "distinct (map ca_id as)" "a \<in> set as" "ca_c_id a = cust"
  shows "filter (\<lambda>x. fst x = (ca_id a, ca_bal a)) (concat (map (account_lots cust d) as)) =
    map (Pair (ca_id a, ca_bal a)) (holding_values (ca_id a) d)"
  using assms
proof (induction as)
  case Nil
  then show ?case by simp
next
  case (Cons b as)
  have other: "filter (\<lambda>x. fst x = (ca_id a, ca_bal a)) (account_lots cust d c) = []" if "ca_id c \<noteq> ca_id a" for c
    using that by (auto simp: account_lots_def filter_empty_conv)
  show ?case
  proof (cases "b = a")
    case True
    with Cons.prems have "\<forall>c \<in> set as. ca_id c \<noteq> ca_id a" by (auto simp: image_iff)
    then have "filter (\<lambda>x. fst x = (ca_id a, ca_bal a)) (concat (map (account_lots cust d) as)) = []"
      using other by (auto simp: filter_concat)
    moreover have "account_lots cust d b = map (Pair (ca_id a, ca_bal a)) (holding_values (ca_id a) d)"
      using True Cons.prems(3) by (simp add: account_lots_def)
    ultimately show ?thesis by (simp add: filter_map comp_def)
  next
    case False
    with Cons.prems have "ca_id b \<noteq> ca_id a" by (auto simp: image_iff)
    with False Cons show ?thesis by (simp add: other)
  qed
qed

text \<open>Every group is an account of the customer with its value.\<close>

lemma cp_groups:
  assumes "distinct (map ca_id (customer_account_tbl d))"
  shows "((ca, bal), v) \<in> set (group_sum (cp_join cust d)) \<longleftrightarrow>
    (\<exists>a \<in> set (customer_account_tbl d). ca_id a = ca \<and> ca_bal a = bal \<and> ca_c_id a = cust
      \<and> holding_values ca d \<noteq> [] \<and> v = account_value ca d)"
proof -
  have sum: "sum_list (map snd (filter (\<lambda>x. fst x = (ca_id a, ca_bal a)) (cp_join cust d))) = account_value (ca_id a) d"
    if "a \<in> set (customer_account_tbl d)" "ca_c_id a = cust" for a
    using lots_of_account [OF assms that, of d] by (simp add: cp_join_lots account_value_def comp_def)
  have keys: "(ca, bal) \<in> fst ` set (cp_join cust d) \<longleftrightarrow> (\<exists>a \<in> set (customer_account_tbl d). ca_id a = ca \<and> ca_bal a = bal
      \<and> ca_c_id a = cust \<and> holding_values ca d \<noteq> [])"
  proof -
    have "fst ` set (account_lots cust d a) = (if ca_c_id a = cust \<and> holding_values (ca_id a) d \<noteq> [] then {(ca_id a, ca_bal a)} else {})" for a
      by (simp add: account_lots_def image_image image_constant_conv)
    then have "fst ` set (cp_join cust d) = (\<Union>a \<in> set (customer_account_tbl d).
        if ca_c_id a = cust \<and> holding_values (ca_id a) d \<noteq> [] then {(ca_id a, ca_bal a)} else {})"
      by (simp add: cp_join_lots image_UN)
    then show ?thesis by (auto split: if_splits)
  qed
  show ?thesis
    using keys sum by (auto simp: group_sum_def image_iff)
qed

lemma distinct_group_sum: "distinct (map fst (group_sum xs))"
  by (simp add: group_sum_def comp_def)

lemma group_sum_Nil_iff: "group_sum xs = [] \<longleftrightarrow> xs = []"
  by (simp add: group_sum_def)

lemma cp_totals_Nil_iff:
  "cp_totals cust d = [] \<longleftrightarrow> (\<forall>a \<in> set (customer_account_tbl d). ca_c_id a = cust \<longrightarrow> holding_values (ca_id a) d = [])"
proof -
  have "cp_totals cust d = [] \<longleftrightarrow> group_sum (cp_join cust d) = []"
    by (simp add: cp_totals_def order_asc_def) (metis length_0_conv length_sort)
  also have "\<dots> \<longleftrightarrow> (\<forall>a \<in> set (customer_account_tbl d). ca_c_id a = cust \<longrightarrow> holding_values (ca_id a) d = [])"
    by (auto simp: group_sum_Nil_iff cp_join_lots account_lots_def)
  finally show ?thesis .
qed

lemma cp_totals_props:
  assumes "distinct (map ca_id (customer_account_tbl d))"
  shows "sorted (map snd (cp_totals cust d))" "length (cp_totals cust d) \<le> 10" "distinct (map fst (cp_totals cust d))"
    "((ca, bal), v) \<in> set (cp_totals cust d) \<Longrightarrow> ((ca, bal), v) \<in> set (group_sum (cp_join cust d))"
    "length (cp_totals cust d) < 10 \<Longrightarrow> set (cp_totals cust d) = set (group_sum (cp_join cust d))"
proof -
  let ?xs = "order_asc snd (group_sum (cp_join cust d))"
  show "sorted (map snd (cp_totals cust d))"
    unfolding cp_totals_def order_asc_def take_map [symmetric] by (intro sorted_wrt_take sorted_sort_key)
  show "length (cp_totals cust d) \<le> 10" by (simp add: cp_totals_def)
  have "mset (map fst ?xs) = mset (map fst (group_sum (cp_join cust d)))" by (simp add: mset_order_asc)
  then have "distinct (map fst ?xs)" using distinct_group_sum by (metis mset_eq_imp_distinct_iff)
  then show "distinct (map fst (cp_totals cust d))"
    unfolding cp_totals_def take_map [symmetric] by (rule distinct_take)
  have s: "set ?xs = set (group_sum (cp_join cust d))" by (simp add: order_asc_def)
  then show "((ca, bal), v) \<in> set (cp_totals cust d) \<Longrightarrow> ((ca, bal), v) \<in> set (group_sum (cp_join cust d))"
    by (metis cp_totals_def in_set_takeD)
  assume "length (cp_totals cust d) < 10"
  then have "cp_totals cust d = ?xs" by (simp add: cp_totals_def)
  then show "set (cp_totals cust d) = set (group_sum (cp_join cust d))" using s by simp
qed

section \<open>What frame 1 returns\<close>

definition cp_lookup :: "int \<Rightarrow> string \<Rightarrow> db \<Rightarrow> int option" where
  "cp_lookup cust_id tax_id d = (if cust_id = 0 then map_option c_id (find (\<lambda>c. c_tax_id c = tax_id) (customer_tbl d))
     else Some cust_id)"

definition cp_customer :: "int \<Rightarrow> db \<Rightarrow> customer_row option" where
  "cp_customer cust d = find (\<lambda>c. c_id c = cust) (customer_tbl d)"

definition cp_out :: "pgapi \<Rightarrow> int \<Rightarrow> customer_row \<Rightarrow> account_total list \<Rightarrow> spi_row" where
  "cp_out pg cust c ts = [int_txt cust, Some (array_text (map (\<lambda>((ca, bal), v). show_int ca) ts)), int_txt (int (length ts)),
     Some (array_text (map (\<lambda>((ca, bal), v). numeric_out 2 v) ts)), int_txt (c_ad_id c),
     c_area_1 c, c_area_2 c, c_area_3 c, c_ctry_1 c, c_ctry_2 c, c_ctry_3 c, Some (date_out pg (c_dob c)),
     c_email_1 c, c_email_2 c, c_ext_1 c, c_ext_2 c, c_ext_3 c, Some (c_f_name c), c_gndr c, Some (c_l_name c),
     c_local_1 c, c_local_2 c, c_local_3 c, c_m_name c, Some (c_st_id c), int_txt (c_tier c),
     Some (array_text (map (\<lambda>((ca, bal), v). numeric_out 2 bal) ts))]"

text \<open>Identifiers of 64 bits, balances of \<open>NUMERIC(12,2)\<close>, totals of \<open>NUMERIC(15,2)\<close>.\<close>

fun total_sized :: "account_total \<Rightarrow> bool" where
  "total_sized ((ca, bal), v) \<longleftrightarrow> in_i64 ca \<and> numeric_ok 12 bal \<and> numeric_ok 15 v"

lemma find_case_filter: "find P xs = (case filter P xs of [] \<Rightarrow> None | x # _ \<Rightarrow> Some x)"
  by (induction xs) auto

lemma length_total_values:
  assumes "total_sized t" "j < 3"
  shows "length (total_values t ! j) \<le> [20, 14, 17] ! j"
proof -
  obtain ca bal v where t: "t = ((ca, bal), v)" by (metis surj_pair)
  consider "j = 0" | "j = 1" | "j = 2" using assms(2) by linarith
  then show ?thesis
    using assms(1) length_show_int_i64 [of ca] length_numeric_out [of bal 12] length_numeric_out [of v 15]
    by cases (auto simp: t numeric_ok_def split: if_splits)
qed

lemma cp_arrays:
  assumes "length ts \<le> 10" "\<forall>t \<in> set ts. total_sized t"
  shows "CPF1_arrays (map (map Some) (map total_values ts)) f =
    Ok ([array_text (map (\<lambda>((ca, bal), v). show_int ca) ts), array_text (map (\<lambda>((ca, bal), v). numeric_out 2 bal) ts),
      array_text (map (\<lambda>((ca, bal), v). numeric_out 2 v) ts)], f)"
proof -
  let ?vss = "map total_values ts" and ?ks = "[1, 2, 3] :: nat list" and ?qs = "[False, False, False]"
  let ?n = "int (length ts)"
  let ?cs = "[21 * (?n + 1) + 2, 15 * (?n + 1) + 2, 18 * (?n + 1) + 2]"
  have len: "length (total_values t) = 3" for t by (cases t rule: total_values.cases) simp
  have three: "(\<forall>j < 3. P j) \<longleftrightarrow> P 0 \<and> P 1 \<and> P (2 :: nat)" for P by (auto simp: numeral_3_eq_3 numeral_2_eq_2 less_Suc_eq)
  have cap: "i32 (23 + 21 * ?n) = 23 + 21 * ?n" "i32 (17 + 15 * ?n) = 17 + 15 * ?n" "i32 (20 + 18 * ?n) = 20 + 18 * ?n"
    using assms(1) by (simp_all add: in_i32_def)
  have fits: "length (array_text (cells ?ks ?qs ?vss j)) < nat (?cs ! j)" if "j < 3" for j
  proof (rule cells_fit)
    have "?ks ! j - 1 = j" using that by (auto simp: numeral_3_eq_3 less_Suc_eq)
    then show "\<forall>vs \<in> set ?vss. length (vs ! (?ks ! j - 1)) \<le> [20, 14, 17] ! j"
      using length_total_values [OF _ that] assms(2) by (simp del: total_values.simps)
    show "([20, 14, 17] ! j + (if ?qs ! j then 3 else 1)) * length ?vss + 2 < nat (?cs ! j)"
      using that by (auto simp: numeral_3_eq_3 less_Suc_eq)
  qed
  have "cells ?ks ?qs ?vss 0 = map (\<lambda>((ca, bal), v). show_int ca) ts"
    "cells ?ks ?qs ?vss 1 = map (\<lambda>((ca, bal), v). numeric_out 2 bal) ts"
    "cells ?ks ?qs ?vss 2 = map (\<lambda>((ca, bal), v). numeric_out 2 v) ts"
    by (auto simp: cells_def)
  moreover have "build_columns [CPF1_acct_id_small, CPF1_cash_bal_small, CPF1_asset_total_small] ?ks ?qs ?cs (map (map Some) ?vss) f =
    (if \<forall>j < 3. length (array_text (cells ?ks ?qs ?vss j)) < nat (?cs ! j)
     then Ok (map (\<lambda>j. array_text (cells ?ks ?qs ?vss j)) [0..<3], f) else Fail Crash)"
    by (rule build_columns_spec) (use assms(1) in \<open>auto simp: three len\<close>)
  moreover have "[0..<3] = [0, 1, 2 :: nat]" by (simp add: upt_rec)
  ultimately show ?thesis using fits by (simp add: CPF1_arrays_def Let_def cap)
qed

text \<open>The query that finds nothing, if one does.\<close>

definition cp_missing :: "int \<Rightarrow> string \<Rightarrow> db \<Rightarrow> cpf_stmt option" where
  "cp_missing cust_id tax_id d =
     (case cp_lookup cust_id tax_id d of
        None \<Rightarrow> Some CPF1_1
      | Some cust \<Rightarrow>
          if cp_customer cust d = None then Some CPF1_2
          else if \<forall>a \<in> set (customer_account_tbl d). ca_c_id a = cust \<longrightarrow> holding_values (ca_id a) d = [] then Some CPF1_3
          else None)"

lemma cp_lookup_run:
  assumes "CPF1_1 \<in> set (plans f)" "in_i64 cust_id" "\<forall>c \<in> set (customer_tbl (snap_of f)). in_i64 (c_id c)"
  shows "CPF1_cust_id (cpf_spi pg) cust_id tax_id f = Ok (cp_lookup cust_id tax_id (snap_of f), f)"
    and "cp_lookup cust_id tax_id (snap_of f) = Some cust \<Longrightarrow> in_i64 cust"
proof -
  have row: "first_row (cpf_spi pg) CPF1_1 [DText tax_id] f =
      Ok (map_option (\<lambda>c. [int_txt (c_id c)]) (find (\<lambda>c. c_tax_id c = tax_id) (customer_tbl (snap_of f))), f)"
    using cpf.first_row_eq [OF assms(1), of pg "[DText tax_id]"]
    by (simp add: cpf_sql_def SQLCPF1_1_def find_case_filter split: list.split)
  have "in_i64 (c_id c)" if "find (\<lambda>c. c_tax_id c = tax_id) (customer_tbl (snap_of f)) = Some c" for c
    using that assms(3) by (auto simp: find_Some_iff)
  with row show "CPF1_cust_id (cpf_spi pg) cust_id tax_id f = Ok (cp_lookup cust_id tax_id (snap_of f), f)"
    by (auto simp: CPF1_cust_id_def cp_lookup_def getvalue_atoll_def split: option.split)
  show "cp_lookup cust_id tax_id (snap_of f) = Some cust \<Longrightarrow> in_i64 cust"
    using assms(2,3) by (auto simp: cp_lookup_def find_Some_iff split: if_splits)
qed

lemma cp_customer_run:
  assumes "CPF1_2 \<in> set (plans f)"
  shows "first_row (cpf_spi pg) CPF1_2 [DInt64 cust] f = Ok (map_option (cp_values pg) (cp_customer cust (snap_of f)), f)"
  using cpf.first_row_eq [OF assms, of pg "[DInt64 cust]"]
  by (simp add: cpf_sql_def SQLCPF1_2_def cp_customer_def find_case_filter split: list.split)

lemma cp_planned:
  assumes "\<And>s. s \<in> set CPF1_statements \<Longrightarrow> prepare s"
  obtains ps where "plan_queries prepare CPF1_statements (f\<lparr>max_calls := 0\<rparr>) = Ok (f\<lparr>max_calls := 0, plans := ps\<rparr>)"
    and "CPF1_1 \<in> set ps" "CPF1_2 \<in> set ps" "CPF1_3 \<in> set ps"
  using planned [of CPF1_statements prepare "f\<lparr>max_calls := 0\<rparr>", OF assms] by (auto simp: CPF1_statements_def)

text \<open>
  C37. Customer-Position frame 1 finds the customer by identifier or, when that is 0, by tax
  identifier, and returns one row: the customer's data and three parallel arrays of account
  identifiers, balances and asset totals.  The total of an account is what its holdings are
  worth at the prices of the last trades; each account of the customer appears at most once,
  in ascending order of the totals, no more than ten, and none with holdings is missing when
  there are fewer than ten.  The texts fit their buffers for all values the columns admit.
\<close>

theorem customer_position_accounts:
  assumes "\<And>s. s \<in> set CPF1_statements \<Longrightarrow> prepare s" "d = snap_of f"
    and "in_i64 cust_id" "\<forall>c \<in> set (customer_tbl d). in_i64 (c_id c)" "distinct (map ca_id (customer_account_tbl d))"
    and "cp_lookup cust_id tax_id d = Some cust" "cp_customer cust d = Some c" "cp_totals cust d \<noteq> []"
    and "\<forall>t \<in> set (cp_totals cust d). total_sized t"
  shows "(\<exists>ps. CustomerPositionFrame1 prepare (cpf_spi pg) cust_id tax_id f =
        Ok ([cp_out pg cust c (cp_totals cust d)], f\<lparr>max_calls := 1, plans := ps\<rparr>))
    \<and> sorted (map snd (cp_totals cust d)) \<and> length (cp_totals cust d) \<le> 10 \<and> distinct (map fst (cp_totals cust d))
    \<and> (\<forall>((ca, bal), v) \<in> set (cp_totals cust d).
        (\<exists>a \<in> set (customer_account_tbl d). ca_id a = ca \<and> ca_bal a = bal \<and> ca_c_id a = cust) \<and> v = account_value ca d)
    \<and> (length (cp_totals cust d) < 10 \<longrightarrow> (\<forall>a \<in> set (customer_account_tbl d).
        ca_c_id a = cust \<and> holding_values (ca_id a) d \<noteq> [] \<longrightarrow>
        ((ca_id a, ca_bal a), account_value (ca_id a) d) \<in> set (cp_totals cust d)))"
proof -
  obtain ps where ps: "plan_queries prepare CPF1_statements (f\<lparr>max_calls := 0\<rparr>) = Ok (f\<lparr>max_calls := 0, plans := ps\<rparr>)"
    and mem: "CPF1_1 \<in> set ps" "CPF1_2 \<in> set ps" "CPF1_3 \<in> set ps"
    using cp_planned [of prepare f, OF assms(1)] by blast
  let ?g = "f\<lparr>max_calls := 0, plans := ps\<rparr>"
  let ?ts = "cp_totals cust d"
  obtain r rs where rows: "map (map Some) (map total_values ?ts) = r # rs" using assms(8) by (cases ?ts) auto
  then have "length (map (map Some) (map total_values ?ts)) = Suc (length rs)" by simp
  then have n: "length ?ts = Suc (length rs)" by simp
  have ten: "length ?ts \<le> 10" using cp_totals_props(2) [OF assms(5)] .
  have "in_i64 cust" using cp_lookup_run(2) [of ?g cust_id tax_id cust] mem(1) assms(2-4,6) by simp
  then have fits: "snprintf_d (IDENT_T_LEN + 1) cust = show_int cust"
      "snprintf_d (INTEGER_LEN + 1) (int (length ?ts)) = show_int (int (length ?ts))"
    using length_show_int_i64 [of cust] length_show_int [of "int (length ?ts)" 2] ten by (simp_all add: snprintf_d_def)
  have "CPF1_cust_id (cpf_spi pg) cust_id tax_id ?g = Ok (Some cust, ?g)"
    using cp_lookup_run(1) [of ?g cust_id pg tax_id] mem(1) assms(2-4,6) by simp
  moreover have "first_row (cpf_spi pg) CPF1_2 [DInt64 cust] ?g = Ok (Some (cp_values pg c), ?g)"
    using cp_customer_run [of ?g pg cust] mem(2) assms(2,7) by simp
  moreover have "SPI_execute_plan (cpf_spi pg) CPF1_3 [DInt64 cust] True ?g = Ok (SPI_OK_SELECT (r # rs), ?g)"
    using mem(3) assms(2) by (intro cpf.exec_read) (simp_all add: cpf_sql_def SQLCPF1_3_def rows [symmetric])
  ultimately have "CustomerPositionFrame1 prepare (cpf_spi pg) cust_id tax_id f =
      Ok ([cp_out pg cust c ?ts], f\<lparr>max_calls := 1, plans := ps\<rparr>)"
    using ps fits
    by (simp add: cp_arrays [OF ten assms(9), unfolded rows] CustomerPositionFrame1_def CPF1_customer_def cp_values_def cpf1_order_def srf_return_def cp_out_def n
        del: SPI_execute_plan_planned)
  then have "\<exists>ps. CustomerPositionFrame1 prepare (cpf_spi pg) cust_id tax_id f =
      Ok ([cp_out pg cust c ?ts], f\<lparr>max_calls := 1, plans := ps\<rparr>)" by blast
  moreover have "\<forall>((ca, bal), v) \<in> set (cp_totals cust d).
      (\<exists>a \<in> set (customer_account_tbl d). ca_id a = ca \<and> ca_bal a = bal \<and> ca_c_id a = cust) \<and> v = account_value ca d"
    using cp_totals_props(4) [OF assms(5)] cp_groups [OF assms(5)] by blast
  moreover have "length (cp_totals cust d) < 10 \<longrightarrow> (\<forall>a \<in> set (customer_account_tbl d).
      ca_c_id a = cust \<and> holding_values (ca_id a) d \<noteq> [] \<longrightarrow>
      ((ca_id a, ca_bal a), account_value (ca_id a) d) \<in> set (cp_totals cust d))"
    using cp_totals_props(5) [OF assms(5)] cp_groups [OF assms(5)] by blast
  ultimately show ?thesis using cp_totals_props(1-3) [OF assms(5)] by blast
qed

text \<open>
  Frame 1 returns no row exactly for three reasons, and the one warning names the query:
  no customer has the tax identifier, no customer has the identifier, or none of the
  customer's accounts holds a security that has a price.  The last one means that accounts
  without holdings are never reported, although the query joins them with \<open>LEFT OUTER JOIN\<close>
  and gives them the total 0.
\<close>

theorem customer_position_missing:
  assumes "\<And>s. s \<in> set CPF1_statements \<Longrightarrow> prepare s"
    and "in_i64 cust_id" "\<forall>c \<in> set (customer_tbl (snap_of f)). in_i64 (c_id c)"
    and "cp_missing cust_id tax_id (snap_of f) = Some w"
  shows "\<exists>ps. CustomerPositionFrame1 prepare (cpf_spi pg) cust_id tax_id f =
    Ok ([], f\<lparr>plans := ps, warnings := warnings f @ [w], max_calls := 0\<rparr>)"
proof -
  obtain ps where ps: "plan_queries prepare CPF1_statements (f\<lparr>max_calls := 0\<rparr>) = Ok (f\<lparr>max_calls := 0, plans := ps\<rparr>)"
    and mem: "CPF1_1 \<in> set ps" "CPF1_2 \<in> set ps" "CPF1_3 \<in> set ps"
    using cp_planned [of prepare f, OF assms(1)] by blast
  let ?g = "f\<lparr>max_calls := 0, plans := ps\<rparr>" and ?d = "snap_of f"
  have look: "CPF1_cust_id (cpf_spi pg) cust_id tax_id ?g = Ok (cp_lookup cust_id tax_id ?d, ?g)"
    using cp_lookup_run(1) [of ?g cust_id pg tax_id] mem(1) assms(2,3) by simp
  have "CustomerPositionFrame1 prepare (cpf_spi pg) cust_id tax_id f =
      Ok ([], f\<lparr>plans := ps, warnings := warnings f @ [w], max_calls := 0\<rparr>)"
  proof (cases "cp_lookup cust_id tax_id ?d")
    case None
    with assms(4) have "w = CPF1_1" by (simp add: cp_missing_def)
    with None ps look show ?thesis by (simp add: CustomerPositionFrame1_def FAIL_FRAME_SET_def)
  next
    case (Some cust)
    have row: "first_row (cpf_spi pg) CPF1_2 [DInt64 cust] ?g = Ok (map_option (cp_values pg) (cp_customer cust ?d), ?g)"
      using cp_customer_run [of ?g pg cust] mem(2) by simp
    show ?thesis
    proof (cases "cp_customer cust ?d")
      case None
      with Some assms(4) have "w = CPF1_2" by (simp add: cp_missing_def)
      with None Some ps look row show ?thesis by (simp add: CustomerPositionFrame1_def FAIL_FRAME_SET_def)
    next
      case (Some c)
      with \<open>cp_lookup cust_id tax_id ?d = Some cust\<close> assms(4) have w: "w = CPF1_3" "cp_totals cust ?d = []"
        by (auto simp: cp_missing_def cp_totals_Nil_iff split: if_splits)
      then have "SPI_execute_plan (cpf_spi pg) CPF1_3 [DInt64 cust] True ?g = Ok (SPI_OK_SELECT [], ?g)"
        using mem(3) by (intro cpf.exec_read) (simp_all add: cpf_sql_def SQLCPF1_3_def)
      with w(1) Some \<open>cp_lookup cust_id tax_id ?d = Some cust\<close> ps look row show ?thesis
        by (simp add: CustomerPositionFrame1_def FAIL_FRAME_SET_def srf_return_def Let_def del: SPI_execute_plan_planned)
    qed
  qed
  then show ?thesis ..
qed

section \<open>What frame 2 returns\<close>

definition event_widths :: "nat list" where
  "event_widths = [IDENT_T_LEN, S_SYMB_LEN, INTEGER_LEN, ST_NAME_LEN, MAXDATELEN]"

definition event_sized :: "pgapi \<Rightarrow> event \<Rightarrow> bool" where
  "event_sized pg x \<longleftrightarrow> list_all2 (\<lambda>v w. length v \<le> w) (event_values pg x) event_widths"

definition cp2_out :: "pgapi \<Rightarrow> event list \<Rightarrow> spi_row" where
  "cp2_out pg xs = [Some (array_text (map (\<lambda>(t, th, st). timestamp_out pg (th_dts th)) xs)), int_txt (int (length xs)),
     Some (array_text (map (\<lambda>(t, th, st). show_int (t_qty t)) xs)), Some (array_text (map (\<lambda>(t, th, st). quoted (t_s_symb t)) xs)),
     Some (array_text (map (\<lambda>(t, th, st). show_int (t_id t)) xs)), Some (array_text (map (\<lambda>(t, th, st). quoted (st_name st)) xs))]"

lemma CPF2_lengths_eq:
  "n \<le> 30 \<Longrightarrow> CPF2_lengths (int n) = map int [129 * n + 3, 11 * n + 3, 18 * n + 3, 21 * n + 3, 13 * n + 3]"
  by (simp add: CPF2_lengths_def in_i32_def)

lemma five_columns: "(\<forall>j < 5. P j) \<longleftrightarrow> P 0 \<and> P 1 \<and> P 2 \<and> P 3 \<and> P (4 :: nat)"
  by (auto simp: eval_nat_numeral less_Suc_eq)

lemma cp_history_arrays:
  assumes "length xs \<le> 30" "\<forall>x \<in> set xs. event_sized pg x"
  shows "build_columns CPF2_warnings CPF2_fields CPF2_quotes (CPF2_lengths (int (length xs))) (map (map Some) (map (event_values pg) xs)) f =
    Ok ([array_text (map (\<lambda>(t, th, st). timestamp_out pg (th_dts th)) xs), array_text (map (\<lambda>(t, th, st). show_int (t_qty t)) xs),
       array_text (map (\<lambda>(t, th, st). quoted (t_s_symb t)) xs), array_text (map (\<lambda>(t, th, st). show_int (t_id t)) xs),
       array_text (map (\<lambda>(t, th, st). quoted (st_name st)) xs)], f)"
proof -
  let ?vss = "map (event_values pg) xs"
  let ?cell = "\<lambda>j. array_text (cells CPF2_fields CPF2_quotes ?vss j)"
  have len: "length (event_values pg x) = 5" for x by (cases x) simp
  have w: "length (event_values pg x ! k) \<le> event_widths ! k" if "x \<in> set xs" "k < 5" for x k
    using assms(2) that len by (auto simp: event_sized_def list_all2_conv_all_nth)
  have fits: "\<forall>j < 5. length (?cell j) < nat (CPF2_lengths (int (length xs)) ! j)"
  proof (intro allI impI cells_fit)
    fix j :: nat
    assume j: "j < 5"
    have "list_all (\<lambda>j. CPF2_fields ! j - 1 < 5) [0..<5]" by code_simp
    then have "CPF2_fields ! j - 1 < 5" using j by (simp only: list_all_iff set_upt atLeastLessThan_iff) simp
    with w show "\<forall>vs \<in> set ?vss. length (vs ! (CPF2_fields ! j - 1)) \<le> event_widths ! (CPF2_fields ! j - 1)" by auto
    have "\<forall>j < 5. (event_widths ! (CPF2_fields ! j - 1) + (if CPF2_quotes ! j then 3 else 1)) * length ?vss + 2
        < nat (CPF2_lengths (int (length xs)) ! j)"
      by (simp add: five_columns CPF2_lengths_eq [OF assms(1)] event_widths_def CPF2_fields_def CPF2_quotes_def) linarith
    with j show "(event_widths ! (CPF2_fields ! j - 1) + (if CPF2_quotes ! j then 3 else 1)) * length ?vss + 2
        < nat (CPF2_lengths (int (length xs)) ! j)" by blast
  qed
  have "build_columns CPF2_warnings CPF2_fields CPF2_quotes (CPF2_lengths (int (length xs))) (map (map Some) ?vss) f =
    (if \<forall>j < 5. length (?cell j) < nat (CPF2_lengths (int (length xs)) ! j) then Ok (map ?cell [0..<5], f) else Fail Crash)"
  proof (rule build_columns_spec)
    show "\<forall>vs \<in> set ?vss. \<forall>j < 5. 1 \<le> CPF2_fields ! j \<and> CPF2_fields ! j \<le> length vs"
      by (auto simp: five_columns len CPF2_fields_def)
  qed (use assms(1) in \<open>auto simp: CPF2_warnings_def CPF2_lengths_eq\<close>)
  moreover have "cells CPF2_fields CPF2_quotes ?vss 0 = map (\<lambda>(t, th, st). timestamp_out pg (th_dts th)) xs"
    "cells CPF2_fields CPF2_quotes ?vss 1 = map (\<lambda>(t, th, st). show_int (t_qty t)) xs"
    "cells CPF2_fields CPF2_quotes ?vss 2 = map (\<lambda>(t, th, st). quoted (t_s_symb t)) xs"
    "cells CPF2_fields CPF2_quotes ?vss 3 = map (\<lambda>(t, th, st). show_int (t_id t)) xs"
    "cells CPF2_fields CPF2_quotes ?vss 4 = map (\<lambda>(t, th, st). quoted (st_name st)) xs"
    by (auto simp: cells_def CPF2_fields_def CPF2_quotes_def)
  moreover have "[0..<5] = [0, 1, 2, 3, 4 :: nat]" by (simp add: upt_rec)
  ultimately show ?thesis using fits by simp
qed

lemma sorted_order_desc: "sorted_wrt (\<lambda>x y. k y \<le> k x) (order_desc k xs)"
proof -
  have "sorted (map (\<lambda>r. - k r) (order_desc k xs))" by (simp add: order_desc_def)
  then show ?thesis by (simp add: sorted_wrt_map)
qed

lemma cp_history_props:
  assumes "distinct (map t_id (trade_tbl d))"
  shows "(t, th, st) \<in> set (cp_history acct d) \<Longrightarrow> t \<in> set (cp_recent acct d) \<and> th \<in> set (trade_history_tbl d)
      \<and> th_t_id th = t_id t \<and> st \<in> set (status_type_tbl d) \<and> st_id st = th_st_id th"
    "sorted_wrt (\<lambda>(t, th, st) (t', th', st'). th_dts th' \<le> th_dts th) (cp_history acct d)"
proof -
  have trade: "r \<in> set (trade_tbl d)" if "r \<in> set (cp_recent acct d)" for r
    using in_set_takeD that by (fastforce simp: cp_recent_def order_desc_def)
  show "sorted_wrt (\<lambda>(t, th, st) (t', th', st'). th_dts th' \<le> th_dts th) (cp_history acct d)"
    using sorted_wrt_take [OF sorted_order_desc [of "\<lambda>(t, th, st). th_dts th" "cp_events acct d"], of 30]
    by (simp add: cp_history_def case_prod_unfold)
  assume "(t, th, st) \<in> set (cp_history acct d)"
  then have "(t, th, st) \<in> set (cp_events acct d)" by (auto simp: cp_history_def order_desc_def dest: in_set_takeD)
  then obtain r where r: "r \<in> set (cp_recent acct d)" "t \<in> set (trade_tbl d)" "t_id t = t_id r"
    and h: "th \<in> set (trade_history_tbl d)" "th_t_id th = t_id t" "st \<in> set (status_type_tbl d)" "st_id st = th_st_id th"
    by (auto simp: cp_events_def split: if_splits)
  have "t = r" using assms r trade by (metis distinct_map inj_on_def)
  with r h show "t \<in> set (cp_recent acct d) \<and> th \<in> set (trade_history_tbl d) \<and> th_t_id th = t_id t
      \<and> st \<in> set (status_type_tbl d) \<and> st_id st = th_st_id th" by simp
qed

text \<open>
  C39. Customer-Position frame 2 returns five parallel arrays and their length: up to thirty
  events, newest first, each an entry in the history of one of the ten most recent trades of
  the account, with the name of the status it entered.  The buffers grow with the number of
  rows, so the texts always fit.  An account without such events gets no row and two
  warnings.
\<close>

theorem customer_position_history:
  assumes "\<And>s. s \<in> set CPF2_statements \<Longrightarrow> prepare s" "d = snap_of f" "distinct (map t_id (trade_tbl d))"
    and "\<forall>x \<in> set (cp_history acct d). event_sized pg x"
  shows "(\<exists>ps. CustomerPositionFrame2 prepare (cpf_spi pg) acct f =
      Ok (if cp_history acct d = [] then ([], f\<lparr>plans := ps, warnings := warnings f @ [CPF2_should_return_rows, CPF2_1], max_calls := 0\<rparr>)
          else ([cp2_out pg (cp_history acct d)], f\<lparr>max_calls := 1, plans := ps\<rparr>)))
    \<and> (\<forall>(t, th, st) \<in> set (cp_history acct d). t \<in> set (cp_recent acct d) \<and> th \<in> set (trade_history_tbl d)
        \<and> th_t_id th = t_id t \<and> st \<in> set (status_type_tbl d) \<and> st_id st = th_st_id th)
    \<and> sorted_wrt (\<lambda>(t, th, st) (t', th', st'). th_dts th' \<le> th_dts th) (cp_history acct d)"
proof -
  let ?xs = "cp_history acct d"
  obtain ps where ps: "plan_queries prepare CPF2_statements (f\<lparr>max_calls := 1\<rparr>) = Ok (f\<lparr>max_calls := 1, plans := ps\<rparr>)"
    and mem: "CPF2_1 \<in> set ps"
    using planned [of CPF2_statements prepare "f\<lparr>max_calls := 1\<rparr>", OF assms(1)] by (auto simp: CPF2_statements_def)
  let ?g = "f\<lparr>max_calls := 1, plans := ps\<rparr>"
  have thirty: "length ?xs \<le> 30" by (simp add: cp_history_def)
  have run: "SPI_execute_plan (cpf_spi pg) CPF2_1 [DInt64 acct] True ?g =
      Ok (SPI_OK_SELECT (map (map Some) (map (event_values pg) ?xs)), ?g)"
    using mem assms(2) by (intro cpf.exec_read) (simp_all add: cpf_sql_def SQLCPF2_1_def)
  have "CustomerPositionFrame2 prepare (cpf_spi pg) acct f =
      Ok (if ?xs = [] then ([], f\<lparr>plans := ps, warnings := warnings f @ [CPF2_should_return_rows, CPF2_1], max_calls := 0\<rparr>)
          else ([cp2_out pg ?xs], f\<lparr>max_calls := 1, plans := ps\<rparr>))"
  proof (cases "?xs = []")
    case True
    with ps run show ?thesis
      by (simp add: CustomerPositionFrame2_def srf_return_def FAIL_FRAME_SET_def FAIL_FRAME_def Let_def del: SPI_execute_plan_planned)
  next
    case False
    then obtain r rs where rows: "map (map Some) (map (event_values pg) ?xs) = r # rs" by (cases ?xs) auto
    then have "length (map (map Some) (map (event_values pg) ?xs)) = Suc (length rs)" by simp
    then have n: "length ?xs = Suc (length rs)" by simp
    have "snprintf_d (INTEGER_LEN + 1) (int (length ?xs)) = show_int (int (length ?xs))"
      using length_show_int [of "int (length ?xs)" 2] thirty by (simp add: snprintf_d_def)
    with False ps run show ?thesis
      by (simp add: cp_history_arrays [OF thirty assms(4), unfolded rows n of_nat_Suc] rows n CustomerPositionFrame2_def srf_return_def
          CPF2_columns_def cpf2_order_def cp2_out_def del: SPI_execute_plan_planned map_map)
  qed
  then show ?thesis using cp_history_props [OF assms(3)] by blast
qed

section \<open>Witnesses\<close>

text \<open>A customer with two accounts, one of which holds securities.\<close>

definition client_db :: db where
  "client_db = sample_db\<lparr>customer_account_tbl := [sample_account, sample_account\<lparr>ca_id := 4\<rparr>],
     trade_history_tbl := [\<lparr>th_t_id = 9, th_dts = 21, th_st_id = ''SBMT''\<rparr>, \<lparr>th_t_id = 9, th_dts = 22, th_st_id = ''CMPT''\<rparr>],
     status_type_tbl := [\<lparr>st_id = ''SBMT'', st_name = ''Submitted''\<rparr>, \<lparr>st_id = ''CMPT'', st_name = ''Completed''\<rparr>]\<rparr>"

definition client_ctx :: "(cpf_stmt, pgsession) fctx" where
  "client_ctx = \<lparr>session = start_call client_db, plans = [], warnings = [], max_calls = 0\<rparr>"

lemma client_snap: "snap_of client_ctx = client_db"
  by (simp add: client_ctx_def snap_of_def)

lemma client_facts:
  "cp_lookup 0 ''T3'' client_db = Some 3" "cp_customer 3 client_db = Some sample_customer"
  "cp_totals 3 client_db = [((1, 50000), 120000)]" "list_all total_sized (cp_totals 3 client_db)"
  "cp_missing 0 ''T4'' client_db = Some CPF1_1"
  by code_simp+

theorem customer_position_accounts_witness:
  "\<exists>ps. CustomerPositionFrame1 (\<lambda>_. True) (cpf_spi sample_pg) 0 ''T3'' client_ctx =
    Ok ([cp_out sample_pg 3 sample_customer [((1, 50000), 120000)]], client_ctx\<lparr>max_calls := 1, plans := ps\<rparr>)"
proof -
  have "customer_tbl client_db = [sample_customer]"
    "customer_account_tbl client_db = [sample_account, sample_account\<lparr>ca_id := 4\<rparr>]" by (simp_all add: client_db_def)
  then have "\<forall>c \<in> set (customer_tbl client_db). in_i64 (c_id c)" "distinct (map ca_id (customer_account_tbl client_db))"
    by (simp_all add: sample_rows in_i64_def)
  then show ?thesis
    using customer_position_accounts [of "\<lambda>_. True" client_db client_ctx 0 "''T3''" 3 sample_customer sample_pg]
    client_facts by (simp add: client_snap in_i64_def)
qed

theorem customer_position_missing_witness:
  "\<exists>ps. CustomerPositionFrame1 (\<lambda>_. True) (cpf_spi sample_pg) 0 ''T4'' client_ctx =
    Ok ([], client_ctx\<lparr>plans := ps, warnings := [CPF1_1], max_calls := 0\<rparr>)"
proof -
  have "customer_tbl client_db = [sample_customer]" by (simp add: client_db_def)
  then have "\<forall>c \<in> set (customer_tbl client_db). in_i64 (c_id c)" by (simp add: sample_rows in_i64_def)
  moreover have "warnings client_ctx = []" by (simp add: client_ctx_def)
  ultimately show ?thesis
    using customer_position_missing [of "\<lambda>_. True" 0 client_ctx "''T4''" CPF1_1 sample_pg] client_facts(5)
    by (simp add: client_snap in_i64_def)
qed

theorem customer_position_history_witness:
  "\<exists>ps. CustomerPositionFrame2 (\<lambda>_. True) (cpf_spi sample_pg) 1 client_ctx =
    Ok ([[Some ''{22,21}'', Some ''2'', Some ''{30,30}'', Some ''{\"AB\",\"AB\"}'', Some ''{9,9}'',
        Some ''{\"Completed\",\"Submitted\"}'']], client_ctx\<lparr>max_calls := 1, plans := ps\<rparr>)"
proof -
  have h: "cp_history 1 client_db =
      [(sample_trade, \<lparr>th_t_id = 9, th_dts = 22, th_st_id = ''CMPT''\<rparr>, \<lparr>st_id = ''CMPT'', st_name = ''Completed''\<rparr>),
       (sample_trade, \<lparr>th_t_id = 9, th_dts = 21, th_st_id = ''SBMT''\<rparr>, \<lparr>st_id = ''SBMT'', st_name = ''Submitted''\<rparr>)]"
    by code_simp
  have digits: "show_int 22 = ''22''" "show_int 21 = ''21''" "show_int 30 = ''30''" "show_int 9 = ''9''" "show_int 2 = ''2''"
    by code_simp+
  have "list_all (event_sized sample_pg) (cp_history 1 client_db)" "cp_history 1 client_db \<noteq> []"
    "cp2_out sample_pg (cp_history 1 client_db) = [Some ''{22,21}'', Some ''2'', Some ''{30,30}'', Some ''{\"AB\",\"AB\"}'',
       Some ''{9,9}'', Some ''{\"Completed\",\"Submitted\"}'']"
    by (simp_all add: h event_sized_def event_widths_def cp2_out_def sample_pg_def sample_rows digits array_text_def quoted_def)
  moreover have "distinct (map t_id (trade_tbl client_db))" by (simp add: client_db_def)
  ultimately show ?thesis
    using customer_position_history [of "\<lambda>_. True" client_db client_ctx 1 sample_pg]
    by (simp add: client_snap list_all_iff)
qed

end
