(* ===== verification/SecurityDetail.thy ===== *)
theory SecurityDetail
  imports ArrayBuf Settlement
begin

text \<open>
  The Security-Detail transaction, \<^verbatim>\<open>storedproc/pgsql/c/security_detail.c\<close>: a security with its company
  and exchange, up to three competitors, twenty quarters of figures, the daily market from a
  date on, the last trade, and two news items, in full or as headlines.
\<close>

abbreviation (input) "MAX_COMP_LEN \<equiv> 3 :: nat"
abbreviation (input) "MAX_FIN_LEN \<equiv> 20 :: nat"
abbreviation (input) "MAX_NEWS_LEN \<equiv> 2 :: nat"

section \<open>SQL statements\<close>

text \<open>The last five constructors stand for the texts of the warnings about the buffers.\<close>

datatype sdf_stmt = SDF1_1 | SDF1_2 | SDF1_3 | SDF1_4 | SDF1_5 | SDF1_6 | SDF1_7
  | SDF1_cp_co_name_small | SDF1_cp_in_name_small | SDF1_fin_small | SDF1_day_small | SDF1_news_small

definition SDF1_statements :: "sdf_stmt list" where
  "SDF1_statements = [SDF1_1, SDF1_2, SDF1_3, SDF1_4, SDF1_5, SDF1_6, SDF1_7]"

type_synonym detail = "security_row \<times> company_row \<times> address_row \<times> address_row \<times> zip_code_row \<times> zip_code_row \<times> exchange_row"

definition sd_join :: "string \<Rightarrow> db \<Rightarrow> detail list" where
  "sd_join symb d = [(s, co, ca, ea, zca, zea, ex). s \<leftarrow> security_tbl d, co \<leftarrow> company_tbl d, ca \<leftarrow> address_tbl d,
     ea \<leftarrow> address_tbl d, zca \<leftarrow> zip_code_tbl d, zea \<leftarrow> zip_code_tbl d, ex \<leftarrow> exchange_tbl d,
     s_symb s = symb \<and> co_id co = s_co_id s \<and> ad_id ca = co_ad_id co \<and> ad_id ea = ex_ad_id ex \<and> ex_id ex = s_ex_id s
     \<and> ad_zc_code ca = zc_code zca \<and> ad_zc_code ea = zc_code zea]"

fun detail_values :: "pgapi \<Rightarrow> detail \<Rightarrow> spi_row" where
  "detail_values pg (s, co, ca, ea, zca, zea, ex) =
     [Some (s_name s), int_txt (co_id co), Some (co_name co), Some (co_sp_rate co), Some (co_ceo co), Some (co_desc co),
      Some (date_out pg (co_open_date co)), Some (co_st_id co), ad_line1 ca, ad_line2 ca, Some (zc_town zca), Some (zc_div zca),
      Some (ad_zc_code ca), ad_ctry ca, int_txt (s_num_out s), Some (date_out pg (s_start_date s)),
      Some (date_out pg (s_exch_date s)), num_txt 2 (s_pe s), num_txt 2 (s_52wk_high s),
      Some (date_out pg (s_52wk_high_date s)), num_txt 2 (s_52wk_low s), Some (date_out pg (s_52wk_low_date s)),
      num_txt 2 (s_dividend s), num_txt 2 (s_yield s), Some (zc_div zea), ad_ctry ea, ad_line1 ea, ad_line2 ea,
      Some (zc_town zea), Some (ad_zc_code ea), int_txt (ex_close ex), ex_desc ex, Some (ex_name ex), int_txt (ex_num_symb ex),
      int_txt (ex_open ex)]"

definition SQLSDF1_1 :: "pgapi \<Rightarrow> string \<Rightarrow> sql" where
  "SQLSDF1_1 pg symb d = sql_select (map (detail_values pg) (sd_join symb d)) d"

definition competitors :: "int \<Rightarrow> db \<Rightarrow> (string \<times> string) list" where
  "competitors co d = [(co_name c, in_name i). cp \<leftarrow> company_competitor_tbl d, c \<leftarrow> company_tbl d, i \<leftarrow> industry_tbl d,
     cp_co_id cp = co \<and> co_id c = cp_comp_co_id cp \<and> in_id i = cp_in_id cp]"

definition SQLSDF1_2 :: "int \<Rightarrow> int \<Rightarrow> sql" where
  "SQLSDF1_2 co n d = sql_limit n (map (\<lambda>(c, i). map Some [c, i]) (competitors co d)) d"

text \<open>Two orders one after the other, the minor one first: sorting is stable.\<close>

definition quarters :: "int \<Rightarrow> db \<Rightarrow> financial_row list" where
  "quarters co d = order_asc fi_year (order_asc fi_qtr (filter (\<lambda>r. fi_co_id r = co) (financial_tbl d)))"

definition quarter_values :: "pgapi \<Rightarrow> financial_row \<Rightarrow> string list" where
  "quarter_values pg r = [show_int (fi_year r), show_int (fi_qtr r), date_out pg (fi_qtr_start_date r),
     numeric_out 2 (fi_revenue r), numeric_out 2 (fi_net_earn r), numeric_out 2 (fi_basic_eps r),
     numeric_out 2 (fi_dilut_eps r), numeric_out 2 (fi_margin r), numeric_out 2 (fi_inventory r),
     numeric_out 2 (fi_assets r), numeric_out 2 (fi_liability r), show_int (fi_out_basic r), show_int (fi_out_dilut r)]"

definition SQLSDF1_3 :: "pgapi \<Rightarrow> int \<Rightarrow> int \<Rightarrow> sql" where
  "SQLSDF1_3 pg co n d = sql_limit n (map (\<lambda>r. map Some (quarter_values pg r)) (quarters co d)) d"

definition market_days :: "string \<Rightarrow> int \<Rightarrow> db \<Rightarrow> daily_market_row list" where
  "market_days symb start d = order_asc dm_date (filter (\<lambda>r. dm_s_symb r = symb \<and> start \<le> dm_date r) (daily_market_tbl d))"

definition day_values :: "pgapi \<Rightarrow> daily_market_row \<Rightarrow> string list" where
  "day_values pg r = [date_out pg (dm_date r), numeric_out 2 (dm_close r), numeric_out 2 (dm_high r),
     numeric_out 2 (dm_low r), show_int (dm_vol r)]"

definition SQLSDF1_4 :: "pgapi \<Rightarrow> string \<Rightarrow> int \<Rightarrow> int \<Rightarrow> sql" where
  "SQLSDF1_4 pg symb start n d = sql_limit n (map (\<lambda>r. map Some (day_values pg r)) (market_days symb start d)) d"

definition SQLSDF1_5 :: "string \<Rightarrow> sql" where
  "SQLSDF1_5 symb d = sql_select (map (\<lambda>l. [num_txt 2 (lt_price l), num_txt 2 (lt_open_price l), int_txt (lt_vol l)])
     (filter (\<lambda>l. lt_s_symb l = symb) (last_trade_tbl d))) d"

text \<open>The column \<open>ni_item\<close>, a \<open>BYTEA\<close>, is kept in the form of its text: \<open>\x\<close> and hexadecimal digits.\<close>

definition news_items :: "int \<Rightarrow> db \<Rightarrow> news_item_row list" where
  "news_items co d = [n. x \<leftarrow> news_xref_tbl d, n \<leftarrow> news_item_tbl d, ni_id n = nx_ni_id x \<and> nx_co_id x = co]"

definition full_values :: "pgapi \<Rightarrow> news_item_row \<Rightarrow> spi_row" where
  "full_values pg n = [Some (ni_item n), Some (timestamp_out pg (ni_dts n)), Some (ni_source n), ni_author n, Some [], Some []]"

definition headline_values :: "pgapi \<Rightarrow> news_item_row \<Rightarrow> spi_row" where
  "headline_values pg n = [Some [], Some (timestamp_out pg (ni_dts n)), Some (ni_source n), ni_author n, Some (ni_headline n),
     Some (ni_summary n)]"

definition SQLSDF1_6 :: "pgapi \<Rightarrow> int \<Rightarrow> int \<Rightarrow> sql" where
  "SQLSDF1_6 pg co n d = sql_limit n (map (full_values pg) (news_items co d)) d"

definition SQLSDF1_7 :: "pgapi \<Rightarrow> int \<Rightarrow> int \<Rightarrow> sql" where
  "SQLSDF1_7 pg co n d = sql_limit n (map (headline_values pg) (news_items co d)) d"

definition sdf_sql :: "pgapi \<Rightarrow> datum list \<Rightarrow> sdf_stmt \<Rightarrow> sql" where
  "sdf_sql pg as stmt =
     (case (stmt, as) of
        (SDF1_1, [DText symb]) \<Rightarrow> SQLSDF1_1 pg symb
      | (SDF1_2, [DInt64 co, DInt16 n]) \<Rightarrow> SQLSDF1_2 co n
      | (SDF1_3, [DInt64 co, DInt16 n]) \<Rightarrow> SQLSDF1_3 pg co n
      | (SDF1_4, [DText symb, DDate start, DInt16 n]) \<Rightarrow> SQLSDF1_4 pg symb start n
      | (SDF1_5, [DText symb]) \<Rightarrow> SQLSDF1_5 symb
      | (SDF1_6, [DInt64 co, DInt16 n]) \<Rightarrow> SQLSDF1_6 pg co n
      | (SDF1_7, [DInt64 co, DInt16 n]) \<Rightarrow> SQLSDF1_7 pg co n
      | _ \<Rightarrow> (\<lambda>d. Fail Sql_Error))"

definition sdf_spi :: "pgapi \<Rightarrow> (sdf_stmt, pgsession) spi" where
  "sdf_spi pg stmt as read_only s = run_sql (sdf_sql pg as stmt) read_only s"

interpretation sdf: sql_provider "sdf_spi pg" "sdf_sql pg" for pg
  by unfold_locales (simp add: sdf_spi_def)

section \<open>The frame\<close>

datatype sdf1 = sdf1_x52_wk_high | sdf1_x52_wk_high_date | sdf1_x52_wk_low | sdf1_x52_wk_low_date | sdf1_ceo_name
  | sdf1_co_ad_ctry | sdf1_co_ad_div | sdf1_co_ad_line1 | sdf1_co_ad_line2 | sdf1_co_ad_town | sdf1_co_ad_zip
  | sdf1_co_desc | sdf1_co_name | sdf1_co_st_id | sdf1_cp_co_name | sdf1_cp_in_name | sdf1_day | sdf1_day_len | sdf1_divid
  | sdf1_ex_ad_ctry | sdf1_ex_ad_div | sdf1_ex_ad_line1 | sdf1_ex_ad_line2 | sdf1_ex_ad_town | sdf1_ex_ad_zip
  | sdf1_ex_close | sdf1_ex_date | sdf1_ex_desc | sdf1_ex_name | sdf1_ex_num_symb | sdf1_ex_open | sdf1_fin | sdf1_fin_len
  | sdf1_last_open | sdf1_last_price | sdf1_last_vol | sdf1_news | sdf1_news_len | sdf1_num_out | sdf1_open_date
  | sdf1_pe_ratio | sdf1_s_name | sdf1_sp_rate | sdf1_start_date | sdf1_yield

definition sdf1_order :: "sdf1 list" where
  "sdf1_order = [sdf1_x52_wk_high, sdf1_x52_wk_high_date, sdf1_x52_wk_low, sdf1_x52_wk_low_date, sdf1_ceo_name,
     sdf1_co_ad_ctry, sdf1_co_ad_div, sdf1_co_ad_line1, sdf1_co_ad_line2, sdf1_co_ad_town, sdf1_co_ad_zip,
     sdf1_co_desc, sdf1_co_name, sdf1_co_st_id, sdf1_cp_co_name, sdf1_cp_in_name, sdf1_day, sdf1_day_len, sdf1_divid,
     sdf1_ex_ad_ctry, sdf1_ex_ad_div, sdf1_ex_ad_line1, sdf1_ex_ad_line2, sdf1_ex_ad_town, sdf1_ex_ad_zip,
     sdf1_ex_close, sdf1_ex_date, sdf1_ex_desc, sdf1_ex_name, sdf1_ex_num_symb, sdf1_ex_open, sdf1_fin, sdf1_fin_len,
     sdf1_last_open, sdf1_last_price, sdf1_last_vol, sdf1_news, sdf1_news_len, sdf1_num_out, sdf1_open_date,
     sdf1_pe_ratio, sdf1_s_name, sdf1_sp_rate, sdf1_start_date, sdf1_yield]"

text \<open>The sizes of the five buffers.\<close>

definition SDF1_length_cn :: int where
  "SDF1_length_cn = int (MAX_COMP_LEN * (CO_NAME_LEN + 3) + 3)"

definition SDF1_length_in :: int where
  "SDF1_length_in = int (MAX_COMP_LEN * (IN_NAME_LEN + 3) + 3)"

definition SDF1_length_d :: "int \<Rightarrow> int" where
  "SDF1_length_d max_rows =
     i32 (int (MAXDATELEN + S_PRICE_T_LEN + S_PRICE_T_LEN + S_PRICE_T_LEN + S_COUNT_T_LEN + 9) * max_rows + 3)"

definition SDF1_length_f :: int where
  "SDF1_length_f = int ((INTEGER_LEN + SMALLINT_LEN + MAXDATELEN + FIN_AGG_T_LEN + FIN_AGG_T_LEN + VALUE_T_LEN + VALUE_T_LEN
     + FIN_AGG_T_LEN + FIN_AGG_T_LEN + FIN_AGG_T_LEN + S_COUNT_T_LEN + S_COUNT_T_LEN + 16) * MAX_FIN_LEN + 3)"

definition SDF1_length_n :: int where
  "SDF1_length_n = int ((NI_ITEM_LEN + MAXDATELEN + NI_SOURCE_LEN + NI_AUTHOR_LEN + NI_SUMMARY_LEN + NI_HEADLINE_LEN + 35)
     * MAX_NEWS_LEN + 3)"

text \<open>The first query: the columns of the security, its company and its exchange.\<close>

definition SDF1_security :: "spi_row \<Rightarrow> (sdf1 \<Rightarrow> slot) \<Rightarrow> (sdf1 \<Rightarrow> slot)" where
  "SDF1_security row vals = vals(
     sdf1_s_name := Ptr (SPI_getvalue row 1), sdf1_co_name := Ptr (SPI_getvalue row 3),
     sdf1_sp_rate := Ptr (SPI_getvalue row 4), sdf1_ceo_name := Ptr (SPI_getvalue row 5),
     sdf1_co_desc := Ptr (SPI_getvalue row 6), sdf1_open_date := Ptr (SPI_getvalue row 7),
     sdf1_co_st_id := Ptr (SPI_getvalue row 8), sdf1_co_ad_line1 := Ptr (SPI_getvalue row 9),
     sdf1_co_ad_line2 := Ptr (SPI_getvalue row 10), sdf1_co_ad_town := Ptr (SPI_getvalue row 11),
     sdf1_co_ad_div := Ptr (SPI_getvalue row 12), sdf1_co_ad_zip := Ptr (SPI_getvalue row 13),
     sdf1_co_ad_ctry := Ptr (SPI_getvalue row 14), sdf1_num_out := Ptr (SPI_getvalue row 15),
     sdf1_start_date := Ptr (SPI_getvalue row 16), sdf1_ex_date := Ptr (SPI_getvalue row 17),
     sdf1_pe_ratio := Ptr (SPI_getvalue row 18), sdf1_x52_wk_high := Ptr (SPI_getvalue row 19),
     sdf1_x52_wk_high_date := Ptr (SPI_getvalue row 20), sdf1_x52_wk_low := Ptr (SPI_getvalue row 21),
     sdf1_x52_wk_low_date := Ptr (SPI_getvalue row 22), sdf1_divid := Ptr (SPI_getvalue row 23),
     sdf1_yield := Ptr (SPI_getvalue row 24), sdf1_ex_ad_div := Ptr (SPI_getvalue row 25),
     sdf1_ex_ad_ctry := Ptr (SPI_getvalue row 26), sdf1_ex_ad_line1 := Ptr (SPI_getvalue row 27),
     sdf1_ex_ad_line2 := Ptr (SPI_getvalue row 28), sdf1_ex_ad_town := Ptr (SPI_getvalue row 29),
     sdf1_ex_ad_zip := Ptr (SPI_getvalue row 30), sdf1_ex_close := Ptr (SPI_getvalue row 31),
     sdf1_ex_desc := Ptr (SPI_getvalue row 32), sdf1_ex_name := Ptr (SPI_getvalue row 33),
     sdf1_ex_num_symb := Ptr (SPI_getvalue row 34), sdf1_ex_open := Ptr (SPI_getvalue row 35))"

text \<open>What is appended for a row of figures: the values in parentheses and quotes.\<close>

fun getvalues :: "spi_row \<Rightarrow> nat list \<Rightarrow> string list outcome" where
  "getvalues row [] = Ok []"
| "getvalues row (k # ks) =
     obind (from_ptr (SPI_getvalue row k)) (\<lambda>v. obind (getvalues row ks) (\<lambda>vs. Ok (v # vs)))"

fun separated :: "string \<Rightarrow> string list \<Rightarrow> string list" where
  "separated sep [] = []"
| "separated sep [v] = [v]"
| "separated sep (v # w # vs) = v # sep # separated sep (w # vs)"

definition tuple_pieces :: "nat \<Rightarrow> spi_row \<Rightarrow> string list outcome" where
  "tuple_pieces n row = obind (getvalues row [1..<Suc n]) (\<lambda>vs. Ok ([''\"(''] @ separated '','' vs @ ['')\"'']))"

text \<open>
  For a news item every field is in escaped quotes.  A leading backslash of the item is written
  as four.
\<close>

definition SDF1_item :: "bool \<Rightarrow> string \<Rightarrow> string list" where
  "SDF1_item lob tmp =
     (case tmp of
        c # cs \<Rightarrow> if lob \<and> c = CHR 0x5C then [replicate 4 (CHR 0x5C), cs] else [tmp]
      | [] \<Rightarrow> [tmp])"

definition field_sep :: string where
  "field_sep = [CHR 0x5C, CHR ''\"'', CHR '','', CHR 0x5C, CHR ''\"'']"

definition SDF1_news_pieces :: "bool \<Rightarrow> spi_row \<Rightarrow> string list outcome" where
  "SDF1_news_pieces lob row =
     obind (from_ptr (SPI_getvalue row 1)) (\<lambda>item.
     obind (from_ptr (SPI_getvalue row 2)) (\<lambda>dts.
     obind (from_ptr (SPI_getvalue row 3)) (\<lambda>src.
     obind (from_ptr (SPI_getvalue row 5)) (\<lambda>headline.
     obind (from_ptr (SPI_getvalue row 6)) (\<lambda>summary.
     Ok ([[CHR ''\"'', CHR ''('', CHR 0x5C, CHR ''\"'']] @ SDF1_item lob item @ [field_sep, dts, field_sep, src, field_sep]
       @ (case SPI_getvalue row 4 of None \<Rightarrow> [] | Some author \<Rightarrow> [author])
       @ [field_sep, headline, field_sep, summary, [CHR 0x5C, CHR ''\"'', CHR '')'', CHR ''\"'']]))))))"

definition select_rows ::
    "('s, 'd) spi \<Rightarrow> 's \<Rightarrow> datum list \<Rightarrow> ('s, 'd) fctx \<Rightarrow> (spi_row list option \<times> ('s, 'd) fctx) outcome" where
  "select_rows spi stmt args f = obind (SPI_execute_plan spi stmt args True f)
     (\<lambda>(r, f). Ok (case r of SPI_OK_SELECT rows \<Rightarrow> Some rows | _ \<Rightarrow> None, f))"

definition SDF1_last_trade ::
    "(sdf_stmt, 'd) spi \<Rightarrow> string \<Rightarrow> (sdf1 \<Rightarrow> slot) \<Rightarrow> (sdf_stmt, 'd) fctx \<Rightarrow> ((sdf1 \<Rightarrow> slot) \<times> (sdf_stmt, 'd) fctx) outcome" where
  "SDF1_last_trade spi symbol vals f =
     obind (first_row spi SDF1_5 [DText symbol] f) (\<lambda>(r, f).
     Ok (case r of
           None \<Rightarrow> (vals(sdf1_last_open := Ptr None, sdf1_last_price := Ptr None, sdf1_last_vol := Ptr None), FAIL_FRAME_SET SDF1_5 f)
         | Some row \<Rightarrow> (vals(sdf1_last_price := Ptr (SPI_getvalue row 1), sdf1_last_open := Ptr (SPI_getvalue row 2),
             sdf1_last_vol := Ptr (SPI_getvalue row 3)), f)))"

definition SDF1_len :: "spi_row list \<Rightarrow> slot" where
  "SDF1_len rows = Str (snprintf_d (INTEGER_LEN + 1) (int (length rows)))"

text \<open>From the competitors on; \<open>co_id\<close> is the number read from the first row.\<close>

definition SDF1_details ::
    "(sdf_stmt, 'd) spi \<Rightarrow> bool \<Rightarrow> int \<Rightarrow> int \<Rightarrow> string \<Rightarrow> int \<Rightarrow> (sdf1 \<Rightarrow> slot) \<Rightarrow> (sdf_stmt, 'd) fctx \<Rightarrow>
     (spi_row list \<times> (sdf_stmt, 'd) fctx) outcome" where
  "SDF1_details spi lob max_rows start_date symbol co vals f =
     obind (select_rows spi SDF1_2 [DInt64 co, DInt16 (int MAX_COMP_LEN)] f) (\<lambda>(r, f).
     case r of None \<Rightarrow> Ok ([], FAIL_FRAME_SET SDF1_2 f) | Some rows \<Rightarrow>
     obind (build_columns [SDF1_cp_co_name_small, SDF1_cp_in_name_small] [1, 2] [True, True] [SDF1_length_cn, SDF1_length_in]
       rows f) (\<lambda>(arrays, f).
     let vals = set_slots [sdf1_cp_co_name, sdf1_cp_in_name] arrays vals in
     obind (select_rows spi SDF1_3 [DInt64 co, DInt16 (int MAX_FIN_LEN)] f) (\<lambda>(r, f).
     case r of None \<Rightarrow> Ok ([], FAIL_FRAME_SET SDF1_3 f) | Some rows \<Rightarrow>
     let vals = vals(sdf1_fin_len := SDF1_len rows) in
     obind (build_records SDF1_fin_small (tuple_pieces 13) SDF1_length_f rows f) (\<lambda>(fin, f).
     let vals = vals(sdf1_fin := Str fin) in
     obind (select_rows spi SDF1_4 [DText symbol, DDate start_date, DInt16 (i16 max_rows)] f) (\<lambda>(r, f).
     case r of None \<Rightarrow> Ok ([], FAIL_FRAME_SET SDF1_4 f) | Some rows \<Rightarrow>
     let vals = vals(sdf1_day_len := SDF1_len rows) in
     obind (build_records SDF1_day_small (tuple_pieces 5) (SDF1_length_d max_rows) rows f) (\<lambda>(day, f).
     let vals = vals(sdf1_day := Str day) in
     obind (SDF1_last_trade spi symbol vals f) (\<lambda>(vals, f).
     let stmt = (if lob then SDF1_6 else SDF1_7) in
     obind (select_rows spi stmt [DInt64 co, DInt16 (int MAX_NEWS_LEN)] f) (\<lambda>(r, f).
     case r of None \<Rightarrow> Ok ([], FAIL_FRAME_SET stmt f) | Some rows \<Rightarrow>
     let vals = vals(sdf1_news_len := SDF1_len rows) in
     obind (build_records SDF1_news_small (SDF1_news_pieces lob) SDF1_length_n rows f) (\<lambda>(news, f).
     srf_return (map (vals(sdf1_news := Str news)) sdf1_order) f)))))))))"

definition SecurityDetailFrame1 ::
    "(sdf_stmt \<Rightarrow> bool) \<Rightarrow> (sdf_stmt, 'd) spi \<Rightarrow> int \<Rightarrow> int \<Rightarrow> int \<Rightarrow> string \<Rightarrow> (sdf_stmt, 'd) fctx \<Rightarrow>
     (spi_row list \<times> (sdf_stmt, 'd) fctx) outcome" where
  "SecurityDetailFrame1 prepare spi access_lob max_rows start_date symb f =
     (let symbol = copy_len S_SYMB_LEN symb in
      obind (palloc (SDF1_length_d max_rows)) (\<lambda>_.
      obind (plan_queries prepare SDF1_statements (f\<lparr>max_calls := 1\<rparr>)) (\<lambda>f.
      obind (first_row spi SDF1_1 [DText symbol] f) (\<lambda>(r, f).
      case r of
        None \<Rightarrow> Ok ([], FAIL_FRAME_SET SDF1_1 f)
      | Some row \<Rightarrow>
          obind (getvalue_atoll row 2) (\<lambda>co.
          SDF1_details spi (access_lob \<noteq> 0) max_rows start_date symbol co (SDF1_security row (\<lambda>_. Uninit)) f)))))"

section \<open>What it returns\<close>

text \<open>The text of a record of figures, and the fields and the text of a news item.\<close>

definition tuple_text :: "string list \<Rightarrow> string" where
  "tuple_text vs = ''\"('' @ commas vs @ '')\"''"

definition item_text :: "string \<Rightarrow> string" where
  "item_text s = (case s of [] \<Rightarrow> [] | c # cs \<Rightarrow> (if c = CHR 0x5C then replicate 4 (CHR 0x5C) else [c]) @ cs)"

definition news_fields :: "pgapi \<Rightarrow> bool \<Rightarrow> news_item_row \<Rightarrow> string list" where
  "news_fields pg lob n =
     [if lob then item_text (ni_item n) else [], timestamp_out pg (ni_dts n), ni_source n, case_option [] id (ni_author n),
      if lob then [] else ni_headline n, if lob then [] else ni_summary n]"

definition news_text :: "string list \<Rightarrow> string" where
  "news_text fs = [CHR ''\"'', CHR ''('', CHR 0x5C, CHR ''\"''] @ concat (separated field_sep fs)
     @ [CHR 0x5C, CHR ''\"'', CHR '')'', CHR ''\"'']"

definition sd_last :: "string \<Rightarrow> db \<Rightarrow> last_trade_row option" where
  "sd_last symb d = (case filter (\<lambda>l. lt_s_symb l = symb) (last_trade_tbl d) of [] \<Rightarrow> None | l # _ \<Rightarrow> Some l)"

fun sd_out :: "pgapi \<Rightarrow> bool \<Rightarrow> int \<Rightarrow> int \<Rightarrow> detail \<Rightarrow> last_trade_row \<Rightarrow> db \<Rightarrow> spi_row" where
  "sd_out pg lob max_rows start (s, co, ca, ea, zca, zea, ex) l d =
     (let comps = take 3 (competitors (co_id co) d); fins = take 20 (quarters (co_id co) d);
          days = take (nat max_rows) (market_days (s_symb s) start d); news = take 2 (news_items (co_id co) d) in
      [num_txt 2 (s_52wk_high s), Some (date_out pg (s_52wk_high_date s)), num_txt 2 (s_52wk_low s),
       Some (date_out pg (s_52wk_low_date s)), Some (co_ceo co), ad_ctry ca, Some (zc_div zca), ad_line1 ca, ad_line2 ca,
       Some (zc_town zca), Some (ad_zc_code ca), Some (co_desc co), Some (co_name co), Some (co_st_id co),
       Some (array_text (map (\<lambda>(c, i). quoted c) comps)), Some (array_text (map (\<lambda>(c, i). quoted i) comps)),
       Some (array_text (map (\<lambda>r. tuple_text (day_values pg r)) days)), int_txt (int (length days)), num_txt 2 (s_dividend s),
       ad_ctry ea, Some (zc_div zea), ad_line1 ea, ad_line2 ea, Some (zc_town zea), Some (ad_zc_code ea),
       int_txt (ex_close ex), Some (date_out pg (s_exch_date s)), ex_desc ex, Some (ex_name ex), int_txt (ex_num_symb ex),
       int_txt (ex_open ex), Some (array_text (map (\<lambda>r. tuple_text (quarter_values pg r)) fins)), int_txt (int (length fins)),
       num_txt 2 (lt_open_price l), num_txt 2 (lt_price l), int_txt (lt_vol l),
       Some (array_text (map (\<lambda>n. news_text (news_fields pg lob n)) news)), int_txt (int (length news)),
       int_txt (s_num_out s), Some (date_out pg (co_open_date co)), num_txt 2 (s_pe s), Some (s_name s),
       Some (co_sp_rate co), Some (date_out pg (s_start_date s)), num_txt 2 (s_yield s)])"

text \<open>
  The widths of the columns.  The buffer for the quarters leaves out one column and the commas
  between the records, so it counts on dates that do not need all of their 128 characters.
\<close>

abbreviation widths_ok :: "string list \<Rightarrow> nat list \<Rightarrow> bool" where
  "widths_ok vs ws \<equiv> list_all2 (\<lambda>v w. length v \<le> w) vs ws"

definition sd_sized :: "pgapi \<Rightarrow> bool \<Rightarrow> db \<Rightarrow> bool" where
  "sd_sized pg lob d \<longleftrightarrow>
     (\<forall>c \<in> set (company_tbl d). in_i64 (co_id c) \<and> length (co_name c) \<le> CO_NAME_LEN)
     \<and> (\<forall>i \<in> set (industry_tbl d). length (in_name i) \<le> IN_NAME_LEN)
     \<and> (\<forall>r \<in> set (financial_tbl d). widths_ok (quarter_values pg r) [10, 5, 115, 17, 17, 12, 12, 12, 17, 17, 17, 20, 20])
     \<and> (\<forall>r \<in> set (daily_market_tbl d). widths_ok (day_values pg r) [MAXDATELEN, 14, 14, 14, 20])
     \<and> (\<forall>n \<in> set (news_item_tbl d). widths_ok (news_fields pg lob n) [NI_ITEM_LEN, MAXDATELEN, 30, 30, 80, 255])"

section \<open>The texts\<close>

lemma getvalues_all:
  "\<forall>k \<in> set ks. 1 \<le> k \<and> k \<le> length vs \<Longrightarrow> getvalues (map Some vs) ks = Ok (map (\<lambda>k. vs ! (k - 1)) ks)"
  by (induction ks) (auto simp: SPI_getvalue_def)

lemma tuple_pieces_ok:
  assumes "length vs = n"
  shows "tuple_pieces n (map Some vs) = Ok ([''\"(''] @ separated '','' vs @ ['')\"''])"
proof -
  have "map (\<lambda>k. vs ! (k - 1)) [1..<Suc n] = map (\<lambda>k. vs ! k) [0..<n]"
    by (simp add: list_eq_iff_nth_eq del: upt_Suc)
  also have "\<dots> = vs" unfolding assms [symmetric] by (rule map_nth)
  finally have "getvalues (map Some vs) [1..<Suc n] = Ok vs" using assms by (subst getvalues_all) auto
  then show ?thesis by (simp add: tuple_pieces_def del: upt_Suc)
qed

lemma concat_separated: "concat (separated '','' vs) = commas vs"
  by (induction "'',''" vs rule: separated.induct) auto

lemma tuple_text_pieces: "concat ([''\"(''] @ separated '','' vs @ ['')\"'']) = tuple_text vs"
  by (simp add: tuple_text_def concat_separated)

lemma news_pieces_ok:
  "\<exists>ps. SDF1_news_pieces lob (if lob then full_values pg n else headline_values pg n) = Ok ps
    \<and> concat ps = news_text (news_fields pg lob n)"
  by (cases "ni_author n"; cases "ni_item n")
    (auto simp: SDF1_news_pieces_def full_values_def headline_values_def SDF1_item_def news_text_def news_fields_def item_text_def)

lemma length_separated:
  "vs \<noteq> [] \<Longrightarrow> length (concat (separated sep vs)) = sum_list (map length vs) + length sep * (length vs - 1)"
  by (induction sep vs rule: separated.induct) auto

lemma widths_sum: "widths_ok vs ws \<Longrightarrow> sum_list (map length vs) \<le> sum_list ws"
  by (induction rule: list_all2_induct) auto

lemma length_tuple_text:
  assumes "widths_ok vs ws" "vs \<noteq> []"
  shows "length (tuple_text vs) \<le> sum_list ws + length ws + 3"
  using widths_sum [OF assms(1)] length_separated [OF assms(2), of "'',''"] list_all2_lengthD [OF assms(1)] assms(2)
  by (cases vs) (auto simp: tuple_text_def concat_separated [symmetric])

lemma length_news_text:
  assumes "widths_ok (news_fields pg lob n) ws"
  shows "length (news_text (news_fields pg lob n)) \<le> sum_list ws + 33"
proof -
  have "news_fields pg lob n \<noteq> []" "length (news_fields pg lob n) = 6" by (simp_all add: news_fields_def)
  with length_separated [of "news_fields pg lob n" field_sep] widths_sum [OF assms] show ?thesis
    by (simp add: news_text_def field_sep_def)
qed

section \<open>The arrays\<close>

lemma records_fit:
  assumes "\<And>x. x \<in> set xs \<Longrightarrow> pieces (row x) = Ok (ps x)" "\<And>x. x \<in> set xs \<Longrightarrow> length (concat (ps x)) \<le> k"
    and "(k + 1) * length xs + 2 < nat len" "len < 2 ^ 30"
  shows "build_records msg pieces len (map row xs) f = Ok (array_text (map (\<lambda>x. concat (ps x)) xs), f)"
proof -
  have "length (array_text (map (\<lambda>x. concat (ps x)) xs)) \<le> (k + 1) * length (map (\<lambda>x. concat (ps x)) xs) + 2"
    by (rule length_array_text_le) (use assms(2) in auto)
  then have "length (array_text (map (\<lambda>x. concat (ps x)) xs)) < nat len" using assms(3) by simp
  moreover have "2 \<le> len" using assms(3) by simp
  ultimately show ?thesis using build_records_spec [of xs pieces row ps len msg f, OF assms(1)] assms(4) by simp
qed

lemma tuples_fit:
  assumes "\<And>x. x \<in> set xs \<Longrightarrow> widths_ok (vals x) ws" "length ws = n" "0 < n"
    and "(4 + (sum_list ws + n)) * length xs + 2 < nat len" "len < 2 ^ 30"
  shows "build_records msg (tuple_pieces n) len (map (\<lambda>x. map Some (vals x)) xs) f = Ok (array_text (map (\<lambda>x. tuple_text (vals x)) xs), f)"
proof -
  have "length (vals x) = n" if "x \<in> set xs" for x using assms(1) [OF that] assms(2) by (simp add: list_all2_lengthD)
  note len = this
  have "length (concat ([''\"(''] @ separated '','' (vals x) @ ['')\"''])) \<le> sum_list ws + n + 3" if "x \<in> set xs" for x
    using length_tuple_text [OF assms(1) [OF that]] len [OF that] assms(2,3) unfolding tuple_text_pieces by fastforce
  then have "build_records msg (tuple_pieces n) len (map (\<lambda>x. map Some (vals x)) xs) f =
      Ok (array_text (map (\<lambda>x. concat ([''\"(''] @ separated '','' (vals x) @ ['')\"''])) xs), f)"
    by (intro records_fit [of xs "tuple_pieces n" "\<lambda>x. map Some (vals x)"
          "\<lambda>x. [''\"(''] @ separated '','' (vals x) @ ['')\"'']" "sum_list ws + n + 3"])
      (use assms(4,5) len in \<open>simp_all add: tuple_pieces_ok\<close>)
  then show ?thesis by (simp only: tuple_text_pieces)
qed

lemma fin_array:
  assumes "sd_sized pg lob d" "length xs \<le> 20" "set xs \<subseteq> set (financial_tbl d)"
  shows "build_records SDF1_fin_small (tuple_pieces 13) SDF1_length_f (map (\<lambda>r. map Some (quarter_values pg r)) xs) f =
    Ok (array_text (map (\<lambda>r. tuple_text (quarter_values pg r)) xs), f)"
  by (rule tuples_fit [where ws = "[10, 5, 115, 17, 17, 12, 12, 12, 17, 17, 17, 20, 20]"])
    (use assms in \<open>auto simp: sd_sized_def SDF1_length_f_def\<close>)

lemma SDF1_length_d_eq: "0 \<le> m \<Longrightarrow> m < 2 ^ 15 \<Longrightarrow> SDF1_length_d m = 199 * m + 3"
  by (simp add: SDF1_length_d_def in_i32_def)

lemma day_array:
  assumes "sd_sized pg lob d" "0 \<le> m" "m < 2 ^ 15" "length xs \<le> nat m" "set xs \<subseteq> set (daily_market_tbl d)"
  shows "build_records SDF1_day_small (tuple_pieces 5) (SDF1_length_d m) (map (\<lambda>r. map Some (day_values pg r)) xs) f =
    Ok (array_text (map (\<lambda>r. tuple_text (day_values pg r)) xs), f)"
  by (rule tuples_fit [where ws = "[MAXDATELEN, 14, 14, 14, 20]"])
    (use assms in \<open>auto simp: sd_sized_def SDF1_length_d_eq\<close>)

lemma news_array:
  assumes "sd_sized pg lob d" "length xs \<le> 2" "set xs \<subseteq> set (news_item_tbl d)"
  shows "build_records SDF1_news_small (SDF1_news_pieces lob) SDF1_length_n
      (map (if lob then full_values pg else headline_values pg) xs) f =
    Ok (array_text (map (\<lambda>n. news_text (news_fields pg lob n)) xs), f)"
proof -
  obtain ps where ps: "SDF1_news_pieces lob (if lob then full_values pg n else headline_values pg n) = Ok (ps n)"
      "concat (ps n) = news_text (news_fields pg lob n)" for n
    using news_pieces_ok [of lob pg] by metis
  have w: "length (news_text (news_fields pg lob n)) \<le> 500556" if "n \<in> set xs" for n
    using length_news_text [of pg lob n "[NI_ITEM_LEN, MAXDATELEN, 30, 30, 80, 255]"] assms(1,3) that
    by (auto simp: sd_sized_def)
  have "build_records SDF1_news_small (SDF1_news_pieces lob) SDF1_length_n
      (map (if lob then full_values pg else headline_values pg) xs) f = Ok (array_text (map (\<lambda>n. concat (ps n)) xs), f)"
    by (rule records_fit [where k = 500556]) (use assms(2) w ps in \<open>auto simp: SDF1_length_n_def split: if_splits\<close>)
  then show ?thesis by (simp only: ps)
qed

lemma competitor_arrays:
  assumes "\<forall>(c, i) \<in> set xs. length c \<le> 60 \<and> length i \<le> 50" "length xs \<le> 3"
  shows "build_columns [SDF1_cp_co_name_small, SDF1_cp_in_name_small] [1, 2] [True, True] [SDF1_length_cn, SDF1_length_in]
      (map (\<lambda>(c, i). map Some [c, i]) xs) f =
    Ok ([array_text (map (\<lambda>(c, i). quoted c) xs), array_text (map (\<lambda>(c, i). quoted i) xs)], f)"
proof -
  let ?vss = "map (\<lambda>(c, i). [c, i]) xs" and ?ks = "[1, 2] :: nat list" and ?qs = "[True, True]"
  let ?cs = "[SDF1_length_cn, SDF1_length_in]"
  have two: "(\<forall>j < 2. P j) \<longleftrightarrow> P 0 \<and> P (1 :: nat)" for P by (auto simp: numeral_2_eq_2 less_Suc_eq)
  have "length (array_text (cells ?ks ?qs ?vss 0)) < nat SDF1_length_cn"
    by (rule cells_fit [where w = 60]) (use assms in \<open>auto simp: SDF1_length_cn_def\<close>)
  moreover have "length (array_text (cells ?ks ?qs ?vss 1)) < nat SDF1_length_in"
    by (rule cells_fit [where w = 50]) (use assms in \<open>auto simp: SDF1_length_in_def\<close>)
  moreover have "build_columns [SDF1_cp_co_name_small, SDF1_cp_in_name_small] ?ks ?qs ?cs (map (map Some) ?vss) f =
    (if \<forall>j < 2. length (array_text (cells ?ks ?qs ?vss j)) < nat (?cs ! j)
     then Ok (map (\<lambda>j. array_text (cells ?ks ?qs ?vss j)) [0..<2], f) else Fail Crash)"
    by (rule build_columns_spec) (auto simp: two SDF1_length_cn_def SDF1_length_in_def)
  moreover have "[0..<2] = [0, 1 :: nat]" by (simp add: upt_rec)
  moreover have "cells ?ks ?qs ?vss 0 = map (\<lambda>(c, i). quoted c) xs" "cells ?ks ?qs ?vss 1 = map (\<lambda>(c, i). quoted i) xs"
    by (auto simp: cells_def)
  moreover have "map (map Some) ?vss = map (\<lambda>(c, i). map Some [c, i]) xs" by auto
  ultimately show ?thesis by (simp only: two) (simp del: map_map)
qed

section \<open>The frame on every database\<close>

lemma sdf_select:
  "stmt \<in> set (plans f) \<Longrightarrow> sdf_sql pg as stmt (snap_of f) = Ok (SPI_OK_SELECT rows, d) \<Longrightarrow>
   select_rows (sdf_spi pg) stmt as f = Ok (Some rows, f)"
  by (simp add: select_rows_def sdf.exec_read del: SPI_execute_plan_planned)

lemma sd_rows:
  "set (quarters co d) \<subseteq> set (financial_tbl d)" "set (market_days symb start d) \<subseteq> set (daily_market_tbl d)"
  "set (news_items co d) \<subseteq> set (news_item_tbl d)"
  "sd_sized pg lob d \<Longrightarrow> \<forall>(c, i) \<in> set (competitors co d). length c \<le> 60 \<and> length i \<le> 50"
  by (auto simp: quarters_def market_days_def news_items_def competitors_def order_asc_def sd_sized_def split: if_splits)

lemma SDF1_len_eq: "length rows < 10 ^ 10 \<Longrightarrow> SDF1_len rows = Str (show_int (int (length rows)))"
  using length_show_int [of "int (length rows)" 10] by (simp add: SDF1_len_def snprintf_d_def)

text \<open>The slots before the last trade and the news are added.\<close>

definition sd_slots :: "pgapi \<Rightarrow> int \<Rightarrow> int \<Rightarrow> detail \<Rightarrow> db \<Rightarrow> sdf1 \<Rightarrow> slot" where
  "sd_slots pg max_rows start x d =
     (let co = co_id (fst (snd x)); comps = take 3 (competitors co d); fins = take 20 (quarters co d);
          days = take (nat max_rows) (market_days (s_symb (fst x)) start d) in
      (SDF1_security (detail_values pg x) (\<lambda>_. Uninit))(
        sdf1_cp_co_name := Str (array_text (map (\<lambda>(c, i). quoted c) comps)),
        sdf1_cp_in_name := Str (array_text (map (\<lambda>(c, i). quoted i) comps)),
        sdf1_fin_len := Str (show_int (int (length fins))),
        sdf1_fin := Str (array_text (map (\<lambda>r. tuple_text (quarter_values pg r)) fins)),
        sdf1_day_len := Str (show_int (int (length days))),
        sdf1_day := Str (array_text (map (\<lambda>r. tuple_text (day_values pg r)) days))))"

lemma sd_details_run:
  assumes pl: "set SDF1_statements \<subseteq> set (plans f)" and d: "d = snap_of f" and sized: "sd_sized pg lob d"
    and m: "0 \<le> max_rows" "max_rows < 2 ^ 15" and x: "x = (s, co, rest)" "s_symb s = symbol"
  shows "SDF1_details (sdf_spi pg) lob max_rows start symbol (co_id co) (SDF1_security (detail_values pg x) (\<lambda>_. Uninit)) f =
    obind (SDF1_last_trade (sdf_spi pg) symbol (sd_slots pg max_rows start x d) f) (\<lambda>(vals, f).
    let stmt = (if lob then SDF1_6 else SDF1_7) in
    obind (select_rows (sdf_spi pg) stmt [DInt64 (co_id co), DInt16 (int MAX_NEWS_LEN)] f) (\<lambda>(r, f).
    case r of None \<Rightarrow> Ok ([], FAIL_FRAME_SET stmt f) | Some rows \<Rightarrow>
    let vals = vals(sdf1_news_len := SDF1_len rows) in
    obind (build_records SDF1_news_small (SDF1_news_pieces lob) SDF1_length_n rows f) (\<lambda>(news, f).
    srf_return (map (vals(sdf1_news := Str news)) sdf1_order) f)))"
proof -
  let ?co = "co_id co"
  let ?comps = "take 3 (competitors ?co d)" and ?fins = "take 20 (quarters ?co d)"
  let ?days = "take (nat max_rows) (market_days symbol start d)"
  have mem: "SDF1_2 \<in> set (plans f)" "SDF1_3 \<in> set (plans f)" "SDF1_4 \<in> set (plans f)"
    using pl by (auto simp: SDF1_statements_def)
  have s2: "select_rows (sdf_spi pg) SDF1_2 [DInt64 ?co, DInt16 (int MAX_COMP_LEN)] f = Ok (Some (map (\<lambda>(c, i). map Some [c, i]) ?comps), f)"
    using mem(1) d by (intro sdf_select) (simp_all add: sdf_sql_def SQLSDF1_2_def sql_limit_def take_map)
  have s3: "select_rows (sdf_spi pg) SDF1_3 [DInt64 ?co, DInt16 (int MAX_FIN_LEN)] f = Ok (Some (map (\<lambda>r. map Some (quarter_values pg r)) ?fins), f)"
    using mem(2) d by (intro sdf_select) (simp_all add: sdf_sql_def SQLSDF1_3_def sql_limit_def take_map)
  have "i16 max_rows = max_rows" using m by (simp add: i16_def)
  then have s4: "select_rows (sdf_spi pg) SDF1_4 [DText symbol, DDate start, DInt16 (i16 max_rows)] f =
      Ok (Some (map (\<lambda>r. map Some (day_values pg r)) ?days), f)"
    using mem(3) d m(1) by (intro sdf_select) (simp_all add: sdf_sql_def SQLSDF1_4_def sql_limit_def take_map)
  have sub: "set ?fins \<subseteq> set (financial_tbl d)" "set ?days \<subseteq> set (daily_market_tbl d)"
      "\<forall>(c, i) \<in> set ?comps. length c \<le> 60 \<and> length i \<le> 50"
    using sd_rows(1) [of ?co d] sd_rows(2) [of symbol start d] sd_rows(4) [OF sized, of ?co] by (auto dest: in_set_takeD)
  have lens: "length ?comps \<le> 3" "length ?fins \<le> 20" "length ?days \<le> nat max_rows" by simp_all
  have days: "length ?days < 10 ^ 10"
  proof -
    have "length ?days \<le> nat max_rows" by simp
    also have "\<dots> < 2 ^ 15" using m(2) by simp
    finally show ?thesis by (simp del: length_take)
  qed
  show ?thesis
    unfolding SDF1_details_def s2 obind.simps prod.case option.case competitor_arrays [OF sub(3) lens(1)]
      Let_def s3 fin_array [OF sized lens(2) sub(1)] s4 day_array [OF sized m lens(3) sub(2)] set_slots.simps
    using days by (simp add: sd_slots_def x SDF1_len_eq Let_def)
qed

lemma sd_news_run:
  assumes "set SDF1_statements \<subseteq> set (plans f)" "d = snap_of f" "sd_sized pg lob d"
  shows "select_rows (sdf_spi pg) (if lob then SDF1_6 else SDF1_7) [DInt64 co, DInt16 (int MAX_NEWS_LEN)] f =
      Ok (Some (map (if lob then full_values pg else headline_values pg) (take 2 (news_items co d))), f)"
    and "build_records SDF1_news_small (SDF1_news_pieces lob) SDF1_length_n
        (map (if lob then full_values pg else headline_values pg) (take 2 (news_items co d))) f =
      Ok (array_text (map (\<lambda>n. news_text (news_fields pg lob n)) (take 2 (news_items co d))), f)"
proof -
  have mem: "SDF1_6 \<in> set (plans f)" "SDF1_7 \<in> set (plans f)" using assms(1) by (auto simp: SDF1_statements_def)
  show "select_rows (sdf_spi pg) (if lob then SDF1_6 else SDF1_7) [DInt64 co, DInt16 (int MAX_NEWS_LEN)] f =
      Ok (Some (map (if lob then full_values pg else headline_values pg) (take 2 (news_items co d))), f)"
    using mem assms(2) by (intro sdf_select) (simp_all add: sdf_sql_def SQLSDF1_6_def SQLSDF1_7_def sql_limit_def take_map)
  have "set (take 2 (news_items co d)) \<subseteq> set (news_item_tbl d)" using sd_rows(3) by (fast dest: in_set_takeD)
  then show "build_records SDF1_news_small (SDF1_news_pieces lob) SDF1_length_n
      (map (if lob then full_values pg else headline_values pg) (take 2 (news_items co d))) f =
    Ok (array_text (map (\<lambda>n. news_text (news_fields pg lob n)) (take 2 (news_items co d))), f)"
    by (intro news_array [OF assms(3)]) simp_all
qed

lemma sd_last_run:
  assumes "SDF1_5 \<in> set (plans f)" "d = snap_of f"
  shows "SDF1_last_trade (sdf_spi pg) symb vals f =
    Ok (case sd_last symb d of
      None \<Rightarrow> (vals(sdf1_last_open := Ptr None, sdf1_last_price := Ptr None, sdf1_last_vol := Ptr None), FAIL_FRAME_SET SDF1_5 f)
    | Some l \<Rightarrow> (vals(sdf1_last_price := Str (numeric_out 2 (lt_price l)), sdf1_last_open := Str (numeric_out 2 (lt_open_price l)),
        sdf1_last_vol := Str (show_int (lt_vol l))), f))"
proof -
  let ?ls = "filter (\<lambda>l. lt_s_symb l = symb) (last_trade_tbl d)"
  have "first_row (sdf_spi pg) SDF1_5 [DText symb] f =
      Ok (case map (\<lambda>l. [num_txt 2 (lt_price l), num_txt 2 (lt_open_price l), int_txt (lt_vol l)]) ?ls of [] \<Rightarrow> None | row # _ \<Rightarrow> Some row, f)"
    using sdf.first_row_eq [OF assms(1), of pg "[DText symb]"] assms(2) by (simp add: sdf_sql_def SQLSDF1_5_def)
  then show ?thesis by (cases ?ls) (simp_all add: SDF1_last_trade_def sd_last_def)
qed

lemma sd_details:
  assumes pl: "set SDF1_statements \<subseteq> set (plans f)" and d: "d = snap_of f" and sized: "sd_sized pg lob d"
    and m: "0 \<le> max_rows" "max_rows < 2 ^ 15" and x: "x = (s, co, ca, ea, zca, zea, ex)" "s_symb s = symbol" and mc: "max_calls f = 1"
  shows "SDF1_details (sdf_spi pg) lob max_rows start symbol (co_id co) (SDF1_security (detail_values pg x) (\<lambda>_. Uninit)) f =
    Ok (case sd_last symbol d of
          None \<Rightarrow> ([], FAIL_FRAME_SET SDF1_5 f)
        | Some l \<Rightarrow> ([sd_out pg lob max_rows start x l d], f))"
proof -
  let ?g = "FAIL_FRAME_SET SDF1_5 f"
  let ?news = "take 2 (news_items (co_id co) d)"
  have mem: "SDF1_5 \<in> set (plans f)" using pl by (auto simp: SDF1_statements_def)
  have gpl: "set SDF1_statements \<subseteq> set (plans ?g)" "d = snap_of ?g" using pl d by simp_all
  have len: "SDF1_len (map h ?news) = Str (show_int (int (length ?news)))" for h by (simp add: SDF1_len_eq)
  note run = sd_details_run [OF pl d sized m x, of start]
  show ?thesis
  proof (cases "sd_last symbol d")
    case None
    then show ?thesis
      unfolding run sd_last_run [OF mem d] Let_def
      by (simp only: option.case obind.simps prod.case sd_news_run [OF gpl sized]) (simp add: srf_return_def)
  next
    case (Some l)
    then show ?thesis
      unfolding run sd_last_run [OF mem d] Let_def
      by (simp only: option.case obind.simps prod.case sd_news_run [OF pl d sized] len)
        (simp add: srf_return_def mc sdf1_order_def sd_slots_def SDF1_security_def x(1) x(2) Let_def)
  qed
qed

text \<open>
  C40. Security-Detail on every database whose columns respect their widths, for every admissible
  number of days: an unknown security or one without a last trade gets no row and one warning
  that names the query; otherwise the frame returns one row with the data of the security, its
  company and exchange, up to three competitors, the first twenty quarters in order of time,
  the requested number of days from the given date on, the last trade and two news items, in
  full or as headlines as asked for.  All five texts fit their buffers and nothing changes.
\<close>

theorem security_detail_row:
  assumes "\<And>s. s \<in> set SDF1_statements \<Longrightarrow> prepare s" "d = snap_of f" "sd_sized pg (access_lob \<noteq> 0) d"
    and "is_cstr symb" "0 \<le> max_rows" "max_rows < 2 ^ 15"
  shows "\<exists>ps. SecurityDetailFrame1 prepare (sdf_spi pg) access_lob max_rows start symb f =
    Ok (case (sd_join (take 15 symb) d, sd_last (take 15 symb) d) of
          ([], _) \<Rightarrow> ([], f\<lparr>plans := ps, warnings := warnings f @ [SDF1_1], max_calls := 0\<rparr>)
        | (x # _, None) \<Rightarrow> ([], f\<lparr>plans := ps, warnings := warnings f @ [SDF1_5], max_calls := 0\<rparr>)
        | (x # _, Some l) \<Rightarrow> ([sd_out pg (access_lob \<noteq> 0) max_rows start x l d], f\<lparr>max_calls := 1, plans := ps\<rparr>))"
proof -
  obtain ps where ps: "plan_queries prepare SDF1_statements (f\<lparr>max_calls := 1\<rparr>) = Ok (f\<lparr>max_calls := 1, plans := ps\<rparr>)"
    and sub: "set SDF1_statements \<subseteq> set ps"
    using planned [of SDF1_statements prepare "f\<lparr>max_calls := 1\<rparr>", OF assms(1)] by auto
  let ?g = "f\<lparr>max_calls := 1, plans := ps\<rparr>" and ?symb = "take 15 symb"
  have mem: "SDF1_1 \<in> set (plans ?g)" and pl: "set SDF1_statements \<subseteq> set (plans ?g)" and dg: "d = snap_of ?g"
    using sub assms(2) by (auto simp: SDF1_statements_def)
  have first: "first_row (sdf_spi pg) SDF1_1 [DText ?symb] ?g =
      Ok (case map (detail_values pg) (sd_join ?symb d) of [] \<Rightarrow> None | row # _ \<Rightarrow> Some row, ?g)"
    using sdf.first_row_eq [OF mem, of pg "[DText ?symb]"] assms(2) by (simp add: sdf_sql_def SQLSDF1_1_def)
  have alloc: "palloc (SDF1_length_d max_rows) = Ok ()"
    using assms(5,6) by (simp add: palloc_def SDF1_length_d_eq)
  have frame: "SecurityDetailFrame1 prepare (sdf_spi pg) access_lob max_rows start symb f =
      (case map (detail_values pg) (sd_join ?symb d) of
        [] \<Rightarrow> Ok ([], FAIL_FRAME_SET SDF1_1 ?g)
      | row # _ \<Rightarrow> obind (getvalue_atoll row 2) (\<lambda>co.
          SDF1_details (sdf_spi pg) (access_lob \<noteq> 0) max_rows start ?symb co (SDF1_security row (\<lambda>_. Uninit)) ?g))"
    using ps first alloc assms(4) by (simp add: SecurityDetailFrame1_def Let_def split: list.split)
  show ?thesis
  proof (cases "sd_join ?symb d")
    case Nil
    then show ?thesis by (intro exI [of _ ps]) (simp add: frame FAIL_FRAME_SET_def)
  next
    case (Cons x xs)
    obtain s co ca ea zca zea ex where x: "x = (s, co, ca, ea, zca, zea, ex)" by (metis surj_pair)
    have "x \<in> set (sd_join ?symb d)" using Cons by simp
    then have "s_symb s = ?symb" and "co \<in> set (company_tbl d)" unfolding x by (auto simp: sd_join_def split: if_splits)
    then have "getvalue_atoll (detail_values pg x) 2 = Ok (co_id co)"
      using assms(3) by (simp add: x getvalue_atoll_def sd_sized_def)
    moreover note sd_details [OF pl dg assms(3,5,6) x \<open>s_symb s = ?symb\<close>, of start]
    ultimately show ?thesis
      by (intro exI [of _ ps]) (simp add: frame Cons FAIL_FRAME_SET_def split: option.split)
  qed
qed

section \<open>Witness\<close>

definition detail_exchange :: exchange_row where
  "detail_exchange = \<lparr>ex_id = ''NYSE'', ex_name = ''New York'', ex_num_symb = 1, ex_open = 930, ex_close = 1600,
     ex_desc = None, ex_ad_id = 1\<rparr>"

definition detail_address :: address_row where
  "detail_address = \<lparr>ad_id = 1, ad_line1 = None, ad_line2 = None, ad_zc_code = ''10005'', ad_ctry = None\<rparr>"

definition detail_zip :: zip_code_row where
  "detail_zip = \<lparr>zc_code = ''10005'', zc_town = ''New York'', zc_div = ''NY''\<rparr>"

definition detail_news :: news_item_row where
  "detail_news = \<lparr>ni_id = 6, ni_headline = ''Up'', ni_summary = ''Up 5'', ni_item = CHR 0x5C # ''x4142'', ni_dts = 3,
     ni_source = ''Wire'', ni_author = None\<rparr>"

definition detail_db :: db where
  "detail_db = sample_db\<lparr>exchange_tbl := [detail_exchange], address_tbl := [detail_address], zip_code_tbl := [detail_zip],
     industry_tbl := [\<lparr>in_id = ''IN'', in_name = ''Tools'', in_sc_id = ''SC''\<rparr>],
     company_competitor_tbl := [\<lparr>cp_co_id = 8, cp_comp_co_id = 8, cp_in_id = ''IN''\<rparr>],
     daily_market_tbl := [\<lparr>dm_date = 2, dm_s_symb = ''AB'', dm_close = 1000, dm_high = 1100, dm_low = 900, dm_vol = 7\<rparr>],
     news_item_tbl := [detail_news], news_xref_tbl := [\<lparr>nx_ni_id = 6, nx_co_id = 8\<rparr>], financial_tbl := []\<rparr>"

definition detail_ctx :: "(sdf_stmt, pgsession) fctx" where
  "detail_ctx = \<lparr>session = start_call detail_db, plans = [], warnings = [], max_calls = 0\<rparr>"

lemma detail_tables:
  "company_tbl detail_db = [sample_company]" "security_tbl detail_db = [sample_security]" "last_trade_tbl detail_db = [sample_last_trade]"
  "exchange_tbl detail_db = [detail_exchange]" "address_tbl detail_db = [detail_address]" "zip_code_tbl detail_db = [detail_zip]"
  "industry_tbl detail_db = [\<lparr>in_id = ''IN'', in_name = ''Tools'', in_sc_id = ''SC''\<rparr>]" "news_item_tbl detail_db = [detail_news]"
  "daily_market_tbl detail_db = [\<lparr>dm_date = 2, dm_s_symb = ''AB'', dm_close = 1000, dm_high = 1100, dm_low = 900, dm_vol = 7\<rparr>]"
  "financial_tbl detail_db = []"
  by (simp_all add: detail_db_def)

lemmas detail_rows = detail_exchange_def detail_address_def detail_zip_def detail_news_def sample_rows

theorem security_detail_row_witness:
  "\<exists>ps. SecurityDetailFrame1 (\<lambda>_. True) (sdf_spi sample_pg) 1 5 0 ''AB'' detail_ctx =
    Ok ([sd_out sample_pg True 5 0 (sample_security, sample_company, detail_address, detail_address, detail_zip, detail_zip,
         detail_exchange) sample_last_trade detail_db], detail_ctx\<lparr>max_calls := 1, plans := ps\<rparr>)"
proof -
  have "sd_sized sample_pg True detail_db"
    by (simp add: sd_sized_def detail_tables detail_rows in_i64_def day_values_def news_fields_def item_text_def sample_pg_def
        show_int_def show_nat.simps numeric_out_def)
  moreover have "sd_join ''AB'' detail_db =
      [(sample_security, sample_company, detail_address, detail_address, detail_zip, detail_zip, detail_exchange)]"
    "sd_last ''AB'' detail_db = Some sample_last_trade"
    by (simp_all add: sd_join_def sd_last_def detail_tables detail_rows)
  moreover have "snap_of detail_ctx = detail_db" by (simp add: detail_ctx_def snap_of_def)
  ultimately show ?thesis
    using security_detail_row [of "\<lambda>_. True" detail_db detail_ctx sample_pg 1 "''AB''" 5 0] by (simp add: is_cstr_def)
qed

end
