(* ===== verification/Appends.thy ===== *)
theory Appends
  imports ArrayBuf
begin

text \<open>
  Frames that fill a dozen array columns side by side, one buffer per column, with queries in
  between (Trade-Lookup, Trade-Update).

  What such a frame writes is a list of appends, each to one column and in one of the four ways
  the code has to keep the count of what is left.  \<open>emits\<close> executes such a list.  A loop of a
  frame is shown to execute the concatenation of the lists of its rounds (\<open>append_loop\<close>); what a
  list writes to a column is \<open>out\<close>; and \<open>emits_ok\<close> says when all of it fits.
\<close>

section \<open>Appending to one of many buffers\<close>

text \<open>
  \<^item> \<open>Plain\<close>: \<open>strncat(b, s, left); left -= strlen(s);\<close> (for a single character \<open>left--\<close>),
  \<^item> \<open>Pre\<close>: \<open>left -= strlen(s); strncat(b, s, left);\<close>
  \<^item> \<open>Extra\<close>: \<open>strncat(b, s, left--); left -= strlen(s);\<close>
  \<^item> \<open>Keep\<close>: \<open>strncat(b, s, left);\<close>

  each followed by \<open>if (left < 0) FAIL_FRAME(\<dots>)\<close>.
\<close>

datatype mode = Plain | Pre | Extra | Keep

type_synonym 'c emit = "'c \<times> mode \<times> string"
type_synonym 'c bufs = "'c \<Rightarrow> abuf"

definition put_as :: "mode \<Rightarrow> 's \<Rightarrow> string \<Rightarrow> abuf \<Rightarrow> ('s, 'd) fctx \<Rightarrow> (abuf \<times> ('s, 'd) fctx) outcome" where
  "put_as m msg s ab f =
     (case ab of (b, left) \<Rightarrow>
      let left' = (case m of Keep \<Rightarrow> left | Extra \<Rightarrow> i32 (left - 1 - int (length s)) | _ \<Rightarrow> i32 (left - int (length s))) in
      obind (strncat b s (if m = Pre then left' else left)) (\<lambda>b.
      Ok ((b, left'), if left' < 0 then FAIL_FRAME msg f else f)))"

definition emit :: "('c \<Rightarrow> 's) \<Rightarrow> 'c emit \<Rightarrow> 'c bufs \<Rightarrow> ('s, 'd) fctx \<Rightarrow> ('c bufs \<times> ('s, 'd) fctx) outcome" where
  "emit small e bufs f =
     (case e of (c, m, s) \<Rightarrow> obind (put_as m (small c) s (bufs c) f) (\<lambda>(ab, f). Ok (bufs(c := ab), f)))"

fun emits :: "('c \<Rightarrow> 's) \<Rightarrow> 'c emit list \<Rightarrow> 'c bufs \<Rightarrow> ('s, 'd) fctx \<Rightarrow> ('c bufs \<times> ('s, 'd) fctx) outcome" where
  "emits small [] bufs f = Ok (bufs, f)"
| "emits small (e # es) bufs f = obind (emit small e bufs f) (\<lambda>(bufs, f). emits small es bufs f)"

text \<open>Opening the buffers: all are allocated before the first is written to.\<close>

fun pallocs :: "('c \<times> int) list \<Rightarrow> unit outcome" where
  "pallocs [] = Ok ()"
| "pallocs ((c, len) # ls) = obind (palloc len) (\<lambda>_. pallocs ls)"

fun open_bufs :: "('c \<times> int) list \<Rightarrow> 'c bufs outcome" where
  "open_bufs [] = Ok (\<lambda>_. (\<lparr>cap = 0, ctext = []\<rparr>, 0))"
| "open_bufs ((c, len) # ls) = obind (open_array len) (\<lambda>ab. obind (open_bufs ls) (\<lambda>bufs. Ok (bufs(c := ab))))"

text \<open>The slots of the result row that point to the buffers.\<close>

definition buf_slots :: "('c \<times> int) list \<Rightarrow> 'c bufs \<Rightarrow> ('c \<Rightarrow> slot) \<Rightarrow> ('c \<Rightarrow> slot)" where
  "buf_slots ls bufs vals = (\<lambda>c. if c \<in> fst ` set ls then Str (ctext (fst (bufs c))) else vals c)"

text \<open>The lists that recur: a comma for every column of a group, a value in quotes, the closing braces.\<close>

definition seps :: "nat \<Rightarrow> 'c list \<Rightarrow> 'c emit list" where
  "seps n cs = (if 0 < n then map (\<lambda>c. (c, Plain, '','')) cs else [])"

definition quote_as :: "mode \<Rightarrow> 'c \<Rightarrow> string \<Rightarrow> 'c emit list" where
  "quote_as m c v = [(c, Plain, ''\"''), (c, m, v), (c, Plain, ''\"'')]"

definition closes :: "'c list \<Rightarrow> 'c emit list" where
  "closes cs = map (\<lambda>c. (c, Plain, ''}'')) cs"

text \<open>The loop over the rows of a result; \<open>n\<close> counts the rows a group of columns has received.\<close>

fun emit_rows :: "('c \<Rightarrow> 's) \<Rightarrow> (nat \<Rightarrow> spi_row \<Rightarrow> 'c emit list outcome) \<Rightarrow> nat \<Rightarrow> spi_row list \<Rightarrow> 'c bufs \<Rightarrow>
    ('s, 'd) fctx \<Rightarrow> ((nat \<times> 'c bufs) \<times> ('s, 'd) fctx) outcome" where
  "emit_rows small es n [] bufs f = Ok ((n, bufs), f)"
| "emit_rows small es n (row # rows) bufs f =
     obind (es n row) (\<lambda>e.
     obind (emits small e bufs f) (\<lambda>(bufs, f).
     emit_rows small es (Suc n) rows bufs f))"

text \<open>A loop whose body may leave it with \<open>break\<close>: the body says whether to go on.\<close>

fun for_each :: "('i \<Rightarrow> 'k \<Rightarrow> 'c bufs \<Rightarrow> ('s, 'd) fctx \<Rightarrow> (((bool \<times> 'k) \<times> 'c bufs) \<times> ('s, 'd) fctx) outcome) \<Rightarrow> 'i list \<Rightarrow> 'k \<Rightarrow>
    'c bufs \<Rightarrow> ('s, 'd) fctx \<Rightarrow> (('k \<times> 'c bufs) \<times> ('s, 'd) fctx) outcome" where
  "for_each body [] k bufs f = Ok ((k, bufs), f)"
| "for_each body (i # is) k bufs f =
     obind (body i k bufs f) (\<lambda>(((go, k), bufs), f). if go then for_each body is k bufs f else Ok ((k, bufs), f))"

text \<open>
  \<open>ret = SPI_execute_plan(\<dots>); if (ret != SPI_OK_SELECT) \<dots>\<close> with \<open>SPI_processed\<close> and the rows, of a
  statement executed with the given \<open>read_only\<close>.
\<close>

definition query ::
    "('s, 'd) spi \<Rightarrow> bool \<Rightarrow> 's \<Rightarrow> datum list \<Rightarrow> ('s, 'd) fctx \<Rightarrow> (spi_row list option \<times> ('s, 'd) fctx) outcome" where
  "query spi read_only stmt args f = obind (SPI_execute_plan spi stmt args read_only f)
     (\<lambda>(r, f). Ok (case r of SPI_OK_SELECT rows \<Rightarrow> Some rows | _ \<Rightarrow> None, f))"

text \<open>
  The idiom of a frame that executes a query and appends every row of it: on a failing query
  \<open>FAIL_FRAME_SET\<close>, and the caller leaves the trade (\<open>None\<close>); else the counter after the rows.
\<close>

definition append_query ::
    "('c \<Rightarrow> 's) \<Rightarrow> ('s, 'd) spi \<Rightarrow> bool \<Rightarrow> 's \<Rightarrow> datum list \<Rightarrow> (nat \<Rightarrow> spi_row \<Rightarrow> 'c emit list outcome) \<Rightarrow> nat \<Rightarrow> 'c bufs \<Rightarrow>
     ('s, 'd) fctx \<Rightarrow> ((nat option \<times> 'c bufs) \<times> ('s, 'd) fctx) outcome" where
  "append_query small spi read_only stmt args es n bufs f =
     obind (query spi read_only stmt args f) (\<lambda>(r, f).
     case r of
       None \<Rightarrow> Ok ((None, bufs), FAIL_FRAME_SET stmt f)
     | Some rows \<Rightarrow> obind (emit_rows small es n rows bufs f) (\<lambda>((n, bufs), f). Ok ((Some n, bufs), f)))"

section \<open>Sequences of appends\<close>

lemma obind_cong: "m = m' \<Longrightarrow> (\<And>x. m' = Ok x \<Longrightarrow> k x = k' x) \<Longrightarrow> obind m k = obind m' k'"
  by (cases m') auto

lemma emits_append:
  "emits small (es @ es') bufs f = obind (emits small es bufs f) (\<lambda>(bufs, f). emits small es' bufs f)"
  by (induction es arbitrary: bufs f) (simp_all add: obind_assoc case_prod_unfold)

text \<open>Nothing but a warning happens to the context.\<close>

lemma emit_frame: "emit small e bufs f = Ok (bufs', f') \<Longrightarrow> \<exists>w. f' = f\<lparr>warnings := w\<rparr>"
proof (cases e)
  case (fields c m s)
  assume "emit small e bufs f = Ok (bufs', f')"
  then have "f' = f \<or> f' = FAIL_FRAME (small c) f"
    by (auto simp: fields emit_def put_as_def obind_eq_Ok Let_def split: prod.splits if_splits)
  then show ?thesis
  proof
    assume "f' = f"
    then have "f' = f\<lparr>warnings := warnings f\<rparr>" by simp
    then show ?thesis ..
  qed (auto simp: FAIL_FRAME_def)
qed

lemma emits_frame: "emits small es bufs f = Ok (bufs', f') \<Longrightarrow> \<exists>w. f' = f\<lparr>warnings := w\<rparr>"
proof (induction es arbitrary: bufs f)
  case Nil
  then have "f' = f\<lparr>warnings := warnings f\<rparr>" by simp
  then show ?case ..
next
  case (Cons e es)
  then show ?case by (fastforce simp: obind_eq_Ok dest: emit_frame)
qed

lemma emit_session:
  "emit small e bufs (f\<lparr>session := s\<rparr>) = obind (emit small e bufs f) (\<lambda>(bufs, f). Ok (bufs, f\<lparr>session := s\<rparr>))"
proof (cases e)
  case (fields c m s')
  have w: "FAIL_FRAME msg (f\<lparr>session := s\<rparr>) = (FAIL_FRAME msg f)\<lparr>session := s\<rparr>" for msg by (cases f) (simp add: FAIL_FRAME_def)
  show ?thesis
    by (cases "bufs c") (auto simp: fields emit_def put_as_def Let_def w obind_assoc intro!: obind_cong)
qed

lemma emits_session:
  "emits small es bufs (f\<lparr>session := s\<rparr>) = obind (emits small es bufs f) (\<lambda>(bufs, f). Ok (bufs, f\<lparr>session := s\<rparr>))"
proof (induction es arbitrary: bufs f)
  case (Cons e es)
  then show ?case by (simp add: emit_session obind_assoc case_prod_unfold)
qed simp

text \<open>The only way for appends to fail is to write past a buffer.\<close>

lemma emit_fault: "emit small e bufs f = Fail x \<Longrightarrow> x = Crash"
  by (cases e) (auto simp: emit_def put_as_def strncat_def Let_def obind_eq_Fail split: prod.splits if_splits)

lemma emits_fault: "emits small es bufs f = Fail x \<Longrightarrow> x = Crash"
  by (induction es arbitrary: bufs f) (auto simp: obind_eq_Fail dest: emit_fault)

text \<open>The list a loop over rows executes, when no row has a null where the code expects a text.\<close>

fun rows_emits :: "(nat \<Rightarrow> 'r \<Rightarrow> 'c emit list) \<Rightarrow> nat \<Rightarrow> 'r list \<Rightarrow> 'c emit list" where
  "rows_emits es n [] = []"
| "rows_emits es n (r # rs) = es n r @ rows_emits es (Suc n) rs"

lemma emit_rows_emits:
  assumes "\<And>n r. r \<in> set rs \<Longrightarrow> ps n (row r) = Ok (es n r)"
  shows "emit_rows small ps n (map row rs) bufs f =
    obind (emits small (rows_emits es n rs) bufs f) (\<lambda>(bufs, f). Ok ((n + length rs, bufs), f))"
  using assms
proof (induction rs arbitrary: n bufs f)
  case (Cons r rs)
  then show ?case by (simp add: emits_append obind_assoc case_prod_unfold)
qed simp

section \<open>Code that writes a list of appends\<close>

text \<open>
  \<open>writes small ss d op es r d'\<close>: when the statements \<open>ss\<close> are planned and the session is \<open>d\<close>, the
  operation amounts to the appends \<open>es\<close>, leaves the session \<open>d'\<close> and returns \<open>r\<close>.
\<close>

definition writes :: "('c \<Rightarrow> 's) \<Rightarrow> 's list \<Rightarrow> 'd \<Rightarrow> ('c bufs \<Rightarrow> ('s, 'd) fctx \<Rightarrow> (('r \<times> 'c bufs) \<times> ('s, 'd) fctx) outcome) \<Rightarrow>
    'c emit list \<Rightarrow> 'r \<Rightarrow> 'd \<Rightarrow> bool" where
  "writes small ss d op es r d' \<longleftrightarrow> (\<forall>bufs f. set ss \<subseteq> set (plans f) \<longrightarrow> session f = d \<longrightarrow>
     op bufs f = obind (emits small es bufs (f\<lparr>session := d'\<rparr>)) (\<lambda>(bufs, f). Ok ((r, bufs), f)))"

lemma writesD:
  "writes small ss d op es r d' \<Longrightarrow> set ss \<subseteq> set (plans f) \<Longrightarrow> session f = d \<Longrightarrow>
   op bufs f = obind (emits small es bufs (f\<lparr>session := d'\<rparr>)) (\<lambda>(bufs, f). Ok ((r, bufs), f))"
  by (simp add: writes_def)

lemma writes_return: "writes small ss d (\<lambda>bufs f. Ok ((r, bufs), f)) [] r d"
  by (auto simp: writes_def)

lemma writes_emits: "writes small ss d (\<lambda>bufs f. obind (emits small es bufs f) (\<lambda>(bufs, f). Ok ((r, bufs), f))) es r d"
  by (auto simp: writes_def)

lemma writes_bind:
  assumes "writes small ss d op es r d'" "writes small ss d' (op' r) es' r' d''"
  shows "writes small ss d (\<lambda>bufs f. obind (op bufs f) (\<lambda>((r, bufs), f). op' r bufs f)) (es @ es') r' d''"
  unfolding writes_def
proof (intro allI impI)
  fix bufs and f :: "('b, 'c) fctx"
  assume f: "set ss \<subseteq> set (plans f)" "session f = d"
  have "obind (op bufs f) (\<lambda>((r, bufs), f). op' r bufs f) = obind (emits small es bufs (f\<lparr>session := d'\<rparr>)) (\<lambda>(b, g). op' r b g)"
    by (simp add: writesD [OF assms(1) f] obind_assoc case_prod_unfold)
  also have "\<dots> = obind (emits small es bufs (f\<lparr>session := d'\<rparr>))
      (\<lambda>(b, g). obind (emits small es' b (g\<lparr>session := d''\<rparr>)) (\<lambda>(b, f). Ok ((r', b), f)))"
  proof (rule obind_cong [OF refl])
    fix x
    assume e: "emits small es bufs (f\<lparr>session := d'\<rparr>) = Ok x"
    obtain b g where x: "x = (b, g)" by fastforce
    obtain w where "g = f\<lparr>session := d', warnings := w\<rparr>" using emits_frame [OF e [unfolded x]] by auto
    then have "set ss \<subseteq> set (plans g)" "session g = d'" using f by simp_all
    from writesD [OF assms(2) this] show "(case x of (b, g) \<Rightarrow> op' r b g) =
        (case x of (b, g) \<Rightarrow> obind (emits small es' b (g\<lparr>session := d''\<rparr>)) (\<lambda>(b, f). Ok ((r', b), f)))" by (simp add: x)
  qed
  also have "\<dots> = obind (emits small (es @ es') bufs (f\<lparr>session := d''\<rparr>)) (\<lambda>(b, f). Ok ((r', b), f))"
    by (simp add: emits_append emits_session obind_assoc case_prod_unfold)
  finally show "obind (op bufs f) (\<lambda>((r, bufs), f). op' r bufs f) =
      obind (emits small (es @ es') bufs (f\<lparr>session := d''\<rparr>)) (\<lambda>(b, f). Ok ((r', b), f))" .
qed

lemma writes_map:
  assumes "writes small ss d op es r d'" "\<And>bufs f. op' r bufs f = Ok ((r', bufs), f)"
  shows "writes small ss d (\<lambda>bufs f. obind (op bufs f) (\<lambda>((r, bufs), f). op' r bufs f)) es r' d'"
proof -
  have "writes small ss d' (op' r) [] r' d'" unfolding assms(2) [abs_def] by (rule writes_return)
  from writes_bind [where op' = op', OF assms(1) this] show ?thesis by simp
qed

lemma writes_rows:
  assumes "\<And>n r. r \<in> set rs \<Longrightarrow> ps n (row r) = Ok (es n r)"
  shows "writes small ss d (emit_rows small ps n (map row rs)) (rows_emits es n rs) (n + length rs) d"
  by (auto simp: writes_def emit_rows_emits [where ps = ps and row = row and es = es and rs = rs, OF assms])

text \<open>A call that does not touch the buffers, such as a statement, comes first or in between.\<close>

lemma writes_call:
  assumes "\<And>f. set ss \<subseteq> set (plans f) \<Longrightarrow> session f = d \<Longrightarrow> call f = Ok (x, f\<lparr>session := d'\<rparr>)"
    and "writes small ss d' (op x) es r d''"
  shows "writes small ss d (\<lambda>bufs f. obind (call f) (\<lambda>(x, f). op x bufs f)) es r d''"
  unfolding writes_def using assms(1) writesD [OF assms(2)] by simp

lemma writes_append_query:
  assumes "\<And>f. set ss \<subseteq> set (plans f) \<Longrightarrow> session f = d \<Longrightarrow> query spi ro stmt args f = Ok (Some (map row rs), f)"
    and "\<And>n r. r \<in> set rs \<Longrightarrow> ps n (row r) = Ok (es n r)"
  shows "writes small ss d (append_query small spi ro stmt args ps n) (rows_emits es n rs) (Some (n + length rs)) d"
  by (auto simp: writes_def append_query_def assms(1) emit_rows_emits [where ps = ps and row = row and es = es and rs = rs, OF assms(2)] obind_assoc case_prod_unfold)

section \<open>Loops\<close>

text \<open>
  What a loop writes: the lists of its rounds one after the other.  A round may depend on a
  state \<open>k\<close> the frame keeps and on the session, and may change both.
\<close>

fun loop_emits :: "('i \<Rightarrow> 'k \<Rightarrow> 'd \<Rightarrow> 'c emit list) \<Rightarrow> ('i \<Rightarrow> 'k \<Rightarrow> 'd \<Rightarrow> 'k) \<Rightarrow> ('i \<Rightarrow> 'k \<Rightarrow> 'd \<Rightarrow> 'd) \<Rightarrow> 'i list \<Rightarrow> 'k \<Rightarrow> 'd \<Rightarrow> 'c emit list" where
  "loop_emits es nxt upd [] k d = []"
| "loop_emits es nxt upd (i # is) k d = es i k d @ loop_emits es nxt upd is (nxt i k d) (upd i k d)"

fun loop_state :: "('i \<Rightarrow> 'k \<Rightarrow> 'd \<Rightarrow> 'k) \<Rightarrow> ('i \<Rightarrow> 'k \<Rightarrow> 'd \<Rightarrow> 'd) \<Rightarrow> 'i list \<Rightarrow> 'k \<Rightarrow> 'd \<Rightarrow> 'k" where
  "loop_state nxt upd [] k d = k"
| "loop_state nxt upd (i # is) k d = loop_state nxt upd is (nxt i k d) (upd i k d)"

fun loop_session :: "('i \<Rightarrow> 'k \<Rightarrow> 'd \<Rightarrow> 'k) \<Rightarrow> ('i \<Rightarrow> 'k \<Rightarrow> 'd \<Rightarrow> 'd) \<Rightarrow> 'i list \<Rightarrow> 'k \<Rightarrow> 'd \<Rightarrow> 'd" where
  "loop_session nxt upd [] k d = d"
| "loop_session nxt upd (i # is) k d = loop_session nxt upd is (nxt i k d) (upd i k d)"

lemma loop_session_same [simp]: "loop_session nxt (\<lambda>_ _ s. s) is k d = d"
  by (induction "is" arbitrary: k) simp_all

text \<open>
  The law of a loop body: a round writes its list and goes on.  \<open>ok\<close> is what it needs to know
  of the data, and a round keeps it.
\<close>

locale append_loop =
  fixes small :: "'c \<Rightarrow> 's"
    and body :: "'i \<Rightarrow> 'k \<Rightarrow> 'c bufs \<Rightarrow> ('s, 'd) fctx \<Rightarrow> (((bool \<times> 'k) \<times> 'c bufs) \<times> ('s, 'd) fctx) outcome"
    and es :: "'i \<Rightarrow> 'k \<Rightarrow> 'd \<Rightarrow> 'c emit list"
    and nxt :: "'i \<Rightarrow> 'k \<Rightarrow> 'd \<Rightarrow> 'k"
    and upd :: "'i \<Rightarrow> 'k \<Rightarrow> 'd \<Rightarrow> 'd"
    and ok :: "'i \<Rightarrow> 'd \<Rightarrow> bool"
    and ss :: "'s list"
  assumes body_writes: "ok i d \<Longrightarrow> writes small ss d (body i k) (es i k d) (True, nxt i k d) (upd i k d)"
    and ok_upd: "ok i d \<Longrightarrow> ok j d \<Longrightarrow> ok i (upd j k d)"
begin

lemma loop:
  "\<forall>i \<in> set is. ok i d \<Longrightarrow>
   writes small ss d (for_each body is k) (loop_emits es nxt upd is k d) (loop_state nxt upd is k d) (loop_session nxt upd is k d)"
proof (induction "is" arbitrary: k d)
  case Nil
  show ?case using writes_return by (simp add: fun_eq_iff [symmetric] writes_def)
next
  case (Cons i "is")
  have "writes small ss d (body i k) (es i k d) (True, nxt i k d) (upd i k d)"
    using Cons.prems by (intro body_writes) simp
  moreover have "writes small ss (upd i k d) (for_each body is (nxt i k d)) (loop_emits es nxt upd is (nxt i k d) (upd i k d))
      (loop_state nxt upd is (nxt i k d) (upd i k d)) (loop_session nxt upd is (nxt i k d) (upd i k d))"
    by (rule Cons.IH) (use Cons.prems in \<open>auto intro: ok_upd\<close>)
  then have "writes small ss (upd i k d)
      ((\<lambda>(go, k) bufs f. if go then for_each body is k bufs f else Ok ((k, bufs), f)) (True, nxt i k d))
      (loop_emits es nxt upd is (nxt i k d) (upd i k d)) (loop_state nxt upd is (nxt i k d) (upd i k d)) (loop_session nxt upd is (nxt i k d) (upd i k d))" by simp
  ultimately have "writes small ss d (\<lambda>bufs f. obind (body i k bufs f) (\<lambda>((r, bufs), f).
      (\<lambda>(go, k) bufs f. if go then for_each body is k bufs f else Ok ((k, bufs), f)) r bufs f))
      (es i k d @ loop_emits es nxt upd is (nxt i k d) (upd i k d)) (loop_state nxt upd is (nxt i k d) (upd i k d)) (loop_session nxt upd is (nxt i k d) (upd i k d))"
    by (rule writes_bind)
  then show ?case by (simp add: writes_def case_prod_unfold)
qed

end

section \<open>What fits\<close>

text \<open>What a list writes to a column, and by how much the count of the column goes down.\<close>

definition out :: "'c \<Rightarrow> 'c emit list \<Rightarrow> string" where
  "out c es = concat (map (\<lambda>(c', m, s). if c' = c then s else []) es)"

definition extras :: "'c \<Rightarrow> 'c emit list \<Rightarrow> nat" where
  "extras c es = length (filter (\<lambda>(c', m, s). c' = c \<and> m = Extra) es)"

definition spent :: "'c \<Rightarrow> 'c emit list \<Rightarrow> int" where
  "spent c es = int (length (out c es)) + int (extras c es)"

lemma out_simps [simp]:
  "out c [] = []" "out c ((c', m, s) # es) = (if c' = c then s else []) @ out c es" "out c (es @ es') = out c es @ out c es'"
  by (simp_all add: out_def)

lemma extras_simps [simp]:
  "extras c [] = 0" "extras c ((c', m, s) # es) = (if c' = c \<and> m = Extra then 1 else 0) + extras c es"
  "extras c (es @ es') = extras c es + extras c es'"
  by (simp_all add: extras_def)

text \<open>
  \<open>holds t r ab\<close>: the buffer holds the text \<open>t\<close> and can take another \<open>r\<close> bytes, the terminator
  included, both by its size and by the count the code keeps.
\<close>

definition holds :: "string \<Rightarrow> int \<Rightarrow> abuf \<Rightarrow> bool" where
  "holds t r ab \<longleftrightarrow> (case ab of (b, left) \<Rightarrow>
     ctext b = t \<and> r \<le> left \<and> int (length t) + r \<le> int (cap b) \<and> left < 2 ^ 31)"

text \<open>In the mode \<open>Pre\<close> the text has to fit into what is left after it has been deducted.\<close>

definition room :: "mode \<Rightarrow> string \<Rightarrow> int" where
  "room m s = (if m = Pre then max 1 (int (length s)) else 1)"

lemma strncat_fits:
  "int (length s) \<le> n \<Longrightarrow> n < 2 ^ 31 \<Longrightarrow> length (ctext b) + length s < cap b \<Longrightarrow>
   strncat b s n = Ok (b\<lparr>ctext := ctext b @ s\<rparr>)"
  by (simp add: strncat_def size_t_id Let_def)

lemma put_as_holds:
  assumes "holds t r ab" "int (length s) + (if m = Extra then 1 else 0) + room m s \<le> r"
  shows "\<exists>ab'. put_as m msg s ab f = Ok (ab', f) \<and> holds (t @ s) (r - int (length s) - (if m = Extra then 1 else 0)) ab'"
proof -
  obtain b left where ab: "ab = (b, left)" by fastforce
  let ?n = "int (length s)"
  let ?l = "case m of Keep \<Rightarrow> left | Extra \<Rightarrow> left - 1 - ?n | _ \<Rightarrow> left - ?n"
  have h: "ctext b = t" "r \<le> left" "int (length t) + r \<le> int (cap b)" "left < 2 ^ 31"
    using assms(1) by (auto simp: holds_def ab)
  have pos: "1 \<le> room m s" by (simp add: room_def)
  have l: "1 \<le> ?l" "?l < 2 ^ 31" using h assms(2) pos by (cases m; simp)+
  then have wrap: "(case m of Keep \<Rightarrow> left | Extra \<Rightarrow> i32 (left - 1 - ?n) | _ \<Rightarrow> i32 (left - ?n)) = ?l"
    by (cases m) (simp_all add: in_i32_def)
  have "strncat b s (if m = Pre then ?l else left) = Ok (b\<lparr>ctext := ctext b @ s\<rparr>)"
  proof (rule strncat_fits)
    show "?n \<le> (if m = Pre then ?l else left)" using h assms(2) pos by (cases m) (simp_all add: room_def)
    show "(if m = Pre then ?l else left) < 2 ^ 31" using l h by simp
    show "length (ctext b) + length s < cap b" using h assms(2) pos by (simp split: if_splits)
  qed
  then have "put_as m msg s ab f = Ok ((b\<lparr>ctext := ctext b @ s\<rparr>, ?l), f)"
    using l(1) unfolding put_as_def ab Let_def prod.case wrap by (simp del: mode.case)
  moreover have "holds (t @ s) (r - ?n - (if m = Extra then 1 else 0)) (b\<lparr>ctext := ctext b @ s\<rparr>, ?l)"
    using h l by (cases m) (simp_all add: holds_def)
  ultimately show ?thesis by blast
qed

text \<open>
  A list of appends runs to its end without a warning and leaves its texts, if for every column
  there is room for all of it (\<open>h c\<close>: for the terminator, and for the longest \<open>Pre\<close> text once more).
\<close>

lemma emits_ok:
  assumes "\<forall>c \<in> C. holds (t c) (r c) (bufs c) \<and> spent c es + h c \<le> r c"
    and "\<forall>(c, m, s) \<in> set es. c \<in> C \<and> room m s \<le> h c"
  shows "\<exists>bufs'. emits small es bufs f = Ok (bufs', f) \<and> (\<forall>c \<in> C. holds (t c @ out c es) (r c - spent c es) (bufs' c))"
  using assms
proof (induction es arbitrary: t r bufs)
  case Nil
  then show ?case by (simp add: spent_def)
next
  case (Cons e es)
  obtain c m s where e: "e = (c, m, s)" by (metis surj_pair)
  let ?x = "if m = Extra then 1 else 0 :: int"
  have c: "c \<in> C" "room m s \<le> h c" "holds (t c) (r c) (bufs c)" using Cons.prems by (auto simp: e)
  have sp: "spent c (e # es) = int (length s) + ?x + spent c es" by (simp add: e spent_def)
  have "0 \<le> spent c es" by (simp add: spent_def)
  moreover have "spent c (e # es) + h c \<le> r c" using Cons.prems(1) c(1) by blast
  ultimately have room: "int (length s) + ?x + room m s \<le> r c" unfolding sp using c(2) by linarith
  obtain ab' where ab': "put_as m (small c) s (bufs c) f = Ok (ab', f)" "holds (t c @ s) (r c - int (length s) - ?x) ab'"
    using put_as_holds [OF c(3) room, of "small c" f] by blast
  let ?t = "t(c := t c @ s)" and ?r = "r(c := r c - int (length s) - ?x)" and ?b = "bufs(c := ab')"
  have "holds (?t d) (?r d) (?b d) \<and> spent d es + h d \<le> ?r d" if "d \<in> C" for d
  proof (cases "d = c")
    case True
    have "spent c (e # es) + h c \<le> r c" using Cons.prems(1) c(1) by blast
    with True ab'(2) show ?thesis by (simp add: sp)
  next
    case False
    then have "spent d (e # es) = spent d es" by (simp add: e spent_def)
    moreover have "holds (t d) (r d) (bufs d) \<and> spent d (e # es) + h d \<le> r d" using Cons.prems(1) that by blast
    ultimately show ?thesis using False by simp
  qed
  then have all: "\<forall>d \<in> C. holds (?t d) (?r d) (?b d) \<and> spent d es + h d \<le> ?r d" by blast
  have es: "\<forall>(c, m, s) \<in> set es. c \<in> C \<and> room m s \<le> h c" using Cons.prems(2) by simp
  from Cons.IH [OF all es] obtain bufs' where b: "emits small es ?b f = Ok (bufs', f)"
    "\<forall>c \<in> C. holds (?t c @ out c es) (?r c - spent c es) (bufs' c)"
    by blast
  have "\<forall>d \<in> C. holds (t d @ out d (e # es)) (r d - spent d (e # es)) (bufs' d)"
  proof
    fix d
    assume "d \<in> C"
    with b(2) have "holds (?t d @ out d es) (?r d - spent d es) (bufs' d)" by blast
    moreover have "r c - (int (length s) + ?x + spent c es) = r c - int (length s) - ?x - spent c es" by simp
    ultimately show "holds (t d @ out d (e # es)) (r d - spent d (e # es)) (bufs' d)"
      by (cases "d = c"; cases "m = Extra") (simp_all add: e spent_def diff_diff_eq add_ac)
  qed
  with b(1) ab'(1) show ?case by (simp add: e emit_def)
qed

lemma pallocs_ok: "\<forall>(c, len) \<in> set ls. 0 \<le> len \<and> len < 2 ^ 30 \<Longrightarrow> pallocs ls = Ok ()"
  by (induction ls rule: pallocs.induct) (auto simp: palloc_def)

lemma open_bufs_ok:
  assumes "\<forall>(c, len) \<in> set ls. 2 \<le> len \<and> len < 2 ^ 30" "distinct (map fst ls)"
  shows "\<exists>bufs. open_bufs ls = Ok bufs \<and> (\<forall>(c, len) \<in> set ls. holds ''{'' (len - 1) (bufs c))"
  using assms
proof (induction ls rule: open_bufs.induct)
  case (2 c len ls)
  then obtain bufs where b: "open_bufs ls = Ok bufs" "\<forall>(c, len) \<in> set ls. holds ''{'' (len - 1) (bufs c)" by auto
  have "open_array len = Ok (\<lparr>cap = nat len, ctext = ''{''\<rparr>, len - 1)" using "2.prems" by (simp add: open_array_def)
  moreover have "holds ''{'' (len - 1) (\<lparr>cap = nat len, ctext = ''{''\<rparr>, len - 1)" using "2.prems" by (simp add: holds_def)
  moreover have "\<forall>(d, l) \<in> set ls. d \<noteq> c" using "2.prems"(2) by force
  ultimately show ?case using b by (auto split: prod.splits)
qed simp

text \<open>The buffers of a frame from their opening on, if every column has room for what it gets.\<close>

theorem built:
  assumes "distinct (map fst ls)" "\<forall>(c, len) \<in> set ls. 2 \<le> len \<and> len < 2 ^ 30 \<and> spent c es + h c < len"
    and "\<forall>(c, m, s) \<in> set es. c \<in> fst ` set ls \<and> room m s \<le> h c"
  shows "\<exists>bufs bufs'. open_bufs ls = Ok bufs \<and> emits small es bufs f = Ok (bufs', f)
    \<and> (\<forall>c \<in> fst ` set ls. ctext (fst (bufs' c)) = ''{'' @ out c es)"
proof -
  obtain bufs where b: "open_bufs ls = Ok bufs" "\<forall>(c, len) \<in> set ls. holds ''{'' (len - 1) (bufs c)"
    using open_bufs_ok [OF _ assms(1)] assms(2) by fastforce
  let ?r = "\<lambda>c. the (map_of ls c) - 1"
  have r: "(c, len) \<in> set ls \<Longrightarrow> ?r c = len - 1" for c len using assms(1) by (simp add: map_of_is_SomeI)
  have "\<forall>c \<in> fst ` set ls. holds ''{'' (?r c) (bufs c) \<and> spent c es + h c \<le> ?r c"
    using assms(2) b(2) r by fastforce
  from emits_ok [OF this, of small f] assms(3) obtain bufs' where
    "emits small es bufs f = Ok (bufs', f)" "\<forall>c \<in> fst ` set ls. holds (''{'' @ out c es) (?r c - spent c es) (bufs' c)" by blast
  moreover have "holds t r ab \<Longrightarrow> ctext (fst ab) = t" for t r ab by (simp add: holds_def case_prod_unfold)
  ultimately show ?thesis using b(1) by blast
qed

section \<open>What the columns receive\<close>

lemma joined_append: "joined b (xs @ ys) = joined b xs @ joined (b \<and> xs = []) ys"
  by (induction xs arbitrary: b) auto

lemma out_map_Plain: "distinct cs \<Longrightarrow> out c (map (\<lambda>c. (c, Plain, s)) cs) = (if c \<in> set cs then s else [])"
  by (induction cs) auto

lemma out_seps [simp]: "distinct cs \<Longrightarrow> out c (seps n cs) = (if 0 < n \<and> c \<in> set cs then '','' else [])"
  by (simp add: seps_def out_map_Plain)

lemma out_closes [simp]: "distinct cs \<Longrightarrow> out c (closes cs) = (if c \<in> set cs then ''}'' else [])"
  by (simp add: closes_def out_map_Plain)

lemma out_quote_as [simp]: "out c (quote_as m c' v) = (if c' = c then quoted v else [])"
  by (simp add: quote_as_def quoted_def)

lemma extras_map_Plain [simp]: "extras c (map (\<lambda>c. (c, Plain, s)) cs) = 0"
  by (induction cs) auto

lemma extras_seps [simp]: "extras c (seps n cs) = 0"
  by (simp add: seps_def)

lemma extras_closes [simp]: "extras c (closes cs) = 0"
  by (simp add: closes_def)

lemma extras_quote_as [simp]: "extras c (quote_as m c' v) = (if c' = c \<and> m = Extra then 1 else 0)"
  by (simp add: quote_as_def)

text \<open>A loop over rows gives a column one element per row.\<close>

lemma out_rows_emits:
  assumes "\<And>n r. r \<in> set rs \<Longrightarrow> out c (es n r) = (if n = 0 then [] else '','') @ el r"
  shows "out c (rows_emits es n rs) = joined (n = 0) (map el rs)"
  using assms by (induction rs arbitrary: n) simp_all

lemma out_rows_emits_none:
  assumes "\<And>n r. r \<in> set rs \<Longrightarrow> out c (es n r) = []"
  shows "out c (rows_emits es n rs) = []"
  using assms by (induction rs arbitrary: n) simp_all

lemma extras_rows_emits:
  assumes "\<And>n r. r \<in> set rs \<Longrightarrow> extras c (es n r) = k"
  shows "extras c (rows_emits es n rs) = k * length rs"
  using assms by (induction rs arbitrary: n) simp_all

lemma rows_emits_all:
  "\<forall>r \<in> set rs. \<forall>n. \<forall>e \<in> set (es n r). P e \<Longrightarrow> \<forall>e \<in> set (rows_emits es n rs). P e"
  by (induction rs arbitrary: n) auto

text \<open>A loop gives a column the elements of all its rounds.\<close>

fun loop_els :: "('i \<Rightarrow> 'k \<Rightarrow> 'd \<Rightarrow> 'e list) \<Rightarrow> ('i \<Rightarrow> 'k \<Rightarrow> 'd \<Rightarrow> 'k) \<Rightarrow> ('i \<Rightarrow> 'k \<Rightarrow> 'd \<Rightarrow> 'd) \<Rightarrow> 'i list \<Rightarrow> 'k \<Rightarrow> 'd \<Rightarrow> 'e list" where
  "loop_els els nxt upd [] k d = []"
| "loop_els els nxt upd (i # is) k d = els i k d @ loop_els els nxt upd is (nxt i k d) (upd i k d)"

lemma loop_els_const: "loop_els (\<lambda>i _. els i) nxt (\<lambda>_ _ s. s) is k d = concat (map (\<lambda>i. els i d) is)"
  by (induction "is" arbitrary: k) simp_all

lemma out_loop_emits:
  assumes "\<forall>i \<in> set is. good i d" "\<And>i j k d. good i d \<Longrightarrow> good j d \<Longrightarrow> good i (upd j k d)"
    and "\<And>i k d. good i d \<Longrightarrow> out c (es i k d) = joined (z k) (els i k d)"
    and "\<And>i k d. good i d \<Longrightarrow> z (nxt i k d) \<longleftrightarrow> z k \<and> els i k d = []"
  shows "out c (loop_emits es nxt upd is k d) = joined (z k) (loop_els els nxt upd is k d)"
  using assms(1)
proof (induction "is" arbitrary: k d)
  case (Cons i "is")
  then have i: "good i d" by simp
  have "\<forall>j \<in> set is. good j (upd i k d)" using Cons.prems assms(2) by simp
  with Cons.IH [of "upd i k d" "nxt i k d"] show ?case by (simp add: assms(3,4) [OF i] joined_append)
qed simp

text \<open>Two bounds on all rounds, from what the rounds keep of the session.\<close>

lemma extras_loop_emits:
  assumes "\<forall>i \<in> set is. good i d" "\<And>i j k d. good i d \<Longrightarrow> good j d \<Longrightarrow> good i (upd j k d)"
    and "\<And>i k d. good i d \<Longrightarrow> extras c (es i k d) \<le> n"
  shows "extras c (loop_emits es nxt upd is k d) \<le> n * length is"
  using assms(1)
proof (induction "is" arbitrary: k d)
  case (Cons i "is")
  have "\<forall>j \<in> set is. good j (upd i k d)" using Cons.prems assms(2) by simp
  with Cons.IH [of "upd i k d" "nxt i k d"] show ?case using assms(3) [of i d k] Cons.prems by (simp add: add_mono)
qed simp

lemma loop_emits_all:
  assumes "\<forall>i \<in> set is. good i d" "\<And>i j k d. good i d \<Longrightarrow> good j d \<Longrightarrow> good i (upd j k d)"
    and "\<And>i k d. good i d \<Longrightarrow> \<forall>e \<in> set (es i k d). P e"
  shows "\<forall>e \<in> set (loop_emits es nxt upd is k d). P e"
  using assms(1)
proof (induction "is" arbitrary: k d)
  case (Cons i "is")
  have "\<forall>j \<in> set is. good j (upd i k d)" using Cons.prems assms(2) by simp
  with Cons.IH [of "upd i k d" "nxt i k d"] show ?case using assms(3) [of i d k] Cons.prems by (simp add: ball_Un)
qed simp

section \<open>What does not fit\<close>

lemma put_as_Plain: "put_as Plain msg s ab f = put msg s ab f"
  by (simp add: put_as_def put_def Let_def)

text \<open>A column written in the mode \<open>Plain\<close> only is written past its end when its texts do not fit.\<close>

lemma emits_overflow:
  assumes "tracks (bufs c)" "\<forall>m s. (c, m, s) \<in> set es \<longrightarrow> m = Plain"
    and "cap (fst (bufs c)) \<le> length (ctext (fst (bufs c))) + length (out c es)"
  shows "emits small es bufs f = Fail Crash"
  using assms
proof (induction es arbitrary: bufs f)
  case Nil
  then show ?case by (auto simp: tracks_def case_prod_unfold)
next
  case (Cons e es)
  obtain c' m s where e: "e = (c', m, s)" by (metis surj_pair)
  show ?case
  proof (cases "emit small e bufs f")
    case (Fail x)
    then show ?thesis by (simp add: emit_fault [OF Fail])
  next
    case (Ok r)
    obtain b g where r: "r = (b, g)" by fastforce
    show ?thesis
    proof (cases "c' = c")
      case True
      then have "m = Plain" using Cons.prems(2) e by auto
      have p: "obind (put (small c) s (bufs c) f) (\<lambda>(ab, f). outcome.Ok (bufs(c := ab), f)) = outcome.Ok (b, g)"
        using Ok True \<open>m = Plain\<close> by (simp add: e r emit_def put_as_Plain)
      then have fits: "length (ctext (fst (bufs c))) + length s < cap (fst (bufs c))" and b: "b = bufs(c := grown s (bufs c))"
        by (auto simp: put_iff [OF Cons.prems(1)] split: if_splits)
      have "emits small es b g = Fail Crash"
        by (rule Cons.IH) (use Cons.prems True fits in \<open>auto simp: b e intro: tracks_grown\<close>)
      then show ?thesis by (simp add: Ok r)
    next
      case False
      then have "b c = bufs c" using Ok by (auto simp: e r emit_def obind_eq_Ok)
      then have "emits small es b g = Fail Crash"
        by (intro Cons.IH) (use Cons.prems False in \<open>auto simp: e\<close>)
      then show ?thesis by (simp add: Ok r)
    qed
  qed
qed

lemma open_bufs_tracks:
  assumes "\<forall>(c, len) \<in> set ls. 2 \<le> len \<and> len < 2 ^ 30" "distinct (map fst ls)"
  shows "\<exists>bufs. open_bufs ls = Ok bufs
    \<and> (\<forall>(c, len) \<in> set ls. tracks (bufs c) \<and> ctext (fst (bufs c)) = ''{'' \<and> cap (fst (bufs c)) = nat len)"
  using assms
proof (induction ls rule: open_bufs.induct)
  case (2 c len ls)
  then obtain bufs where b: "open_bufs ls = Ok bufs"
    "\<forall>(c, len) \<in> set ls. tracks (bufs c) \<and> ctext (fst (bufs c)) = ''{'' \<and> cap (fst (bufs c)) = nat len" by auto
  obtain ab where ab: "open_array len = Ok ab" "tracks ab" "ctext (fst ab) = ''{''" "cap (fst ab) = nat len"
    using open_array_ok [of len] "2.prems"(1) by auto
  moreover have "\<forall>(d, l) \<in> set ls. d \<noteq> c" using "2.prems"(2) by force
  ultimately show ?case using b by (auto split: prod.splits)
qed simp

section \<open>Arrays\<close>

lemma array_text_width:
  assumes "\<And>x. x \<in> set xs \<Longrightarrow> length x \<le> w" "length xs \<le> n" "1 \<le> n"
  shows "int (length (array_text xs)) \<le> int (w + 1) * int n + 1"
proof (cases "xs = []")
  case True
  have "1 * 1 \<le> int (w + 1) * int n" by (rule mult_mono) (use assms(3) in simp_all)
  with True show ?thesis by (simp add: array_text_def)
next
  case False
  have "sum_list (map length xs) + length xs \<le> (w + 1) * length xs"
    using sum_list_le [of xs length w, OF assms(1)] by (simp add: algebra_simps)
  also have "\<dots> \<le> (w + 1) * n" by (rule mult_le_mono2 [OF assms(2)])
  finally have "length (array_text xs) \<le> (w + 1) * n + 1" using False by (simp add: length_array_text)
  then show ?thesis by (metis of_nat_1 of_nat_add of_nat_le_iff of_nat_mult)
qed

text \<open>The appends that close the buffers: a brace for every column.\<close>

definition closing :: "'c list \<Rightarrow> 'c emit list \<Rightarrow> bool" where
  "closing cs cl \<longleftrightarrow> (\<forall>c \<in> set cs. out c cl = ''}'' \<and> extras c cl = 0) \<and> (\<forall>(c, m, s) \<in> set cl. c \<in> set cs \<and> m \<noteq> Pre)"

lemma closing_closes: "distinct cs \<Longrightarrow> closing cs (closes cs)"
  by (auto simp: closing_def) (auto simp: closes_def)

text \<open>The buffers hold the arrays, if each fits with what the code deducts in excess.\<close>

lemma built_arrays:
  assumes "distinct (map fst ls)" "fst ` set ls = set cs" "closing cs cl"
    and "\<And>c. c \<in> set cs \<Longrightarrow> out c es = joined True (els c)"
    and "\<And>c len. (c, len) \<in> set ls \<Longrightarrow>
      2 \<le> len \<and> len < 2 ^ 30 \<and> int (length (array_text (els c))) + int (extras c es) + h c \<le> len"
    and "\<forall>(c, m, s) \<in> set es. c \<in> set cs \<and> room m s \<le> h c" "\<And>c. c \<in> set cs \<Longrightarrow> 1 \<le> h c"
  shows "\<exists>bufs bufs'. open_bufs ls = Ok bufs \<and> emits small (es @ cl) bufs f = Ok (bufs', f)
    \<and> (\<forall>c \<in> set cs. ctext (fst (bufs' c)) = array_text (els c))"
proof -
  have out: "out c (es @ cl) = joined True (els c) @ ''}''" if "c \<in> set cs" for c
    using that assms(3,4) by (simp add: closing_def)
  have arr: "array_text (els c) = ''{'' @ joined True (els c) @ ''}''" for c by (simp add: array_text_joined)
  have "\<forall>(c, len) \<in> set ls. 2 \<le> len \<and> len < 2 ^ 30 \<and> spent c (es @ cl) + h c < len"
  proof (clarify, intro conjI)
    fix c len
    assume m: "(c, len) \<in> set ls"
    then have "c \<in> set cs" using assms(2) by force
    moreover from this have "extras c cl = 0" using assms(3) by (simp add: closing_def)
    ultimately show "spent c (es @ cl) + h c < len"
      using assms(5) [OF m] unfolding spent_def by (simp only: out arr) (simp add: arr)
    show "2 \<le> len" "len < 2 ^ 30" using assms(5) [OF m] by simp_all
  qed
  moreover have "\<forall>(c, m, s) \<in> set (es @ cl). c \<in> fst ` set ls \<and> room m s \<le> h c"
    using assms(2,3,6,7) by (auto simp: closing_def room_def)
  ultimately obtain bufs bufs' where "open_bufs ls = Ok bufs" "emits small (es @ cl) bufs f = Ok (bufs', f)"
    "\<forall>c \<in> fst ` set ls. ctext (fst (bufs' c)) = ''{'' @ out c (es @ cl)"
    using built [OF assms(1), of "es @ cl" h small f] by blast
  then show ?thesis using assms(2) out arr by (intro exI [of _ bufs] exI [of _ bufs']) auto
qed

section \<open>Frames that return arrays\<close>

text \<open>
  The contract between a loop and its buffers: what a round adds to the columns, in elements,
  widths and excess deductions, for every session that is \<open>good\<close>.  \<open>cs\<close> are the columns in the
  order in which they are closed, \<open>cnt\<close> the counters that decide about commas.
\<close>

locale array_loop = append_loop small body es nxt upd ok ss
  for small :: "'c \<Rightarrow> 's"
    and body :: "'i \<Rightarrow> 'k \<Rightarrow> 'c bufs \<Rightarrow> ('s, 'd) fctx \<Rightarrow> (((bool \<times> 'k) \<times> 'c bufs) \<times> ('s, 'd) fctx) outcome"
    and es :: "'i \<Rightarrow> 'k \<Rightarrow> 'd \<Rightarrow> 'c emit list"
    and nxt :: "'i \<Rightarrow> 'k \<Rightarrow> 'd \<Rightarrow> 'k"
    and upd :: "'i \<Rightarrow> 'k \<Rightarrow> 'd \<Rightarrow> 'd"
    and ok :: "'i \<Rightarrow> 'd \<Rightarrow> bool"
    and ss :: "'s list" +
  fixes cs :: "'c list" and k0 :: 'k and cnt :: "'c \<Rightarrow> 'k \<Rightarrow> nat" and els :: "'c \<Rightarrow> 'i \<Rightarrow> 'k \<Rightarrow> 'd \<Rightarrow> string list"
    and good :: "'i \<Rightarrow> 'd \<Rightarrow> bool" and per :: "'c \<Rightarrow> nat" and wid :: "'c \<Rightarrow> nat" and xtr :: "'c \<Rightarrow> nat" and h :: "'c \<Rightarrow> int"
  assumes cs: "distinct cs" and cnt0: "cnt c k0 = 0"
    and out_es: "ok i d \<Longrightarrow> c \<in> set cs \<Longrightarrow> out c (es i k d) = joined (cnt c k = 0) (els c i k d)"
    and cnt_nxt: "ok i d \<Longrightarrow> c \<in> set cs \<Longrightarrow> cnt c (nxt i k d) = 0 \<longleftrightarrow> cnt c k = 0 \<and> els c i k d = []"
    and good_ok: "good i d \<Longrightarrow> ok i d" and good_upd: "good i d \<Longrightarrow> good j d \<Longrightarrow> good i (upd j k d)"
    and els_per: "good i d \<Longrightarrow> c \<in> set cs \<Longrightarrow> length (els c i k d) \<le> per c"
    and els_wid: "good i d \<Longrightarrow> c \<in> set cs \<Longrightarrow> x \<in> set (els c i k d) \<Longrightarrow> length x \<le> wid c"
    and es_xtr: "good i d \<Longrightarrow> extras c (es i k d) \<le> xtr c"
    and es_room: "good i d \<Longrightarrow> \<forall>(c, m, s) \<in> set (es i k d). c \<in> set cs \<and> room m s \<le> h c"
    and h: "1 \<le> h c"
    and per: "1 \<le> per c"
begin

lemma loop_els_fit:
  assumes "\<forall>i \<in> set is. good i d" "c \<in> set cs" "int (length is) \<le> n" "1 \<le> n"
  shows "int (length (array_text (loop_els (els c) nxt upd is k d))) \<le> int (wid c + 1) * (int (per c) * n) + 1"
proof -
  have "length (loop_els (els c) nxt upd is k d) \<le> per c * length is \<and> (\<forall>x \<in> set (loop_els (els c) nxt upd is k d). length x \<le> wid c)"
    using assms(1)
  proof (induction "is" arbitrary: k d)
    case (Cons i "is")
    then have i: "good i d" by simp
    have "\<forall>j \<in> set is. good j (upd i k d)" using Cons.prems by (auto intro: good_upd)
    moreover have "length (els c i k d) \<le> per c" by (rule els_per [OF i assms(2)])
    moreover have "\<forall>x \<in> set (els c i k d). length x \<le> wid c" using els_wid [OF i assms(2)] by blast
    moreover note Cons.IH [of "upd i k d" "nxt i k d"]
    ultimately show ?case by (auto simp: algebra_simps)
  qed simp
  moreover have "per c * length is \<le> per c * nat n" using assms(3) by (intro mult_le_mono2) linarith
  moreover have "1 * 1 \<le> per c * nat n" using per [of c] assms(4) by (intro mult_le_mono) linarith+
  then have "1 \<le> per c * nat n" by simp
  ultimately have "int (length (array_text (loop_els (els c) nxt upd is k d))) \<le> int (wid c + 1) * int (per c * nat n) + 1"
    by (intro array_text_width) (blast intro: le_trans)+
  then show ?thesis using assms(4) by simp
qed

text \<open>When the buffers are large enough for \<open>n\<close> rounds, the arrays are complete.\<close>

lemma arrays:
  assumes "distinct (map fst ls)" "fst ` set ls = set cs" "\<forall>i \<in> set is. good i d" "int (length is) \<le> n" "1 \<le> n"
    and "\<And>c len. (c, len) \<in> set ls \<Longrightarrow>
      2 \<le> len \<and> len < 2 ^ 30 \<and> int (wid c + 1) * (int (per c) * n) + 1 + int (xtr c) * n + h c \<le> len"
    and "closing cs cl"
  shows "\<exists>bufs bufs'. open_bufs ls = Ok bufs \<and> emits small (loop_emits es nxt upd is k0 d @ cl) bufs f = Ok (bufs', f)
    \<and> (\<forall>c \<in> set cs. ctext (fst (bufs' c)) = array_text (loop_els (els c) nxt upd is k0 d))"
proof (rule built_arrays [OF assms(1,2,7), where h = h])
  fix c
  assume c: "c \<in> set cs"
  have "out c (loop_emits es nxt upd is k0 d) = joined (cnt c k0 = 0) (loop_els (els c) nxt upd is k0 d)"
    by (rule out_loop_emits [where good = ok]) (use assms(3) in \<open>auto simp: out_es cnt_nxt c intro: good_ok ok_upd\<close>)
  then show "out c (loop_emits es nxt upd is k0 d) = joined True (loop_els (els c) nxt upd is k0 d)" by (simp add: cnt0)
next
  fix c len
  assume l: "(c, len) \<in> set ls"
  then have "c \<in> set cs" using assms(2) by force
  then have "int (length (array_text (loop_els (els c) nxt upd is k0 d))) \<le> int (wid c + 1) * (int (per c) * n) + 1"
    by (rule loop_els_fit [OF assms(3) _ assms(4,5)])
  moreover have "extras c (loop_emits es nxt upd is k0 d) \<le> xtr c * length is"
    by (rule extras_loop_emits [where good = good, OF assms(3) good_upd es_xtr])
  then have "int (extras c (loop_emits es nxt upd is k0 d)) \<le> int (xtr c * length is)" by (rule iffD2 [OF of_nat_le_iff])
  then have "int (extras c (loop_emits es nxt upd is k0 d)) \<le> int (xtr c) * int (length is)" by simp
  moreover have "int (xtr c) * int (length is) \<le> int (xtr c) * n" by (rule mult_left_mono [OF assms(4)]) simp
  ultimately show "2 \<le> len \<and> len < 2 ^ 30 \<and> int (length (array_text (loop_els (els c) nxt upd is k0 d)))
      + int (extras c (loop_emits es nxt upd is k0 d)) + h c \<le> len"
    using assms(6) [OF l] by linarith
next
  show "\<forall>(c, m, s) \<in> set (loop_emits es nxt upd is k0 d). c \<in> set cs \<and> room m s \<le> h c"
    by (rule loop_emits_all [where good = good, OF assms(3) good_upd es_room])
qed (rule h)

text \<open>The loop and the closing of the buffers as a frame runs them.\<close>

lemma frame:
  assumes "distinct (map fst ls)" "fst ` set ls = set cs" "\<forall>i \<in> set is. good i (session f)" "int (length is) \<le> n" "1 \<le> n"
    and "\<And>c len. (c, len) \<in> set ls \<Longrightarrow>
      2 \<le> len \<and> len < 2 ^ 30 \<and> int (wid c + 1) * (int (per c) * n) + 1 + int (xtr c) * n + h c \<le> len"
    and "closing cs cl" "set ss \<subseteq> set (plans f)"
  shows "\<exists>bufs bufs'. open_bufs ls = Ok bufs
    \<and> (\<forall>cont :: 'k \<Rightarrow> 'c bufs \<Rightarrow> ('s, 'd) fctx \<Rightarrow> 'r outcome. obind (for_each body is k0 bufs f) (\<lambda>((k, bufs), f). obind (emits small (cl) bufs f) (\<lambda>(bufs, f). cont k bufs f)) =
        cont (loop_state nxt upd is k0 (session f)) bufs' (f\<lparr>session := loop_session nxt upd is k0 (session f)\<rparr>))
    \<and> (\<forall>c \<in> set cs. ctext (fst (bufs' c)) = array_text (loop_els (els c) nxt upd is k0 (session f)))"
proof -
  let ?g = "f\<lparr>session := loop_session nxt upd is k0 (session f)\<rparr>"
  have ok: "\<forall>i \<in> set is. ok i (session f)" using assms(3) good_ok by blast
  obtain bufs bufs' where b: "open_bufs ls = Ok bufs"
    "emits small (loop_emits es nxt upd is k0 (session f) @ cl) bufs ?g = Ok (bufs', ?g)"
    "\<forall>c \<in> set cs. ctext (fst (bufs' c)) = array_text (loop_els (els c) nxt upd is k0 (session f))"
    using arrays [OF assms(1-7), of ?g] by auto
  have "for_each body is k0 bufs f = obind (emits small (loop_emits es nxt upd is k0 (session f)) bufs ?g)
      (\<lambda>(bufs, g). Ok ((loop_state nxt upd is k0 (session f), bufs), g))"
    by (rule writesD [OF loop [OF ok] assms(8) refl])
  then have "obind (for_each body is k0 bufs f) (\<lambda>((k, bufs), f). obind (emits small (cl) bufs f) (\<lambda>(bufs, f). cont k bufs f)) =
      obind (emits small (loop_emits es nxt upd is k0 (session f) @ cl) bufs ?g)
        (\<lambda>(bufs, g). cont (loop_state nxt upd is k0 (session f)) bufs g)"
    for cont :: "'k \<Rightarrow> 'c bufs \<Rightarrow> ('s, 'd) fctx \<Rightarrow> 'r outcome"
    by (simp add: emits_append obind_assoc case_prod_unfold)
  with b show ?thesis by - (rule exI [of _ bufs], rule exI [of _ bufs'], simp)
qed

text \<open>And when a column written plainly does not fit, the frame writes past its buffer.\<close>

lemma overflow:
  assumes "open_bufs ls = Ok bufs" "tracks (bufs c)" "c \<in> set cs" "ctext (fst (bufs c)) = ''{''"
    and "\<And>i k d m s. (c, m, s) \<in> set (es i k d) \<Longrightarrow> m = Plain"
    and "cap (fst (bufs c)) \<le> length (array_text (loop_els (els c) nxt upd is k0 (session f)))"
    and "set ss \<subseteq> set (plans f)" "\<forall>i \<in> set is. ok i (session f)"
  shows "obind (for_each body is k0 bufs f) (\<lambda>((k, bufs), f). obind (emits small (closes cs) bufs f) (\<lambda>(bufs, f). cont k bufs f)) =
    Fail Crash"
proof -
  let ?g = "f\<lparr>session := loop_session nxt upd is k0 (session f)\<rparr>" and ?es = "loop_emits es nxt upd is k0 (session f) @ closes cs"
  have "out c (loop_emits es nxt upd is k0 (session f)) = joined (cnt c k0 = 0) (loop_els (els c) nxt upd is k0 (session f))"
    by (rule out_loop_emits [where good = ok, OF assms(8) ok_upd]) (simp_all add: out_es cnt_nxt assms(3))
  then have o: "out c ?es = joined True (loop_els (els c) nxt upd is k0 (session f)) @ ''}''" using assms(3) by (simp add: cs cnt0)
  have "\<forall>(c', m, s) \<in> set (loop_emits es nxt upd is k0 (session f)). c' = c \<longrightarrow> m = Plain"
    by (rule loop_emits_all [where good = "\<lambda>_ _. True"]) (use assms(5) in auto)
  then have "\<forall>m s. (c, m, s) \<in> set ?es \<longrightarrow> m = Plain" by (auto simp: closes_def)
  then have crash: "emits small ?es bufs ?g = Fail Crash"
    by (rule emits_overflow [where bufs = bufs, OF assms(2)]) (use assms(4,6) in \<open>simp only: o array_text_joined, simp\<close>)
  have "for_each body is k0 bufs f = obind (emits small (loop_emits es nxt upd is k0 (session f)) bufs ?g)
      (\<lambda>(bufs, g). Ok ((loop_state nxt upd is k0 (session f), bufs), g))"
    by (rule writesD [OF loop [OF assms(8)] assms(7) refl])
  then have "obind (for_each body is k0 bufs f) (\<lambda>((k, bufs), f). obind (emits small (closes cs) bufs f) (\<lambda>(bufs, f). cont k bufs f)) =
      obind (emits small ?es bufs ?g) (\<lambda>(bufs, g). cont (loop_state nxt upd is k0 (session f)) bufs g)"
    by (simp add: emits_append obind_assoc case_prod_unfold)
  then show ?thesis by (simp add: crash)
qed

end

end
