(* ===== verification/TradeRows.thy ===== *)
theory TradeRows
  imports Appends Settlement
begin

text \<open>
  What the frames of Trade-Lookup and Trade-Update that return arrays of trades have in common:
  the columns, the counters, the three queries on what belongs to a trade (its settlement, its
  cash transaction, its history) and the pieces of code that append their rows.
\<close>

abbreviation (input) "BOOLEAN_LEN \<equiv> 1 :: nat"
abbreviation (input) "CT_NAME_LEN \<equiv> 100 :: nat"
abbreviation (input) "SE_CASH_TYPE_LEN \<equiv> 40 :: nat"
abbreviation (input) "TRADE_T_LEN \<equiv> BIGINT_LEN"
abbreviation (input) "S_QTY_T_LEN \<equiv> INTEGER_LEN"
abbreviation (input) "MYMAXDATELEN \<equiv> 63 :: nat"

section \<open>Columns and counters\<close>

text \<open>The union of the enumerations \<open>tlf1\<close> to \<open>tlf3\<close> and \<open>tuf1\<close> to \<open>tuf3\<close>, with the source's names.\<close>

datatype trade_col = i_acct_id | i_bid_price | i_cash_transaction_amount | i_cash_transaction_dts
  | i_cash_transaction_name | i_exec_name | i_is_cash | i_is_market | i_num_found | i_num_updated | i_price
  | i_quantity | i_s_name | i_settlement_amount | i_settlement_cash_due_date | i_settlement_cash_type
  | i_trade_dts | i_trade_history_dts | i_trade_history_status_id | i_trade_list | i_trade_price | i_trade_type
  | i_type_name

abbreviation "settlement_cols \<equiv> [i_settlement_amount, i_settlement_cash_due_date, i_settlement_cash_type]"
abbreviation "cash_cols \<equiv> [i_cash_transaction_amount, i_cash_transaction_dts, i_cash_transaction_name]"
abbreviation "history_cols \<equiv> [i_trade_history_dts, i_trade_history_status_id]"

text \<open>
  The counters that decide about commas; all are zero at the start.  \<open>trades\<close> is the counter of
  the trades themselves.  They count rows held in memory and stay far below \<open>INT_MAX\<close>.
\<close>

record counters =
  trades :: nat
  num_settlement :: nat
  num_cash_txn :: nat
  num_history :: nat

definition counters0 :: counters where
  "counters0 = \<lparr>trades = 0, num_settlement = 0, num_cash_txn = 0, num_history = 0\<rparr>"

section \<open>The queries on a trade\<close>

definition settlements :: "int \<Rightarrow> db \<Rightarrow> settlement_row list" where
  "settlements t d = filter (\<lambda>r. se_t_id r = t) (settlement_tbl d)"

definition settlement_values :: "pgapi \<Rightarrow> settlement_row \<Rightarrow> spi_row" where
  "settlement_values pg r = [num_txt 2 (se_amt r), Some (date_out pg (se_cash_due_date r)), Some (se_cash_type r)]"

definition SQL_settlement :: "pgapi \<Rightarrow> int \<Rightarrow> sql" where
  "SQL_settlement pg t d = sql_select (map (settlement_values pg) (settlements t d)) d"

definition cash_transactions :: "int \<Rightarrow> db \<Rightarrow> cash_transaction_row list" where
  "cash_transactions t d = filter (\<lambda>r. ct_t_id r = t) (cash_transaction_tbl d)"

definition cash_values :: "pgapi \<Rightarrow> cash_transaction_row \<Rightarrow> spi_row" where
  "cash_values pg r = [num_txt 2 (ct_amt r), Some (timestamp_out pg (ct_dts r)), ct_name r]"

definition SQL_cash_transaction :: "pgapi \<Rightarrow> int \<Rightarrow> sql" where
  "SQL_cash_transaction pg t d = sql_select (map (cash_values pg) (cash_transactions t d)) d"

definition histories :: "int \<Rightarrow> db \<Rightarrow> trade_history_row list" where
  "histories t d = take 3 (order_asc th_dts (filter (\<lambda>r. th_t_id r = t) (trade_history_tbl d)))"

definition history_values :: "pgapi \<Rightarrow> trade_history_row \<Rightarrow> spi_row" where
  "history_values pg r = [Some (timestamp_out pg (th_dts r)), Some (th_st_id r)]"

definition SQL_trade_history :: "pgapi \<Rightarrow> int \<Rightarrow> sql" where
  "SQL_trade_history pg t d = sql_select (map (history_values pg) (histories t d)) d"

section \<open>Appending their rows\<close>

text \<open>\<open>s[0] == 't'\<close>, and the text of a null price.\<close>

definition is_t :: "string \<Rightarrow> bool" where
  "is_t s = (case s of [] \<Rightarrow> False | c # _ \<Rightarrow> c = CHR ''t'')"

definition bit_text :: "bool \<Rightarrow> string" where
  "bit_text b = (if b then ''1'' else ''0'')"

definition or_NULL :: "string option \<Rightarrow> string" where
  "or_NULL p = (case p of None \<Rightarrow> ''NULL'' | Some v \<Rightarrow> v)"

lemma is_t_bool [simp]: "is_t (if b then ''t'' else ''f'') = b"
  by (simp add: is_t_def)

text \<open>A value, in quotes in some frames and without in others.\<close>

definition value_as :: "bool \<Rightarrow> mode \<Rightarrow> trade_col \<Rightarrow> string \<Rightarrow> trade_col emit list" where
  "value_as q m c v = (if q then quote_as m c v else [(c, m, v)])"

text \<open>The rows of a settlement; \<open>qd\<close> and \<open>qt\<close> tell whether the frame quotes the due date and the type.\<close>

definition settlement_cells :: "bool \<Rightarrow> bool \<Rightarrow> nat \<Rightarrow> spi_row \<Rightarrow> trade_col emit list outcome" where
  "settlement_cells qd qt n row =
     obind (from_ptr (SPI_getvalue row 1)) (\<lambda>amount.
     obind (from_ptr (SPI_getvalue row 2)) (\<lambda>due.
     obind (from_ptr (SPI_getvalue row 3)) (\<lambda>type.
     Ok (seps n settlement_cols @ [(i_settlement_amount, Plain, amount)]
       @ value_as qd Plain i_settlement_cash_due_date due @ value_as qt Plain i_settlement_cash_type type))))"

text \<open>The rows of a cash transaction, and what stands for a trade that is not settled in cash.\<close>

definition cash_cells :: "bool \<Rightarrow> mode \<Rightarrow> nat \<Rightarrow> spi_row \<Rightarrow> trade_col emit list outcome" where
  "cash_cells qa m n row =
     obind (from_ptr (SPI_getvalue row 1)) (\<lambda>amount.
     obind (from_ptr (SPI_getvalue row 2)) (\<lambda>dts.
     obind (from_ptr (SPI_getvalue row 3)) (\<lambda>name.
     Ok (seps n cash_cols @ value_as qa Plain i_cash_transaction_amount amount
       @ quote_as m i_cash_transaction_dts dts @ quote_as Plain i_cash_transaction_name name))))"

definition cash_pad :: "nat \<Rightarrow> trade_col emit list" where
  "cash_pad n = seps n cash_cols @ [(i_cash_transaction_amount, Plain, ''0''), (i_cash_transaction_dts, Plain, ''NULL''),
     (i_cash_transaction_name, Plain, ''\"\"'')]"

text \<open>
  The rows of a history and the padding up to three; \<open>n\<close> counts what the columns have received,
  \<open>j\<close> the rows of this trade.
\<close>

definition history_cells :: "bool \<Rightarrow> bool \<Rightarrow> nat \<Rightarrow> spi_row \<Rightarrow> trade_col emit list outcome" where
  "history_cells qd qs n row =
     obind (from_ptr (SPI_getvalue row 1)) (\<lambda>dts.
     obind (from_ptr (SPI_getvalue row 2)) (\<lambda>status.
     Ok (seps n history_cols @ value_as qd Plain i_trade_history_dts dts @ value_as qs Plain i_trade_history_status_id status)))"

definition history_pad :: "string \<Rightarrow> nat \<Rightarrow> nat \<Rightarrow> trade_col emit list" where
  "history_pad status n j = concat (map (\<lambda>i. seps (n + i) history_cols
     @ [(i_trade_history_dts, Plain, ''NULL''), (i_trade_history_status_id, Plain, status)]) [0..<3 - j])"

section \<open>The same for rows of the tables\<close>

definition settlement_es :: "pgapi \<Rightarrow> bool \<Rightarrow> bool \<Rightarrow> nat \<Rightarrow> settlement_row \<Rightarrow> trade_col emit list" where
  "settlement_es pg qd qt n r = seps n settlement_cols @ [(i_settlement_amount, Plain, numeric_out 2 (se_amt r))]
     @ value_as qd Plain i_settlement_cash_due_date (date_out pg (se_cash_due_date r))
     @ value_as qt Plain i_settlement_cash_type (se_cash_type r)"

definition cash_es :: "pgapi \<Rightarrow> bool \<Rightarrow> mode \<Rightarrow> nat \<Rightarrow> cash_transaction_row \<Rightarrow> trade_col emit list" where
  "cash_es pg qa m n r = seps n cash_cols @ value_as qa Plain i_cash_transaction_amount (numeric_out 2 (ct_amt r))
     @ quote_as m i_cash_transaction_dts (timestamp_out pg (ct_dts r)) @ quote_as Plain i_cash_transaction_name (the (ct_name r))"

definition history_es :: "pgapi \<Rightarrow> bool \<Rightarrow> bool \<Rightarrow> nat \<Rightarrow> trade_history_row \<Rightarrow> trade_col emit list" where
  "history_es pg qd qs n r = seps n history_cols @ value_as qd Plain i_trade_history_dts (timestamp_out pg (th_dts r))
     @ value_as qs Plain i_trade_history_status_id (th_st_id r)"

lemma settlement_cells_values: "settlement_cells qd qt n (settlement_values pg r) = Ok (settlement_es pg qd qt n r)"
  by (simp add: settlement_cells_def settlement_values_def settlement_es_def)

lemma cash_cells_values: "ct_name r \<noteq> None \<Longrightarrow> cash_cells qa m n (cash_values pg r) = Ok (cash_es pg qa m n r)"
  by (auto simp: cash_cells_def cash_values_def cash_es_def)

lemma history_cells_values: "history_cells qd qs n (history_values pg r) = Ok (history_es pg qd qs n r)"
  by (simp add: history_cells_def history_values_def history_es_def)

section \<open>What the columns receive\<close>

definition text_as :: "bool \<Rightarrow> string \<Rightarrow> string" where
  "text_as q v = (if q then quoted v else v)"

definition settlement_el :: "pgapi \<Rightarrow> bool \<Rightarrow> bool \<Rightarrow> trade_col \<Rightarrow> settlement_row \<Rightarrow> string" where
  "settlement_el pg qd qt c r =
     (case c of
        i_settlement_amount \<Rightarrow> numeric_out 2 (se_amt r)
      | i_settlement_cash_due_date \<Rightarrow> text_as qd (date_out pg (se_cash_due_date r))
      | i_settlement_cash_type \<Rightarrow> text_as qt (se_cash_type r)
      | _ \<Rightarrow> [])"

definition cash_el :: "pgapi \<Rightarrow> bool \<Rightarrow> trade_col \<Rightarrow> cash_transaction_row \<Rightarrow> string" where
  "cash_el pg qa c r =
     (case c of
        i_cash_transaction_amount \<Rightarrow> text_as qa (numeric_out 2 (ct_amt r))
      | i_cash_transaction_dts \<Rightarrow> quoted (timestamp_out pg (ct_dts r))
      | i_cash_transaction_name \<Rightarrow> quoted (the (ct_name r))
      | _ \<Rightarrow> [])"

definition cash_pad_el :: "trade_col \<Rightarrow> string" where
  "cash_pad_el c =
     (case c of
        i_cash_transaction_amount \<Rightarrow> ''0''
      | i_cash_transaction_dts \<Rightarrow> ''NULL''
      | i_cash_transaction_name \<Rightarrow> ''\"\"''
      | _ \<Rightarrow> [])"

definition history_el :: "pgapi \<Rightarrow> bool \<Rightarrow> bool \<Rightarrow> trade_col \<Rightarrow> trade_history_row \<Rightarrow> string" where
  "history_el pg qd qs c r =
     (case c of
        i_trade_history_dts \<Rightarrow> text_as qd (timestamp_out pg (th_dts r))
      | i_trade_history_status_id \<Rightarrow> text_as qs (th_st_id r)
      | _ \<Rightarrow> [])"

definition history_pad_el :: "string \<Rightarrow> trade_col \<Rightarrow> string" where
  "history_pad_el status c = (if c = i_trade_history_dts then ''NULL'' else status)"

lemma out_value_as [simp]: "out c (value_as q m c' v) = (if c' = c then text_as q v else [])"
  by (simp add: value_as_def text_as_def)

lemma extras_value_as [simp]: "extras c (value_as q m c' v) = (if c' = c \<and> m = Extra then 1 else 0)"
  by (simp add: value_as_def)

lemma out_settlement_es:
  "out c (settlement_es pg qd qt n r) =
     (if c \<in> set settlement_cols then (if n = 0 then [] else '','') @ settlement_el pg qd qt c r else [])"
  by (auto simp: settlement_es_def settlement_el_def)

lemma out_cash_es:
  "out c (cash_es pg qa m n r) = (if c \<in> set cash_cols then (if n = 0 then [] else '','') @ cash_el pg qa c r else [])"
  by (auto simp: cash_es_def cash_el_def)

lemma out_cash_pad:
  "out c (cash_pad n) = (if c \<in> set cash_cols then (if n = 0 then [] else '','') @ cash_pad_el c else [])"
  by (auto simp: cash_pad_def cash_pad_el_def)

lemma out_history_es:
  "out c (history_es pg qd qs n r) =
     (if c \<in> set history_cols then (if n = 0 then [] else '','') @ history_el pg qd qs c r else [])"
  by (auto simp: history_es_def history_el_def)

lemma out_settlement_rows:
  "out c (rows_emits (settlement_es pg qd qt) n rs) =
     (if c \<in> set settlement_cols then joined (n = 0) (map (settlement_el pg qd qt c) rs) else [])"
proof (cases "c \<in> set settlement_cols")
  case True
  with out_rows_emits [of rs c "settlement_es pg qd qt" "settlement_el pg qd qt c"] show ?thesis
    by (simp only: out_settlement_es if_True)
next
  case False
  with out_rows_emits_none [of rs c "settlement_es pg qd qt"] show ?thesis by (simp only: out_settlement_es if_False)
qed

lemma out_cash_rows:
  "out c (rows_emits (cash_es pg qa m) n rs) =
     (if c \<in> set cash_cols then joined (n = 0) (map (cash_el pg qa c) rs) else [])"
proof (cases "c \<in> set cash_cols")
  case True
  with out_rows_emits [of rs c "cash_es pg qa m" "cash_el pg qa c"] show ?thesis by (simp only: out_cash_es if_True)
next
  case False
  with out_rows_emits_none [of rs c "cash_es pg qa m"] show ?thesis by (simp only: out_cash_es if_False)
qed

lemma out_history_rows:
  "out c (rows_emits (history_es pg qd qs) n rs) =
     (if c \<in> set history_cols then joined (n = 0) (map (history_el pg qd qs c) rs) else [])"
proof (cases "c \<in> set history_cols")
  case True
  with out_rows_emits [of rs c "history_es pg qd qs" "history_el pg qd qs c"] show ?thesis
    by (simp only: out_history_es if_True)
next
  case False
  with out_rows_emits_none [of rs c "history_es pg qd qs"] show ?thesis by (simp only: out_history_es if_False)
qed

lemma out_history_pad:
  "out c (history_pad status n j) =
     (if c \<in> set history_cols then joined (n = 0) (replicate (3 - j) (history_pad_el status c)) else [])"
proof -
  have "out c (concat (map (\<lambda>i. seps (n + i) history_cols
        @ [(i_trade_history_dts, Plain, ''NULL''), (i_trade_history_status_id, Plain, status)]) [m..<m + k])) =
      (if c \<in> set history_cols then joined (n + m = 0) (replicate k (history_pad_el status c)) else [])" for m k
  proof (induction k arbitrary: m)
    case (Suc k)
    show ?case using Suc [of "Suc m"] by (auto simp: upt_rec [of m] history_pad_el_def)
  qed simp
  from this [of 0 "3 - j"] show ?thesis by (simp add: history_pad_def)
qed

lemma extras_details [simp]:
  "extras c (settlement_es pg qd qt n s) = 0" "extras c (cash_pad n) = 0" "extras c (history_es pg qd qs n h) = 0"
  "extras c (cash_es pg qa m n r) = (if c = i_cash_transaction_dts \<and> m = Extra then 1 else 0)"
  by (simp_all add: settlement_es_def cash_pad_def history_es_def cash_es_def)

lemma extras_history_pad [simp]: "extras c (history_pad status n j) = 0"
proof -
  have "extras c (concat (map (\<lambda>i. seps (n + i) history_cols
        @ [(i_trade_history_dts, Plain, ''NULL''), (i_trade_history_status_id, Plain, status)]) is)) = 0" for "is"
    by (induction "is") simp_all
  then show ?thesis by (simp add: history_pad_def)
qed

lemma extras_detail_rows [simp]:
  "extras c (rows_emits (settlement_es pg qd qt) n ss) = 0" "extras c (rows_emits (history_es pg qd qs) n hs) = 0"
  "extras c (rows_emits (cash_es pg qa m) n cs) = (if c = i_cash_transaction_dts \<and> m = Extra then length cs else 0)"
proof -
  show "extras c (rows_emits (settlement_es pg qd qt) n ss) = 0" by (induction ss arbitrary: n) simp_all
  show "extras c (rows_emits (history_es pg qd qs) n hs) = 0" by (induction hs arbitrary: n) simp_all
  show "extras c (rows_emits (cash_es pg qa m) n cs) = (if c = i_cash_transaction_dts \<and> m = Extra then length cs else 0)"
    by (induction cs arbitrary: n) simp_all
qed

text \<open>None of this is deducted before it is appended.\<close>

definition late_in :: "trade_col list \<Rightarrow> trade_col emit \<Rightarrow> bool" where
  "late_in cs e = (case e of (c, m, s) \<Rightarrow> c \<in> set cs \<and> m \<noteq> Pre)"

lemma details_in:
  "\<forall>e \<in> set (rows_emits (settlement_es pg qd qt) n ss). late_in settlement_cols e"
  "\<forall>e \<in> set (rows_emits (history_es pg qd qs) n hs). late_in history_cols e"
  "m \<noteq> Pre \<Longrightarrow> \<forall>e \<in> set (rows_emits (cash_es pg qa m) n cs). late_in cash_cols e"
  "\<forall>e \<in> set (cash_pad n). late_in cash_cols e" "\<forall>e \<in> set (history_pad p n j). late_in history_cols e"
  "\<forall>e \<in> set (seps n history_cols). late_in history_cols e"
proof -
  show "\<forall>e \<in> set (rows_emits (settlement_es pg qd qt) n ss). late_in settlement_cols e"
    by (rule rows_emits_all) (auto simp: late_in_def settlement_es_def seps_def quote_as_def value_as_def split: if_splits)
  show "\<forall>e \<in> set (rows_emits (history_es pg qd qs) n hs). late_in history_cols e"
    by (rule rows_emits_all) (auto simp: late_in_def history_es_def seps_def quote_as_def value_as_def split: if_splits)
  show "m \<noteq> Pre \<Longrightarrow> \<forall>e \<in> set (rows_emits (cash_es pg qa m) n cs). late_in cash_cols e"
    by (rule rows_emits_all) (auto simp: late_in_def cash_es_def seps_def quote_as_def value_as_def split: if_splits)
  show "\<forall>e \<in> set (cash_pad n). late_in cash_cols e" "\<forall>e \<in> set (history_pad p n j). late_in history_cols e"
    "\<forall>e \<in> set (seps n history_cols). late_in history_cols e"
    by (auto simp: late_in_def cash_pad_def history_pad_def seps_def split: if_splits)
qed

section \<open>Elements by trade\<close>

definition settlement_els :: "pgapi \<Rightarrow> bool \<Rightarrow> bool \<Rightarrow> trade_col \<Rightarrow> int \<Rightarrow> db \<Rightarrow> string list" where
  "settlement_els pg qd qt c t d = map (settlement_el pg qd qt c) (settlements t d)"

definition cash_els :: "pgapi \<Rightarrow> bool \<Rightarrow> bool \<Rightarrow> trade_col \<Rightarrow> int \<Rightarrow> db \<Rightarrow> string list" where
  "cash_els pg qa cash c t d = (if cash then map (cash_el pg qa c) (cash_transactions t d) else [cash_pad_el c])"

definition history_els :: "pgapi \<Rightarrow> bool \<Rightarrow> bool \<Rightarrow> string \<Rightarrow> trade_col \<Rightarrow> int \<Rightarrow> db \<Rightarrow> string list" where
  "history_els pg qd qs status c t d = map (history_el pg qd qs c) (histories t d)
     @ replicate (3 - length (histories t d)) (history_pad_el status c)"

text \<open>The counter that decides about the commas of a column.\<close>

definition counter :: "trade_col \<Rightarrow> 'a counters_scheme \<Rightarrow> nat" where
  "counter c k =
     (if c \<in> set settlement_cols then num_settlement k else if c \<in> set cash_cols then num_cash_txn k
      else if c \<in> set history_cols then num_history k else trades k)"

lemma length_histories [simp]: "length (histories t d) \<le> 3"
  by (simp add: histories_def)

lemma length_history_els [simp]: "length (history_els pg qd qs status c t d) = 3"
  by (simp add: history_els_def)

lemma joined_False_nonempty: "xs \<noteq> [] \<Longrightarrow> joined False xs = '','' @ joined True xs"
  by (cases xs) simp_all

section \<open>Queries of a read-only frame\<close>

context sql_provider begin

lemma query_read:
  assumes "stmt \<in> set ss" "\<And>d. sql as stmt d = Ok (SPI_OK_SELECT (rows d), d)"
  shows "set ss \<subseteq> set (plans f) \<Longrightarrow> session f = s \<Longrightarrow>
    query spi True stmt as f = Ok (Some (rows (snapshot s)), f\<lparr>session := s\<rparr>)"
proof -
  assume f: "set ss \<subseteq> set (plans f)" "session f = s"
  have "SPI_execute_plan spi stmt as True f = Ok (SPI_OK_SELECT (rows (snap_of f)), f)"
    using assms(1) f(1) by (intro exec_read [OF _ assms(2)]) blast
  then show ?thesis using f(2) by (auto simp: query_def snap_of_def)
qed

lemma writes_read:
  assumes "stmt \<in> set ss" "\<And>d. sql as stmt d = Ok (SPI_OK_SELECT (map row (rows d)), d)"
    and "\<And>n r. r \<in> set (rows (snapshot s)) \<Longrightarrow> ps n (row r) = Ok (es n r)"
  shows "writes small ss s (append_query small spi True stmt as ps n) (rows_emits es n (rows (snapshot s)))
    (Some (n + length (rows (snapshot s)))) s"
proof (rule writes_append_query [where rs = "rows (snapshot s)" and ps = ps and row = row and es = es, OF _ assms(3)])
  fix f :: "('s, pgsession) fctx"
  assume f: "set ss \<subseteq> set (plans f)" "session f = s"
  then have "f\<lparr>session := s\<rparr> = f" by auto
  then show "query spi True stmt as f = Ok (Some (map row (rows (snapshot s))), f)"
    using query_read [where rows = "\<lambda>d. map row (rows d)", OF assms(1,2) f] by simp
qed

end

section \<open>Databases that respect the widths\<close>

text \<open>
  The keys of the tables are keys, the texts are no longer than their columns, dates and
  timestamps not longer than sixty characters, and no cash transaction lacks a name.
\<close>

definition trades_keyed :: "db \<Rightarrow> bool" where
  "trades_keyed d \<longleftrightarrow> distinct (map t_id (trade_tbl d)) \<and> distinct (map tt_id (trade_type_tbl d))
     \<and> distinct (map se_t_id (settlement_tbl d)) \<and> distinct (map ct_t_id (cash_transaction_tbl d))"

definition details_sized :: "pgapi \<Rightarrow> db \<Rightarrow> bool" where
  "details_sized pg d \<longleftrightarrow>
     (\<forall>s \<in> set (settlement_tbl d). length (numeric_out 2 (se_amt s)) \<le> 12 \<and> length (date_out pg (se_cash_due_date s)) \<le> 60
        \<and> length (se_cash_type s) \<le> 40)
     \<and> (\<forall>c \<in> set (cash_transaction_tbl d). ct_name c \<noteq> None \<and> length (the (ct_name c)) \<le> 100
        \<and> length (timestamp_out pg (ct_dts c)) \<le> 60)
     \<and> (\<forall>h \<in> set (trade_history_tbl d). length (timestamp_out pg (th_dts h)) \<le> 60 \<and> length (th_st_id h) \<le> 4)"

lemma keyed_filter_length: "distinct (map k xs) \<Longrightarrow> length (filter (\<lambda>x. k x = v) xs) \<le> 1"
proof (cases "v \<in> k ` set xs")
  case True
  assume "distinct (map k xs)"
  with True keyed_filter_single [of k xs] show ?thesis by auto
next
  case False
  then show ?thesis by (simp add: keyed_filter_none)
qed

lemma settlements_le: "trades_keyed d \<Longrightarrow> length (settlements t d) \<le> 1"
  using keyed_filter_length [of se_t_id "settlement_tbl d" t] by (simp add: settlements_def trades_keyed_def)

lemma cash_transactions_le: "trades_keyed d \<Longrightarrow> length (cash_transactions t d) \<le> 1"
  using keyed_filter_length [of ct_t_id "cash_transaction_tbl d" t] by (simp add: cash_transactions_def trades_keyed_def)

lemma settlement_els_width:
  "details_sized pg d \<Longrightarrow> x \<in> set (settlement_els pg qd qt c t d) \<Longrightarrow>
   length x \<le> (case c of i_settlement_amount \<Rightarrow> 12 | i_settlement_cash_due_date \<Rightarrow> 60 + (if qd then 2 else 0)
     | _ \<Rightarrow> 40 + (if qt then 2 else 0))"
  by (auto simp: details_sized_def settlement_els_def settlements_def settlement_el_def text_as_def quoted_def
      split: trade_col.split)

lemma cash_els_width:
  "details_sized pg d \<Longrightarrow> \<forall>r \<in> set (cash_transaction_tbl d). length (numeric_out 2 (ct_amt r)) \<le> w \<Longrightarrow> 1 \<le> w \<Longrightarrow>
   x \<in> set (cash_els pg qa cash c t d) \<Longrightarrow>
   length x \<le> (case c of i_cash_transaction_amount \<Rightarrow> w + (if qa then 2 else 0) | i_cash_transaction_dts \<Rightarrow> 62 | _ \<Rightarrow> 102)"
  by (auto simp: details_sized_def cash_els_def cash_transactions_def cash_el_def cash_pad_el_def text_as_def quoted_def
      split: trade_col.split if_splits)

lemma history_els_width:
  "details_sized pg d \<Longrightarrow> length status \<le> 4 \<Longrightarrow> x \<in> set (history_els pg qd qs status c t d) \<Longrightarrow>
   length x \<le> (if c = i_trade_history_dts then 60 + (if qd then 2 else 0) else 4 + (if qs then 2 else 0))"
  by (auto simp: details_sized_def history_els_def histories_def history_el_def history_pad_el_def text_as_def quoted_def
      order_asc_def dest!: in_set_takeD split: trade_col.split if_splits)

lemma cash_els_le: "trades_keyed d \<Longrightarrow> length (cash_els pg qa cash c t d) \<le> 1"
  using cash_transactions_le [of d t] by (simp add: cash_els_def)

lemma settlement_els_le: "trades_keyed d \<Longrightarrow> length (settlement_els pg qd qt c t d) \<le> 1"
  using settlements_le [of d t] by (simp add: settlement_els_def)

lemma concat_le: "(\<And>x. x \<in> set xs \<Longrightarrow> length (f x) \<le> k) \<Longrightarrow> length (concat (map f xs)) \<le> k * length xs"
  by (induction xs) (force simp: algebra_simps)+

lemma snprintf_count: "n < 1000000000 \<Longrightarrow> snprintf_d (INTEGER_LEN + 1) (int n) = show_int (int n)"
  using length_show_int [of "int n" 10] by (simp add: snprintf_d_def)

section \<open>The common shape of cash and history\<close>

text \<open>
  Most frames count the elements of the history (frame 1 of Trade-Lookup counts trades), and
  look for a cash transaction only if the trade is settled in cash.
\<close>

definition append_cash ::
    "(trade_col \<Rightarrow> 's) \<Rightarrow> ('s, 'd) spi \<Rightarrow> bool \<Rightarrow> 's \<Rightarrow> datum list \<Rightarrow> bool \<Rightarrow> mode \<Rightarrow> bool \<Rightarrow> nat \<Rightarrow> trade_col bufs \<Rightarrow>
     ('s, 'd) fctx \<Rightarrow> ((nat option \<times> trade_col bufs) \<times> ('s, 'd) fctx) outcome" where
  "append_cash small spi read_only stmt args qa m is_cash n bufs f =
     (if is_cash then append_query small spi read_only stmt args (cash_cells qa m) n bufs f
      else obind (emits small (cash_pad n) bufs f) (\<lambda>(bufs, f). Ok ((Some (Suc n), bufs), f)))"

definition append_history ::
    "(trade_col \<Rightarrow> 's) \<Rightarrow> ('s, 'd) spi \<Rightarrow> bool \<Rightarrow> 's \<Rightarrow> datum list \<Rightarrow> bool \<Rightarrow> bool \<Rightarrow> string \<Rightarrow> nat \<Rightarrow> trade_col bufs \<Rightarrow>
     ('s, 'd) fctx \<Rightarrow> ((nat option \<times> trade_col bufs) \<times> ('s, 'd) fctx) outcome" where
  "append_history small spi read_only stmt args qd qs status n bufs f =
     obind (query spi read_only stmt args f) (\<lambda>(r, f).
     case r of
       None \<Rightarrow> Ok ((None, bufs), FAIL_FRAME_SET stmt f)
     | Some rows \<Rightarrow>
         obind (emit_rows small (history_cells qd qs) n rows bufs f) (\<lambda>((n, bufs), f).
         obind (emits small (history_pad status n (length rows)) bufs f) (\<lambda>(bufs, f).
         Ok ((Some (n + (3 - length rows)), bufs), f))))"

definition cash_part :: "pgapi \<Rightarrow> bool \<Rightarrow> mode \<Rightarrow> bool \<Rightarrow> nat \<Rightarrow> int \<Rightarrow> db \<Rightarrow> trade_col emit list" where
  "cash_part pg qa m is_cash n t d = (if is_cash then rows_emits (cash_es pg qa m) n (cash_transactions t d) else cash_pad n)"

definition history_part :: "pgapi \<Rightarrow> bool \<Rightarrow> bool \<Rightarrow> string \<Rightarrow> nat \<Rightarrow> int \<Rightarrow> db \<Rightarrow> trade_col emit list" where
  "history_part pg qd qs status n t d = rows_emits (history_es pg qd qs) n (histories t d)
     @ history_pad status (n + length (histories t d)) (length (histories t d))"

definition cash_count :: "bool \<Rightarrow> int \<Rightarrow> db \<Rightarrow> nat" where
  "cash_count is_cash t d = (if is_cash then length (cash_transactions t d) else 1)"

text \<open>No cash transaction of the trade has a null name: the code takes the length of the name.\<close>

definition named_cash :: "int \<Rightarrow> db \<Rightarrow> bool" where
  "named_cash t d \<longleftrightarrow> (\<forall>r \<in> set (cash_transactions t d). ct_name r \<noteq> None)"

lemma named_cash: "details_sized pg d \<Longrightarrow> named_cash i d"
  by (auto simp: details_sized_def named_cash_def cash_transactions_def)

lemma writes_append_cash:
  assumes "\<And>f. set ss \<subseteq> set (plans f) \<Longrightarrow> session f = s \<Longrightarrow>
      query spi ro stmt args f = Ok (Some (map (cash_values pg) (cash_transactions t d)), f)" "named_cash t d"
  shows "writes small ss s (append_cash small spi ro stmt args qa m is_cash n) (cash_part pg qa m is_cash n t d)
    (Some (n + cash_count is_cash t d)) s"
proof (cases is_cash)
  case True
  have "writes small ss s (append_query small spi ro stmt args (cash_cells qa m) n)
      (rows_emits (cash_es pg qa m) n (cash_transactions t d)) (Some (n + length (cash_transactions t d))) s"
    by (rule writes_append_query [where row = "cash_values pg" and rs = "cash_transactions t d" and ps = "cash_cells qa m"
        and es = "cash_es pg qa m", OF assms(1)])
      (use assms(2) in \<open>auto simp: named_cash_def intro!: cash_cells_values\<close>)
  with True show ?thesis by (simp add: append_cash_def [abs_def] cash_part_def cash_count_def)
next
  case False
  then show ?thesis using writes_emits by (simp add: append_cash_def [abs_def] cash_part_def cash_count_def)
qed

lemma writes_append_history:
  assumes "\<And>f. set ss \<subseteq> set (plans f) \<Longrightarrow> session f = s \<Longrightarrow>
      query spi ro stmt args f = Ok (Some (map (history_values pg) (histories t d)), f)"
  shows "writes small ss s (append_history small spi ro stmt args qd qs status n) (history_part pg qd qs status n t d)
    (Some (n + 3)) s"
proof -
  let ?h = "histories t d"
  have rows: "emit_rows small (history_cells qd qs) n (map (history_values pg) ?h) bufs f =
      obind (emits small (rows_emits (history_es pg qd qs) n ?h) bufs f) (\<lambda>(bufs, f). Ok ((n + length ?h, bufs), f))"
    for bufs f by (rule emit_rows_emits) (rule history_cells_values)
  show ?thesis
    unfolding writes_def append_history_def
    by (auto simp: assms rows emits_append obind_assoc case_prod_unfold history_part_def)
qed

lemma out_cash_part:
  "out c (cash_part pg qa m is_cash n t d) =
     (if c \<in> set cash_cols then joined (n = 0) (cash_els pg qa is_cash c t d) else [])"
  by (simp add: cash_part_def cash_els_def out_cash_rows out_cash_pad)

lemma out_history_part:
  "out c (history_part pg qd qs status n t d) =
     (if c \<in> set history_cols then joined (n = 0) (history_els pg qd qs status c t d) else [])"
  by (simp add: history_part_def history_els_def out_history_rows out_history_pad joined_append)

lemma extras_parts [simp]:
  "extras c (history_part pg qd qs status n t d) = 0"
  "extras c (cash_part pg qa m is_cash n t d) =
     (if c = i_cash_transaction_dts \<and> m = Extra \<and> is_cash then length (cash_transactions t d) else 0)"
  by (simp_all add: history_part_def cash_part_def)

lemma parts_in:
  "\<forall>e \<in> set (history_part pg qd qs status n t d). late_in history_cols e"
  "m \<noteq> Pre \<Longrightarrow> \<forall>e \<in> set (cash_part pg qa m is_cash n t d). late_in cash_cols e"
  using details_in by (auto simp: history_part_def cash_part_def ball_Un)

lemma late_in_mono: "\<forall>e \<in> set es. late_in cs e \<Longrightarrow> set cs \<subseteq> set cs' \<Longrightarrow> \<forall>e \<in> set es. late_in cs' e"
  by (fastforce simp: late_in_def)

lemma history_els_nonempty [simp]: "history_els pg qd qs status c t d \<noteq> []"
  using length_history_els [of pg qd qs status c t d] by force

end
