(* ===== verification/TradeLookup.thy ===== *)
theory TradeLookup
  imports TradeRows
begin

text \<open>
  The Trade-Lookup transaction, \<^verbatim>\<open>storedproc/pgsql/c/trade_lookup.c\<close>: the SQL statements of its
  four frames, and the first frame, which returns the trades with given numbers.
\<close>

section \<open>SQL statements\<close>

text \<open>\<open>TL_small c\<close> stands for the text of the warning about the buffer of the column \<open>c\<close>.\<close>

datatype tl_stmt = TLF1_1 | TLF1_2 | TLF1_3 | TLF1_4 | TLF2_1 | TLF2_2 | TLF2_3 | TLF2_4
  | TLF3_1 | TLF3_2 | TLF3_3 | TLF3_4 | TLF4_1 | TLF4_2 | TL_small trade_col
  | TLF4_history_id_small | TLF4_trade_id_small | TLF4_after_small | TLF4_before_small

definition TLF1_statements :: "tl_stmt list" where
  "TLF1_statements = [TLF1_1, TLF1_2, TLF1_3, TLF1_4]"

definition TLF2_statements :: "tl_stmt list" where
  "TLF2_statements = [TLF2_1, TLF2_2, TLF2_3, TLF2_4]"

definition TLF3_statements :: "tl_stmt list" where
  "TLF3_statements = [TLF3_1, TLF3_2, TLF3_3, TLF3_4]"

definition TLF4_statements :: "tl_stmt list" where
  "TLF4_statements = [TLF4_1, TLF4_2]"

type_synonym typed_trade = "trade_row \<times> trade_type_row"

definition typed_trades :: "int \<Rightarrow> db \<Rightarrow> typed_trade list" where
  "typed_trades i d = [(t, ty). t \<leftarrow> trade_tbl d, ty \<leftarrow> trade_type_tbl d, t_id t = i \<and> t_tt_id t = tt_id ty]"

fun typed_trade_values :: "typed_trade \<Rightarrow> spi_row" where
  "typed_trade_values (t, ty) = [num_txt 2 (t_bid_price t), Some (t_exec_name t), bool_txt (t_is_cash t),
     bool_txt (tt_is_mrkt ty), map_option (numeric_out 2) (t_trade_price t)]"

definition SQLTLF1_1 :: "int \<Rightarrow> sql" where
  "SQLTLF1_1 i d = sql_select (map typed_trade_values (typed_trades i d)) d"

definition account_trades :: "int \<Rightarrow> int \<Rightarrow> int \<Rightarrow> db \<Rightarrow> trade_row list" where
  "account_trades acct since till d =
     order_asc t_dts (filter (\<lambda>t. t_ca_id t = acct \<and> since \<le> t_dts t \<and> t_dts t \<le> till) (trade_tbl d))"

definition account_trade_values :: "trade_row \<Rightarrow> spi_row" where
  "account_trade_values t = [num_txt 2 (t_bid_price t), Some (t_exec_name t), bool_txt (t_is_cash t), int_txt (t_id t),
     map_option (numeric_out 2) (t_trade_price t)]"

definition SQLTLF2_1 :: "int \<Rightarrow> int \<Rightarrow> int \<Rightarrow> int \<Rightarrow> sql" where
  "SQLTLF2_1 acct since till n d = sql_limit n (map account_trade_values (account_trades acct since till d)) d"

definition symbol_trades :: "string \<Rightarrow> int \<Rightarrow> int \<Rightarrow> db \<Rightarrow> trade_row list" where
  "symbol_trades symb since till d =
     order_asc t_dts (filter (\<lambda>t. t_s_symb t = symb \<and> since \<le> t_dts t \<and> t_dts t \<le> till) (trade_tbl d))"

definition symbol_trade_values :: "pgapi \<Rightarrow> trade_row \<Rightarrow> spi_row" where
  "symbol_trade_values pg t = [int_txt (t_ca_id t), Some (t_exec_name t), bool_txt (t_is_cash t),
     map_option (numeric_out 2) (t_trade_price t), int_txt (t_qty t), Some (timestamp_out pg (t_dts t)), int_txt (t_id t),
     Some (t_tt_id t)]"

definition SQLTLF3_1 :: "pgapi \<Rightarrow> string \<Rightarrow> int \<Rightarrow> int \<Rightarrow> int \<Rightarrow> sql" where
  "SQLTLF3_1 pg symb since till n d = sql_limit n (map (symbol_trade_values pg) (symbol_trades symb since till d)) d"

definition first_trades :: "int \<Rightarrow> int \<Rightarrow> db \<Rightarrow> trade_row list" where
  "first_trades acct since d = take 1 (order_asc t_dts (filter (\<lambda>t. t_ca_id t = acct \<and> since \<le> t_dts t) (trade_tbl d)))"

definition SQLTLF4_1 :: "int \<Rightarrow> int \<Rightarrow> sql" where
  "SQLTLF4_1 acct since d = sql_select (map (\<lambda>t. [int_txt (t_id t)]) (first_trades acct since d)) d"

definition holding_histories :: "int \<Rightarrow> db \<Rightarrow> holding_history_row list" where
  "holding_histories t d =
     (let hs = holding_history_tbl d in
      take 20 (filter (\<lambda>h. hh_h_t_id h \<in> set (map hh_h_t_id (filter (\<lambda>h. hh_t_id h = t) hs))) hs))"

definition holding_history_values :: "holding_history_row \<Rightarrow> string list" where
  "holding_history_values h = [show_int (hh_h_t_id h), show_int (hh_t_id h), show_int (hh_before_qty h), show_int (hh_after_qty h)]"

definition SQLTLF4_2 :: "int \<Rightarrow> sql" where
  "SQLTLF4_2 t d = sql_select (map (\<lambda>h. map Some (holding_history_values h)) (holding_histories t d)) d"

definition tl_sql :: "pgapi \<Rightarrow> datum list \<Rightarrow> tl_stmt \<Rightarrow> sql" where
  "tl_sql pg as stmt =
     (case as of
        [DInt64 t] \<Rightarrow>
          if stmt = TLF1_1 then SQLTLF1_1 t
          else if stmt \<in> {TLF1_2, TLF2_2, TLF3_2} then SQL_settlement pg t
          else if stmt \<in> {TLF1_3, TLF2_3, TLF3_3} then SQL_cash_transaction pg t
          else if stmt \<in> {TLF1_4, TLF2_4, TLF3_4} then SQL_trade_history pg t
          else if stmt = TLF4_2 then SQLTLF4_2 t
          else (\<lambda>d. Fail Sql_Error)
      | [DInt64 acct, DTimestamp since] \<Rightarrow> if stmt = TLF4_1 then SQLTLF4_1 acct since else (\<lambda>d. Fail Sql_Error)
      | [DInt64 acct, DTimestamp since, DTimestamp till, DInt32 n] \<Rightarrow>
          if stmt = TLF2_1 then SQLTLF2_1 acct since till n else (\<lambda>d. Fail Sql_Error)
      | [DText symb, DTimestamp since, DTimestamp till, DInt32 n] \<Rightarrow>
          if stmt = TLF3_1 then SQLTLF3_1 pg symb since till n else (\<lambda>d. Fail Sql_Error)
      | _ \<Rightarrow> (\<lambda>d. Fail Sql_Error))"

definition tl_spi :: "pgapi \<Rightarrow> (tl_stmt, pgsession) spi" where
  "tl_spi pg stmt as read_only s = run_sql (tl_sql pg as stmt) read_only s"

interpretation tl: sql_provider "tl_spi pg" "tl_sql pg" for pg
  by unfold_locales (simp add: tl_spi_def)

section \<open>Frame 1: trades by their numbers\<close>

definition tlf1_order :: "trade_col list" where
  "tlf1_order = [i_bid_price, i_cash_transaction_amount, i_cash_transaction_dts, i_cash_transaction_name, i_exec_name,
     i_is_cash, i_is_market, i_num_found, i_settlement_amount, i_settlement_cash_due_date, i_settlement_cash_type,
     i_trade_history_dts, i_trade_history_status_id, i_trade_price]"

definition TLF1_bufs :: "int \<Rightarrow> (trade_col \<times> int) list" where
  "TLF1_bufs max_trades =
     [(i_bid_price, i32 ((int S_PRICE_T_LEN + 1) * max_trades + 2)),
      (i_cash_transaction_amount, i32 ((int VALUE_T_LEN + 1) * max_trades + 2)),
      (i_cash_transaction_dts, i32 ((int MYMAXDATELEN + 3) * max_trades + 2)),
      (i_cash_transaction_name, i32 ((int CT_NAME_LEN + 3) * max_trades + 2)),
      (i_exec_name, i32 ((int T_EXEC_NAME_LEN + 3) * max_trades + 2)),
      (i_is_cash, i32 ((int BOOLEAN_LEN + 1) * max_trades + 2)),
      (i_is_market, i32 ((int BOOLEAN_LEN + 1) * max_trades + 3)),
      (i_settlement_amount, i32 ((int VALUE_T_LEN + 1) * max_trades + 2)),
      (i_settlement_cash_due_date, i32 ((int MYMAXDATELEN + 3) * max_trades + 2)),
      (i_settlement_cash_type, i32 ((int SE_CASH_TYPE_LEN + 3) * max_trades + 2)),
      (i_trade_history_dts, i32 (((int MYMAXDATELEN + 1) * max_trades + 3) * 3 + 2)),
      (i_trade_history_status_id, i32 (((int ST_ID_LEN + 3) * max_trades + 3) * 3 + 2)),
      (i_trade_price, i32 ((int S_PRICE_T_LEN + 1) * max_trades + 2))]"

text \<open>A row of the first query.  The bid price is deducted before it is appended.\<close>

definition TLF1_row :: "nat \<Rightarrow> spi_row \<Rightarrow> trade_col emit list outcome" where
  "TLF1_row n row =
     obind (from_ptr (SPI_getvalue row 1)) (\<lambda>bid_price.
     obind (from_ptr (SPI_getvalue row 2)) (\<lambda>exec_name.
     obind (from_ptr (SPI_getvalue row 3)) (\<lambda>is_cash_str.
     obind (from_ptr (SPI_getvalue row 4)) (\<lambda>is_market.
     Ok (seps n [i_bid_price, i_exec_name, i_is_cash, i_is_market, i_trade_price]
       @ [(i_bid_price, Pre, bid_price)]
       @ quote_as Extra i_exec_name exec_name
       @ [(i_is_cash, Plain, bit_text (is_t is_cash_str)), (i_is_market, Plain, bit_text (is_t is_market)),
          (i_trade_price, Plain, or_NULL (SPI_getvalue row 5))])))))"

definition TLF1_settlement :: "nat \<Rightarrow> spi_row \<Rightarrow> trade_col emit list outcome" where
  "TLF1_settlement = settlement_cells True True"

definition TLF1_cash :: "(tl_stmt, 'd) spi \<Rightarrow> int \<Rightarrow> bool \<Rightarrow> nat \<Rightarrow> trade_col bufs \<Rightarrow> (tl_stmt, 'd) fctx \<Rightarrow>
    ((nat option \<times> trade_col bufs) \<times> (tl_stmt, 'd) fctx) outcome" where
  "TLF1_cash spi trade is_cash n bufs f =
     (if is_cash then append_query TL_small spi True TLF1_3 [DInt64 trade] (cash_cells True Plain) n bufs f
      else obind (emits TL_small (cash_pad n) bufs f) (\<lambda>(bufs, f). Ok ((Some (Suc n), bufs), f)))"

text \<open>Here \<open>n\<close> counts the trades whose history has been appended.\<close>

definition TLF1_history :: "(tl_stmt, 'd) spi \<Rightarrow> int \<Rightarrow> nat \<Rightarrow> trade_col bufs \<Rightarrow> (tl_stmt, 'd) fctx \<Rightarrow>
    ((nat option \<times> trade_col bufs) \<times> (tl_stmt, 'd) fctx) outcome" where
  "TLF1_history spi trade n bufs f =
     obind (query spi True TLF1_4 [DInt64 trade] f) (\<lambda>(r, f).
     case r of
       None \<Rightarrow> Ok ((None, bufs), FAIL_FRAME_SET TLF1_4 f)
     | Some rows \<Rightarrow>
         obind (emits TL_small (seps n history_cols) bufs f) (\<lambda>(bufs, f).
         obind (emit_rows TL_small (history_cells True True) 0 rows bufs f) (\<lambda>((j, bufs), f).
         obind (emits TL_small (history_pad ''\"\"'' j j) bufs f) (\<lambda>(bufs, f).
         Ok ((Some (Suc n), bufs), f)))))"

text \<open>One round of the loop.  A trade that does not exist is skipped; a query that fails ends the round.\<close>

definition TLF1_trade :: "(tl_stmt, 'd) spi \<Rightarrow> int \<Rightarrow> counters \<Rightarrow> trade_col bufs \<Rightarrow> (tl_stmt, 'd) fctx \<Rightarrow>
    (((bool \<times> counters) \<times> trade_col bufs) \<times> (tl_stmt, 'd) fctx) outcome" where
  "TLF1_trade spi trade k bufs f =
     obind (query spi True TLF1_1 [DInt64 trade] f) (\<lambda>(r, f).
     case r of
       None \<Rightarrow> Ok (((True, k), bufs), FAIL_FRAME_SET TLF1_1 f)
     | Some rows \<Rightarrow>
         if rows = [] then Ok (((True, k), bufs), f)
         else
         obind (emit_rows TL_small TLF1_row (trades k) rows bufs f) (\<lambda>((n, bufs), f).
         let k = k\<lparr>trades := n\<rparr> in
         obind (from_ptr (SPI_getvalue (last rows) 3)) (\<lambda>is_cash_str.
         obind (append_query TL_small spi True TLF1_2 [DInt64 trade] TLF1_settlement (num_settlement k) bufs f)
           (\<lambda>((r, bufs), f). case r of None \<Rightarrow> Ok (((True, k), bufs), f) | Some n \<Rightarrow>
         let k = k\<lparr>num_settlement := n\<rparr> in
         obind (TLF1_cash spi trade (is_t is_cash_str) (num_cash_txn k) bufs f)
           (\<lambda>((r, bufs), f). case r of None \<Rightarrow> Ok (((True, k), bufs), f) | Some n \<Rightarrow>
         let k = k\<lparr>num_cash_txn := n\<rparr> in
         obind (TLF1_history spi trade (num_history k) bufs f)
           (\<lambda>((r, bufs), f). case r of None \<Rightarrow> Ok (((True, k), bufs), f) | Some n \<Rightarrow>
         Ok (((True, k\<lparr>num_history := n\<rparr>), bufs), f)))))))"

definition TLF1_closes :: "trade_col list" where
  "TLF1_closes = [i_bid_price, i_cash_transaction_amount, i_cash_transaction_dts, i_cash_transaction_name, i_exec_name,
     i_is_cash, i_is_market, i_settlement_amount, i_settlement_cash_due_date, i_settlement_cash_type,
     i_trade_history_dts, i_trade_history_status_id, i_trade_price]"

definition TradeLookupFrame1 ::
    "(tl_stmt \<Rightarrow> bool) \<Rightarrow> (tl_stmt, 'd) spi \<Rightarrow> int \<Rightarrow> int list \<Rightarrow> (tl_stmt, 'd) fctx \<Rightarrow>
     (spi_row list \<times> (tl_stmt, 'd) fctx) outcome" where
  "TradeLookupFrame1 prepare spi max_trades trade_id f =
     obind (pallocs (TLF1_bufs max_trades)) (\<lambda>_.
     let num_trades = min (int (length trade_id)) max_trades in
     obind (plan_queries prepare TLF1_statements (f\<lparr>max_calls := 1\<rparr>)) (\<lambda>f.
     obind (open_bufs (TLF1_bufs max_trades)) (\<lambda>bufs.
     obind (for_each (TLF1_trade spi) (take (nat num_trades) trade_id) counters0 bufs f) (\<lambda>((k, bufs), f).
     obind (emits TL_small (closes TLF1_closes) bufs f) (\<lambda>(bufs, f).
     let vals = (buf_slots (TLF1_bufs max_trades) bufs (\<lambda>_. Uninit))(i_num_found := Str (snprintf_d (INTEGER_LEN + 1) (int (trades k)))) in
     srf_return (map vals tlf1_order) f)))))"

section \<open>What frame 1 writes\<close>

definition tlf1_row_es :: "nat \<Rightarrow> typed_trade \<Rightarrow> trade_col emit list" where
  "tlf1_row_es n x = (case x of (t, ty) \<Rightarrow>
     seps n [i_bid_price, i_exec_name, i_is_cash, i_is_market, i_trade_price]
     @ [(i_bid_price, Pre, numeric_out 2 (t_bid_price t))] @ quote_as Extra i_exec_name (t_exec_name t)
     @ [(i_is_cash, Plain, bit_text (t_is_cash t)), (i_is_market, Plain, bit_text (tt_is_mrkt ty)),
        (i_trade_price, Plain, or_NULL (map_option (numeric_out 2) (t_trade_price t)))])"

text \<open>The last row decides whether the trade is settled in cash.\<close>

definition last_is_cash :: "typed_trade list \<Rightarrow> bool" where
  "last_is_cash xs = t_is_cash (fst (last xs))"

definition tlf1_es :: "pgapi \<Rightarrow> int \<Rightarrow> counters \<Rightarrow> db \<Rightarrow> trade_col emit list" where
  "tlf1_es pg i k d =
     (let xs = typed_trades i d; n = num_cash_txn k; j = length (histories i d) in
      if xs = [] then []
      else rows_emits tlf1_row_es (trades k) xs
        @ rows_emits (settlement_es pg True True) (num_settlement k) (settlements i d)
        @ (if last_is_cash xs then rows_emits (cash_es pg True Plain) n (cash_transactions i d) else cash_pad n)
        @ seps (num_history k) history_cols @ rows_emits (history_es pg True True) 0 (histories i d) @ history_pad ''\"\"'' j j)"

definition tlf1_nxt :: "int \<Rightarrow> counters \<Rightarrow> db \<Rightarrow> counters" where
  "tlf1_nxt i k d =
     (let xs = typed_trades i d in
      if xs = [] then k
      else k\<lparr>trades := trades k + length xs, num_settlement := num_settlement k + length (settlements i d),
        num_cash_txn := num_cash_txn k + (if last_is_cash xs then length (cash_transactions i d) else 1),
        num_history := Suc (num_history k)\<rparr>)"

text \<open>The elements a trade adds to the columns.\<close>

definition tlf1_el :: "trade_col \<Rightarrow> typed_trade \<Rightarrow> string" where
  "tlf1_el c x = (case x of (t, ty) \<Rightarrow>
     (case c of
        i_bid_price \<Rightarrow> numeric_out 2 (t_bid_price t)
      | i_exec_name \<Rightarrow> quoted (t_exec_name t)
      | i_is_cash \<Rightarrow> bit_text (t_is_cash t)
      | i_is_market \<Rightarrow> bit_text (tt_is_mrkt ty)
      | i_trade_price \<Rightarrow> or_NULL (map_option (numeric_out 2) (t_trade_price t))
      | _ \<Rightarrow> []))"

abbreviation "tlf1_trade_cols \<equiv> [i_bid_price, i_exec_name, i_is_cash, i_is_market, i_trade_price]"

definition tlf1_els :: "pgapi \<Rightarrow> trade_col \<Rightarrow> int \<Rightarrow> db \<Rightarrow> string list" where
  "tlf1_els pg c i d =
     (let xs = typed_trades i d in
      if xs = [] then []
      else if c \<in> set settlement_cols then settlement_els pg True True c i d
      else if c \<in> set cash_cols then cash_els pg True (last_is_cash xs) c i d
      else if c \<in> set history_cols then history_els pg True True ''\"\"'' c i d
      else map (tlf1_el c) xs)"

lemma TLF1_row_values: "TLF1_row n (typed_trade_values x) = Ok (tlf1_row_es n x)"
proof -
  obtain t ty where x: "x = (t, ty)" by fastforce
  show ?thesis by (simp add: x TLF1_row_def tlf1_row_es_def is_t_def)
qed

lemma tlf1_last: "xs \<noteq> [] \<Longrightarrow> SPI_getvalue (last (map typed_trade_values xs)) 3 = bool_txt (last_is_cash xs)"
  by (cases "last xs") (simp add: last_map last_is_cash_def)

lemma tlf1_planned: "TLF1_1 \<in> set TLF1_statements" "TLF1_2 \<in> set TLF1_statements" "TLF1_3 \<in> set TLF1_statements"
  "TLF1_4 \<in> set TLF1_statements"
  by (simp_all add: TLF1_statements_def)

lemma tlf1_sql:
  "tl_sql pg [DInt64 i] TLF1_1 d = Ok (SPI_OK_SELECT (map typed_trade_values (typed_trades i d)), d)"
  "tl_sql pg [DInt64 i] TLF1_2 d = Ok (SPI_OK_SELECT (map (settlement_values pg) (settlements i d)), d)"
  "tl_sql pg [DInt64 i] TLF1_3 d = Ok (SPI_OK_SELECT (map (cash_values pg) (cash_transactions i d)), d)"
  "tl_sql pg [DInt64 i] TLF1_4 d = Ok (SPI_OK_SELECT (map (history_values pg) (histories i d)), d)"
  by (simp_all add: tl_sql_def SQLTLF1_1_def SQL_settlement_def SQL_cash_transaction_def SQL_trade_history_def)

lemma tlf1_cash_writes:
  assumes "named_cash i (snapshot s)"
  shows "writes TL_small TLF1_statements s (TLF1_cash (tl_spi pg) i cash n)
    (if cash then rows_emits (cash_es pg True Plain) n (cash_transactions i (snapshot s)) else cash_pad n)
    (Some (n + (if cash then length (cash_transactions i (snapshot s)) else 1))) s"
proof (cases cash)
  case True
  have "writes TL_small TLF1_statements s (append_query TL_small (tl_spi pg) True TLF1_3 [DInt64 i] (cash_cells True Plain) n)
      (rows_emits (cash_es pg True Plain) n (cash_transactions i (snapshot s)))
      (Some (n + length (cash_transactions i (snapshot s)))) s"
    by (rule tl.writes_read [OF tlf1_planned(3) tlf1_sql(3)])
      (use assms in \<open>auto simp: named_cash_def intro!: cash_cells_values\<close>)
  with True show ?thesis by (simp add: TLF1_cash_def [abs_def])
next
  case False
  then show ?thesis using writes_emits by (simp add: TLF1_cash_def [abs_def])
qed

lemma tlf1_history_writes:
  "writes TL_small TLF1_statements s (TLF1_history (tl_spi pg) i n)
     (seps n history_cols @ rows_emits (history_es pg True True) 0 (histories i (snapshot s))
        @ history_pad ''\"\"'' (length (histories i (snapshot s))) (length (histories i (snapshot s)))) (Some (Suc n)) s"
proof -
  let ?h = "histories i (snapshot s)"
  have rows: "emit_rows TL_small (history_cells True True) 0 (map (history_values pg) ?h) bufs f =
      obind (emits TL_small (rows_emits (history_es pg True True) 0 ?h) bufs f) (\<lambda>(bufs, f). Ok ((0 + length ?h, bufs), f))"
    for bufs and f :: "(tl_stmt, pgsession) fctx"
    by (rule emit_rows_emits) (rule history_cells_values)
  show ?thesis
    unfolding writes_def TLF1_history_def
    by (auto simp: tl.query_read [OF tlf1_planned(4) tlf1_sql(4) _ refl] rows emits_append obind_assoc case_prod_unfold)
qed

lemma tlf1_body:
  assumes "named_cash i (snapshot s)"
  shows "writes TL_small TLF1_statements s (TLF1_trade (tl_spi pg) i k) (tlf1_es pg i k (snapshot s))
    (True, tlf1_nxt i k (snapshot s)) s"
proof (cases "typed_trades i (snapshot s) = []")
  case True
  then show ?thesis
    by (auto simp: writes_def TLF1_trade_def tl.query_read [OF tlf1_planned(1) tlf1_sql(1) _ refl] tlf1_es_def tlf1_nxt_def)
next
  case False
  let ?xs = "typed_trades i (snapshot s)"
  have main: "writes TL_small TLF1_statements s (emit_rows TL_small TLF1_row (trades k) (map typed_trade_values ?xs))
      (rows_emits tlf1_row_es (trades k) ?xs) (trades k + length ?xs) s"
    by (rule writes_rows) (rule TLF1_row_values)
  have settled: "writes TL_small TLF1_statements s (append_query TL_small (tl_spi pg) True TLF1_2 [DInt64 i] TLF1_settlement n)
      (rows_emits (settlement_es pg True True) n (settlements i (snapshot s))) (Some (n + length (settlements i (snapshot s)))) s" for n
    unfolding TLF1_settlement_def by (rule tl.writes_read [OF tlf1_planned(2) tlf1_sql(2)]) (rule settlement_cells_values)
  show ?thesis
    unfolding TLF1_trade_def [abs_def]
    apply (rule writes_call [where x = "Some (map typed_trade_values ?xs)"])
     apply (rule tl.query_read [OF tlf1_planned(1) tlf1_sql(1)], assumption, assumption)
    apply (simp add: False tlf1_last Let_def tlf1_es_def tlf1_nxt_def split del: if_split)
    apply (rule writes_bind [OF main])
    apply (rule writes_bind [OF settled], simp add: Let_def split del: if_split)
    apply (rule writes_bind [OF tlf1_cash_writes [OF assms]], simp add: Let_def split del: if_split)
    by (rule writes_map [OF tlf1_history_writes]) (simp split del: if_split)
qed

subsection \<open>Column by column\<close>

lemma out_tlf1_rows:
  "out c (rows_emits tlf1_row_es n xs) = (if c \<in> set tlf1_trade_cols then joined (n = 0) (map (tlf1_el c) xs) else [])"
proof (cases "c \<in> set tlf1_trade_cols")
  case True
  then have "out c (tlf1_row_es n x) = (if n = 0 then [] else '','') @ tlf1_el c x" for n x
    by (auto simp: tlf1_row_es_def tlf1_el_def split: prod.split)
  with True out_rows_emits [of xs c tlf1_row_es "tlf1_el c"] show ?thesis by simp
next
  case False
  then have "out c (tlf1_row_es n x) = []" for n x by (auto simp: tlf1_row_es_def split: prod.split)
  with False out_rows_emits_none [of xs c tlf1_row_es] show ?thesis by simp
qed

lemma joined_history: "n = 0 \<Longrightarrow> joined True xs @ joined (xs = []) ys = joined True (xs @ ys)"
  by (simp add: joined_append)

lemma out_tlf1:
  assumes "c \<in> set TLF1_closes"
  shows "out c (tlf1_es pg i k d) = joined (counter c k = 0) (tlf1_els pg c i d)"
proof -
  have h: "(if 0 < num_history k then '','' else []) @ joined True (map (history_el pg True True c) (histories i d))
      @ joined (histories i d = []) (replicate (3 - length (histories i d)) p) =
      joined (num_history k = 0) (map (history_el pg True True c) (histories i d) @ replicate (3 - length (histories i d)) p)" for p
  proof -
    let ?l = "map (history_el pg True True c) (histories i d) @ replicate (3 - length (histories i d)) p"
    have "length ?l = 3" by simp
    then have "?l \<noteq> []" by force
    then show ?thesis using joined_False_nonempty [of ?l] by (simp add: joined_append)
  qed
  show ?thesis
    using assms h
    by (auto simp: tlf1_es_def tlf1_els_def Let_def TLF1_closes_def out_tlf1_rows out_settlement_rows out_cash_rows
        out_cash_pad out_history_rows out_history_pad counter_def settlement_els_def cash_els_def history_els_def)
qed

lemma tlf1_counter:
  assumes "c \<in> set TLF1_closes"
  shows "counter c (tlf1_nxt i k d) = 0 \<longleftrightarrow> counter c k = 0 \<and> tlf1_els pg c i d = []"
proof -
  have "history_els pg True True ''\"\"'' c i d \<noteq> []" using length_history_els [of pg True True "''\"\"''" c i d] by force
  then show ?thesis
    using assms
    by (auto simp: tlf1_nxt_def tlf1_els_def Let_def TLF1_closes_def counter_def settlement_els_def cash_els_def split: if_splits)
qed

definition tlf1_column :: "pgapi \<Rightarrow> int list \<Rightarrow> db \<Rightarrow> trade_col \<Rightarrow> string list" where
  "tlf1_column pg is d c = concat (map (\<lambda>i. tlf1_els pg c i d) is)"

lemma counter0 [simp]: "counter c counters0 = 0"
  by (simp add: counter_def counters0_def)

lemma tlf1_trades:
  "trades (loop_state (\<lambda>i k s. tlf1_nxt i k (snapshot s)) (\<lambda>_ _ s. s) is k s) =
     trades k + length (concat (map (\<lambda>i. typed_trades i (snapshot s)) is))"
  by (induction "is" arbitrary: k) (simp_all add: tlf1_nxt_def Let_def)

lemma typed_trades_le:
  assumes "trades_keyed d"
  shows "length (typed_trades i d) \<le> 1"
proof -
  let ?types = "\<lambda>t. filter (\<lambda>ty. tt_id ty = t_tt_id t) (trade_type_tbl d)"
  have ty: "length (?types t) \<le> 1" for t
    using assms keyed_filter_length [of tt_id "trade_type_tbl d" "t_tt_id t"] by (simp add: trades_keyed_def)
  have "concat (map (\<lambda>ty. if t_tt_id t = tt_id ty then [(t, ty)] else []) tys) = map (Pair t) (filter (\<lambda>ty. tt_id ty = t_tt_id t) tys)"
    for t tys by (induction tys) auto
  then have "typed_trades i d = concat (map (\<lambda>t. if t_id t = i then map (Pair t) (?types t) else []) (trade_tbl d))"
    by (auto simp: typed_trades_def intro!: arg_cong [of _ _ concat])
  moreover have "concat (map (\<lambda>t. if t_id t = i then h t else []) ts) = concat (map h (filter (\<lambda>t. t_id t = i) ts))"
    for ts and h :: "trade_row \<Rightarrow> typed_trade list" by (induction ts) auto
  ultimately have e: "typed_trades i d = concat (map (\<lambda>t. map (Pair t) (?types t)) (filter (\<lambda>t. t_id t = i) (trade_tbl d)))"
    by simp
  have "length (typed_trades i d) \<le> 1 * length (filter (\<lambda>t. t_id t = i) (trade_tbl d))"
    unfolding e by (rule concat_le) (use ty in simp)
  also have "length (filter (\<lambda>t. t_id t = i) (trade_tbl d)) \<le> 1"
    using assms keyed_filter_length [of t_id "trade_tbl d" i] by (simp add: trades_keyed_def)
  finally show ?thesis by simp
qed

lemma typed_trades_in: "x \<in> set (typed_trades i d) \<Longrightarrow> fst x \<in> set (trade_tbl d)"
  by (auto simp: typed_trades_def split: if_splits)

text \<open>
  The bid price is deducted from the count before it is appended, so in the worst case it needs
  its length twice.  For one trade seven characters are safe, for twenty all thirteen of the
  type's.
\<close>

definition tlf1_price_width :: "int \<Rightarrow> nat" where
  "tlf1_price_width max_trades = nat ((14 * max_trades + 1) div (max_trades + 1))"

definition tlf1_sized :: "pgapi \<Rightarrow> int \<Rightarrow> db \<Rightarrow> bool" where
  "tlf1_sized pg max_trades d \<longleftrightarrow> trades_keyed d \<and> details_sized pg d
     \<and> (\<forall>t \<in> set (trade_tbl d). length (numeric_out 2 (t_bid_price t)) \<le> tlf1_price_width max_trades
          \<and> length (t_exec_name t) \<le> 49 \<and> length (or_NULL (map_option (numeric_out 2) (t_trade_price t))) \<le> 14)
     \<and> (\<forall>r \<in> set (cash_transaction_tbl d). length (numeric_out 2 (ct_amt r)) \<le> 10)"

definition tlf1_width :: "int \<Rightarrow> trade_col \<Rightarrow> nat" where
  "tlf1_width max_trades c =
     (case c of
        i_bid_price \<Rightarrow> tlf1_price_width max_trades | i_exec_name \<Rightarrow> 51 | i_is_cash \<Rightarrow> 1 | i_is_market \<Rightarrow> 1
      | i_trade_price \<Rightarrow> 14 | i_settlement_amount \<Rightarrow> 12 | i_settlement_cash_due_date \<Rightarrow> 62 | i_settlement_cash_type \<Rightarrow> 42
      | i_cash_transaction_amount \<Rightarrow> 12 | i_cash_transaction_dts \<Rightarrow> 62 | i_cash_transaction_name \<Rightarrow> 102
      | i_trade_history_dts \<Rightarrow> 62 | _ \<Rightarrow> 6)"

lemma tlf1_els_width:
  assumes "tlf1_sized pg m d" "c \<in> set TLF1_closes" "x \<in> set (tlf1_els pg c i d)"
  shows "length x \<le> tlf1_width m c"
proof -
  have d: "details_sized pg d" "\<forall>r \<in> set (cash_transaction_tbl d). length (numeric_out 2 (ct_amt r)) \<le> 10"
    using assms(1) by (simp_all add: tlf1_sized_def)
  have t: "length (tlf1_el c y) \<le> tlf1_width m c" if "y \<in> set (typed_trades i d)" for y
    using typed_trades_in [OF that] assms(1,2)
    by (cases y) (auto simp: tlf1_sized_def tlf1_el_def tlf1_width_def TLF1_closes_def quoted_def bit_text_def split: if_splits)
  consider "c \<in> set settlement_cols" "x \<in> set (settlement_els pg True True c i d)"
    | "c \<in> set cash_cols" "x \<in> set (cash_els pg True (last_is_cash (typed_trades i d)) c i d)"
    | "c \<in> set history_cols" "x \<in> set (history_els pg True True ''\"\"'' c i d)"
    | y where "y \<in> set (typed_trades i d)" "x = tlf1_el c y"
    using assms(3) by (auto simp: tlf1_els_def Let_def split: if_splits)
  then show ?thesis
  proof cases
    case 1
    with settlement_els_width [OF d(1) 1(2)] show ?thesis by (auto simp: tlf1_width_def)
  next
    case 2
    with cash_els_width [OF d _ 2(2)] show ?thesis by (auto simp: tlf1_width_def)
  next
    case 3
    with history_els_width [OF d(1) _ 3(2)] show ?thesis by (auto simp: tlf1_width_def)
  next
    case 4
    with t show ?thesis by blast
  qed
qed

lemma tlf1_els_le:
  assumes "trades_keyed d"
  shows "length (tlf1_els pg c i d) \<le> (if c \<in> set history_cols then 3 else 1)"
  using settlement_els_le [OF assms] cash_els_le [OF assms] typed_trades_le [OF assms]
  by (auto simp: tlf1_els_def Let_def)

subsection \<open>The frame\<close>

lemma rows_extras_tlf1: "extras c (rows_emits tlf1_row_es n xs) = (if c = i_exec_name then length xs else 0)"
proof -
  have "extras c (tlf1_row_es m x) = (if c = i_exec_name then 1 else 0)" for m x
    by (simp add: tlf1_row_es_def split: prod.split)
  from extras_rows_emits [where es = tlf1_row_es and rs = xs, OF this] show ?thesis by simp
qed

lemma tlf1_extras:
  "trades_keyed d \<Longrightarrow> extras c (tlf1_es pg i k d) \<le> (if c = i_exec_name then 1 else 0)"
  using typed_trades_le [of d i] by (simp add: tlf1_es_def Let_def rows_extras_tlf1)

text \<open>Only the bid price is deducted early.\<close>

definition tlf1_cell :: "db \<Rightarrow> trade_col emit \<Rightarrow> bool" where
  "tlf1_cell d e = (case e of (c, m, s) \<Rightarrow>
     c \<in> set TLF1_closes \<and> (m = Pre \<longrightarrow> c = i_bid_price \<and> (\<exists>t \<in> set (trade_tbl d). s = numeric_out 2 (t_bid_price t))))"

lemma late_tlf1_cell: "late_in settlement_cols e \<or> late_in cash_cols e \<or> late_in history_cols e \<Longrightarrow> tlf1_cell d e"
  by (cases e) (auto simp: late_in_def tlf1_cell_def TLF1_closes_def)

lemma tlf1_emits_in: "\<forall>e \<in> set (tlf1_es pg i k d). tlf1_cell d e"
proof -
  have rows: "\<forall>e \<in> set (rows_emits tlf1_row_es n (typed_trades i d)). tlf1_cell d e" for n
    by (rule rows_emits_all)
      (auto simp: tlf1_cell_def tlf1_row_es_def TLF1_closes_def seps_def quote_as_def split: prod.splits if_splits
        dest!: typed_trades_in)
  have late: "\<forall>e \<in> set es. late_in cs e \<Longrightarrow> cs \<in> {settlement_cols, cash_cols, history_cols} \<Longrightarrow> \<forall>e \<in> set es. tlf1_cell d e"
    for es cs using late_tlf1_cell by blast
  note parts = details_in(1,2,4,5,6) [THEN late] details_in(3) [of Plain, THEN late]
  show ?thesis unfolding tlf1_es_def Let_def by (simp add: rows parts ball_Un)
qed

text \<open>What the frame returns: the columns of the trades that exist, in the order of their numbers.\<close>

definition tlf1_out :: "pgapi \<Rightarrow> int list \<Rightarrow> db \<Rightarrow> spi_row" where
  "tlf1_out pg is d = map (\<lambda>c.
     if c = i_num_found then int_txt (int (length (concat (map (\<lambda>i. typed_trades i d) is))))
     else Some (array_text (tlf1_column pg is d c))) tlf1_order"

lemma tlf1_bufs_sizes:
  assumes "1 \<le> m" "m \<le> 1000000"
  shows "TLF1_bufs m = [(i_bid_price, 15 * m + 2), (i_cash_transaction_amount, 13 * m + 2), (i_cash_transaction_dts, 66 * m + 2),
    (i_cash_transaction_name, 103 * m + 2), (i_exec_name, 67 * m + 2), (i_is_cash, 2 * m + 2), (i_is_market, 2 * m + 3),
    (i_settlement_amount, 13 * m + 2), (i_settlement_cash_due_date, 66 * m + 2), (i_settlement_cash_type, 43 * m + 2),
    (i_trade_history_dts, (64 * m + 3) * 3 + 2), (i_trade_history_status_id, (7 * m + 3) * 3 + 2), (i_trade_price, 15 * m + 2)]"
  using assms by (simp add: TLF1_bufs_def in_i32_def)

lemma tlf1_price_width_room:
  assumes "1 \<le> m"
  shows "(1 + int (tlf1_price_width m)) * m + 1 + int (tlf1_price_width m) \<le> 15 * m + 2" "1 \<le> tlf1_price_width m"
proof -
  let ?w = "(14 * m + 1) div (m + 1)"
  have "?w * (m + 1) \<le> 14 * m + 1" using div_mult_mod_eq [of "14 * m + 1" "m + 1"] pos_mod_sign [of "m + 1" "14 * m + 1"] assms by linarith
  moreover have w: "1 \<le> ?w" using assms by (simp add: pos_imp_zdiv_pos_iff int_one_le_iff_zero_less)
  ultimately show "(1 + int (tlf1_price_width m)) * m + 1 + int (tlf1_price_width m) \<le> 15 * m + 2"
    by (simp add: tlf1_price_width_def algebra_simps)
  show "1 \<le> tlf1_price_width m" using w by (simp add: tlf1_price_width_def)
qed

definition tlf1_room :: "int \<Rightarrow> trade_col \<Rightarrow> int" where
  "tlf1_room m c = (if c = i_bid_price then max 1 (int (tlf1_price_width m)) else 1)"

lemma tlf1_cell_room:
  "tlf1_sized pg m d \<Longrightarrow> tlf1_cell d (c, md, s) \<Longrightarrow> c \<in> set TLF1_closes \<and> room md s \<le> tlf1_room m c"
  by (fastforce simp: room_def tlf1_room_def tlf1_cell_def tlf1_sized_def)

interpretation tlf1: array_loop TL_small "TLF1_trade (tl_spi pg)" "\<lambda>i k s. tlf1_es pg i k (snapshot s)"
  "\<lambda>i k s. tlf1_nxt i k (snapshot s)" "\<lambda>_ _ s. s" "\<lambda>i s. named_cash i (snapshot s)" TLF1_statements
  TLF1_closes counters0 counter "\<lambda>c i _ s. tlf1_els pg c i (snapshot s)" "\<lambda>i s. tlf1_sized pg m (snapshot s)"
  "\<lambda>c. if c \<in> set history_cols then 3 else 1" "tlf1_width m" "\<lambda>c. if c = i_exec_name then 1 else 0" "tlf1_room m"
  for pg m
proof
  fix i k d c
  show "tlf1_sized pg m (snapshot d) \<Longrightarrow>
      \<forall>(c, md, s) \<in> set (tlf1_es pg i k (snapshot d)). c \<in> set TLF1_closes \<and> room md s \<le> tlf1_room m c"
    using tlf1_emits_in tlf1_cell_room by fast
  show "tlf1_sized pg m (snapshot d) \<Longrightarrow> length (tlf1_els pg c i (snapshot d)) \<le> (if c \<in> set history_cols then 3 else 1)"
    by (rule tlf1_els_le) (simp add: tlf1_sized_def)
  show "tlf1_sized pg m (snapshot d) \<Longrightarrow> extras c (tlf1_es pg i k (snapshot d)) \<le> (if c = i_exec_name then 1 else 0)"
    by (rule tlf1_extras) (simp add: tlf1_sized_def)
qed (auto simp: tlf1_body out_tlf1 tlf1_counter tlf1_room_def tlf1_sized_def intro: tlf1_els_width named_cash, simp add: TLF1_closes_def)

lemma in_bufs: "fst ` set (TLF1_bufs m) = set TLF1_closes" "distinct (map fst (TLF1_bufs m))"
  by (simp_all add: TLF1_bufs_def TLF1_closes_def)

lemma take_num_trades: "0 \<le> m \<Longrightarrow> take (nat (min (int (length is)) m)) is = take (nat m) is"
  by (simp add: min_def nat_le_iff)

lemma tlf1_pallocs: "1 \<le> m \<Longrightarrow> m \<le> 1000000 \<Longrightarrow> pallocs (TLF1_bufs m) = Ok ()"
  by (rule pallocs_ok) (auto simp: tlf1_bufs_sizes)

lemma tlf1_sizes_suffice:
  assumes "1 \<le> m" "m \<le> 1000000" "(c, len) \<in> set (TLF1_bufs m)"
  shows "2 \<le> len \<and> len < 2 ^ 30 \<and> int (tlf1_width m c + 1) * (int (if c \<in> set history_cols then 3 else 1) * m) + 1
    + int (if c = i_exec_name then 1 else 0) * m + tlf1_room m c \<le> len"
  using assms(3) tlf1_price_width_room [OF assms(1)] assms(1,2)
  unfolding tlf1_bufs_sizes [OF assms(1,2)] by (auto simp: tlf1_width_def tlf1_room_def max_def)

subsection \<open>How long the columns are\<close>

text \<open>
  The lengths of the columns for a list of trades, each with its number and whether it is settled
  in cash.  A trade without a row in \<^verbatim>\<open>settlement\<close> adds nothing to the columns of the settlement, and
  one that is settled in cash without a row in \<^verbatim>\<open>cash_transaction\<close> nothing to those of the cash
  transaction, so that later elements move up.
\<close>

definition column_length :: "trade_col \<Rightarrow> (int \<times> bool) list \<Rightarrow> db \<Rightarrow> nat" where
  "column_length c ts d =
     (if c \<in> set settlement_cols then length (filter (\<lambda>(i, cash). settlements i d \<noteq> []) ts)
      else if c \<in> set cash_cols then length (filter (\<lambda>(i, cash). cash \<longrightarrow> cash_transactions i d \<noteq> []) ts)
      else if c \<in> set history_cols then 3 * length ts
      else length ts)"

definition tlf1_found :: "int list \<Rightarrow> db \<Rightarrow> (int \<times> bool) list" where
  "tlf1_found is d = map (\<lambda>i. (i, last_is_cash (typed_trades i d))) (filter (\<lambda>i. typed_trades i d \<noteq> []) is)"

lemma length_one: "length xs \<le> 1 \<Longrightarrow> length xs = (if xs = [] then 0 else 1)"
  by (cases xs) auto

lemma length_settlement_els:
  "trades_keyed d \<Longrightarrow> length (settlement_els pg qd qt c i d) = (if settlements i d = [] then 0 else 1)"
  using length_one [OF settlements_le] by (simp add: settlement_els_def)

lemma length_cash_els:
  "trades_keyed d \<Longrightarrow> length (cash_els pg qa cash c i d) = (if cash \<longrightarrow> cash_transactions i d \<noteq> [] then 1 else 0)"
  using length_one [OF cash_transactions_le] by (simp add: cash_els_def)

lemma column_length_Cons:
  "column_length c ((i, cash) # ts) d =
     (if c \<in> set settlement_cols then (if settlements i d = [] then 0 else 1)
      else if c \<in> set cash_cols then (if cash \<longrightarrow> cash_transactions i d \<noteq> [] then 1 else 0)
      else if c \<in> set history_cols then 3 else 1) + column_length c ts d"
  by (simp add: column_length_def)

lemma column_length_Nil [simp]: "column_length c [] d = 0"
  by (simp add: column_length_def)

lemma aligned_columns:
  assumes "\<forall>(i, cash) \<in> set ts. settlements i d \<noteq> [] \<and> (cash \<longrightarrow> cash_transactions i d \<noteq> [])"
  shows "column_length c ts d = (if c \<in> set history_cols then 3 else 1) * length ts"
proof -
  have "filter (\<lambda>(i, cash). settlements i d \<noteq> []) ts = ts" "filter (\<lambda>(i, cash). cash \<longrightarrow> cash_transactions i d \<noteq> []) ts = ts"
    using assms by (auto simp: filter_id_conv)
  then show ?thesis by (simp add: column_length_def)
qed

lemma length_tlf1_column:
  assumes "trades_keyed d"
  shows "length (tlf1_column pg is d c) = column_length c (tlf1_found is d) d"
proof (induction "is")
  case (Cons i "is")
  have "length (typed_trades i d) = 1" if "typed_trades i d \<noteq> []"
    using length_one [OF typed_trades_le [OF assms]] that by simp
  then have "length (tlf1_els pg c i d) + column_length c (tlf1_found is d) d = column_length c (tlf1_found (i # is) d) d"
    by (simp add: tlf1_found_def column_length_Cons tlf1_els_def Let_def length_settlement_els [OF assms]
        length_cash_els [OF assms])
  with Cons show ?case by (simp add: tlf1_column_def)
qed (simp add: tlf1_column_def tlf1_found_def)

text \<open>
  C8. The first frame of Trade-Lookup, on every database that respects the widths: a row with the
  elements of the trades that exist, in the order of the given numbers, and the number of trades
  found; there is no warning and nothing changes.  The columns of the trade have one element per
  trade found, those of the history three, those of the settlement one per trade that has a row
  in \<^verbatim>\<open>settlement\<close>, and those of the cash transaction one per trade that has a row in
  \<^verbatim>\<open>cash_transaction\<close> or is not settled in cash.  So all columns are aligned when every trade found
  has its rows, and otherwise are not.
\<close>

theorem TradeLookupFrame1_row:
  assumes "\<And>s. s \<in> set TLF1_statements \<Longrightarrow> prepare s" "d = snap_of f" "tlf1_sized pg max_trades d"
    and "1 \<le> max_trades" "max_trades \<le> 1000000"
  shows "(\<exists>ps. TradeLookupFrame1 prepare (tl_spi pg) max_trades ids f =
      Ok ([tlf1_out pg (take (nat max_trades) ids) d], f\<lparr>max_calls := 1, plans := ps\<rparr>))
    \<and> (\<forall>c \<in> set TLF1_closes. length (tlf1_column pg (take (nat max_trades) ids) d c) =
        column_length c (tlf1_found (take (nat max_trades) ids) d) d)"
proof -
  let ?is = "take (nat max_trades) ids"
  have lens: "\<forall>c \<in> set TLF1_closes. length (tlf1_column pg ?is d c) = column_length c (tlf1_found ?is d) d"
    using length_tlf1_column assms(3) by (simp add: tlf1_sized_def)
  obtain ps where ps: "plan_queries prepare TLF1_statements (f\<lparr>max_calls := Suc 0\<rparr>) = Ok (f\<lparr>max_calls := Suc 0, plans := ps\<rparr>)"
    and sub: "set TLF1_statements \<subseteq> set ps"
    using planned [of TLF1_statements prepare "f\<lparr>max_calls := Suc 0\<rparr>", OF assms(1)] by auto
  let ?g = "f\<lparr>max_calls := Suc 0, plans := ps\<rparr>"
  have d: "snapshot (session f) = d" using assms(2) by (simp add: snap_of_def)
  have len: "int (length ?is) \<le> max_trades" using assms(4) by simp
  have good: "\<forall>i \<in> set ?is. tlf1_sized pg max_trades (snapshot (session ?g))" using assms(3) d by simp
  have sub: "set TLF1_statements \<subseteq> set (plans ?g)" using sub by simp
  obtain bufs bufs' where b: "open_bufs (TLF1_bufs max_trades) = Ok bufs"
    and run: "\<And>cont :: counters \<Rightarrow> trade_col bufs \<Rightarrow> (tl_stmt, pgsession) fctx \<Rightarrow> (spi_row list \<times> (tl_stmt, pgsession) fctx) outcome.
      obind (for_each (TLF1_trade (tl_spi pg)) ?is counters0 bufs ?g)
        (\<lambda>((k, bufs), f). obind (emits TL_small (closes TLF1_closes) bufs f) (\<lambda>(bufs, f). cont k bufs f)) =
      cont (loop_state (\<lambda>i k s. tlf1_nxt i k (snapshot s)) (\<lambda>_ _ s. s) ?is counters0 (session f)) bufs' ?g"
    and arrays: "\<forall>c \<in> set TLF1_closes. ctext (fst (bufs' c)) = array_text (tlf1_column pg ?is d c)"
    using tlf1.frame [OF in_bufs(2,1) [of max_trades] good len assms(4) tlf1_sizes_suffice [OF assms(4,5)] closing_closes sub]
    by (auto simp: d tlf1_column_def loop_els_const TLF1_closes_def)
  have "length (concat (map (\<lambda>i. typed_trades i d) ?is)) \<le> 1 * length ?is"
    by (rule concat_le, rule typed_trades_le) (use assms(3) in \<open>simp add: tlf1_sized_def\<close>)
  moreover have "length ?is \<le> 1000000" using len assms(5) by linarith
  ultimately have "length (concat (map (\<lambda>i. typed_trades i d) ?is)) < 1000000000" by linarith
  then have "snprintf_d (INTEGER_LEN + 1) (int (length (concat (map (\<lambda>i. typed_trades i d) ?is)))) =
      show_int (int (length (concat (map (\<lambda>i. typed_trades i d) ?is))))"
    by (rule snprintf_count)
  moreover have "TradeLookupFrame1 prepare (tl_spi pg) max_trades ids f =
      srf_return (map ((buf_slots (TLF1_bufs max_trades) bufs' (\<lambda>_. Uninit))(i_num_found :=
        Str (snprintf_d (INTEGER_LEN + 1) (int (length (concat (map (\<lambda>i. typed_trades i d) ?is))))))) tlf1_order) ?g"
    using assms(4) run
    by (simp add: TradeLookupFrame1_def tlf1_pallocs [OF assms(4,5)] ps b take_num_trades tlf1_trades d counters0_def Let_def)
  ultimately have "TradeLookupFrame1 prepare (tl_spi pg) max_trades ids f = Ok ([tlf1_out pg ?is d], ?g)" using arrays
    by (simp add: srf_return_def tlf1_out_def buf_slots_def in_bufs tlf1_order_def TLF1_closes_def)
  with lens show ?thesis by auto
qed

subsection \<open>An amount of cash that is too long\<close>

lemma tlf1_plain:
  assumes "(i_cash_transaction_amount, m, s) \<in> set (tlf1_es pg i k d)"
  shows "m = Plain"
proof -
  let ?P = "\<lambda>(c, m, s). c = i_cash_transaction_amount \<longrightarrow> m = Plain"
  have rows: "\<forall>e \<in> set (rows_emits tlf1_row_es n xs). ?P e" "\<forall>e \<in> set (rows_emits (settlement_es pg True True) n ss). ?P e"
    "\<forall>e \<in> set (rows_emits (cash_es pg True Plain) n cs). ?P e" "\<forall>e \<in> set (rows_emits (history_es pg True True) n hs). ?P e"
    for n xs ss cs hs
    by (rule rows_emits_all; auto simp: tlf1_row_es_def settlement_es_def cash_es_def history_es_def seps_def quote_as_def
        value_as_def split: if_splits prod.splits)+
  have "\<forall>e \<in> set (cash_pad n). ?P e" "\<forall>e \<in> set (seps n history_cols). ?P e" "\<forall>e \<in> set (history_pad p n j). ?P e" for n j p
    by (auto simp: cash_pad_def history_pad_def seps_def split: if_splits)
  with rows have "\<forall>e \<in> set (tlf1_es pg i k d). ?P e" unfolding tlf1_es_def Let_def by (simp add: ball_Un)
  with assms show ?thesis by fastforce
qed

text \<open>Each such trade is one trade with one named cash transaction.\<close>

definition long_cash :: "db \<Rightarrow> int \<Rightarrow> bool" where
  "long_cash d i \<longleftrightarrow> (\<exists>x r. typed_trades i d = [x] \<and> t_is_cash (fst x) \<and> cash_transactions i d = [r]
     \<and> ct_name r \<noteq> None \<and> 11 \<le> length (numeric_out 2 (ct_amt r)))"

text \<open>
  C17. The amounts are put in quotes, for which the buffer has no room: when every requested trade is
  settled in cash with an amount of eleven characters or more, which its column allows, the frame
  writes past the end of the buffer.
\<close>

theorem TradeLookupFrame1_overflow:
  assumes "\<And>s. s \<in> set TLF1_statements \<Longrightarrow> prepare s" "d = snap_of f"
    and "1 \<le> max_trades" "max_trades \<le> 1000000" "int (length ids) = max_trades" "\<forall>i \<in> set ids. long_cash d i"
  shows "TradeLookupFrame1 prepare (tl_spi pg) max_trades ids f = Fail Crash"
proof -
  let ?c = i_cash_transaction_amount
  obtain ps where ps: "plan_queries prepare TLF1_statements (f\<lparr>max_calls := Suc 0\<rparr>) = Ok (f\<lparr>max_calls := Suc 0, plans := ps\<rparr>)"
    and sub: "set TLF1_statements \<subseteq> set ps"
    using planned [of TLF1_statements prepare "f\<lparr>max_calls := Suc 0\<rparr>", OF assms(1)] by auto
  let ?g = "f\<lparr>max_calls := Suc 0, plans := ps\<rparr>"
  have d: "snapshot (session f) = d" using assms(2) by (simp add: snap_of_def)
  have "\<forall>(c, len) \<in> set (TLF1_bufs max_trades). 2 \<le> len \<and> len < 2 ^ 30"
    using assms(3,4) by (auto simp: tlf1_bufs_sizes)
  then obtain bufs where b: "open_bufs (TLF1_bufs max_trades) = Ok bufs"
    and all: "\<forall>(c, len) \<in> set (TLF1_bufs max_trades). tracks (bufs c) \<and> ctext (fst (bufs c)) = ''{'' \<and> cap (fst (bufs c)) = nat len"
    using open_bufs_tracks in_bufs(2) by blast
  then have c: "tracks (bufs ?c)" "ctext (fst (bufs ?c)) = ''{''" "cap (fst (bufs ?c)) = nat (13 * max_trades + 2)"
    using assms(3,4) by (auto simp: tlf1_bufs_sizes)
  have el: "tlf1_els pg ?c i d = [x] \<and> 13 \<le> length x" if "long_cash d i" "x = hd (tlf1_els pg ?c i d)" for i x
    using that by (auto simp: long_cash_def tlf1_els_def cash_els_def cash_el_def last_is_cash_def text_as_def quoted_def)
  then have "tlf1_column pg ids d ?c = map (\<lambda>i. hd (tlf1_els pg ?c i d)) ids"
    using assms(6) unfolding tlf1_column_def by (induction ids) auto
  moreover have "ids \<noteq> []" using assms(3,5) by auto
  ultimately have "(13 + 1) * length ids + 1 \<le> length (array_text (tlf1_column pg ids d ?c))"
    using length_array_text_ge [of "map (\<lambda>i. hd (tlf1_els pg ?c i d)) ids" 13] assms(6) el by auto
  moreover have "nat (13 * max_trades + 2) = 13 * length ids + 2" "1 \<le> length ids" using assms(3,5) by auto
  ultimately have long: "cap (fst (bufs ?c)) \<le> length (array_text (tlf1_column pg ids d ?c))"
    by (simp add: c(3))
  have ok: "\<forall>i \<in> set ids. named_cash i (snapshot (session ?g))"
    using assms(6) d by (auto simp: named_cash_def long_cash_def)
  have "obind (for_each (TLF1_trade (tl_spi pg)) ids counters0 bufs ?g)
      (\<lambda>((k, bufs), f). obind (emits TL_small (closes TLF1_closes) bufs f) (\<lambda>(bufs, f). cont k bufs f)) = Fail Crash"
    for cont :: "counters \<Rightarrow> trade_col bufs \<Rightarrow> (tl_stmt, pgsession) fctx \<Rightarrow> (spi_row list \<times> (tl_stmt, pgsession) fctx) outcome"
    by (rule tlf1.overflow [OF b c(1) _ c(2) _ _ _ ok])
      (use long sub d tlf1_plain in \<open>auto simp: TLF1_closes_def loop_els_const tlf1_column_def\<close>)
  then show ?thesis
    using assms(3,5) by (simp add: TradeLookupFrame1_def tlf1_pallocs [OF assms(3,4)] ps b Let_def)
qed

section \<open>A sample\<close>

text \<open>The trade of the sample database after its completion: settled in cash, with two history entries.\<close>

definition lookup_db :: db where
  "lookup_db = sample_db\<lparr>trade_tbl := [sample_trade\<lparr>t_trade_price := Some 1201\<rparr>],
     settlement_tbl := [\<lparr>se_t_id = 9, se_cash_type = ''Cash Account'', se_cash_due_date = 41, se_amt = 36030\<rparr>],
     cash_transaction_tbl := [\<lparr>ct_t_id = 9, ct_dts = 21, ct_amt = 36030, ct_name = Some ''Market-Sell 30 Shares of AB''\<rparr>],
     trade_history_tbl := [\<lparr>th_t_id = 9, th_dts = 20, th_st_id = ''SBMT''\<rparr>, \<lparr>th_t_id = 9, th_dts = 21, th_st_id = ''CMPT''\<rparr>],
     holding_history_tbl := [\<lparr>hh_h_t_id = 5, hh_t_id = 9, hh_before_qty = 100, hh_after_qty = 70\<rparr>]\<rparr>"

definition lookup_ctx :: "(tl_stmt, pgsession) fctx" where
  "lookup_ctx = \<lparr>session = start_call lookup_db, plans = [], warnings = [], max_calls = 0\<rparr>"

lemma lookup_tables:
  "trade_tbl lookup_db = [sample_trade\<lparr>t_trade_price := Some 1201\<rparr>]" "trade_type_tbl lookup_db = [sample_type]"
  "settlement_tbl lookup_db = [\<lparr>se_t_id = 9, se_cash_type = ''Cash Account'', se_cash_due_date = 41, se_amt = 36030\<rparr>]"
  "cash_transaction_tbl lookup_db = [\<lparr>ct_t_id = 9, ct_dts = 21, ct_amt = 36030, ct_name = Some ''Market-Sell 30 Shares of AB''\<rparr>]"
  "trade_history_tbl lookup_db = [\<lparr>th_t_id = 9, th_dts = 20, th_st_id = ''SBMT''\<rparr>, \<lparr>th_t_id = 9, th_dts = 21, th_st_id = ''CMPT''\<rparr>]"
  "holding_history_tbl lookup_db = [\<lparr>hh_h_t_id = 5, hh_t_id = 9, hh_before_qty = 100, hh_after_qty = 70\<rparr>]"
  by (simp_all add: lookup_db_def)

lemma lookup_texts: "show_int 9 = ''9''" "show_int 20 = ''20''" "show_int 21 = ''21''" "show_int 41 = ''41''" "show_int 30 = ''30''"
  "show_int 1 = ''1''" "show_int 5 = ''5''" "show_int 70 = ''70''" "show_int 100 = ''100''"
  "numeric_out 2 1200 = ''12.00''" "numeric_out 2 1201 = ''12.01''" "numeric_out 2 36030 = ''360.30''"
  by (simp_all add: show_int_def show_nat.simps digit_char_def numeric_out_def Let_def frac_digits_2)

lemma lookup_keyed: "trades_keyed lookup_db"
  by (simp add: trades_keyed_def lookup_tables sample_rows)

lemma lookup_details: "details_sized sample_pg lookup_db"
  by (simp add: details_sized_def lookup_tables lookup_texts sample_pg_def)

lemma lookup_snap: "lookup_db = snap_of lookup_ctx"
  by (simp add: lookup_ctx_def snap_of_def)

lemmas lookup_eval = lookup_tables sample_rows lookup_texts sample_pg_def typed_trades_def tlf1_els_def tlf1_el_def last_is_cash_def
  settlement_els_def settlement_el_def cash_els_def cash_el_def history_els_def history_el_def history_pad_el_def settlements_def
  cash_transactions_def histories_def value_as_def text_as_def quoted_def bit_text_def or_NULL_def array_text_def order_asc_def Let_def

theorem TradeLookupFrame1_row_witness:
  "map (\<lambda>c. length (tlf1_column sample_pg [9, 4] lookup_db c)) TLF1_closes = [1, 1, 1, 1, 1, 1, 1, 1, 1, 1, 3, 3, 1]
   \<and> (\<exists>ps. TradeLookupFrame1 (\<lambda>_. True) (tl_spi sample_pg) 2 [9, 4] lookup_ctx =
    Ok ([[Some ''{12.00}'', Some ''{\"360.30\"}'', Some ''{\"21\"}'', Some ''{\"Market-Sell 30 Shares of AB\"}'', Some ''{\"Ann\"}'',
       Some ''{1}'', Some ''{1}'', Some ''1'', Some ''{360.30}'', Some ''{\"41\"}'', Some ''{\"Cash Account\"}'',
       Some ''{\"20\",\"21\",NULL}'', Some ''{\"SBMT\",\"CMPT\",\"\"}'', Some ''{12.01}'']],
      lookup_ctx\<lparr>max_calls := 1, plans := ps\<rparr>))"
proof -
  have sized: "tlf1_sized sample_pg 2 lookup_db"
    using lookup_keyed lookup_details by (simp add: tlf1_sized_def lookup_tables sample_rows lookup_texts or_NULL_def tlf1_price_width_def)
  have out: "tlf1_out sample_pg [9, 4] lookup_db = [Some ''{12.00}'', Some ''{\"360.30\"}'', Some ''{\"21\"}'',
      Some ''{\"Market-Sell 30 Shares of AB\"}'', Some ''{\"Ann\"}'', Some ''{1}'', Some ''{1}'', Some ''1'', Some ''{360.30}'',
      Some ''{\"41\"}'', Some ''{\"Cash Account\"}'', Some ''{\"20\",\"21\",NULL}'', Some ''{\"SBMT\",\"CMPT\",\"\"}'', Some ''{12.01}'']"
    by (simp add: tlf1_out_def tlf1_order_def tlf1_column_def lookup_eval)
  have found: "tlf1_found [9, 4] lookup_db = [(9, True)]"
    by (simp add: tlf1_found_def typed_trades_def last_is_cash_def lookup_tables sample_rows)
  have "settlements 9 lookup_db \<noteq> []" "cash_transactions 9 lookup_db \<noteq> []"
    by (simp_all add: settlements_def cash_transactions_def lookup_tables)
  then have len: "column_length c [(9, True)] lookup_db = (if c \<in> set history_cols then 3 else 1)" for c
    by (subst aligned_columns) auto
  have row: "(\<exists>ps. TradeLookupFrame1 (\<lambda>_. True) (tl_spi sample_pg) 2 [9, 4] lookup_ctx =
        Ok ([tlf1_out sample_pg [9, 4] lookup_db], lookup_ctx\<lparr>max_calls := 1, plans := ps\<rparr>))
      \<and> (\<forall>c \<in> set TLF1_closes. length (tlf1_column sample_pg [9, 4] lookup_db c) = (if c \<in> set history_cols then 3 else 1))"
    using TradeLookupFrame1_row [of "\<lambda>_. True" lookup_db lookup_ctx sample_pg 2 "[9, 4]"] lookup_snap sized
    by (simp add: found len del: set_simps)
  then have "map (\<lambda>c. length (tlf1_column sample_pg [9, 4] lookup_db c)) TLF1_closes =
      map (\<lambda>c. if c \<in> set history_cols then 3 else 1) TLF1_closes" by (intro map_cong) auto
  with row show ?thesis by (simp add: out TLF1_closes_def)
qed

theorem TradeLookupFrame1_overflow_witness:
  "TradeLookupFrame1 (\<lambda>_. True) (tl_spi sample_pg) 1 [9]
     \<lparr>session = start_call (lookup_db\<lparr>cash_transaction_tbl := [\<lparr>ct_t_id = 9, ct_dts = 21, ct_amt = 1234567890, ct_name = Some ''Sale''\<rparr>]\<rparr>),
      plans = [], warnings = [], max_calls = 0\<rparr> = Fail Crash"
proof -
  let ?r = "\<lparr>ct_t_id = 9, ct_dts = 21, ct_amt = 1234567890, ct_name = Some ''Sale''\<rparr>"
  let ?d = "lookup_db\<lparr>cash_transaction_tbl := [?r]\<rparr>"
  let ?f = "\<lparr>session = start_call ?d, plans = [], warnings = [], max_calls = 0\<rparr> :: (tl_stmt, pgsession) fctx"
  have "long_cash ?d 9"
    by (simp add: long_cash_def typed_trades_def cash_transactions_def lookup_tables sample_rows numeric_out_def show_nat.simps Let_def)
  then show ?thesis
    using TradeLookupFrame1_overflow [of "\<lambda>_. True" ?d ?f 1 "[9]" sample_pg] by (simp add: snap_of_def)
qed

end
