(* ===== verification/LookupAccount.thy ===== *)
theory LookupAccount
  imports TradeLookup
begin

text \<open>
  The second frame of Trade-Lookup: the trades of an account within a period.
\<close>

section \<open>The frame\<close>

definition tlf2_order :: "trade_col list" where
  "tlf2_order = [i_bid_price, i_cash_transaction_amount, i_cash_transaction_dts, i_cash_transaction_name, i_exec_name,
     i_is_cash, i_num_found, i_settlement_amount, i_settlement_cash_due_date, i_settlement_cash_type,
     i_trade_history_dts, i_trade_history_status_id, i_trade_list, i_trade_price]"

definition TLF2_bufs :: "int \<Rightarrow> (trade_col \<times> int) list" where
  "TLF2_bufs max_trades =
     [(i_bid_price, i32 ((int S_PRICE_T_LEN + 1) * max_trades + 2)),
      (i_cash_transaction_amount, i32 ((int VALUE_T_LEN + 1) * max_trades + 2)),
      (i_cash_transaction_dts, i32 ((int MYMAXDATELEN + 1) * max_trades + 2)),
      (i_cash_transaction_name, i32 ((int CT_NAME_LEN + 3) * max_trades + 2)),
      (i_exec_name, i32 ((int T_EXEC_NAME_LEN + 1) * max_trades + 3)),
      (i_is_cash, i32 ((int BOOLEAN_LEN + 1) * max_trades + 2)),
      (i_settlement_amount, i32 ((int VALUE_T_LEN + 1) * max_trades + 2)),
      (i_settlement_cash_due_date, i32 ((int MYMAXDATELEN + 1) * max_trades + 2)),
      (i_settlement_cash_type, i32 ((int SE_CASH_TYPE_LEN + 1) * max_trades + 2)),
      (i_trade_history_dts, i32 ((int MYMAXDATELEN + 1) * 3 * max_trades + 2)),
      (i_trade_history_status_id, i32 ((int ST_ID_LEN + 1) * 3 * max_trades + 2)),
      (i_trade_list, i32 ((int TRADE_T_LEN + 1) * max_trades + 2)),
      (i_trade_price, i32 ((int S_PRICE_T_LEN + 1) * max_trades + 2))]"

definition TLF2_row :: "nat \<Rightarrow> spi_row \<Rightarrow> trade_col emit list outcome" where
  "TLF2_row n row =
     obind (from_ptr (SPI_getvalue row 1)) (\<lambda>bid_price.
     obind (from_ptr (SPI_getvalue row 2)) (\<lambda>exec_name.
     obind (from_ptr (SPI_getvalue row 3)) (\<lambda>is_cash_str.
     obind (from_ptr (SPI_getvalue row 4)) (\<lambda>trade_list_str.
     Ok (seps n [i_bid_price, i_exec_name, i_is_cash, i_trade_list, i_trade_price]
       @ [(i_bid_price, Plain, bid_price)]
       @ quote_as Extra i_exec_name exec_name
       @ [(i_is_cash, Plain, bit_text (is_t is_cash_str)), (i_trade_list, Plain, trade_list_str),
          (i_trade_price, Plain, or_NULL (SPI_getvalue row 5))])))))"

definition TLF2_settlement :: "nat \<Rightarrow> spi_row \<Rightarrow> trade_col emit list outcome" where
  "TLF2_settlement = settlement_cells False False"

definition TLF2_cash :: "(tl_stmt, 'd) spi \<Rightarrow> datum list \<Rightarrow> bool \<Rightarrow> nat \<Rightarrow> trade_col bufs \<Rightarrow> (tl_stmt, 'd) fctx \<Rightarrow>
    ((nat option \<times> trade_col bufs) \<times> (tl_stmt, 'd) fctx) outcome" where
  "TLF2_cash spi args = append_cash TL_small spi True TLF2_3 args False Plain"

definition TLF2_history :: "(tl_stmt, 'd) spi \<Rightarrow> datum list \<Rightarrow> nat \<Rightarrow> trade_col bufs \<Rightarrow> (tl_stmt, 'd) fctx \<Rightarrow>
    ((nat option \<times> trade_col bufs) \<times> (tl_stmt, 'd) fctx) outcome" where
  "TLF2_history spi args = append_history TL_small spi True TLF2_4 args False False ''\"\"''"

text \<open>One round of the loop over the rows; a query that fails ends the loop.\<close>

definition TLF2_trade :: "(tl_stmt, 'd) spi \<Rightarrow> spi_row \<Rightarrow> counters \<Rightarrow> trade_col bufs \<Rightarrow> (tl_stmt, 'd) fctx \<Rightarrow>
    (((bool \<times> counters) \<times> trade_col bufs) \<times> (tl_stmt, 'd) fctx) outcome" where
  "TLF2_trade spi row k bufs f =
     obind (emit_rows TL_small TLF2_row (trades k) [row] bufs f) (\<lambda>((n, bufs), f).
     let k = k\<lparr>trades := n\<rparr> in
     obind (from_ptr (SPI_getvalue row 3)) (\<lambda>is_cash_str.
     obind (from_ptr (SPI_getvalue row 4)) (\<lambda>trade_list_str.
     let args = [DInt64 (atoll trade_list_str)] in
     obind (append_query TL_small spi True TLF2_2 args TLF2_settlement (num_settlement k) bufs f)
       (\<lambda>((r, bufs), f). case r of None \<Rightarrow> Ok (((False, k), bufs), f) | Some n \<Rightarrow>
     let k = k\<lparr>num_settlement := n\<rparr> in
     obind (TLF2_cash spi args (is_t is_cash_str) (num_cash_txn k) bufs f)
       (\<lambda>((r, bufs), f). case r of None \<Rightarrow> Ok (((False, k), bufs), f) | Some n \<Rightarrow>
     let k = k\<lparr>num_cash_txn := n\<rparr> in
     obind (TLF2_history spi args (num_history k) bufs f)
       (\<lambda>((r, bufs), f). case r of None \<Rightarrow> Ok (((False, k), bufs), f) | Some n \<Rightarrow>
     Ok (((True, k\<lparr>num_history := n\<rparr>), bufs), f)))))))"

definition TLF2_closes :: "trade_col list" where
  "TLF2_closes = [i_bid_price, i_cash_transaction_amount, i_cash_transaction_dts, i_cash_transaction_name, i_exec_name,
     i_is_cash, i_settlement_amount, i_settlement_cash_due_date, i_settlement_cash_type, i_trade_history_dts,
     i_trade_history_status_id, i_trade_list, i_trade_price]"

definition TradeLookupFrame2 ::
    "(tl_stmt \<Rightarrow> bool) \<Rightarrow> (tl_stmt, 'd) spi \<Rightarrow> int \<Rightarrow> int \<Rightarrow> int \<Rightarrow> int \<Rightarrow> (tl_stmt, 'd) fctx \<Rightarrow>
     (spi_row list \<times> (tl_stmt, 'd) fctx) outcome" where
  "TradeLookupFrame2 prepare spi acct_id end_trade_dts max_trades start_trade_dts f =
     obind (pallocs (TLF2_bufs max_trades)) (\<lambda>_.
     obind (plan_queries prepare TLF2_statements (f\<lparr>max_calls := 1\<rparr>)) (\<lambda>f.
     obind (query spi True TLF2_1 [DInt64 acct_id, DTimestamp start_trade_dts, DTimestamp end_trade_dts, DInt32 max_trades] f)
       (\<lambda>(r, f).
     let (rows, f) = (case r of None \<Rightarrow> ([], FAIL_FRAME_SET TLF2_1 f) | Some rows \<Rightarrow> (rows, f)) in
     obind (open_bufs (TLF2_bufs max_trades)) (\<lambda>bufs.
     obind (for_each (TLF2_trade spi) rows counters0 bufs f) (\<lambda>((k, bufs), f).
     obind (emits TL_small (closes TLF2_closes) bufs f) (\<lambda>(bufs, f).
     let vals = (buf_slots (TLF2_bufs max_trades) bufs (\<lambda>_. Uninit))
       (i_num_found := Str (snprintf_d (INTEGER_LEN + 1) (int (length rows)))) in
     srf_return (map vals tlf2_order) f))))))"

section \<open>What the loop writes\<close>

lemma for_each_map: "for_each body (map g xs) = for_each (\<lambda>x. body (g x)) xs"
proof (intro ext)
  fix k bufs f
  show "for_each body (map g xs) k bufs f = for_each (\<lambda>x. body (g x)) xs k bufs f"
    by (induction xs arbitrary: k bufs f) (auto intro!: obind_cong)
qed

definition tlf2_row_es :: "nat \<Rightarrow> trade_row \<Rightarrow> trade_col emit list" where
  "tlf2_row_es n t = seps n [i_bid_price, i_exec_name, i_is_cash, i_trade_list, i_trade_price]
     @ [(i_bid_price, Plain, numeric_out 2 (t_bid_price t))] @ quote_as Extra i_exec_name (t_exec_name t)
     @ [(i_is_cash, Plain, bit_text (t_is_cash t)), (i_trade_list, Plain, show_int (t_id t)),
        (i_trade_price, Plain, or_NULL (map_option (numeric_out 2) (t_trade_price t)))]"

definition tlf2_es :: "pgapi \<Rightarrow> trade_row \<Rightarrow> counters \<Rightarrow> db \<Rightarrow> trade_col emit list" where
  "tlf2_es pg t k d = tlf2_row_es (trades k) t
     @ rows_emits (settlement_es pg False False) (num_settlement k) (settlements (t_id t) d)
     @ cash_part pg False Plain (t_is_cash t) (num_cash_txn k) (t_id t) d
     @ history_part pg False False ''\"\"'' (num_history k) (t_id t) d"

definition tlf2_nxt :: "trade_row \<Rightarrow> counters \<Rightarrow> db \<Rightarrow> counters" where
  "tlf2_nxt t k d = k\<lparr>trades := Suc (trades k), num_settlement := num_settlement k + length (settlements (t_id t) d),
     num_cash_txn := num_cash_txn k + cash_count (t_is_cash t) (t_id t) d, num_history := num_history k + 3\<rparr>"

text \<open>The elements a trade adds to the columns of its own row, in all frames.\<close>

definition trade_el :: "pgapi \<Rightarrow> trade_col \<Rightarrow> trade_row \<Rightarrow> string" where
  "trade_el pg c t =
     (case c of
        i_acct_id \<Rightarrow> show_int (t_ca_id t)
      | i_bid_price \<Rightarrow> numeric_out 2 (t_bid_price t)
      | i_exec_name \<Rightarrow> quoted (t_exec_name t)
      | i_is_cash \<Rightarrow> bit_text (t_is_cash t)
      | i_price \<Rightarrow> or_NULL (map_option (numeric_out 2) (t_trade_price t))
      | i_quantity \<Rightarrow> show_int (t_qty t)
      | i_trade_dts \<Rightarrow> quoted (timestamp_out pg (t_dts t))
      | i_trade_list \<Rightarrow> show_int (t_id t)
      | i_trade_price \<Rightarrow> or_NULL (map_option (numeric_out 2) (t_trade_price t))
      | i_trade_type \<Rightarrow> quoted (t_tt_id t)
      | _ \<Rightarrow> [])"

definition tlf2_els :: "pgapi \<Rightarrow> trade_col \<Rightarrow> trade_row \<Rightarrow> db \<Rightarrow> string list" where
  "tlf2_els pg c t d =
     (if c \<in> set settlement_cols then settlement_els pg False False c (t_id t) d
      else if c \<in> set cash_cols then cash_els pg False (t_is_cash t) c (t_id t) d
      else if c \<in> set history_cols then history_els pg False False ''\"\"'' c (t_id t) d
      else [trade_el pg c t])"

definition trade_ok :: "trade_row \<Rightarrow> db \<Rightarrow> bool" where
  "trade_ok t d \<longleftrightarrow> named_cash (t_id t) d \<and> in_i64 (t_id t)"

lemma tlf2_planned: "TLF2_1 \<in> set TLF2_statements" "TLF2_2 \<in> set TLF2_statements" "TLF2_3 \<in> set TLF2_statements"
  "TLF2_4 \<in> set TLF2_statements"
  by (simp_all add: TLF2_statements_def)

lemma tlf2_sql:
  "tl_sql pg [DInt64 i] TLF2_2 d = Ok (SPI_OK_SELECT (map (settlement_values pg) (settlements i d)), d)"
  "tl_sql pg [DInt64 i] TLF2_3 d = Ok (SPI_OK_SELECT (map (cash_values pg) (cash_transactions i d)), d)"
  "tl_sql pg [DInt64 i] TLF2_4 d = Ok (SPI_OK_SELECT (map (history_values pg) (histories i d)), d)"
  by (simp_all add: tl_sql_def SQL_settlement_def SQL_cash_transaction_def SQL_trade_history_def)

lemma TLF2_row_values: "TLF2_row n (account_trade_values t) = Ok (tlf2_row_es n t)"
  by (simp add: TLF2_row_def account_trade_values_def tlf2_row_es_def is_t_def)

lemma tlf2_body:
  assumes "trade_ok t (snapshot s)"
  shows "writes TL_small TLF2_statements s (TLF2_trade (tl_spi pg) (account_trade_values t) k) (tlf2_es pg t k (snapshot s))
    (True, tlf2_nxt t k (snapshot s)) s"
proof -
  let ?d = "snapshot s" and ?args = "[DInt64 (t_id t)]"
  have main: "writes TL_small TLF2_statements s (emit_rows TL_small TLF2_row (trades k) [account_trade_values t])
      (tlf2_row_es (trades k) t) (Suc (trades k)) s"
    using writes_rows [of "[t]" TLF2_row account_trade_values tlf2_row_es TL_small TLF2_statements s "trades k"]
    by (simp add: TLF2_row_values)
  have settled: "writes TL_small TLF2_statements s (append_query TL_small (tl_spi pg) True TLF2_2 ?args TLF2_settlement n)
      (rows_emits (settlement_es pg False False) n (settlements (t_id t) ?d)) (Some (n + length (settlements (t_id t) ?d))) s" for n
    unfolding TLF2_settlement_def by (rule tl.writes_read [OF tlf2_planned(2) tlf2_sql(1)]) (rule settlement_cells_values)
  have cash: "writes TL_small TLF2_statements s (TLF2_cash (tl_spi pg) ?args b n)
      (cash_part pg False Plain b n (t_id t) ?d) (Some (n + cash_count b (t_id t) ?d)) s" for b n
    unfolding TLF2_cash_def
    by (rule writes_append_cash) (use tl.query_read [OF tlf2_planned(3) tlf2_sql(2)] assms in \<open>auto simp: trade_ok_def\<close>)
  have history: "writes TL_small TLF2_statements s (TLF2_history (tl_spi pg) ?args n)
      (history_part pg False False ''\"\"'' n (t_id t) ?d) (Some (n + 3)) s" for n
    unfolding TLF2_history_def by (rule writes_append_history) (use tl.query_read [OF tlf2_planned(4) tlf2_sql(3)] in auto)
  have vals: "SPI_getvalue (account_trade_values t) 3 = bool_txt (t_is_cash t)" "SPI_getvalue (account_trade_values t) 4 = int_txt (t_id t)"
    by (simp_all add: account_trade_values_def)
  show ?thesis
    unfolding TLF2_trade_def [abs_def] tlf2_es_def
    apply (rule writes_bind [OF main])
    using assms apply (simp add: vals Let_def trade_ok_def tlf2_nxt_def split del: if_split)
    apply (rule writes_bind [OF settled], simp add: Let_def split del: if_split)
    apply (rule writes_bind [OF cash], simp add: Let_def split del: if_split)
    by (rule writes_map [OF history]) (simp split del: if_split)
qed

lemma out_tlf2:
  assumes "c \<in> set TLF2_closes"
  shows "out c (tlf2_es pg t k d) = joined (counter c k = 0) (tlf2_els pg c t d)"
  using assms
  by (auto simp: tlf2_es_def tlf2_row_es_def tlf2_els_def TLF2_closes_def trade_el_def out_settlement_rows out_cash_part
      out_history_part counter_def settlement_els_def)

lemma cash_els_Nil: "cash_els pg qa b c t d = [] \<longleftrightarrow> cash_count b t d = 0"
  by (simp add: cash_count_def cash_els_def)

lemma tlf2_counter:
  "c \<in> set TLF2_closes \<Longrightarrow> counter c (tlf2_nxt t k d) = 0 \<longleftrightarrow> counter c k = 0 \<and> tlf2_els pg c t d = []"
  by (auto simp: tlf2_nxt_def tlf2_els_def TLF2_closes_def counter_def settlement_els_def cash_els_Nil)

text \<open>Databases whose texts fit: the widths of the columns.\<close>

definition trades_sized :: "pgapi \<Rightarrow> db \<Rightarrow> bool" where
  "trades_sized pg d \<longleftrightarrow> trades_keyed d \<and> details_sized pg d
     \<and> (\<forall>t \<in> set (trade_tbl d). length (numeric_out 2 (t_bid_price t)) \<le> 14 \<and> length (t_exec_name t) \<le> 49
          \<and> length (or_NULL (map_option (numeric_out 2) (t_trade_price t))) \<le> 14 \<and> in_i64 (t_id t) \<and> in_i64 (t_ca_id t)
          \<and> length (show_int (t_qty t)) \<le> 10 \<and> length (timestamp_out pg (t_dts t)) \<le> 60 \<and> length (t_tt_id t) \<le> 3)
     \<and> (\<forall>r \<in> set (cash_transaction_tbl d). length (numeric_out 2 (ct_amt r)) \<le> 12)"

definition good_trade :: "pgapi \<Rightarrow> trade_row \<Rightarrow> db \<Rightarrow> bool" where
  "good_trade pg t d \<longleftrightarrow> trades_sized pg d \<and> t \<in> set (trade_tbl d)"

definition trade_width :: "trade_col \<Rightarrow> nat" where
  "trade_width c =
     (case c of
        i_acct_id \<Rightarrow> 20 | i_bid_price \<Rightarrow> 14 | i_exec_name \<Rightarrow> 51 | i_is_cash \<Rightarrow> 1 | i_price \<Rightarrow> 14 | i_quantity \<Rightarrow> 10
      | i_trade_dts \<Rightarrow> 62 | i_trade_list \<Rightarrow> 20 | i_trade_price \<Rightarrow> 14 | i_trade_type \<Rightarrow> 5 | _ \<Rightarrow> 0)"

lemma good_trade_ok: "good_trade pg t d \<Longrightarrow> trade_ok t d"
  by (auto simp: good_trade_def trades_sized_def trade_ok_def intro: named_cash)

lemma trade_el_width: "good_trade pg t d \<Longrightarrow> length (trade_el pg c t) \<le> trade_width c"
  by (auto simp: good_trade_def trades_sized_def trade_el_def trade_width_def quoted_def bit_text_def length_show_int_i64
      split: trade_col.split)

lemma good_trade_keyed: "good_trade pg t d \<Longrightarrow> trades_keyed d" "good_trade pg t d \<Longrightarrow> details_sized pg d"
  "good_trade pg t d \<Longrightarrow> \<forall>r \<in> set (cash_transaction_tbl d). length (numeric_out 2 (ct_amt r)) \<le> 12"
  by (simp_all add: good_trade_def trades_sized_def)

definition tlf2_width :: "trade_col \<Rightarrow> nat" where
  "tlf2_width c =
     (case c of
        i_settlement_amount \<Rightarrow> 12 | i_settlement_cash_due_date \<Rightarrow> 60 | i_settlement_cash_type \<Rightarrow> 40
      | i_cash_transaction_amount \<Rightarrow> 12 | i_cash_transaction_dts \<Rightarrow> 62 | i_cash_transaction_name \<Rightarrow> 102
      | i_trade_history_dts \<Rightarrow> 60 | i_trade_history_status_id \<Rightarrow> 4 | _ \<Rightarrow> trade_width c)"

lemma tlf2_els_width:
  assumes "good_trade pg t d" "x \<in> set (tlf2_els pg c t d)"
  shows "length x \<le> tlf2_width c"
proof -
  note d = good_trade_keyed [OF assms(1)]
  consider "c \<in> set settlement_cols" "x \<in> set (settlement_els pg False False c (t_id t) d)"
    | "c \<in> set cash_cols" "x \<in> set (cash_els pg False (t_is_cash t) c (t_id t) d)"
    | "c \<in> set history_cols" "x \<in> set (history_els pg False False ''\"\"'' c (t_id t) d)"
    | "c \<notin> set settlement_cols" "c \<notin> set cash_cols" "c \<notin> set history_cols" "x = trade_el pg c t"
    using assms(2) by (auto simp: tlf2_els_def split: if_splits)
  then show ?thesis
  proof cases
    case 1
    with settlement_els_width [OF d(2) 1(2)] show ?thesis by (auto simp: tlf2_width_def)
  next
    case 2
    with cash_els_width [OF d(2,3) _ 2(2)] show ?thesis by (auto simp: tlf2_width_def)
  next
    case 3
    with history_els_width [OF d(2) _ 3(2)] show ?thesis by (auto simp: tlf2_width_def)
  next
    case 4
    with trade_el_width [OF assms(1), of c] show ?thesis by (cases c) (auto simp: tlf2_width_def)
  qed
qed

lemma tlf2_els_le: "trades_keyed d \<Longrightarrow> length (tlf2_els pg c t d) \<le> (if c \<in> set history_cols then 3 else 1)"
  using settlement_els_le [of d pg False False c "t_id t"] cash_els_le [of d pg False "t_is_cash t" c "t_id t"]
  by (auto simp: tlf2_els_def)

lemma late_room: "late_in cs (c, m, s) \<Longrightarrow> room m s = 1"
  by (simp add: late_in_def room_def)

lemma tlf2_emits_in: "\<forall>e \<in> set (tlf2_es pg t k d). late_in TLF2_closes e"
proof -
  have "\<forall>e \<in> set (tlf2_row_es n t). late_in TLF2_closes e" for n
    by (auto simp: late_in_def tlf2_row_es_def TLF2_closes_def seps_def quote_as_def split: if_splits)
  moreover have "set settlement_cols \<subseteq> set TLF2_closes" "set cash_cols \<subseteq> set TLF2_closes" "set history_cols \<subseteq> set TLF2_closes"
    by (auto simp: TLF2_closes_def)
  note late_in_mono [OF details_in(1) this(1)] late_in_mono [OF parts_in(2) this(2), of Plain] late_in_mono [OF parts_in(1) this(3)]
  ultimately show ?thesis by (simp add: tlf2_es_def ball_Un)
qed

lemma extras_tlf2 [simp]: "extras c (tlf2_es pg t k d) = (if c = i_exec_name then 1 else 0)"
  by (simp add: tlf2_es_def tlf2_row_es_def)

interpretation tlf2: array_loop TL_small "\<lambda>t. TLF2_trade (tl_spi pg) (account_trade_values t)"
  "\<lambda>t k s. tlf2_es pg t k (snapshot s)" "\<lambda>t k s. tlf2_nxt t k (snapshot s)" "\<lambda>_ _ s. s" "\<lambda>t s. trade_ok t (snapshot s)"
  TLF2_statements TLF2_closes counters0 counter "\<lambda>c t _ s. tlf2_els pg c t (snapshot s)" "\<lambda>t s. good_trade pg t (snapshot s)"
  "\<lambda>c. if c \<in> set history_cols then 3 else 1" tlf2_width "\<lambda>c. if c = i_exec_name then 1 else 0" "\<lambda>_. 1"
  for pg
proof
  fix t k s c
  show "\<forall>(c, md, x) \<in> set (tlf2_es pg t k (snapshot s)). c \<in> set TLF2_closes \<and> room md x \<le> 1"
    using tlf2_emits_in [of pg t k "snapshot s"] by (fastforce simp: late_in_def room_def)
  show "good_trade pg t (snapshot s) \<Longrightarrow> length (tlf2_els pg c t (snapshot s)) \<le> (if c \<in> set history_cols then 3 else 1)"
    by (rule tlf2_els_le) (rule good_trade_keyed)
qed (auto simp: tlf2_body out_tlf2 tlf2_counter intro: tlf2_els_width good_trade_ok, simp add: TLF2_closes_def)

definition tlf2_out :: "pgapi \<Rightarrow> trade_row list \<Rightarrow> db \<Rightarrow> spi_row" where
  "tlf2_out pg ts d = map (\<lambda>c.
     if c = i_num_found then int_txt (int (length ts))
     else Some (array_text (concat (map (\<lambda>t. tlf2_els pg c t d) ts)))) tlf2_order"

lemma tlf2_bufs: "fst ` set (TLF2_bufs m) = set TLF2_closes" "distinct (map fst (TLF2_bufs m))"
  by (simp_all add: TLF2_bufs_def TLF2_closes_def)

lemma tlf2_bufs_sizes:
  assumes "1 \<le> m" "m \<le> 1000000"
  shows "TLF2_bufs m = [(i_bid_price, 15 * m + 2), (i_cash_transaction_amount, 13 * m + 2), (i_cash_transaction_dts, 64 * m + 2),
    (i_cash_transaction_name, 103 * m + 2), (i_exec_name, 65 * m + 3), (i_is_cash, 2 * m + 2),
    (i_settlement_amount, 13 * m + 2), (i_settlement_cash_due_date, 64 * m + 2), (i_settlement_cash_type, 41 * m + 2),
    (i_trade_history_dts, 192 * m + 2), (i_trade_history_status_id, 15 * m + 2), (i_trade_list, 21 * m + 2),
    (i_trade_price, 15 * m + 2)]"
  using assms by (simp add: TLF2_bufs_def in_i32_def)

lemma tlf2_sizes_suffice:
  assumes "1 \<le> m" "m \<le> 1000000" "(c, len) \<in> set (TLF2_bufs m)"
  shows "2 \<le> len \<and> len < 2 ^ 30 \<and> int (tlf2_width c + 1) * (int (if c \<in> set history_cols then 3 else 1) * m) + 1
    + int (if c = i_exec_name then 1 else 0) * m + 1 \<le> len"
  using assms unfolding tlf2_bufs_sizes [OF assms(1,2)] by (auto simp: tlf2_width_def trade_width_def)

lemma account_trades_in: "t \<in> set (take n (account_trades acct since till d)) \<Longrightarrow> t \<in> set (trade_tbl d)"
  by (auto simp: account_trades_def order_asc_def dest: in_set_takeD)

lemma symbol_trades_in: "t \<in> set (take n (symbol_trades symb since till d)) \<Longrightarrow> t \<in> set (trade_tbl d)"
  by (auto simp: symbol_trades_def order_asc_def dest: in_set_takeD)

text \<open>\<open>ts\<close> are \<open>n\<close> of the trades \<open>xs\<close>, or all if there are fewer, in order of time, and no other is earlier.\<close>

definition earliest :: "nat \<Rightarrow> trade_row list \<Rightarrow> trade_row list \<Rightarrow> bool" where
  "earliest n xs ts \<longleftrightarrow> mset ts \<subseteq># mset xs \<and> length ts = min n (length xs) \<and> sorted (map t_dts ts)
     \<and> (\<forall>t \<in> set ts. \<forall>u \<in># mset xs - mset ts. t_dts t \<le> t_dts u)"

lemma earliest_take: "earliest n xs (take n (order_asc t_dts xs))"
proof -
  let ?s = "order_asc t_dts xs"
  have m: "mset xs = mset (take n ?s) + mset (drop n ?s)"
    by (metis append_take_drop_id mset_append mset_order_asc)
  have "sorted (map t_dts (take n ?s @ drop n ?s))" by (simp add: order_asc_def)
  then have "sorted (map t_dts (take n ?s))" "\<forall>t \<in> set (take n ?s). \<forall>u \<in> set (drop n ?s). t_dts t \<le> t_dts u"
    unfolding map_append sorted_append by auto
  moreover have "length ?s = length xs" by (simp add: order_asc_def)
  ultimately show ?thesis by (simp add: earliest_def m min.commute)
qed

lemma length_tlf2_column:
  assumes "trades_keyed d"
  shows "length (concat (map (\<lambda>t. tlf2_els pg c t d) ts)) = column_length c (map (\<lambda>t. (t_id t, t_is_cash t)) ts) d"
  by (induction ts) (simp_all add: column_length_Cons tlf2_els_def length_settlement_els [OF assms] length_cash_els [OF assms])

text \<open>
  C18. The second frame of Trade-Lookup: one row with the earliest \<open>max_trades\<close> trades of the
  account in the period, in order of time.  The columns of the trades have one element per
  trade, those of the history three, those of the settlement one per trade that has a row in
  \<^verbatim>\<open>settlement\<close>, and those of the cash transaction one per trade that has a row in
  \<^verbatim>\<open>cash_transaction\<close> or is not settled in cash.  So they are aligned when every trade has its rows,
  and otherwise are not.
\<close>

theorem TradeLookupFrame2_row:
  assumes "\<And>s. s \<in> set TLF2_statements \<Longrightarrow> prepare s" "d = snap_of f" "trades_sized pg d"
    and "1 \<le> max_trades" "max_trades \<le> 1000000"
    and "ts = take (nat max_trades) (account_trades acct since till d)"
  shows "(\<exists>ps. TradeLookupFrame2 prepare (tl_spi pg) acct till max_trades since f =
      Ok ([tlf2_out pg ts d], f\<lparr>max_calls := 1, plans := ps\<rparr>))
    \<and> earliest (nat max_trades) (filter (\<lambda>t. t_ca_id t = acct \<and> since \<le> t_dts t \<and> t_dts t \<le> till) (trade_tbl d)) ts
    \<and> (\<forall>c \<in> set TLF2_closes. length (concat (map (\<lambda>t. tlf2_els pg c t d) ts)) =
        column_length c (map (\<lambda>t. (t_id t, t_is_cash t)) ts) d)"
proof -
  let ?ts = "\<lambda>d. take (nat max_trades) (account_trades acct since till d)"
  have parts: "earliest (nat max_trades) (filter (\<lambda>t. t_ca_id t = acct \<and> since \<le> t_dts t \<and> t_dts t \<le> till) (trade_tbl d)) ts"
    "\<forall>c \<in> set TLF2_closes. length (concat (map (\<lambda>t. tlf2_els pg c t d) ts)) = column_length c (map (\<lambda>t. (t_id t, t_is_cash t)) ts) d"
    using earliest_take length_tlf2_column assms(3) by (simp_all add: assms(6) account_trades_def trades_sized_def)
  let ?args = "[DInt64 acct, DTimestamp since, DTimestamp till, DInt32 max_trades]"
  obtain ps where ps: "plan_queries prepare TLF2_statements (f\<lparr>max_calls := Suc 0\<rparr>) = Ok (f\<lparr>max_calls := Suc 0, plans := ps\<rparr>)"
    and sub: "set TLF2_statements \<subseteq> set ps"
    using planned [of TLF2_statements prepare "f\<lparr>max_calls := Suc 0\<rparr>", OF assms(1)] by auto
  let ?g = "f\<lparr>max_calls := Suc 0, plans := ps\<rparr>"
  have d: "snapshot (session f) = d" using assms(2) by (simp add: snap_of_def)
  have sub: "set TLF2_statements \<subseteq> set (plans ?g)" using sub by simp
  have rows: "tl_sql pg ?args TLF2_1 d = Ok (SPI_OK_SELECT (map account_trade_values (?ts d)), d)" for d
    using assms(4) by (simp add: tl_sql_def SQLTLF2_1_def sql_limit_def take_map)
  have first: "query (tl_spi pg) True TLF2_1 ?args ?g = Ok (Some (map account_trade_values (?ts d)), ?g)"
    using tl.query_read [where rows = "\<lambda>d. map account_trade_values (?ts d)", OF tlf2_planned(1) rows sub refl] by (simp add: d)
  have len: "int (length (?ts d)) \<le> max_trades" using assms(4) by simp
  have good: "\<forall>t \<in> set (?ts d). good_trade pg t (snapshot (session ?g))"
    using assms(3) by (auto simp: good_trade_def d dest: account_trades_in)
  have pal: "pallocs (TLF2_bufs max_trades) = Ok ()"
    by (rule pallocs_ok) (use assms(4,5) in \<open>auto simp: tlf2_bufs_sizes\<close>)
  obtain bufs bufs' where b: "open_bufs (TLF2_bufs max_trades) = Ok bufs"
    and run: "\<And>cont :: counters \<Rightarrow> trade_col bufs \<Rightarrow> (tl_stmt, pgsession) fctx \<Rightarrow> (spi_row list \<times> (tl_stmt, pgsession) fctx) outcome.
      obind (for_each (\<lambda>t. TLF2_trade (tl_spi pg) (account_trade_values t)) (?ts d) counters0 bufs ?g)
        (\<lambda>((k, bufs), f). obind (emits TL_small (closes TLF2_closes) bufs f) (\<lambda>(bufs, f). cont k bufs f)) =
      cont (loop_state (\<lambda>t k s. tlf2_nxt t k (snapshot s)) (\<lambda>_ _ s. s) (?ts d) counters0 (session f)) bufs' ?g"
    and arrays: "\<forall>c \<in> set TLF2_closes. ctext (fst (bufs' c)) = array_text (concat (map (\<lambda>t. tlf2_els pg c t d) (?ts d)))"
    using tlf2.frame [OF tlf2_bufs(2,1) [of max_trades] good len assms(4) tlf2_sizes_suffice [OF assms(4,5)] closing_closes sub]
    by (auto simp: d loop_els_const TLF2_closes_def)
  have "length (?ts d) < 1000000000" using len assms(5) by linarith
  then have "snprintf_d (INTEGER_LEN + 1) (int (length (?ts d))) = show_int (int (length (?ts d)))" by (rule snprintf_count)
  moreover have "TradeLookupFrame2 prepare (tl_spi pg) acct till max_trades since f =
      srf_return (map ((buf_slots (TLF2_bufs max_trades) bufs' (\<lambda>_. Uninit))(i_num_found :=
        Str (snprintf_d (INTEGER_LEN + 1) (int (length (?ts d)))))) tlf2_order) ?g"
    using run by (simp add: TradeLookupFrame2_def pal ps first b for_each_map Let_def)
  ultimately have "TradeLookupFrame2 prepare (tl_spi pg) acct till max_trades since f = Ok ([tlf2_out pg (?ts d) d], ?g)"
    using arrays by (simp add: srf_return_def tlf2_out_def buf_slots_def tlf2_bufs tlf2_order_def TLF2_closes_def)
  with parts show ?thesis unfolding assms(6) by auto
qed

lemma lookup_sized: "trades_sized sample_pg lookup_db"
  using lookup_keyed lookup_details
  by (simp add: trades_sized_def lookup_tables sample_rows lookup_texts or_NULL_def in_i64_def sample_pg_def)

theorem TradeLookupFrame2_row_witness:
  "\<exists>ps. TradeLookupFrame2 (\<lambda>_. True) (tl_spi sample_pg) 1 100 20 0 lookup_ctx =
    Ok ([[Some ''{12.00}'', Some ''{360.30}'', Some ''{\"21\"}'', Some ''{\"Market-Sell 30 Shares of AB\"}'', Some ''{\"Ann\"}'',
       Some ''{1}'', Some ''1'', Some ''{360.30}'', Some ''{41}'', Some ''{Cash Account}'',
       Some ''{20,21,NULL}'', Some ''{SBMT,CMPT,\"\"}'', Some ''{9}'', Some ''{12.01}'']],
      lookup_ctx\<lparr>max_calls := 1, plans := ps\<rparr>)"
proof -
  have trades: "account_trades 1 0 100 lookup_db = [sample_trade\<lparr>t_trade_price := Some 1201\<rparr>]"
    by (simp add: account_trades_def order_asc_def lookup_tables sample_rows)
  have out: "tlf2_out sample_pg [sample_trade\<lparr>t_trade_price := Some 1201\<rparr>] lookup_db =
      [Some ''{12.00}'', Some ''{360.30}'', Some ''{\"21\"}'', Some ''{\"Market-Sell 30 Shares of AB\"}'', Some ''{\"Ann\"}'',
       Some ''{1}'', Some ''1'', Some ''{360.30}'', Some ''{41}'', Some ''{Cash Account}'',
       Some ''{20,21,NULL}'', Some ''{SBMT,CMPT,\"\"}'', Some ''{9}'', Some ''{12.01}'']"
    by (simp add: tlf2_out_def tlf2_order_def tlf2_els_def trade_el_def lookup_eval)
  show ?thesis
    using TradeLookupFrame2_row [of "\<lambda>_. True" lookup_db lookup_ctx sample_pg 20 "[sample_trade\<lparr>t_trade_price := Some 1201\<rparr>]" 1 0 100]
      lookup_snap lookup_sized
    by (simp add: trades out)
qed

end
