(* ===== verification/LimitedUpdates.thy ===== *)
theory LimitedUpdates
  imports Appends Schema
begin

text \<open>
  Loops that update at most a given number of rows (Trade-Update).  Each round concerns one key.
  As long as fewer than \<open>mu\<close> rows have been updated it touches the row of its key; what it writes
  there it computes from the snapshot, and afterwards it reads the current contents.

  Whatever the keys are, repeated or without a row: the loop touches the rows of the first \<open>mu\<close>
  keys that have one, and every round sees its key as the whole loop leaves it.
\<close>

definition limited_upd ::
    "('i \<Rightarrow> int) \<Rightarrow> (int \<Rightarrow> db \<Rightarrow> bool) \<Rightarrow> (int \<Rightarrow> db \<Rightarrow> db \<Rightarrow> db) \<Rightarrow> ('k \<Rightarrow> nat) \<Rightarrow> int \<Rightarrow> 'i \<Rightarrow> 'k \<Rightarrow> pgsession \<Rightarrow> pgsession" where
  "limited_upd key hits touch upds mu i k s =
     (if int (upds k) < mu \<and> hits (key i) (snapshot s) then s\<lparr>current := touch (key i) (snapshot s) (current s)\<rparr> else s)"

definition chosen :: "(int \<Rightarrow> bool) \<Rightarrow> int \<Rightarrow> int list \<Rightarrow> int list" where
  "chosen hit n ts = take (nat n) (filter hit ts)"

lemma chosen_Nil [simp]: "chosen hit n [] = []" "n \<le> 0 \<Longrightarrow> chosen hit n ts = []"
  by (simp_all add: chosen_def)

lemma chosen_Cons:
  "chosen hit n (t # ts) = (if hit t \<and> 0 < n then t # chosen hit (n - 1) ts else chosen hit n ts)"
  by (auto simp: chosen_def take_Cons' nat_diff_distrib)

lemma chosen_hit: "t \<in> set (chosen hit n ts) \<Longrightarrow> hit t \<and> 0 < n"
  by (cases "0 < n") (auto simp: chosen_def dest: in_set_takeD)

lemma length_chosen: "length (chosen hit n ts) \<le> length ts"
  by (simp add: chosen_def) (meson length_filter_le min.coboundedI1 le_trans)

locale limited_updates =
  fixes key :: "'i \<Rightarrow> int" and hits :: "int \<Rightarrow> db \<Rightarrow> bool" and touch :: "int \<Rightarrow> db \<Rightarrow> db \<Rightarrow> db"
    and touched :: "int set \<Rightarrow> db \<Rightarrow> db" and wf :: "db \<Rightarrow> bool"
    and upds :: "'k \<Rightarrow> nat" and nxt :: "'i \<Rightarrow> 'k \<Rightarrow> pgsession \<Rightarrow> 'k" and mu :: int
    and els :: "'c \<Rightarrow> 'i \<Rightarrow> db \<Rightarrow> db \<Rightarrow> 'e list"
  assumes touch: "wf d \<Longrightarrow> hits t d \<Longrightarrow> touch t d (touched U d) = touched (insert t U) d"
    and touched_none: "touched {} d = d"
    and upds_nxt: "upds (nxt i k s) = upds k + (if int (upds k) < mu \<and> hits (key i) (snapshot s) then 1 else 0)"
    and els_touched: "key i \<in> U \<longleftrightarrow> key i \<in> V \<Longrightarrow> els c i d (touched U d) = els c i d (touched V d)"
begin

abbreviation "upd \<equiv> limited_upd key hits touch upds mu"
abbreviation "half d U \<equiv> \<lparr>snapshot = d, current = touched U d\<rparr>"
abbreviation "todo d k is \<equiv> chosen (\<lambda>t. hits t d) (mu - int (upds k)) (map key is)"

lemma start: "start_call d = half d {}"
  by (simp add: start_call_def touched_none)

lemma upd_half:
  "wf d \<Longrightarrow> upd i k (half d U) = half d (if int (upds k) < mu \<and> hits (key i) d then insert (key i) U else U)"
  by (simp add: limited_upd_def touch)

lemma todo_Cons:
  "todo d k (i # is) = (if int (upds k) < mu \<and> hits (key i) d then [key i] else []) @ todo d (nxt i k (half d U)) is"
  by (auto simp: chosen_Cons upds_nxt diff_diff_eq)

lemma session:
  assumes "wf d"
  shows "loop_session nxt upd is k (half d U) = half d (U \<union> set (todo d k is))"
proof (induction "is" arbitrary: k U)
  case (Cons i "is")
  show ?case unfolding loop_session.simps upd_half [OF assms] Cons.IH todo_Cons [where U = U] by auto
qed simp

lemma upds:
  assumes "wf d"
  shows "upds (loop_state nxt upd is k (half d U)) = upds k + length (todo d k is)"
proof (induction "is" arbitrary: k U)
  case (Cons i "is")
  show ?case unfolding loop_state.simps upd_half [OF assms] Cons.IH todo_Cons [where U = U] by (simp add: upds_nxt)
qed simp

lemma elements:
  assumes "wf d"
  shows "loop_els (\<lambda>i k s. els c i (snapshot s) (current (upd i k s))) nxt upd is k (half d U) =
    concat (map (\<lambda>i. els c i d (touched (U \<union> set (todo d k is)) d)) is)"
proof (induction "is" arbitrary: k U)
  case (Cons i "is")
  let ?hit = "int (upds k) < mu \<and> hits (key i) d"
  let ?U = "if ?hit then insert (key i) U else U" and ?k = "nxt i k (half d U)"
  have all: "U \<union> set (todo d k (i # is)) = ?U \<union> set (todo d ?k is)" unfolding todo_Cons [where U = U] by auto
  have "key i \<in> set (todo d ?k is) \<Longrightarrow> ?hit" using chosen_hit by (fastforce simp: upds_nxt)
  then have "key i \<in> ?U \<longleftrightarrow> key i \<in> ?U \<union> set (todo d ?k is)" by auto
  from els_touched [OF this] show ?case unfolding loop_els.simps upd_half [OF assms] all by (simp add: upd_half [OF assms] Cons.IH)
qed simp

end

end
