(* ===== verification/TradeUpdate.thy ===== *)
theory TradeUpdate
  imports LookupAccount LimitedUpdates
begin

text \<open>
  The Trade-Update transaction, \<^verbatim>\<open>storedproc/pgsql/c/trade_update.c\<close>: the SQL statements of its three
  frames, and the first frame, which changes the executors' names of some of the given trades and
  returns the trades.
\<close>

section \<open>SQL statements\<close>

datatype tu_stmt = TUF1_1 | TUF1_2a | TUF1_2b | TUF1_3 | TUF1_4 | TUF1_5 | TUF1_6 | TUF1_7
  | TUF2_1 | TUF2_2 | TUF2_3 | TUF2_4 | TUF2_5 | TUF2_6 | TUF3_1 | TUF3_2 | TUF3_3 | TUF3_4 | TUF3_5 | TUF3_6
  | TU_small trade_col

definition TUF1_statements :: "tu_stmt list" where
  "TUF1_statements = [TUF1_1, TUF1_2a, TUF1_2b, TUF1_3, TUF1_4, TUF1_5, TUF1_6, TUF1_7]"

definition TUF2_statements :: "tu_stmt list" where
  "TUF2_statements = [TUF2_1, TUF2_2, TUF2_3, TUF2_4, TUF2_5, TUF2_6]"

definition TUF3_statements :: "tu_stmt list" where
  "TUF3_statements = [TUF3_1, TUF3_2, TUF3_3, TUF3_4, TUF3_5, TUF3_6]"

text \<open>PostgreSQL's \<open>replace\<close>: all occurrences, from the left, without overlap.\<close>

function replace_text :: "string \<Rightarrow> string \<Rightarrow> string \<Rightarrow> string" where
  "replace_text old new s =
     (if old = [] \<or> s = [] then s
      else if take (length old) s = old then new @ replace_text old new (drop (length old) s)
      else hd s # replace_text old new (tl s))"
  by auto

termination by (relation "measure (\<lambda>(old, new, s). length s)") auto

declare replace_text.simps [simp del]

definition trades_with :: "int \<Rightarrow> db \<Rightarrow> trade_row list" where
  "trades_with t d = filter (\<lambda>r. t_id r = t) (trade_tbl d)"

definition SQLTUF1_1 :: "int \<Rightarrow> sql" where
  "SQLTUF1_1 t d = sql_select (map (\<lambda>r. [Some (t_exec_name r)]) (trades_with t d)) d"

definition SQLTUF1_2a :: "string \<Rightarrow> sql" where
  "SQLTUF1_2a s d = sql_select [[Some (replace_text '' X '' '' '' s)]] d"

definition SQLTUF1_2b :: "string \<Rightarrow> sql" where
  "SQLTUF1_2b s d = sql_select [[Some (replace_text '' '' '' X '' s)]] d"

definition set_exec_name :: "int \<Rightarrow> string \<Rightarrow> db \<Rightarrow> db" where
  "set_exec_name t nm d = d\<lparr>trade_tbl := update_where (\<lambda>r. t_id r = t) (\<lambda>r. r\<lparr>t_exec_name := nm\<rparr>) (trade_tbl d)\<rparr>"

definition SQLTUF1_3 :: "string \<Rightarrow> int \<Rightarrow> sql" where
  "SQLTUF1_3 nm t d =
     (if trades_with t d = [] then Ok (SPI_OK_UPDATE 0, d)
      else case varchar 49 nm of
        None \<Rightarrow> Fail Sql_Error
      | Some nm \<Rightarrow> Ok (SPI_OK_UPDATE (length (trades_with t d)), set_exec_name t nm d))"

definition SQLTUF1_4 :: "int \<Rightarrow> sql" where
  "SQLTUF1_4 t d = sql_select (map typed_trade_values (typed_trades t d)) d"

definition SQLTUF2_1 :: "int \<Rightarrow> int \<Rightarrow> int \<Rightarrow> int \<Rightarrow> sql" where
  "SQLTUF2_1 acct since till n d = sql_limit n (map account_trade_values (account_trades acct since till d)) d"

definition SQLTUF2_2 :: "int \<Rightarrow> sql" where
  "SQLTUF2_2 t d = sql_select (map (\<lambda>r. [Some (se_cash_type r)]) (settlements t d)) d"

definition set_cash_type :: "int \<Rightarrow> string \<Rightarrow> db \<Rightarrow> db" where
  "set_cash_type t ty d = d\<lparr>settlement_tbl := update_where (\<lambda>r. se_t_id r = t) (\<lambda>r. r\<lparr>se_cash_type := ty\<rparr>) (settlement_tbl d)\<rparr>"

definition SQLTUF2_3 :: "string \<Rightarrow> int \<Rightarrow> sql" where
  "SQLTUF2_3 ty t d =
     (if settlements t d = [] then Ok (SPI_OK_UPDATE 0, d)
      else case varchar 40 ty of
        None \<Rightarrow> Fail Sql_Error
      | Some ty \<Rightarrow> Ok (SPI_OK_UPDATE (length (settlements t d)), set_cash_type t ty d))"

type_synonym named_trade = "trade_row \<times> trade_type_row \<times> security_row"

definition named_trades :: "string \<Rightarrow> int \<Rightarrow> int \<Rightarrow> db \<Rightarrow> named_trade list" where
  "named_trades symb since till d = order_asc (\<lambda>(t, _, _). t_dts t)
     [(t, ty, s). t \<leftarrow> trade_tbl d, ty \<leftarrow> trade_type_tbl d, s \<leftarrow> security_tbl d,
        t_s_symb t = symb \<and> since \<le> t_dts t \<and> t_dts t \<le> till \<and> tt_id ty = t_tt_id t \<and> s_symb s = t_s_symb t]"

fun named_trade_values :: "pgapi \<Rightarrow> named_trade \<Rightarrow> spi_row" where
  "named_trade_values pg (t, ty, s) = [int_txt (t_ca_id t), Some (t_exec_name t), bool_txt (t_is_cash t),
     map_option (numeric_out 2) (t_trade_price t), int_txt (t_qty t), Some (s_name s), Some (timestamp_out pg (t_dts t)),
     int_txt (t_id t), Some (t_tt_id t), Some (tt_name ty)]"

definition SQLTUF3_1 :: "pgapi \<Rightarrow> string \<Rightarrow> int \<Rightarrow> int \<Rightarrow> int \<Rightarrow> sql" where
  "SQLTUF3_1 pg symb since till n d = sql_limit n (map (named_trade_values pg) (named_trades symb since till d)) d"

definition SQLTUF3_3 :: "int \<Rightarrow> sql" where
  "SQLTUF3_3 t d = sql_select (map (\<lambda>r. [ct_name r]) (cash_transactions t d)) d"

definition set_cash_name :: "int \<Rightarrow> string \<Rightarrow> db \<Rightarrow> db" where
  "set_cash_name t nm d =
     d\<lparr>cash_transaction_tbl := update_where (\<lambda>r. ct_t_id r = t) (\<lambda>r. r\<lparr>ct_name := Some nm\<rparr>) (cash_transaction_tbl d)\<rparr>"

definition SQLTUF3_4 :: "string \<Rightarrow> int \<Rightarrow> sql" where
  "SQLTUF3_4 nm t d =
     (if cash_transactions t d = [] then Ok (SPI_OK_UPDATE 0, d)
      else case varchar 100 nm of
        None \<Rightarrow> Fail Sql_Error
      | Some nm \<Rightarrow> Ok (SPI_OK_UPDATE (length (cash_transactions t d)), set_cash_name t nm d))"

definition tu_sql :: "pgapi \<Rightarrow> datum list \<Rightarrow> tu_stmt \<Rightarrow> sql" where
  "tu_sql pg as stmt =
     (case as of
        [DInt64 t] \<Rightarrow>
          if stmt = TUF1_1 then SQLTUF1_1 t
          else if stmt = TUF1_4 then SQLTUF1_4 t
          else if stmt = TUF2_2 then SQLTUF2_2 t
          else if stmt = TUF3_3 then SQLTUF3_3 t
          else if stmt \<in> {TUF1_5, TUF2_4, TUF3_2} then SQL_settlement pg t
          else if stmt \<in> {TUF1_6, TUF2_5, TUF3_5} then SQL_cash_transaction pg t
          else if stmt \<in> {TUF1_7, TUF2_6, TUF3_6} then SQL_trade_history pg t
          else (\<lambda>d. Fail Sql_Error)
      | [DText s] \<Rightarrow>
          if stmt = TUF1_2a then SQLTUF1_2a s else if stmt = TUF1_2b then SQLTUF1_2b s else (\<lambda>d. Fail Sql_Error)
      | [DText s, DInt64 t] \<Rightarrow>
          if stmt = TUF1_3 then SQLTUF1_3 s t
          else if stmt = TUF2_3 then SQLTUF2_3 s t
          else if stmt = TUF3_4 then SQLTUF3_4 s t
          else (\<lambda>d. Fail Sql_Error)
      | [DInt64 acct, DTimestamp since, DTimestamp till, DInt32 n] \<Rightarrow>
          if stmt = TUF2_1 then SQLTUF2_1 acct since till n else (\<lambda>d. Fail Sql_Error)
      | [DText symb, DTimestamp since, DTimestamp till, DInt32 n] \<Rightarrow>
          if stmt = TUF3_1 then SQLTUF3_1 pg symb since till n else (\<lambda>d. Fail Sql_Error)
      | _ \<Rightarrow> (\<lambda>d. Fail Sql_Error))"

definition tu_spi :: "pgapi \<Rightarrow> (tu_stmt, pgsession) spi" where
  "tu_spi pg stmt as read_only s = run_sql (tu_sql pg as stmt) read_only s"

interpretation tu: sql_provider "tu_spi pg" "tu_sql pg" for pg
  by unfold_locales (simp add: tu_spi_def)

section \<open>What the frames share\<close>

text \<open>The counters of the lookups and two more, which end up in columns of their own.\<close>

record tu_counters = counters +
  num_found :: nat
  num_updated :: nat

definition tu_counters0 :: tu_counters where
  "tu_counters0 = \<lparr>trades = 0, num_settlement = 0, num_cash_txn = 0, num_history = 0, num_found = 0, num_updated = 0\<rparr>"

text \<open>The first cash transaction of a trade; a trade settled in cash without one is a failure.\<close>

definition append_first_cash ::
    "(tu_stmt, 'd) spi \<Rightarrow> bool \<Rightarrow> tu_stmt \<Rightarrow> int \<Rightarrow> bool \<Rightarrow> nat \<Rightarrow> trade_col bufs \<Rightarrow> (tu_stmt, 'd) fctx \<Rightarrow>
     ((nat option \<times> trade_col bufs) \<times> (tu_stmt, 'd) fctx) outcome" where
  "append_first_cash spi read_only stmt trade is_cash n bufs f =
     (if is_cash then
        obind (query spi read_only stmt [DInt64 trade] f) (\<lambda>(r, f).
        case r of
          Some (row # rows) \<Rightarrow>
            obind (emit_rows TU_small (cash_cells False Plain) n [row] bufs f) (\<lambda>((n, bufs), f). Ok ((Some n, bufs), f))
        | _ \<Rightarrow> Ok ((None, bufs), FAIL_FRAME_SET stmt f))
      else obind (emits TU_small (cash_pad n) bufs f) (\<lambda>(bufs, f). Ok ((Some (Suc n), bufs), f)))"

text \<open>The rows of a history and the padding up to three, after the commas that separate trades.\<close>

definition three_rows :: "bool \<Rightarrow> spi_row list \<Rightarrow> trade_col bufs \<Rightarrow> (tu_stmt, 'd) fctx \<Rightarrow>
    (trade_col bufs \<times> (tu_stmt, 'd) fctx) outcome" where
  "three_rows qd rows bufs f =
     obind (emit_rows TU_small (history_cells qd False) 0 rows bufs f) (\<lambda>((j, bufs), f).
     emits TU_small (history_pad ''NULL'' j j) bufs f)"

section \<open>Frame 1: trades by their numbers\<close>

definition tuf1_order :: "trade_col list" where
  "tuf1_order = [i_bid_price, i_cash_transaction_amount, i_cash_transaction_dts, i_cash_transaction_name, i_exec_name,
     i_is_cash, i_is_market, i_num_found, i_num_updated, i_settlement_amount, i_settlement_cash_due_date,
     i_settlement_cash_type, i_trade_history_dts, i_trade_history_status_id, i_trade_price]"

text \<open>The buffers are sized for twenty trades, whatever \<open>max_trades\<close> is.\<close>

definition TUF1_bufs :: "(trade_col \<times> int) list" where
  "TUF1_bufs =
     [(i_bid_price, (int S_PRICE_T_LEN + 1) * 20 + 2),
      (i_cash_transaction_amount, (int VALUE_T_LEN + 1) * 20 + 2),
      (i_cash_transaction_dts, (int MAXDATELEN + 3) * 20 + 2),
      (i_cash_transaction_name, (int CT_NAME_LEN + 3) * 20 + 2),
      (i_exec_name, (int T_EXEC_NAME_LEN + 3) * 20 + 2),
      (i_is_cash, (int SMALLINT_LEN + 1) * 20 + 2),
      (i_is_market, (int SMALLINT_LEN + 1) * 20 + 3),
      (i_settlement_amount, (int VALUE_T_LEN + 1) * 20 + 2),
      (i_settlement_cash_due_date, (int MAXDATELEN + 1) * 20 + 2),
      (i_settlement_cash_type, (int SE_CASH_TYPE_LEN + 3) * 20 + 2),
      (i_trade_history_dts, (int MAXDATELEN + 2) * 60 + 62),
      (i_trade_history_status_id, int ST_ID_LEN * 60 + 62),
      (i_trade_price, (int S_PRICE_T_LEN + 1) * 20 + 2)]"

text \<open>
  The update of a trade: the name is read as it was when the call began, ' X ' goes in or out,
  and the new name is stored.  \<open>False\<close>: the round ends here.
\<close>

definition TUF1_update :: "(tu_stmt, 'd) spi \<Rightarrow> int \<Rightarrow> tu_counters \<Rightarrow> (tu_stmt, 'd) fctx \<Rightarrow>
    ((bool \<times> tu_counters) \<times> (tu_stmt, 'd) fctx) outcome" where
  "TUF1_update spi trade k f =
     obind (query spi True TUF1_1 [DInt64 trade] f) (\<lambda>(r, f).
     case r of
       Some (row # rows) \<Rightarrow>
         let k = k\<lparr>num_found := num_found k + length (row # rows)\<rparr> in
         obind (from_ptr (SPI_getvalue row 1)) (\<lambda>ex_name.
         let stmt = (if strstr ex_name '' X '' \<noteq> None then TUF1_2a else TUF1_2b) in
         obind (first_row spi stmt [DText ex_name] f) (\<lambda>(r, f).
         case r of
           None \<Rightarrow> Ok ((False, k), FAIL_FRAME_SET stmt f)
         | Some row \<Rightarrow>
             obind (from_ptr (SPI_getvalue row 1)) (\<lambda>ex_name.
             obind (SPI_execute_plan spi TUF1_3 [DText ex_name, DInt64 trade] False f) (\<lambda>(r, f).
             case r of
               SPI_OK_UPDATE n \<Rightarrow> Ok ((True, k\<lparr>num_updated := num_updated k + n\<rparr>), f)
             | _ \<Rightarrow> Ok ((False, k), FAIL_FRAME_SET TUF1_3 f)))))
     | _ \<Rightarrow> Ok ((False, k), f))"

definition TUF1_row :: "nat \<Rightarrow> spi_row \<Rightarrow> trade_col emit list outcome" where
  "TUF1_row n row =
     obind (from_ptr (SPI_getvalue row 1)) (\<lambda>bid_price.
     obind (from_ptr (SPI_getvalue row 2)) (\<lambda>exec_name.
     obind (from_ptr (SPI_getvalue row 3)) (\<lambda>is_cash_str.
     obind (from_ptr (SPI_getvalue row 4)) (\<lambda>is_market_str.
     Ok (seps n [i_bid_price, i_exec_name, i_is_cash, i_is_market, i_trade_price]
       @ [(i_bid_price, Plain, bid_price)]
       @ quote_as Plain i_exec_name exec_name
       @ [(i_is_cash, Plain, bit_text (is_t is_cash_str)), (i_is_market, Plain, bit_text (is_t is_market_str)),
          (i_trade_price, Plain, or_NULL (SPI_getvalue row 5))])))))"

definition TUF1_settlement :: "(tu_stmt, 'd) spi \<Rightarrow> int \<Rightarrow> nat \<Rightarrow> trade_col bufs \<Rightarrow> (tu_stmt, 'd) fctx \<Rightarrow>
    ((nat option \<times> trade_col bufs) \<times> (tu_stmt, 'd) fctx) outcome" where
  "TUF1_settlement spi trade = append_query TU_small spi True TUF1_5 [DInt64 trade] (settlement_cells False True)"

definition TUF1_cash :: "(tu_stmt, 'd) spi \<Rightarrow> int \<Rightarrow> bool \<Rightarrow> nat \<Rightarrow> trade_col bufs \<Rightarrow> (tu_stmt, 'd) fctx \<Rightarrow>
    ((nat option \<times> trade_col bufs) \<times> (tu_stmt, 'd) fctx) outcome" where
  "TUF1_cash spi trade = append_first_cash spi True TUF1_6 trade"

definition TUF1_history :: "(tu_stmt, 'd) spi \<Rightarrow> int \<Rightarrow> nat \<Rightarrow> trade_col bufs \<Rightarrow> (tu_stmt, 'd) fctx \<Rightarrow>
    ((nat option \<times> trade_col bufs) \<times> (tu_stmt, 'd) fctx) outcome" where
  "TUF1_history spi trade n bufs f =
     obind (query spi True TUF1_7 [DInt64 trade] f) (\<lambda>(r, f).
     case r of
       None \<Rightarrow> Ok ((None, bufs), FAIL_FRAME_SET TUF1_7 f)
     | Some rows \<Rightarrow>
         obind (emits TU_small (seps n history_cols) bufs f) (\<lambda>(bufs, f).
         obind (three_rows False rows bufs f) (\<lambda>(bufs, f).
         Ok ((Some (n + max 3 (length rows)), bufs), f))))"

text \<open>The trade is read with the update of this call, what belongs to it as it was before.\<close>

definition TUF1_report :: "(tu_stmt, 'd) spi \<Rightarrow> int \<Rightarrow> tu_counters \<Rightarrow> trade_col bufs \<Rightarrow> (tu_stmt, 'd) fctx \<Rightarrow>
    (((bool \<times> tu_counters) \<times> trade_col bufs) \<times> (tu_stmt, 'd) fctx) outcome" where
  "TUF1_report spi trade k bufs f =
     obind (query spi False TUF1_4 [DInt64 trade] f) (\<lambda>(r, f).
     case r of
       None \<Rightarrow> Ok (((True, k), bufs), FAIL_FRAME_SET TUF1_4 f)
     | Some rows \<Rightarrow>
         if rows = [] then Ok (((True, k), bufs), f)
         else
         obind (emit_rows TU_small TUF1_row (trades k) rows bufs f) (\<lambda>((n, bufs), f).
         let k = k\<lparr>trades := n\<rparr> in
         obind (from_ptr (SPI_getvalue (last rows) 3)) (\<lambda>is_cash_str.
         obind (TUF1_settlement spi trade (num_settlement k) bufs f)
           (\<lambda>((r, bufs), f). case r of None \<Rightarrow> Ok (((True, k), bufs), f) | Some n \<Rightarrow>
         let k = k\<lparr>num_settlement := n\<rparr> in
         obind (TUF1_cash spi trade (is_t is_cash_str) (num_cash_txn k) bufs f)
           (\<lambda>((r, bufs), f). case r of None \<Rightarrow> Ok (((True, k), bufs), f) | Some n \<Rightarrow>
         let k = k\<lparr>num_cash_txn := n\<rparr> in
         obind (TUF1_history spi trade (num_history k) bufs f)
           (\<lambda>((r, bufs), f). case r of None \<Rightarrow> Ok (((True, k), bufs), f) | Some n \<Rightarrow>
         Ok (((True, k\<lparr>num_history := n\<rparr>), bufs), f)))))))"

text \<open>One round of the loop.\<close>

definition TUF1_trade :: "(tu_stmt, 'd) spi \<Rightarrow> int \<Rightarrow> int \<Rightarrow> tu_counters \<Rightarrow> trade_col bufs \<Rightarrow> (tu_stmt, 'd) fctx \<Rightarrow>
    (((bool \<times> tu_counters) \<times> trade_col bufs) \<times> (tu_stmt, 'd) fctx) outcome" where
  "TUF1_trade spi max_updates trade k bufs f =
     obind (if int (num_updated k) < max_updates then TUF1_update spi trade k f else Ok ((True, k), f)) (\<lambda>((go, k), f).
     if go then TUF1_report spi trade k bufs f else Ok (((True, k), bufs), f))"

definition TUF1_closes :: "trade_col list" where
  "TUF1_closes = [i_bid_price, i_exec_name, i_is_cash, i_is_market, i_trade_price, i_settlement_amount,
     i_settlement_cash_due_date, i_settlement_cash_type, i_cash_transaction_amount, i_cash_transaction_dts,
     i_cash_transaction_name, i_trade_history_dts, i_trade_history_status_id]"

definition TradeUpdateFrame1 ::
    "(tu_stmt \<Rightarrow> bool) \<Rightarrow> (tu_stmt, 'd) spi \<Rightarrow> int \<Rightarrow> int \<Rightarrow> int list \<Rightarrow> (tu_stmt, 'd) fctx \<Rightarrow>
     (spi_row list \<times> (tu_stmt, 'd) fctx) outcome" where
  "TradeUpdateFrame1 prepare spi max_trades max_updates trade_id f =
     (let max_trades = min (int (length trade_id)) max_trades in
     obind (pallocs TUF1_bufs) (\<lambda>_.
     obind (plan_queries prepare TUF1_statements (f\<lparr>max_calls := 1\<rparr>)) (\<lambda>f.
     obind (open_bufs TUF1_bufs) (\<lambda>bufs.
     obind (for_each (TUF1_trade spi max_updates) (take (nat max_trades) trade_id) tu_counters0 bufs f) (\<lambda>((k, bufs), f).
     obind (emits TU_small (closes TUF1_closes) bufs f) (\<lambda>(bufs, f).
     let vals = (buf_slots TUF1_bufs bufs (\<lambda>_. Uninit))
       (i_num_found := Str (snprintf_d (INTEGER_LEN + 1) (int (num_found k))),
        i_num_updated := Str (snprintf_d (INTEGER_LEN + 1) (int (num_updated k)))) in
     srf_return (map vals tuf1_order) f))))))"

section \<open>The change of a name\<close>

definition toggled :: "string \<Rightarrow> string" where
  "toggled s = (if strstr s '' X '' \<noteq> None then replace_text '' X '' '' '' s else replace_text '' '' '' X '' s)"

lemma replace_text_Nil [simp]: "replace_text old new [] = []"
  by (simp add: replace_text.simps)

lemma spread_Cons:
  "replace_text '' '' '' X '' (c # s) = (if c = CHR '' '' then '' X '' else [c]) @ replace_text '' '' '' X '' s"
  by (simp add: replace_text.simps [of _ _ "c # s"])

lemma gather_space: "replace_text '' X '' '' '' ('' X '' @ s) = '' '' @ replace_text '' X '' '' '' s"
  by (simp add: replace_text.simps [of _ _ "CHR '' '' # _"] numeral_3_eq_3)

lemma gather_other: "c \<noteq> CHR '' '' \<Longrightarrow> replace_text '' X '' '' '' (c # s) = c # replace_text '' X '' '' '' s"
  by (simp add: replace_text.simps [of _ _ "c # s"])

text \<open>What the second statement does to a name the first undoes.\<close>

lemma gather_spread: "replace_text '' X '' '' '' (replace_text '' '' '' X '' s) = s"
proof (induction s)
  case (Cons c s)
  then show ?case using gather_space [of "replace_text '' '' '' X '' s"] by (simp add: spread_Cons gather_other)
qed simp

lemma strstr_Cons: "strstr (c # s) p = (if take (length p) (c # s) = p then Some 0 else map_option Suc (strstr s p))"
  by (simp add: strstr.simps [of "c # s"])

lemma spread_marked: "CHR '' '' \<in> set s \<Longrightarrow> strstr (replace_text '' '' '' X '' s) '' X '' \<noteq> None"
  by (induction s) (auto simp: spread_Cons strstr_Cons)

lemma spread_same: "CHR '' '' \<notin> set s \<Longrightarrow> replace_text '' '' '' X '' s = s"
  by (induction s) (auto simp: spread_Cons)

lemma toggled_back:
  assumes "strstr s '' X '' = None"
  shows "toggled (toggled s) = s"
proof (cases "CHR '' '' \<in> set s")
  case True
  then show ?thesis using assms spread_marked by (simp add: toggled_def gather_spread)
next
  case False
  then show ?thesis using assms by (simp add: toggled_def spread_same)
qed

section \<open>What frame 1 changes\<close>

definition trade_exists :: "int \<Rightarrow> db \<Rightarrow> bool" where
  "trade_exists t d \<longleftrightarrow> trades_with t d \<noteq> []"

definition exec_name_of :: "int \<Rightarrow> db \<Rightarrow> string" where
  "exec_name_of t d = t_exec_name (hd (trades_with t d))"

definition renamed_row :: "int set \<Rightarrow> trade_row \<Rightarrow> trade_row" where
  "renamed_row U t = (if t_id t \<in> U then t\<lparr>t_exec_name := toggled (t_exec_name t)\<rparr> else t)"

text \<open>The trades with the numbers in \<open>U\<close> have their executor's name changed.\<close>

definition renamed :: "int set \<Rightarrow> db \<Rightarrow> db" where
  "renamed U d = d\<lparr>trade_tbl := map (renamed_row U) (trade_tbl d)\<rparr>"

lemma renamed_row_simps [simp]:
  "t_id (renamed_row U t) = t_id t" "t_is_cash (renamed_row U t) = t_is_cash t" "t_tt_id (renamed_row U t) = t_tt_id t"
  "t_bid_price (renamed_row U t) = t_bid_price t" "t_trade_price (renamed_row U t) = t_trade_price t"
  by (simp_all add: renamed_row_def)

lemma renamed_none: "renamed {} d = d"
  by (simp add: renamed_def renamed_row_def map_idI)

lemma trades_with_renamed: "trades_with i (renamed U d) = map (renamed_row U) (trades_with i d)"
  by (simp add: trades_with_def renamed_def filter_map comp_def)

lemma typed_trades_renamed: "typed_trades i (renamed U d) = map (apfst (renamed_row U)) (typed_trades i d)"
  by (simp add: typed_trades_def renamed_def map_concat comp_def if_distrib cong: if_cong)

lemma trades_with_keyed:
  assumes "distinct (map t_id (trade_tbl d))" "r \<in> set (trade_tbl d)"
  shows "trades_with (t_id r) d = [r]"
  using assms keyed_filter_single [of t_id "trade_tbl d" r] by (simp add: trades_with_def)

lemma touch_renamed:
  assumes "distinct (map t_id (trade_tbl d))"
  shows "set_exec_name t (toggled (exec_name_of t d)) (renamed U d) = renamed (insert t U) d"
proof -
  have "(if t_id r = t then (renamed_row U r)\<lparr>t_exec_name := toggled (exec_name_of t d)\<rparr> else renamed_row U r) = renamed_row (insert t U) r"
    if "r \<in> set (trade_tbl d)" for r
    using trades_with_keyed [OF assms that] by (auto simp: exec_name_of_def renamed_row_def)
  then show ?thesis by (simp add: set_exec_name_def renamed_def update_where_def comp_def)
qed

section \<open>What frame 1 writes\<close>

definition tuf1_upd :: "int \<Rightarrow> int \<Rightarrow> tu_counters \<Rightarrow> pgsession \<Rightarrow> pgsession" where
  "tuf1_upd = limited_upd (\<lambda>i. i) trade_exists (\<lambda>t d. set_exec_name t (toggled (exec_name_of t d))) num_updated"

definition tuf1_row_es :: "nat \<Rightarrow> typed_trade \<Rightarrow> trade_col emit list" where
  "tuf1_row_es n x = (case x of (t, ty) \<Rightarrow>
     seps n tlf1_trade_cols
     @ [(i_bid_price, Plain, numeric_out 2 (t_bid_price t))] @ quote_as Plain i_exec_name (t_exec_name t)
     @ [(i_is_cash, Plain, bit_text (t_is_cash t)), (i_is_market, Plain, bit_text (tt_is_mrkt ty)),
        (i_trade_price, Plain, or_NULL (map_option (numeric_out 2) (t_trade_price t)))])"

definition tuf1_es :: "pgapi \<Rightarrow> int \<Rightarrow> tu_counters \<Rightarrow> pgsession \<Rightarrow> trade_col emit list" where
  "tuf1_es pg i k s =
     (let xs = typed_trades i (current s); d = snapshot s in
      if xs = [] then []
      else rows_emits tuf1_row_es (trades k) xs
        @ rows_emits (settlement_es pg False True) (num_settlement k) (settlements i d)
        @ cash_part pg False Plain (last_is_cash xs) (num_cash_txn k) i d
        @ seps (num_history k) history_cols @ rows_emits (history_es pg False False) 0 (histories i d)
        @ history_pad ''NULL'' (length (histories i d)) (length (histories i d)))"

text \<open>A query executed with \<open>read_only = false\<close>.\<close>

context sql_provider begin

lemma query_now:
  assumes "stmt \<in> set ss" "\<And>d. sql as stmt d = Ok (SPI_OK_SELECT (rows d), d)"
  shows "set ss \<subseteq> set (plans f) \<Longrightarrow> session f = s \<Longrightarrow>
    query spi False stmt as f = Ok (Some (rows (current s)), f\<lparr>session := s\<rparr>)"
proof -
  assume f: "set ss \<subseteq> set (plans f)" "session f = s"
  have "SPI_execute_plan spi stmt as False f = Ok (SPI_OK_SELECT (rows (db_of f)), set_db (db_of f) f)"
    using assms(1) f(1) by (intro exec_write [OF _ assms(2)]) blast
  moreover have "current s = db_of f" "f\<lparr>session := s\<rparr> = f" using f(2) by (auto simp: db_of_def)
  ultimately show ?thesis by (simp add: query_def)
qed

end

lemma tuf1_planned: "TUF1_1 \<in> set TUF1_statements" "TUF1_2a \<in> set TUF1_statements" "TUF1_2b \<in> set TUF1_statements"
  "TUF1_3 \<in> set TUF1_statements" "TUF1_4 \<in> set TUF1_statements" "TUF1_5 \<in> set TUF1_statements"
  "TUF1_6 \<in> set TUF1_statements" "TUF1_7 \<in> set TUF1_statements"
  by (simp_all add: TUF1_statements_def)

lemma tuf1_sql:
  "tu_sql pg [DInt64 i] TUF1_1 d = Ok (SPI_OK_SELECT (map (\<lambda>r. [Some (t_exec_name r)]) (trades_with i d)), d)"
  "tu_sql pg [DInt64 i] TUF1_4 d = Ok (SPI_OK_SELECT (map typed_trade_values (typed_trades i d)), d)"
  "tu_sql pg [DInt64 i] TUF1_5 d = Ok (SPI_OK_SELECT (map (settlement_values pg) (settlements i d)), d)"
  "tu_sql pg [DInt64 i] TUF1_6 d = Ok (SPI_OK_SELECT (map (cash_values pg) (cash_transactions i d)), d)"
  "tu_sql pg [DInt64 i] TUF1_7 d = Ok (SPI_OK_SELECT (map (history_values pg) (histories i d)), d)"
  "tu_sql pg [DText s] (if strstr s '' X '' \<noteq> None then TUF1_2a else TUF1_2b) d = Ok (SPI_OK_SELECT [[Some (toggled s)]], d)"
  by (simp_all add: tu_sql_def SQLTUF1_1_def SQLTUF1_4_def SQL_settlement_def SQL_cash_transaction_def SQL_trade_history_def
      SQLTUF1_2a_def SQLTUF1_2b_def toggled_def)

text \<open>Appending the first cash transaction and three rows of history, for any of the frames.\<close>

lemma writes_first_cash:
  assumes "\<And>f. set ss \<subseteq> set (plans f) \<Longrightarrow> session f = s \<Longrightarrow>
      query spi ro stmt [DInt64 i] f = Ok (Some (map (cash_values pg) (cash_transactions t d)), f)"
    and "named_cash t d" "is_cash \<Longrightarrow> length (cash_transactions t d) = 1"
  shows "writes TU_small ss s (append_first_cash spi ro stmt i is_cash n) (cash_part pg False Plain is_cash n t d)
    (Some (n + cash_count is_cash t d)) s"
proof (cases is_cash)
  case True
  then obtain r where r: "cash_transactions t d = [r]" using assms(3) by (auto simp: length_Suc_conv)
  then have "cash_cells False Plain n (cash_values pg r) = Ok (cash_es pg False Plain n r)"
    using assms(2) by (intro cash_cells_values) (simp add: named_cash_def)
  with True r show ?thesis
    by (auto simp: writes_def append_first_cash_def assms(1) cash_part_def cash_count_def obind_assoc case_prod_unfold)
next
  case False
  then show ?thesis using writes_emits by (simp add: append_first_cash_def [abs_def] cash_part_def cash_count_def)
qed

lemma three_rows_histories:
  "three_rows qd (map (history_values pg) hs) bufs f =
     emits TU_small (rows_emits (history_es pg qd False) 0 hs @ history_pad ''NULL'' (length hs) (length hs)) bufs f"
proof -
  have "emit_rows TU_small (history_cells qd False) 0 (map (history_values pg) hs) bufs f =
      obind (emits TU_small (rows_emits (history_es pg qd False) 0 hs) bufs f) (\<lambda>(bufs, f). Ok ((0 + length hs, bufs), f))"
    by (rule emit_rows_emits) (rule history_cells_values)
  then show ?thesis by (simp add: three_rows_def emits_append obind_assoc case_prod_unfold)
qed

text \<open>A trade that frame 1 can process, as the call finds it.\<close>

definition tuf1_ready :: "int \<Rightarrow> db \<Rightarrow> bool" where
  "tuf1_ready i d \<longleftrightarrow> trades_keyed d \<and> named_cash i d
     \<and> (\<forall>r \<in> set (trades_with i d). length (toggled (t_exec_name r)) \<le> 49 \<and> (t_is_cash r \<longrightarrow> cash_transactions i d \<noteq> []))"

definition tuf1_ok :: "int \<Rightarrow> pgsession \<Rightarrow> bool" where
  "tuf1_ok i s \<longleftrightarrow> (\<exists>U. current s = renamed U (snapshot s)) \<and> tuf1_ready i (snapshot s)"

lemma tuf1_update:
  assumes "tuf1_ok i s" "trade_exists i (snapshot s)" "int (num_updated k) < mu"
    and "set TUF1_statements \<subseteq> set (plans f)" "session f = s"
  shows "TUF1_update (tu_spi pg) i k f =
    Ok ((True, k\<lparr>num_found := Suc (num_found k), num_updated := Suc (num_updated k)\<rparr>), f\<lparr>session := tuf1_upd mu i k s\<rparr>)"
proof -
  let ?d = "snapshot s" and ?nm = "exec_name_of i (snapshot s)"
  obtain U where U: "current s = renamed U ?d" and rd: "tuf1_ready i ?d" using assms(1) by (auto simp: tuf1_ok_def)
  then have keyed: "distinct (map t_id (trade_tbl ?d))" by (simp add: tuf1_ready_def trades_keyed_def)
  obtain r where "r \<in> set (trade_tbl ?d)" "t_id r = i" using assms(2) by (auto simp: trade_exists_def trades_with_def filter_empty_conv)
  then have r: "trades_with i ?d = [r]" using trades_with_keyed [OF keyed] by blast
  then have nm: "?nm = t_exec_name r" by (simp add: exec_name_of_def)
  have "trades_with i (current s) = [renamed_row U r]" using r by (simp add: U trades_with_renamed)
  then have upd: "tu_sql pg [DText (toggled ?nm), DInt64 i] TUF1_3 (current s) =
      Ok (SPI_OK_UPDATE 1, set_exec_name i (toggled ?nm) (current s))"
    using rd r by (simp add: tu_sql_def SQLTUF1_3_def nm tuf1_ready_def)
  have pl: "stmt \<in> set (plans f)" if "stmt \<in> set TUF1_statements" for stmt using that assms(4) by blast
  let ?stmt = "if strstr ?nm '' X '' \<noteq> None then TUF1_2a else TUF1_2b"
  have q1: "query (tu_spi pg) True TUF1_1 [DInt64 i] f = Ok (Some [[Some ?nm]], f)"
    using tu.query_read [OF tuf1_planned(1) tuf1_sql(1) assms(4,5)] assms(5) by (auto simp: r nm)
  have q2: "first_row (tu_spi pg) ?stmt [DText ?nm] f = Ok (Some [Some (toggled ?nm)], f)"
    using tu.first_row_eq [OF pl tuf1_sql(6)] tuf1_planned(2,3) by simp
  have q3: "SPI_execute_plan (tu_spi pg) TUF1_3 [DText (toggled ?nm), DInt64 i] False f =
      Ok (SPI_OK_UPDATE 1, set_db (set_exec_name i (toggled ?nm) (current s)) f)"
    by (rule tu.exec_write [OF pl [OF tuf1_planned(4)]]) (use upd assms(5) in \<open>simp add: db_of_def\<close>)
  have "tuf1_upd mu i k s = s\<lparr>current := set_exec_name i (toggled ?nm) (current s)\<rparr>"
    using assms(2,3) by (simp add: tuf1_upd_def limited_upd_def)
  then show ?thesis
    using assms(5) q2
    by (cases "strstr ?nm '' X '' = None") (simp_all add: TUF1_update_def q1 q3 Let_def set_db_def del: SPI_execute_plan_planned)
qed

lemma TUF1_row_values: "TUF1_row n (typed_trade_values x) = Ok (tuf1_row_es n x)"
proof -
  obtain t ty where x: "x = (t, ty)" by fastforce
  show ?thesis by (simp add: x TUF1_row_def tuf1_row_es_def is_t_def)
qed

definition tuf1_shown :: "int \<Rightarrow> tu_counters \<Rightarrow> pgsession \<Rightarrow> tu_counters" where
  "tuf1_shown i k s =
     (let xs = typed_trades i (current s); d = snapshot s in
      if xs = [] then k
      else k\<lparr>trades := trades k + length xs, num_settlement := num_settlement k + length (settlements i d),
        num_cash_txn := num_cash_txn k + cash_count (last_is_cash xs) i d, num_history := num_history k + 3\<rparr>)"

definition tuf1_nxt :: "int \<Rightarrow> int \<Rightarrow> tu_counters \<Rightarrow> pgsession \<Rightarrow> tu_counters" where
  "tuf1_nxt mu i k s = tuf1_shown i
     (if int (num_updated k) < mu \<and> trade_exists i (snapshot s)
      then k\<lparr>num_found := Suc (num_found k), num_updated := Suc (num_updated k)\<rparr> else k) (tuf1_upd mu i k s)"

lemma tuf1_history_writes:
  "writes TU_small TUF1_statements s (TUF1_history (tu_spi pg) i n)
     (seps n history_cols @ rows_emits (history_es pg False False) 0 (histories i (snapshot s))
        @ history_pad ''NULL'' (length (histories i (snapshot s))) (length (histories i (snapshot s)))) (Some (n + 3)) s"
  unfolding writes_def TUF1_history_def
  by (auto simp: tu.query_read [OF tuf1_planned(8) tuf1_sql(5) _ refl] three_rows_histories emits_append obind_assoc
      case_prod_unfold max_absorb1)

lemma tuf1_last_cash:
  assumes "tuf1_ok i s" "typed_trades i (current s) \<noteq> []" "last_is_cash (typed_trades i (current s))"
  shows "length (cash_transactions i (snapshot s)) = 1"
proof -
  obtain U where U: "current s = renamed U (snapshot s)" and rd: "tuf1_ready i (snapshot s)" using assms(1) by (auto simp: tuf1_ok_def)
  let ?xs = "typed_trades i (snapshot s)"
  have "?xs \<noteq> []" using assms(2) by (simp add: U typed_trades_renamed)
  then have "last ?xs \<in> set ?xs" by simp
  then have "fst (last ?xs) \<in> set (trades_with i (snapshot s))"
    by (auto simp: typed_trades_def trades_with_def split: if_splits)
  moreover have "t_is_cash (fst (last ?xs))"
    using assms(3) \<open>?xs \<noteq> []\<close> by (simp add: U typed_trades_renamed last_is_cash_def last_map)
  ultimately have "cash_transactions i (snapshot s) \<noteq> []" using rd by (auto simp: tuf1_ready_def)
  moreover have "length (cash_transactions i (snapshot s)) \<le> 1"
    using rd by (intro cash_transactions_le) (simp add: tuf1_ready_def)
  ultimately show ?thesis by (cases "cash_transactions i (snapshot s)") simp_all
qed

lemma tuf1_report:
  assumes "tuf1_ok i s"
  shows "writes TU_small TUF1_statements s (TUF1_report (tu_spi pg) i k) (tuf1_es pg i k s) (True, tuf1_shown i k s) s"
proof (cases "typed_trades i (current s) = []")
  case True
  then show ?thesis
    by (auto simp: writes_def TUF1_report_def tu.query_now [OF tuf1_planned(5) tuf1_sql(2) _ refl] tuf1_es_def tuf1_shown_def)
next
  case False
  let ?xs = "typed_trades i (current s)"
  have main: "writes TU_small TUF1_statements s (emit_rows TU_small TUF1_row (trades k) (map typed_trade_values ?xs))
      (rows_emits tuf1_row_es (trades k) ?xs) (trades k + length ?xs) s"
    by (rule writes_rows) (rule TUF1_row_values)
  have settled: "writes TU_small TUF1_statements s (TUF1_settlement (tu_spi pg) i n)
      (rows_emits (settlement_es pg False True) n (settlements i (snapshot s))) (Some (n + length (settlements i (snapshot s)))) s" for n
    unfolding TUF1_settlement_def by (rule tu.writes_read [OF tuf1_planned(6) tuf1_sql(3)]) (rule settlement_cells_values)
  have cash: "writes TU_small TUF1_statements s (TUF1_cash (tu_spi pg) i (last_is_cash ?xs) n)
      (cash_part pg False Plain (last_is_cash ?xs) n i (snapshot s)) (Some (n + cash_count (last_is_cash ?xs) i (snapshot s))) s" for n
    unfolding TUF1_cash_def by (rule writes_first_cash)
      (use tu.query_read [OF tuf1_planned(7) tuf1_sql(4)] assms tuf1_last_cash [OF assms False] in \<open>auto simp: tuf1_ok_def tuf1_ready_def\<close>)
  show ?thesis
    unfolding TUF1_report_def [abs_def]
    apply (rule writes_call [where x = "Some (map typed_trade_values ?xs)"])
     apply (rule tu.query_now [OF tuf1_planned(5) tuf1_sql(2)], assumption, assumption)
    apply (simp add: False tlf1_last Let_def tuf1_es_def tuf1_shown_def split del: if_split)
    apply (rule writes_bind [OF main])
    apply (rule writes_bind [OF settled], simp add: Let_def split del: if_split)
    apply (rule writes_bind [OF cash], simp add: Let_def split del: if_split)
    by (rule writes_map [OF tuf1_history_writes]) (simp split del: if_split)
qed

lemma tuf1_upd_same: "\<not> (int (num_updated k) < mu \<and> trade_exists i (snapshot s)) \<Longrightarrow> tuf1_upd mu i k s = s"
  by (auto simp: tuf1_upd_def limited_upd_def)

lemma tuf1_upd_ok:
  assumes "tuf1_ok i s" "tuf1_ok j s"
  shows "tuf1_ok i (tuf1_upd mu j k s)"
proof (cases "int (num_updated k) < mu \<and> trade_exists j (snapshot s)")
  case True
  obtain U where U: "current s = renamed U (snapshot s)" using assms(1) by (auto simp: tuf1_ok_def)
  have "distinct (map t_id (trade_tbl (snapshot s)))" using assms(1) by (simp add: tuf1_ok_def tuf1_ready_def trades_keyed_def)
  then have "tuf1_upd mu j k s = s\<lparr>current := renamed (insert j U) (snapshot s)\<rparr>"
    using True by (simp add: tuf1_upd_def limited_upd_def U touch_renamed)
  then show ?thesis using assms(1) by (auto simp: tuf1_ok_def)
qed (use assms in \<open>simp add: tuf1_upd_same\<close>)

lemma snapshot_tuf1_upd [simp]: "snapshot (tuf1_upd mu i k s) = snapshot s"
  by (simp add: tuf1_upd_def limited_upd_def)

lemma tuf1_shown_counters [simp]:
  "tuf1_es pg i (k\<lparr>num_found := m, num_updated := n\<rparr>) s = tuf1_es pg i k s"
  by (simp add: tuf1_es_def Let_def)

lemma tuf1_body:
  assumes "tuf1_ok i s"
  shows "writes TU_small TUF1_statements s (TUF1_trade (tu_spi pg) mu i k) (tuf1_es pg i k (tuf1_upd mu i k s))
    (True, tuf1_nxt mu i k s) (tuf1_upd mu i k s)"
proof -
  let ?s = "tuf1_upd mu i k s"
  consider (update) "int (num_updated k) < mu" "trade_exists i (snapshot s)"
    | (missing) "int (num_updated k) < mu" "\<not> trade_exists i (snapshot s)" | (enough) "\<not> int (num_updated k) < mu" by blast
  then show ?thesis
  proof cases
    case update
    let ?k = "k\<lparr>num_found := Suc (num_found k), num_updated := Suc (num_updated k)\<rparr>"
    have "writes TU_small TUF1_statements ?s (TUF1_report (tu_spi pg) i ?k) (tuf1_es pg i k ?s) (True, tuf1_nxt mu i k s) ?s"
      using tuf1_report [OF tuf1_upd_ok [OF assms assms], where mu1 = mu and k1 = k and k = ?k and pg = pg] update by (simp add: tuf1_nxt_def)
    then show ?thesis
      unfolding TUF1_trade_def [abs_def]
      by (intro writes_call [where x = "(True, ?k)" and d' = ?s]) (use tuf1_update [OF assms update(2,1)] update(1) in simp_all)
  next
    case missing
    obtain U where U: "current s = renamed U (snapshot s)" using assms by (auto simp: tuf1_ok_def)
    have "trades_with i (snapshot s) = []" using missing(2) by (simp add: trade_exists_def)
    then have "typed_trades i (snapshot s) = []" by (auto simp: typed_trades_def trades_with_def filter_empty_conv)
    then have none: "typed_trades i (current s) = []" by (simp add: U typed_trades_renamed)
    have "query (tu_spi pg) True TUF1_1 [DInt64 i] f = Ok (Some [], f)" if "set TUF1_statements \<subseteq> set (plans f)" "session f = s" for f
      using tu.query_read [OF tuf1_planned(1) tuf1_sql(1) that] that \<open>trades_with i (snapshot s) = []\<close> by auto
    then show ?thesis
      using missing by (auto simp: writes_def TUF1_trade_def TUF1_update_def tuf1_upd_same tuf1_es_def tuf1_nxt_def tuf1_shown_def none)
  next
    case enough
    then show ?thesis
      using tuf1_report [OF assms] by (simp add: TUF1_trade_def [abs_def] tuf1_upd_same tuf1_nxt_def)
  qed
qed

subsection \<open>Column by column\<close>

definition tuf1_els :: "pgapi \<Rightarrow> trade_col \<Rightarrow> int \<Rightarrow> db \<Rightarrow> db \<Rightarrow> string list" where
  "tuf1_els pg c i d cur =
     (let xs = typed_trades i cur in
      if xs = [] then []
      else if c \<in> set settlement_cols then settlement_els pg False True c i d
      else if c \<in> set cash_cols then cash_els pg False (last_is_cash xs) c i d
      else if c \<in> set history_cols then history_els pg False False ''NULL'' c i d
      else map (tlf1_el c) xs)"

lemma out_tuf1_rows:
  "out c (rows_emits tuf1_row_es n xs) = (if c \<in> set tlf1_trade_cols then joined (n = 0) (map (tlf1_el c) xs) else [])"
proof (cases "c \<in> set tlf1_trade_cols")
  case True
  then have "out c (tuf1_row_es n x) = (if n = 0 then [] else '','') @ tlf1_el c x" for n x
    by (auto simp: tuf1_row_es_def tlf1_el_def split: prod.split)
  with True out_rows_emits [of xs c tuf1_row_es "tlf1_el c"] show ?thesis by simp
next
  case False
  then have "out c (tuf1_row_es n x) = []" for n x by (auto simp: tuf1_row_es_def split: prod.split)
  with False out_rows_emits_none [of xs c tuf1_row_es] show ?thesis by simp
qed

text \<open>Three elements of a history after the commas that separate trades.\<close>

lemma out_three:
  "(if 0 < (n :: nat) then '','' else []) @ joined True (map (history_el pg qd qs c) (histories i d))
      @ joined (histories i d = []) (replicate (3 - length (histories i d)) (history_pad_el status c)) =
   joined (n = 0) (history_els pg qd qs status c i d)"
  using joined_False_nonempty [OF history_els_nonempty [of pg qd qs status c i d]]
  by (cases "n = 0") (simp_all add: history_els_def joined_append)

lemma out_tuf1:
  assumes "c \<in> set TUF1_closes"
  shows "out c (tuf1_es pg i k s) = joined (counter c k = 0) (tuf1_els pg c i (snapshot s) (current s))"
  using assms out_three
  by (auto simp: tuf1_es_def tuf1_els_def Let_def TUF1_closes_def out_tuf1_rows out_settlement_rows out_cash_part
      out_history_rows out_history_pad counter_def settlement_els_def)

lemma tuf1_counter:
  assumes "c \<in> set TUF1_closes"
  shows "counter c (tuf1_shown i k s) = 0 \<longleftrightarrow> counter c k = 0 \<and> tuf1_els pg c i (snapshot s) (current s) = []"
  using assms
  by (auto simp: tuf1_shown_def tuf1_els_def Let_def TUF1_closes_def counter_def settlement_els_def cash_els_Nil split: if_splits)

subsection \<open>All rounds\<close>

lemma num_updated_tuf1_nxt:
  "num_updated (tuf1_nxt mu i k s) = num_updated k + (if int (num_updated k) < mu \<and> trade_exists i (snapshot s) then 1 else 0)"
  by (simp add: tuf1_nxt_def tuf1_shown_def Let_def)

lemma num_found_tuf1_nxt:
  "num_found (tuf1_nxt mu i k s) = num_found k + (if int (num_updated k) < mu \<and> trade_exists i (snapshot s) then 1 else 0)"
  by (simp add: tuf1_nxt_def tuf1_shown_def Let_def)

text \<open>Found is counted together with updated, and only as long as there is something to update.\<close>

lemma tuf1_found_updated:
  "num_found k = num_updated k \<Longrightarrow> num_found (loop_state (tuf1_nxt mu) upd is k s) = num_updated (loop_state (tuf1_nxt mu) upd is k s)"
  by (induction "is" arbitrary: k s) (simp_all add: num_updated_tuf1_nxt num_found_tuf1_nxt)

lemma tuf1_els_renamed:
  assumes "i \<in> U \<longleftrightarrow> i \<in> V"
  shows "tuf1_els pg c i d (renamed U d) = tuf1_els pg c i d (renamed V d)"
proof -
  have "t_id (fst x) = i" if "x \<in> set (typed_trades i d)" for x using that by (auto simp: typed_trades_def split: if_splits)
  then have "typed_trades i (renamed U d) = typed_trades i (renamed V d)"
    using assms unfolding typed_trades_renamed by (auto simp: renamed_row_def)
  then show ?thesis by (simp add: tuf1_els_def)
qed

interpretation tuf1u: limited_updates "\<lambda>i. i" trade_exists "\<lambda>t d. set_exec_name t (toggled (exec_name_of t d))" renamed
  "\<lambda>d. distinct (map t_id (trade_tbl d))" num_updated "tuf1_nxt mu" mu "tuf1_els pg" for pg mu
  by unfold_locales (simp add: touch_renamed, rule renamed_none, rule num_updated_tuf1_nxt, erule tuf1_els_renamed)

definition tuf1_width :: "trade_col \<Rightarrow> nat" where
  "tuf1_width c =
     (case c of
        i_bid_price \<Rightarrow> 14 | i_exec_name \<Rightarrow> 51 | i_is_cash \<Rightarrow> 1 | i_is_market \<Rightarrow> 1 | i_trade_price \<Rightarrow> 14
      | i_settlement_amount \<Rightarrow> 12 | i_settlement_cash_due_date \<Rightarrow> 60 | i_settlement_cash_type \<Rightarrow> 42
      | i_cash_transaction_amount \<Rightarrow> 12 | i_cash_transaction_dts \<Rightarrow> 62 | i_cash_transaction_name \<Rightarrow> 102
      | i_trade_history_dts \<Rightarrow> 60 | _ \<Rightarrow> 4)"

definition tuf1_good :: "pgapi \<Rightarrow> int \<Rightarrow> pgsession \<Rightarrow> bool" where
  "tuf1_good pg i s \<longleftrightarrow> tuf1_ok i s \<and> trades_sized pg (snapshot s)"

lemma tuf1_els_width:
  assumes "tuf1_good pg i s" "c \<in> set TUF1_closes" "x \<in> set (tuf1_els pg c i (snapshot s) (current s))"
  shows "length x \<le> tuf1_width c"
proof -
  let ?d = "snapshot s"
  obtain U where U: "current s = renamed U ?d" and rd: "tuf1_ready i ?d" and sz: "trades_sized pg ?d"
    using assms(1) by (auto simp: tuf1_good_def tuf1_ok_def)
  have d: "details_sized pg ?d" "\<forall>r \<in> set (cash_transaction_tbl ?d). length (numeric_out 2 (ct_amt r)) \<le> 12"
    using sz by (simp_all add: trades_sized_def)
  have t: "length (tlf1_el c y) \<le> tuf1_width c" if y: "y \<in> set (typed_trades i (current s))" for y
  proof -
    obtain t ty where yt: "y = (renamed_row U t, ty)" "(t, ty) \<in> set (typed_trades i ?d)" using y by (auto simp: U typed_trades_renamed)
    then have "t \<in> set (trade_tbl ?d)" "t \<in> set (trades_with i ?d)" by (auto simp: typed_trades_def trades_with_def split: if_splits)
    then have "length (t_exec_name (renamed_row U t)) \<le> 49" "length (numeric_out 2 (t_bid_price t)) \<le> 14"
      "length (or_NULL (map_option (numeric_out 2) (t_trade_price t))) \<le> 14"
      using rd sz by (auto simp: tuf1_ready_def trades_sized_def renamed_row_def)
    then show ?thesis using assms(2)
      by (auto simp: yt(1) tlf1_el_def tuf1_width_def TUF1_closes_def quoted_def bit_text_def)
  qed
  consider "c \<in> set settlement_cols" "x \<in> set (settlement_els pg False True c i ?d)"
    | "c \<in> set cash_cols" "x \<in> set (cash_els pg False (last_is_cash (typed_trades i (current s))) c i ?d)"
    | "c \<in> set history_cols" "x \<in> set (history_els pg False False ''NULL'' c i ?d)"
    | y where "y \<in> set (typed_trades i (current s))" "x = tlf1_el c y"
    using assms(3) by (auto simp: tuf1_els_def Let_def split: if_splits)
  then show ?thesis
  proof cases
    case 1
    with settlement_els_width [OF d(1) 1(2)] show ?thesis by (auto simp: tuf1_width_def)
  next
    case 2
    with cash_els_width [OF d _ 2(2)] show ?thesis by (auto simp: tuf1_width_def)
  next
    case 3
    with history_els_width [OF d(1) _ 3(2)] show ?thesis by (auto simp: tuf1_width_def)
  next
    case 4
    with t show ?thesis by blast
  qed
qed

lemma tuf1_els_le:
  assumes "tuf1_ok i s"
  shows "length (tuf1_els pg c i (snapshot s) (current s)) \<le> (if c \<in> set history_cols then 3 else 1)"
proof -
  obtain U where U: "current s = renamed U (snapshot s)" and k: "trades_keyed (snapshot s)"
    using assms by (auto simp: tuf1_ok_def tuf1_ready_def)
  show ?thesis
    using settlement_els_le [OF k] cash_els_le [OF k] typed_trades_le [OF k, of i]
    by (auto simp: tuf1_els_def Let_def U typed_trades_renamed)
qed

lemma tuf1_emits_in: "\<forall>e \<in> set (tuf1_es pg i k s). late_in TUF1_closes e"
proof -
  have "\<forall>e \<in> set (rows_emits tuf1_row_es n xs). late_in TUF1_closes e" for n xs
    by (rule rows_emits_all) (auto simp: late_in_def tuf1_row_es_def TUF1_closes_def seps_def quote_as_def split: if_splits prod.splits)
  moreover have "set settlement_cols \<subseteq> set TUF1_closes" "set cash_cols \<subseteq> set TUF1_closes" "set history_cols \<subseteq> set TUF1_closes"
    by (auto simp: TUF1_closes_def)
  note late_in_mono [OF details_in(1) this(1)] late_in_mono [OF parts_in(2) this(2), of Plain] late_in_mono [OF details_in(2) this(3)]
    late_in_mono [OF details_in(5) this(3)] late_in_mono [OF details_in(6) this(3)]
  ultimately show ?thesis by (simp add: tuf1_es_def Let_def ball_Un)
qed

lemma extras_tuf1 [simp]: "extras c (tuf1_es pg i k s) = 0"
proof -
  have "extras c (rows_emits tuf1_row_es n xs) = 0 * length xs" for n xs
    by (rule extras_rows_emits) (simp add: tuf1_row_es_def split: prod.split)
  then show ?thesis by (simp add: tuf1_es_def Let_def)
qed

subsection \<open>The frame\<close>

interpretation tuf1: array_loop TU_small "TUF1_trade (tu_spi pg) mu" "\<lambda>i k s. tuf1_es pg i k (tuf1_upd mu i k s)" "tuf1_nxt mu"
  "tuf1_upd mu" tuf1_ok TUF1_statements TUF1_closes tu_counters0 counter
  "\<lambda>c i k s. tuf1_els pg c i (snapshot s) (current (tuf1_upd mu i k s))" "tuf1_good pg"
  "\<lambda>c. if c \<in> set history_cols then 3 else 1" tuf1_width "\<lambda>_. 0" "\<lambda>_. 1"
  for pg mu
proof
  fix c i s x and k :: tu_counters
  have cnt: "counter c (if b then k\<lparr>num_found := m, num_updated := n\<rparr> else k) = counter c k" for b m n
    by (simp add: counter_def)
  show "\<forall>(c, md, x) \<in> set (tuf1_es pg i k (tuf1_upd mu i k s)). c \<in> set TUF1_closes \<and> room md x \<le> 1"
    using tuf1_emits_in [of pg i k "tuf1_upd mu i k s"] by (fastforce simp: late_in_def room_def)
  show "c \<in> set TUF1_closes \<Longrightarrow> counter c (tuf1_nxt mu i k s) = 0 \<longleftrightarrow>
      counter c k = 0 \<and> tuf1_els pg c i (snapshot s) (current (tuf1_upd mu i k s)) = []"
    by (simp only: tuf1_nxt_def tuf1_counter [where pg = pg] cnt snapshot_tuf1_upd)
  show "c \<in> set TUF1_closes \<Longrightarrow> out c (tuf1_es pg i k (tuf1_upd mu i k s)) =
      joined (counter c k = 0) (tuf1_els pg c i (snapshot s) (current (tuf1_upd mu i k s)))"
    by (simp add: out_tuf1)
  assume good: "tuf1_good pg i s"
  then have upd: "tuf1_ok i (tuf1_upd mu i k s)" "tuf1_good pg i (tuf1_upd mu i k s)"
    by (simp_all add: tuf1_good_def tuf1_upd_ok)
  show "length (tuf1_els pg c i (snapshot s) (current (tuf1_upd mu i k s))) \<le> (if c \<in> set history_cols then 3 else 1)"
    using tuf1_els_le [OF upd(1), of pg c] by simp
  show "c \<in> set TUF1_closes \<Longrightarrow> x \<in> set (tuf1_els pg c i (snapshot s) (current (tuf1_upd mu i k s))) \<Longrightarrow> length x \<le> tuf1_width c"
    using tuf1_els_width [OF upd(2), of c x] by simp
qed (auto simp: tuf1_body tuf1_upd_ok tuf1_good_def counter_def tu_counters0_def, simp add: TUF1_closes_def)

text \<open>What the frame returns: \<open>d\<close> is the database before the call, \<open>cur\<close> after it.\<close>

definition tuf1_out :: "pgapi \<Rightarrow> int list \<Rightarrow> nat \<Rightarrow> db \<Rightarrow> db \<Rightarrow> spi_row" where
  "tuf1_out pg is n d cur = map (\<lambda>c.
     if c \<in> {i_num_found, i_num_updated} then int_txt (int n)
     else Some (array_text (concat (map (\<lambda>i. tuf1_els pg c i d cur) is)))) tuf1_order"

lemma tuf1_bufs: "fst ` set TUF1_bufs = set TUF1_closes" "distinct (map fst TUF1_bufs)"
  by (auto simp: TUF1_bufs_def TUF1_closes_def)

lemma tuf1_sizes_suffice:
  "(c, len) \<in> set TUF1_bufs \<Longrightarrow> 2 \<le> len \<and> len < 2 ^ 30 \<and>
     int (tuf1_width c + 1) * (int (if c \<in> set history_cols then 3 else 1) * 20) + 1 + int 0 * 20 + 1 \<le> len"
  by (auto simp: TUF1_bufs_def tuf1_width_def)

lemma take_min_length: "take (nat (min (int (length is)) m)) is = take (nat m) is"
  by (simp add: min_def nat_le_iff)

lemma tuf1_frame:
  assumes "\<And>s. s \<in> set TUF1_statements \<Longrightarrow> prepare s" "session f = start_call d" "trades_sized pg d"
    and "is = take (nat max_trades) ids" "max_trades \<le> 20" "\<forall>i \<in> set is. tuf1_ready i d"
    and "us = chosen (\<lambda>t. trade_exists t d) max_updates is"
  shows "\<exists>ps. TradeUpdateFrame1 prepare (tu_spi pg) max_trades max_updates ids f =
    Ok ([tuf1_out pg is (length us) d (renamed (set us) d)], (set_db (renamed (set us) d) f)\<lparr>max_calls := 1, plans := ps\<rparr>)"
proof -
  let ?cur = "renamed (set us) d"
  obtain ps where ps: "plan_queries prepare TUF1_statements (f\<lparr>max_calls := Suc 0\<rparr>) = Ok (f\<lparr>max_calls := Suc 0, plans := ps\<rparr>)"
    and sub: "set TUF1_statements \<subseteq> set ps"
    using planned [of TUF1_statements prepare "f\<lparr>max_calls := Suc 0\<rparr>", OF assms(1)] by auto
  let ?g = "f\<lparr>max_calls := Suc 0, plans := ps\<rparr>"
  have sub: "set TUF1_statements \<subseteq> set (plans ?g)" using sub by simp
  have keyed: "distinct (map t_id (trade_tbl d))" using assms(3) by (simp add: trades_sized_def trades_keyed_def)
  have us: "us = chosen (\<lambda>t. trade_exists t d) (max_updates - int (num_updated tu_counters0)) (map (\<lambda>i. i) is)"
    using assms(7) by (simp add: tu_counters0_def)
  have s: "session ?g = \<lparr>snapshot = d, current = renamed {} d\<rparr>" using assms(2) by (simp add: start_call_def renamed_none)
  have good: "\<forall>i \<in> set is. tuf1_good pg i (session ?g)"
    using assms(3,6) unfolding s by (auto simp: tuf1_good_def tuf1_ok_def)
  have len: "int (length is) \<le> 20" using assms(4,5) by simp
  have pal: "pallocs TUF1_bufs = Ok ()" by (rule pallocs_ok) (auto simp: TUF1_bufs_def)
  let ?k = "loop_state (tuf1_nxt max_updates) (tuf1_upd max_updates) is tu_counters0 (session ?g)"
  have k: "num_updated ?k = length us"
    using tuf1u.upds [OF keyed, of max_updates "is" tu_counters0 "{}"] us unfolding s tuf1_upd_def by (simp add: tu_counters0_def)
  then have k': "num_found ?k = length us" using tuf1_found_updated [of tu_counters0] by (simp add: tu_counters0_def)
  have "length us \<le> length is" using length_chosen by (simp add: assms(7))
  then have count: "snprintf_d (INTEGER_LEN + 1) (int (length us)) = show_int (int (length us))"
    using len by (intro snprintf_count) linarith
  have end_session: "loop_session (tuf1_nxt max_updates) (tuf1_upd max_updates) is tu_counters0 (session ?g) = \<lparr>snapshot = d, current = ?cur\<rparr>"
    using tuf1u.session [OF keyed, of max_updates "is" tu_counters0 "{}"] us unfolding s tuf1_upd_def by simp
  have els: "loop_els (\<lambda>i k s. tuf1_els pg c i (snapshot s) (current (tuf1_upd max_updates i k s))) (tuf1_nxt max_updates)
      (tuf1_upd max_updates) is tu_counters0 (session ?g) = concat (map (\<lambda>i. tuf1_els pg c i d ?cur) is)" for c
    using tuf1u.elements [OF keyed, of pg c max_updates "is" tu_counters0 "{}"] us unfolding s tuf1_upd_def by simp
  obtain bufs bufs' where b: "open_bufs TUF1_bufs = Ok bufs"
    and run: "\<And>cont :: tu_counters \<Rightarrow> trade_col bufs \<Rightarrow> (tu_stmt, pgsession) fctx \<Rightarrow> (spi_row list \<times> (tu_stmt, pgsession) fctx) outcome.
      obind (for_each (TUF1_trade (tu_spi pg) max_updates) is tu_counters0 bufs ?g)
        (\<lambda>((k, bufs), f). obind (emits TU_small (closes TUF1_closes) bufs f) (\<lambda>(bufs, f). cont k bufs f)) =
      cont ?k bufs' (?g\<lparr>session := \<lparr>snapshot = d, current = ?cur\<rparr>\<rparr>)"
    and arrays: "\<forall>c \<in> set TUF1_closes. ctext (fst (bufs' c)) = array_text (concat (map (\<lambda>i. tuf1_els pg c i d ?cur) is))"
    using tuf1.frame [OF tuf1_bufs(2,1) good len _ tuf1_sizes_suffice closing_closes sub, of max_updates] unfolding els end_session
    by (auto simp: TUF1_closes_def)
  have "TradeUpdateFrame1 prepare (tu_spi pg) max_trades max_updates ids f =
      srf_return (map ((buf_slots TUF1_bufs bufs' (\<lambda>_. Uninit))(i_num_found := Str (show_int (int (length us))),
        i_num_updated := Str (show_int (int (length us))))) tuf1_order) (?g\<lparr>session := \<lparr>snapshot = d, current = ?cur\<rparr>\<rparr>)"
    using run k k' count by (simp add: TradeUpdateFrame1_def pal ps b take_min_length assms(4) Let_def)
  moreover have "f\<lparr>session := \<lparr>snapshot = d, current = ?cur\<rparr>\<rparr> = set_db ?cur f"
    using assms(2) by (simp add: set_db_def start_call_def)
  ultimately show ?thesis using arrays
    by (intro exI [of _ ps]) (simp add: srf_return_def tuf1_out_def buf_slots_def tuf1_bufs tuf1_order_def TUF1_closes_def set_db_def start_call_def assms(2))
qed


text \<open>
  C10. The first frame of Trade-Update.  The first \<open>max_updates\<close> of the given trades that exist get
  their executor's name changed, nothing else changes; the row has the elements of all given
  trades that exist, the names as changed, and the number of changes twice.
\<close>

theorem TradeUpdateFrame1_row:
  assumes "\<And>s. s \<in> set TUF1_statements \<Longrightarrow> prepare s" "session f = start_call d" "trades_sized pg d"
    and "is = take (nat max_trades) ids" "max_trades \<le> 20" "\<forall>i \<in> set is. tuf1_ready i d"
    and "us = chosen (\<lambda>t. trade_exists t d) max_updates is"
  shows "\<exists>ps. TradeUpdateFrame1 prepare (tu_spi pg) max_trades max_updates ids f =
    Ok ([tuf1_out pg is (length us) d (renamed (set us) d)], (set_db (renamed (set us) d) f)\<lparr>max_calls := 1, plans := ps\<rparr>)"
  by (rule tuf1_frame [OF assms])

section \<open>Two calls\<close>

lemma renamed_twice:
  "\<forall>r \<in> set (trade_tbl d). strstr (t_exec_name r) '' X '' = None \<Longrightarrow> renamed U (renamed U d) = d"
  by (simp add: renamed_def renamed_row_def comp_def toggled_back map_idI)

lemma trades_sized_renamed:
  assumes "trades_sized pg d" "\<forall>r \<in> set (trade_tbl d). t_id r \<in> U \<longrightarrow> length (toggled (t_exec_name r)) \<le> 49"
  shows "trades_sized pg (renamed U d)"
  using assms by (auto simp: trades_sized_def trades_keyed_def details_sized_def renamed_def comp_def) (auto simp: renamed_row_def)

lemma tuf1_ready_renamed:
  assumes "tuf1_ready i d" "trades_sized pg d" "\<forall>r \<in> set (trade_tbl d). strstr (t_exec_name r) '' X '' = None"
  shows "tuf1_ready i (renamed U d)"
proof -
  have "length (toggled (t_exec_name (renamed_row U r))) \<le> 49" if r: "r \<in> set (trades_with i d)" for r
  proof -
    have "r \<in> set (trade_tbl d)" using r by (simp add: trades_with_def)
    then show ?thesis using assms r by (auto simp: renamed_row_def toggled_back tuf1_ready_def trades_sized_def)
  qed
  moreover have "trades_keyed (renamed U d) = trades_keyed d" "cash_transactions i (renamed U d) = cash_transactions i d"
    by (simp_all add: trades_keyed_def renamed_def comp_def cash_transactions_def)
  ultimately show ?thesis using assms(1) by (auto simp: tuf1_ready_def named_cash_def trades_with_renamed)
qed

text \<open>
  C12. Two calls of frame 1 with the same arguments cancel out: when no executor's name contains
  ' X ' to begin with, the second call puts back what the first one changed.
\<close>

theorem TradeUpdateFrame1_twice:
  assumes "\<And>s. s \<in> set TUF1_statements \<Longrightarrow> prepare s" "session f = start_call d" "trades_sized pg d"
    and "max_trades \<le> 20" "\<forall>i \<in> set (take (nat max_trades) ids). tuf1_ready i d"
    and "\<forall>r \<in> set (trade_tbl d). strstr (t_exec_name r) '' X '' = None"
  shows "\<exists>rows rows' f' f''. TradeUpdateFrame1 prepare (tu_spi pg) max_trades max_updates ids f = Ok (rows, f')
    \<and> TradeUpdateFrame1 prepare (tu_spi pg) max_trades max_updates ids (f'\<lparr>session := start_call (db_of f')\<rparr>) = Ok (rows', f'')
    \<and> db_of f'' = d"
proof -
  let ?is = "take (nat max_trades) ids"
  let ?us = "chosen (\<lambda>t. trade_exists t d) max_updates ?is"
  let ?d = "renamed (set ?us) d"
  have sized: "trades_sized pg ?d"
  proof (rule trades_sized_renamed [OF assms(3)], intro ballI impI)
    fix r
    assume r: "r \<in> set (trade_tbl d)" "t_id r \<in> set ?us"
    then have "tuf1_ready (t_id r) d" using assms(5) by (auto simp: chosen_def dest!: in_set_takeD)
    then show "length (toggled (t_exec_name r)) \<le> 49" using r(1) by (simp add: tuf1_ready_def trades_with_def)
  qed
  have us: "?us = chosen (\<lambda>t. trade_exists t ?d) max_updates ?is" by (simp add: trade_exists_def trades_with_renamed)
  have ready: "\<forall>i \<in> set ?is. tuf1_ready i ?d" using assms(5) tuf1_ready_renamed [OF _ assms(3,6)] by blast
  obtain ps where 1: "TradeUpdateFrame1 prepare (tu_spi pg) max_trades max_updates ids f =
      Ok ([tuf1_out pg ?is (length ?us) d ?d], (set_db ?d f)\<lparr>max_calls := 1, plans := ps\<rparr>)"
    using tuf1_frame [where prepare = prepare, OF assms(1,2,3) refl assms(4,5) refl] by blast
  let ?f = "(set_db ?d f)\<lparr>max_calls := 1, plans := ps\<rparr>"
  have db: "db_of ?f = ?d" using assms(2) by (simp add: db_of_def set_db_def start_call_def)
  obtain ps' where 2: "TradeUpdateFrame1 prepare (tu_spi pg) max_trades max_updates ids (?f\<lparr>session := start_call ?d\<rparr>) =
      Ok ([tuf1_out pg ?is (length ?us) ?d d], (set_db d (?f\<lparr>session := start_call ?d\<rparr>))\<lparr>max_calls := 1, plans := ps'\<rparr>)"
    using tuf1_frame [where prepare = prepare and f = "?f\<lparr>session := start_call ?d\<rparr>", OF assms(1) _ sized refl assms(4) ready us]
    by (auto simp: renamed_twice assms(6))
  have "db_of ((set_db d (?f\<lparr>session := start_call ?d\<rparr>))\<lparr>max_calls := 1, plans := ps'\<rparr>) = d"
    by (simp add: db_of_def set_db_def)
  with 1 2 db show ?thesis by metis
qed

section \<open>An instance\<close>

definition update_db :: "string \<Rightarrow> db" where
  "update_db nm = lookup_db\<lparr>trade_tbl := [sample_trade\<lparr>t_trade_price := Some 1201, t_exec_name := nm\<rparr>]\<rparr>"

definition update_ctx :: "db \<Rightarrow> (tu_stmt, pgsession) fctx" where
  "update_ctx d = \<lparr>session = start_call d, plans = [], warnings = [], max_calls = 0\<rparr>"

lemma update_tables:
  "trade_tbl (update_db nm) = [sample_trade\<lparr>t_trade_price := Some 1201, t_exec_name := nm\<rparr>]"
  "trade_type_tbl (update_db nm) = trade_type_tbl lookup_db" "settlement_tbl (update_db nm) = settlement_tbl lookup_db"
  "cash_transaction_tbl (update_db nm) = cash_transaction_tbl lookup_db"
  "trade_history_tbl (update_db nm) = trade_history_tbl lookup_db" "security_tbl (update_db nm) = [sample_security]"
  by (simp_all add: update_db_def lookup_db_def)

lemma update_sized: "length nm \<le> 49 \<Longrightarrow> trades_sized sample_pg (update_db nm)"
  using lookup_sized by (simp add: trades_sized_def trades_keyed_def details_sized_def update_tables lookup_tables sample_rows)

lemma toggled_names: "toggled ''Ann Lee'' = ''Ann X Lee''" "toggled ''Ann X Lee'' = ''Ann Lee''"
  by (simp_all add: toggled_def strstr.simps replace_text.simps)

theorem TradeUpdateFrame1_row_witness:
  "\<exists>ps. TradeUpdateFrame1 (\<lambda>_. True) (tu_spi sample_pg) 2 1 [9, 4] (update_ctx (update_db ''Ann Lee'')) =
    Ok ([[Some ''{12.00}'', Some ''{360.30}'', Some ''{\"21\"}'', Some ''{\"Market-Sell 30 Shares of AB\"}'', Some ''{\"Ann X Lee\"}'',
       Some ''{1}'', Some ''{1}'', Some ''1'', Some ''1'', Some ''{360.30}'', Some ''{41}'', Some ''{\"Cash Account\"}'',
       Some ''{20,21,NULL}'', Some ''{SBMT,CMPT,NULL}'', Some ''{12.01}'']],
      (update_ctx (update_db ''Ann Lee''))\<lparr>session := \<lparr>snapshot = update_db ''Ann Lee'', current = update_db ''Ann X Lee''\<rparr>,
        max_calls := 1, plans := ps\<rparr>)"
proof -
  let ?d = "update_db ''Ann Lee''" and ?e = "update_db ''Ann X Lee''"
  have us: "chosen (\<lambda>t. trade_exists t ?d) 1 [9, 4] = [9]"
    by (simp add: chosen_def trade_exists_def trades_with_def update_tables sample_rows)
  have e: "renamed {9} ?d = ?e" by (simp add: renamed_def renamed_row_def update_db_def sample_rows toggled_names)
  have ready: "\<forall>i \<in> set [9, 4]. tuf1_ready i ?d"
    using update_sized [of "''Ann Lee''"]
    by (simp add: trades_sized_def tuf1_ready_def named_cash trades_with_def update_tables sample_rows toggled_names
        cash_transactions_def lookup_tables named_cash_def)
  have out: "tuf1_out sample_pg [9, 4] 1 ?d ?e =
      [Some ''{12.00}'', Some ''{360.30}'', Some ''{\"21\"}'', Some ''{\"Market-Sell 30 Shares of AB\"}'', Some ''{\"Ann X Lee\"}'',
       Some ''{1}'', Some ''{1}'', Some ''1'', Some ''1'', Some ''{360.30}'', Some ''{41}'', Some ''{\"Cash Account\"}'',
       Some ''{20,21,NULL}'', Some ''{SBMT,CMPT,NULL}'', Some ''{12.01}'']"
    by (simp add: tuf1_out_def tuf1_order_def tuf1_els_def update_tables lookup_eval)
  show ?thesis
    using TradeUpdateFrame1_row [of "\<lambda>_. True" "update_ctx ?d" ?d sample_pg "[9, 4]" 2 "[9, 4]" "[9]" 1] us ready
      update_sized [of "''Ann Lee''"] e out by (simp add: update_ctx_def start_call_def set_db_def)
qed


theorem TradeUpdateFrame1_twice_witness:
  "\<exists>rows rows' f' f''. TradeUpdateFrame1 (\<lambda>_. True) (tu_spi sample_pg) 2 1 [9, 4] (update_ctx (update_db ''Ann Lee'')) = Ok (rows, f')
    \<and> TradeUpdateFrame1 (\<lambda>_. True) (tu_spi sample_pg) 2 1 [9, 4] (f'\<lparr>session := start_call (db_of f')\<rparr>) = Ok (rows', f'')
    \<and> db_of f'' = update_db ''Ann Lee''"
proof (rule TradeUpdateFrame1_twice)
  show "\<forall>i \<in> set (take (nat 2) [9, 4]). tuf1_ready i (update_db ''Ann Lee'')"
    using update_sized [of "''Ann Lee''"]
    by (simp add: trades_sized_def tuf1_ready_def named_cash trades_with_def update_tables sample_rows toggled_names
        cash_transactions_def lookup_tables named_cash_def)
qed (simp_all add: update_ctx_def update_sized update_tables sample_rows strstr.simps)

end
