(* ===== verification/UpdateAccount.thy ===== *)
theory UpdateAccount
  imports TradeUpdate
begin

text \<open>
  The second frame of Trade-Update: the trades of an account within a period, of which some get the
  type of their settlement changed.
\<close>

section \<open>The frame\<close>

definition tuf2_order :: "trade_col list" where
  "tuf2_order = [i_bid_price, i_cash_transaction_amount, i_cash_transaction_dts, i_cash_transaction_name, i_exec_name,
     i_is_cash, i_num_found, i_num_updated, i_settlement_amount, i_settlement_cash_due_date, i_settlement_cash_type,
     i_trade_history_dts, i_trade_history_status_id, i_trade_list, i_trade_price]"

definition TUF2_bufs :: "(trade_col \<times> int) list" where
  "TUF2_bufs =
     [(i_bid_price, (int S_PRICE_T_LEN + 1) * 20 + 2),
      (i_cash_transaction_amount, (int VALUE_T_LEN + 1) * 20 + 2),
      (i_cash_transaction_dts, (int MAXDATELEN + 3) * 20 + 2),
      (i_cash_transaction_name, (int CT_NAME_LEN + 3) * 20 + 2),
      (i_exec_name, (int T_EXEC_NAME_LEN + 3) * 20 + 2),
      (i_is_cash, (int SMALLINT_LEN + 1) * 20 + 2),
      (i_settlement_amount, (int VALUE_T_LEN + 1) * 20 + 2),
      (i_settlement_cash_due_date, (int MAXDATELEN + 3) * 20 + 2),
      (i_settlement_cash_type, (int SE_CASH_TYPE_LEN + 3) * 20 + 2),
      (i_trade_history_dts, (int MAXDATELEN + 2) * 60 + 62),
      (i_trade_history_status_id, int ST_ID_LEN * 60 + 62),
      (i_trade_list, (int BIGINT_LEN + 1) * 20 + 2),
      (i_trade_price, (int S_PRICE_T_LEN + 1) * 20 + 2)]"

text \<open>The commas of all columns but those of the cash transaction come at the start of a round.\<close>

definition TUF2_row :: "nat \<Rightarrow> spi_row \<Rightarrow> trade_col emit list outcome" where
  "TUF2_row n row =
     obind (from_ptr (SPI_getvalue row 1)) (\<lambda>bid_price.
     obind (from_ptr (SPI_getvalue row 2)) (\<lambda>exec_name.
     obind (from_ptr (SPI_getvalue row 3)) (\<lambda>is_cash_str.
     obind (from_ptr (SPI_getvalue row 4)) (\<lambda>trade_list.
     Ok (seps n [i_bid_price, i_exec_name, i_is_cash, i_trade_list, i_trade_price, i_settlement_amount,
           i_settlement_cash_due_date, i_settlement_cash_type, i_trade_history_dts, i_trade_history_status_id]
       @ [(i_bid_price, Plain, bid_price)]
       @ quote_as Plain i_exec_name exec_name
       @ [(i_is_cash, Plain, bit_text (is_t is_cash_str)), (i_trade_list, Plain, trade_list),
          (i_trade_price, Plain, or_NULL (SPI_getvalue row 5))])))))"

definition TUF2_cash_type :: "bool \<Rightarrow> string \<Rightarrow> string" where
  "TUF2_cash_type is_cash old =
     (if is_cash then (if old = ''Cash Account'' then ''Cash'' else ''Cash Account'')
      else (if old = ''Margin Account'' then ''Margin'' else ''Margin Account''))"

definition TUF2_update :: "(tu_stmt, 'd) spi \<Rightarrow> int \<Rightarrow> bool \<Rightarrow> tu_counters \<Rightarrow> (tu_stmt, 'd) fctx \<Rightarrow>
    ((bool \<times> tu_counters) \<times> (tu_stmt, 'd) fctx) outcome" where
  "TUF2_update spi trade is_cash k f =
     obind (first_row spi TUF2_2 [DInt64 trade] f) (\<lambda>(r, f).
     case r of
       None \<Rightarrow> Ok ((False, k), FAIL_FRAME_SET TUF2_2 f)
     | Some row \<Rightarrow>
         obind (from_ptr (SPI_getvalue row 1)) (\<lambda>old_cash_type.
         obind (SPI_execute_plan spi TUF2_3 [DText (TUF2_cash_type is_cash old_cash_type), DInt64 trade] False f) (\<lambda>(r, f).
         case r of
           SPI_OK_UPDATE n \<Rightarrow> Ok ((True, k\<lparr>num_updated := num_updated k + n\<rparr>), f)
         | _ \<Rightarrow> Ok ((False, k), FAIL_FRAME_SET TUF2_3 f))))"

text \<open>A trade without a settlement or without a history is a failure.\<close>

definition TUF2_settlement :: "(tu_stmt, 'd) spi \<Rightarrow> int \<Rightarrow> trade_col bufs \<Rightarrow> (tu_stmt, 'd) fctx \<Rightarrow>
    ((bool \<times> trade_col bufs) \<times> (tu_stmt, 'd) fctx) outcome" where
  "TUF2_settlement spi trade bufs f =
     obind (query spi False TUF2_4 [DInt64 trade] f) (\<lambda>(r, f).
     case r of
       Some (row # rows) \<Rightarrow>
         obind (emit_rows TU_small (settlement_cells True True) 0 [row] bufs f) (\<lambda>((_, bufs), f). Ok ((True, bufs), f))
     | _ \<Rightarrow> Ok ((False, bufs), FAIL_FRAME_SET TUF2_4 f))"

definition TUF2_cash :: "(tu_stmt, 'd) spi \<Rightarrow> int \<Rightarrow> bool \<Rightarrow> nat \<Rightarrow> trade_col bufs \<Rightarrow> (tu_stmt, 'd) fctx \<Rightarrow>
    ((nat option \<times> trade_col bufs) \<times> (tu_stmt, 'd) fctx) outcome" where
  "TUF2_cash spi trade = append_first_cash spi True TUF2_5 trade"

definition TUF2_history :: "(tu_stmt, 'd) spi \<Rightarrow> int \<Rightarrow> trade_col bufs \<Rightarrow> (tu_stmt, 'd) fctx \<Rightarrow>
    ((unit \<times> trade_col bufs) \<times> (tu_stmt, 'd) fctx) outcome" where
  "TUF2_history spi trade bufs f =
     obind (query spi True TUF2_6 [DInt64 trade] f) (\<lambda>(r, f).
     case r of
       Some (row # rows) \<Rightarrow> obind (three_rows True (row # rows) bufs f) (\<lambda>(bufs, f). Ok (((), bufs), f))
     | _ \<Rightarrow> Ok (((), bufs), FAIL_FRAME_SET TUF2_6 f))"

definition TUF2_report :: "(tu_stmt, 'd) spi \<Rightarrow> int \<Rightarrow> bool \<Rightarrow> tu_counters \<Rightarrow> trade_col bufs \<Rightarrow> (tu_stmt, 'd) fctx \<Rightarrow>
    (((bool \<times> tu_counters) \<times> trade_col bufs) \<times> (tu_stmt, 'd) fctx) outcome" where
  "TUF2_report spi trade is_cash k bufs f =
     obind (TUF2_settlement spi trade bufs f) (\<lambda>((go, bufs), f).
     if \<not> go then Ok (((True, k), bufs), f)
     else
     obind (TUF2_cash spi trade is_cash (num_cash_txn k) bufs f)
       (\<lambda>((r, bufs), f). case r of None \<Rightarrow> Ok (((True, k), bufs), f) | Some n \<Rightarrow>
     let k = k\<lparr>num_cash_txn := n\<rparr> in
     obind (TUF2_history spi trade bufs f) (\<lambda>((_, bufs), f).
     Ok (((True, k), bufs), f))))"

definition TUF2_trade :: "(tu_stmt, 'd) spi \<Rightarrow> int \<Rightarrow> spi_row \<Rightarrow> tu_counters \<Rightarrow> trade_col bufs \<Rightarrow> (tu_stmt, 'd) fctx \<Rightarrow>
    (((bool \<times> tu_counters) \<times> trade_col bufs) \<times> (tu_stmt, 'd) fctx) outcome" where
  "TUF2_trade spi max_updates row k bufs f =
     obind (emit_rows TU_small TUF2_row (trades k) [row] bufs f) (\<lambda>((n, bufs), f).
     let k = k\<lparr>trades := n\<rparr> in
     obind (from_ptr (SPI_getvalue row 3)) (\<lambda>is_cash_str.
     obind (from_ptr (SPI_getvalue row 4)) (\<lambda>trade_list.
     obind (if int (num_updated k) < max_updates then TUF2_update spi (atoll trade_list) (is_t is_cash_str) k f
            else Ok ((True, k), f)) (\<lambda>((go, k), f).
     if go then TUF2_report spi (atoll trade_list) (is_t is_cash_str) k bufs f else Ok (((True, k), bufs), f)))))"

definition TUF2_closes :: "trade_col list" where
  "TUF2_closes = [i_bid_price, i_exec_name, i_is_cash, i_trade_list, i_trade_price, i_settlement_amount,
     i_settlement_cash_due_date, i_settlement_cash_type, i_cash_transaction_amount, i_cash_transaction_dts,
     i_cash_transaction_name, i_trade_history_dts, i_trade_history_status_id]"

text \<open>If the first query fails, the frame ends at once without a row.\<close>

definition TradeUpdateFrame2 ::
    "(tu_stmt \<Rightarrow> bool) \<Rightarrow> (tu_stmt, 'd) spi \<Rightarrow> int \<Rightarrow> int \<Rightarrow> int \<Rightarrow> int \<Rightarrow> int \<Rightarrow> (tu_stmt, 'd) fctx \<Rightarrow>
     (spi_row list \<times> (tu_stmt, 'd) fctx) outcome" where
  "TradeUpdateFrame2 prepare spi acct_id end_trade_dts max_trades max_updates start_trade_dts f =
     obind (pallocs TUF2_bufs) (\<lambda>_.
     obind (plan_queries prepare TUF2_statements (f\<lparr>max_calls := 1\<rparr>)) (\<lambda>f.
     obind (query spi True TUF2_1 [DInt64 acct_id, DTimestamp start_trade_dts, DTimestamp end_trade_dts, DInt32 max_trades] f)
       (\<lambda>(r, f).
     case r of
       None \<Rightarrow> Ok ([], FAIL_FRAME_SET TUF2_1 f)
     | Some rows \<Rightarrow>
         obind (open_bufs TUF2_bufs) (\<lambda>bufs.
         obind (for_each (TUF2_trade spi max_updates) rows tu_counters0 bufs f) (\<lambda>((k, bufs), f).
         obind (emits TU_small (closes TUF2_closes) bufs f) (\<lambda>(bufs, f).
         let vals = (buf_slots TUF2_bufs bufs (\<lambda>_. Uninit))
           (i_num_found := Str (snprintf_d (INTEGER_LEN + 1) (int (length rows))),
            i_num_updated := Str (snprintf_d (INTEGER_LEN + 1) (int (num_updated k)))) in
         srf_return (map vals tuf2_order) f))))))"

section \<open>What the frame changes\<close>

definition settled :: "int \<Rightarrow> db \<Rightarrow> bool" where
  "settled t d \<longleftrightarrow> settlements t d \<noteq> []"

text \<open>
  The type a settlement gets, as a table of its own: the kind of the account with \<open> Account\<close>
  added, or without it when the type already reads so.
\<close>

definition account_kind :: "bool \<Rightarrow> string" where
  "account_kind is_cash = (if is_cash then ''Cash'' else ''Margin'')"

definition other_type :: "bool \<Rightarrow> string \<Rightarrow> string" where
  "other_type is_cash old = account_kind is_cash @ (if old = account_kind is_cash @ '' Account'' then [] else '' Account'')"

lemma TUF2_cash_type_eq: "TUF2_cash_type is_cash old = other_type is_cash old"
  by (simp add: TUF2_cash_type_def other_type_def account_kind_def)

text \<open>The type always changes, and a second change brings a type that the code writes back.\<close>

lemma other_type_changes: "other_type is_cash old \<noteq> old"
  by (auto simp: other_type_def)

lemma other_type_twice:
  "old \<in> {account_kind is_cash, account_kind is_cash @ '' Account''} \<Longrightarrow> other_type is_cash (other_type is_cash old) = old"
  by (auto simp: other_type_def)

definition new_cash_type :: "int \<Rightarrow> db \<Rightarrow> string" where
  "new_cash_type t d = other_type (t_is_cash (hd (trades_with t d))) (se_cash_type (hd (settlements t d)))"

definition retyped_row :: "int set \<Rightarrow> db \<Rightarrow> settlement_row \<Rightarrow> settlement_row" where
  "retyped_row U d r = (if se_t_id r \<in> U
     then r\<lparr>se_cash_type := other_type (t_is_cash (hd (trades_with (se_t_id r) d))) (se_cash_type r)\<rparr> else r)"

text \<open>The settlements of the trades with the numbers in \<open>U\<close> have their type changed.\<close>

definition retyped :: "int set \<Rightarrow> db \<Rightarrow> db" where
  "retyped U d = d\<lparr>settlement_tbl := map (retyped_row U d) (settlement_tbl d)\<rparr>"

lemma retyped_row_simps [simp]:
  "se_t_id (retyped_row U d r) = se_t_id r" "se_amt (retyped_row U d r) = se_amt r"
  "se_cash_due_date (retyped_row U d r) = se_cash_due_date r"
  by (simp_all add: retyped_row_def)

lemma retyped_none: "retyped {} d = d"
  by (simp add: retyped_def retyped_row_def map_idI)

lemma settlements_retyped: "settlements t (retyped U d) = map (retyped_row U d) (settlements t d)"
  by (simp add: settlements_def retyped_def filter_map comp_def)

lemma settlements_keyed:
  assumes "distinct (map se_t_id (settlement_tbl d))" "r \<in> set (settlement_tbl d)"
  shows "settlements (se_t_id r) d = [r]"
  using assms keyed_filter_single [of se_t_id "settlement_tbl d" r] by (simp add: settlements_def)

lemma touch_retyped:
  assumes "distinct (map se_t_id (settlement_tbl d))"
  shows "set_cash_type t (new_cash_type t d) (retyped U d) = retyped (insert t U) d"
proof -
  have "(if se_t_id r = t then (retyped_row U d r)\<lparr>se_cash_type := new_cash_type t d\<rparr> else retyped_row U d r) = retyped_row (insert t U) d r"
    if "r \<in> set (settlement_tbl d)" for r
    using settlements_keyed [OF assms that] by (auto simp: new_cash_type_def retyped_row_def)
  then show ?thesis by (simp add: set_cash_type_def retyped_def update_where_def comp_def)
qed

lemma details_retyped: "details_sized pg d \<Longrightarrow> details_sized pg (retyped U d)"
  by (auto simp: details_sized_def retyped_def) (auto simp: retyped_row_def other_type_def account_kind_def)

section \<open>What the loop writes\<close>

definition tuf2_row_es :: "nat \<Rightarrow> trade_row \<Rightarrow> trade_col emit list" where
  "tuf2_row_es n t = seps n [i_bid_price, i_exec_name, i_is_cash, i_trade_list, i_trade_price, i_settlement_amount,
       i_settlement_cash_due_date, i_settlement_cash_type, i_trade_history_dts, i_trade_history_status_id]
     @ [(i_bid_price, Plain, numeric_out 2 (t_bid_price t))] @ quote_as Plain i_exec_name (t_exec_name t)
     @ [(i_is_cash, Plain, bit_text (t_is_cash t)), (i_trade_list, Plain, show_int (t_id t)),
        (i_trade_price, Plain, or_NULL (map_option (numeric_out 2) (t_trade_price t)))]"

definition three_es :: "pgapi \<Rightarrow> bool \<Rightarrow> int \<Rightarrow> db \<Rightarrow> trade_col emit list" where
  "three_es pg qd t d = rows_emits (history_es pg qd False) 0 (histories t d)
     @ history_pad ''NULL'' (length (histories t d)) (length (histories t d))"

definition tuf2_upd :: "int \<Rightarrow> trade_row \<Rightarrow> tu_counters \<Rightarrow> pgsession \<Rightarrow> pgsession" where
  "tuf2_upd = limited_upd t_id settled (\<lambda>t d. set_cash_type t (new_cash_type t d)) num_updated"

definition tuf2_es :: "pgapi \<Rightarrow> trade_row \<Rightarrow> tu_counters \<Rightarrow> pgsession \<Rightarrow> trade_col emit list" where
  "tuf2_es pg t k s = tuf2_row_es (trades k) t
     @ rows_emits (settlement_es pg True True) 0 (settlements (t_id t) (current s))
     @ cash_part pg False Plain (t_is_cash t) (num_cash_txn k) (t_id t) (snapshot s)
     @ three_es pg True (t_id t) (snapshot s)"

definition tuf2_nxt :: "int \<Rightarrow> trade_row \<Rightarrow> tu_counters \<Rightarrow> pgsession \<Rightarrow> tu_counters" where
  "tuf2_nxt mu t k s = k\<lparr>trades := Suc (trades k),
     num_cash_txn := num_cash_txn k + cash_count (t_is_cash t) (t_id t) (snapshot s),
     num_updated := num_updated k + (if int (num_updated k) < mu \<and> settled (t_id t) (snapshot s) then 1 else 0)\<rparr>"

text \<open>A trade that frame 2 can process: settled, with a history, and with a cash transaction if settled in cash.\<close>

definition tuf2_ready :: "trade_row \<Rightarrow> db \<Rightarrow> bool" where
  "tuf2_ready t d \<longleftrightarrow> trades_keyed d \<and> t \<in> set (trade_tbl d) \<and> in_i64 (t_id t) \<and> named_cash (t_id t) d
     \<and> settled (t_id t) d \<and> histories (t_id t) d \<noteq> [] \<and> (t_is_cash t \<longrightarrow> cash_transactions (t_id t) d \<noteq> [])"

definition tuf2_ok :: "trade_row \<Rightarrow> pgsession \<Rightarrow> bool" where
  "tuf2_ok t s \<longleftrightarrow> (\<exists>U. current s = retyped U (snapshot s)) \<and> tuf2_ready t (snapshot s)"

lemma tuf2_planned: "TUF2_1 \<in> set TUF2_statements" "TUF2_2 \<in> set TUF2_statements" "TUF2_3 \<in> set TUF2_statements"
  "TUF2_4 \<in> set TUF2_statements" "TUF2_5 \<in> set TUF2_statements" "TUF2_6 \<in> set TUF2_statements"
  by (simp_all add: TUF2_statements_def)

lemma tuf2_sql:
  "tu_sql pg [DInt64 i] TUF2_2 d = Ok (SPI_OK_SELECT (map (\<lambda>r. [Some (se_cash_type r)]) (settlements i d)), d)"
  "tu_sql pg [DInt64 i] TUF2_4 d = Ok (SPI_OK_SELECT (map (settlement_values pg) (settlements i d)), d)"
  "tu_sql pg [DInt64 i] TUF2_5 d = Ok (SPI_OK_SELECT (map (cash_values pg) (cash_transactions i d)), d)"
  "tu_sql pg [DInt64 i] TUF2_6 d = Ok (SPI_OK_SELECT (map (history_values pg) (histories i d)), d)"
  by (simp_all add: tu_sql_def SQLTUF2_2_def SQL_settlement_def SQL_cash_transaction_def SQL_trade_history_def)

lemma TUF2_row_values: "TUF2_row n (account_trade_values t) = Ok (tuf2_row_es n t)"
  by (simp add: TUF2_row_def account_trade_values_def tuf2_row_es_def is_t_def)

lemma tuf2_settled:
  assumes "tuf2_ok t s"
  shows "\<exists>r. settlements (t_id t) (snapshot s) = [r]"
  using assms settlements_le [of "snapshot s" "t_id t"]
  by (cases "settlements (t_id t) (snapshot s)") (auto simp: tuf2_ok_def tuf2_ready_def settled_def)

lemma tuf2_new_type:
  assumes "tuf2_ok t s" "settlements (t_id t) (snapshot s) = [r]"
  shows "new_cash_type (t_id t) (snapshot s) = TUF2_cash_type (t_is_cash t) (se_cash_type r)"
proof -
  have "trades_with (t_id t) (snapshot s) = [t]"
    using assms(1) by (intro trades_with_keyed) (simp_all add: tuf2_ok_def tuf2_ready_def trades_keyed_def)
  then show ?thesis using assms(2) by (simp add: new_cash_type_def TUF2_cash_type_eq)
qed

lemma tuf2_update:
  assumes "tuf2_ok t s" "int (num_updated k) < mu" "set TUF2_statements \<subseteq> set (plans f)" "session f = s"
  shows "TUF2_update (tu_spi pg) (t_id t) (t_is_cash t) k f =
    Ok ((True, k\<lparr>num_updated := Suc (num_updated k)\<rparr>), f\<lparr>session := tuf2_upd mu t k s\<rparr>)"
proof -
  let ?d = "snapshot s" and ?i = "t_id t"
  obtain U where U: "current s = retyped U ?d" using assms(1) by (auto simp: tuf2_ok_def)
  obtain r where r: "settlements ?i ?d = [r]" using tuf2_settled [OF assms(1)] by blast
  let ?ty = "new_cash_type ?i ?d"
  have ty: "TUF2_cash_type (t_is_cash t) (se_cash_type r) = ?ty" using tuf2_new_type [OF assms(1) r] by simp
  have "settlements ?i (current s) = [retyped_row U ?d r]" by (simp add: U settlements_retyped r)
  then have upd: "tu_sql pg [DText ?ty, DInt64 ?i] TUF2_3 (current s) = Ok (SPI_OK_UPDATE 1, set_cash_type ?i ?ty (current s))"
    by (simp add: tu_sql_def SQLTUF2_3_def new_cash_type_def other_type_def account_kind_def)
  have pl: "stmt \<in> set (plans f)" if "stmt \<in> set TUF2_statements" for stmt using that assms(3) by blast
  have q1: "first_row (tu_spi pg) TUF2_2 [DInt64 ?i] f = Ok (Some [Some (se_cash_type r)], f)"
    using tu.first_row_eq [OF pl [OF tuf2_planned(2)] tuf2_sql(1)] assms(4) by (simp add: snap_of_def r)
  have q2: "SPI_execute_plan (tu_spi pg) TUF2_3 [DText ?ty, DInt64 ?i] False f =
      Ok (SPI_OK_UPDATE 1, set_db (set_cash_type ?i ?ty (current s)) f)"
    by (rule tu.exec_write [OF pl [OF tuf2_planned(3)]]) (use upd assms(4) in \<open>simp add: db_of_def\<close>)
  have "tuf2_upd mu t k s = s\<lparr>current := set_cash_type ?i ?ty (current s)\<rparr>"
    using assms(2) r by (simp add: tuf2_upd_def limited_upd_def settled_def)
  then show ?thesis
    using assms(4) by (simp add: TUF2_update_def q1 ty q2 set_db_def del: SPI_execute_plan_planned)
qed

lemma tuf2_settlement_writes:
  assumes "tuf2_ok t s"
  shows "writes TU_small TUF2_statements s (TUF2_settlement (tu_spi pg) (t_id t))
    (rows_emits (settlement_es pg True True) 0 (settlements (t_id t) (current s))) True s"
proof -
  obtain U where U: "current s = retyped U (snapshot s)" using assms by (auto simp: tuf2_ok_def)
  obtain r where "settlements (t_id t) (snapshot s) = [r]" using tuf2_settled [OF assms] by blast
  then have "settlements (t_id t) (current s) = [retyped_row U (snapshot s) r]" by (simp add: U settlements_retyped)
  then show ?thesis
    by (auto simp: writes_def TUF2_settlement_def tu.query_now [OF tuf2_planned(4) tuf2_sql(2) _ refl] settlement_cells_values
        obind_assoc case_prod_unfold)
qed

lemma tuf2_history_writes:
  assumes "histories i (snapshot s) \<noteq> []"
  shows "writes TU_small TUF2_statements s (TUF2_history (tu_spi pg) i) (three_es pg True i (snapshot s)) () s"
proof -
  obtain h hs where h: "histories i (snapshot s) = h # hs" using assms by (cases "histories i (snapshot s)") auto
  show ?thesis
    by (auto simp: writes_def TUF2_history_def tu.query_read [OF tuf2_planned(6) tuf2_sql(4) _ refl] h three_es_def
        three_rows_histories [of True _ "h # hs" for h hs, unfolded list.map] case_prod_unfold)
qed


lemma snapshot_tuf2_upd [simp]: "snapshot (tuf2_upd mu t k s) = snapshot s"
  by (simp add: tuf2_upd_def limited_upd_def)

lemma tuf2_upd_counters [simp]: "tuf2_upd mu t (k\<lparr>trades := n\<rparr>) s = tuf2_upd mu t k s"
  by (simp add: tuf2_upd_def limited_upd_def)

lemma tuf2_upd_ok:
  assumes "tuf2_ok t s" "tuf2_ok u s"
  shows "tuf2_ok t (tuf2_upd mu u k s)"
proof (cases "int (num_updated k) < mu \<and> settled (t_id u) (snapshot s)")
  case True
  obtain U where U: "current s = retyped U (snapshot s)" using assms(1) by (auto simp: tuf2_ok_def)
  have "distinct (map se_t_id (settlement_tbl (snapshot s)))" using assms(1) by (simp add: tuf2_ok_def tuf2_ready_def trades_keyed_def)
  then have "tuf2_upd mu u k s = s\<lparr>current := retyped (insert (t_id u) U) (snapshot s)\<rparr>"
    using True by (simp add: tuf2_upd_def limited_upd_def U touch_retyped)
  then show ?thesis using assms(1) by (auto simp: tuf2_ok_def)
next
  case False
  then have "tuf2_upd mu u k s = s" by (auto simp: tuf2_upd_def limited_upd_def)
  then show ?thesis using assms(1) by simp
qed

text \<open>A trade that needs a cash transaction has exactly one.\<close>

lemma tuf2_one_cash:
  assumes "tuf2_ok t s" "t_is_cash t"
  shows "length (cash_transactions (t_id t) (snapshot s)) = 1"
proof -
  have "cash_transactions (t_id t) (snapshot s) \<noteq> []" "trades_keyed (snapshot s)"
    using assms by (simp_all add: tuf2_ok_def tuf2_ready_def)
  with cash_transactions_le [OF this(2), of "t_id t"] show ?thesis
    by (cases "cash_transactions (t_id t) (snapshot s)") simp_all
qed

lemma tuf2_report:
  assumes "tuf2_ok t s"
  shows "writes TU_small TUF2_statements s (TUF2_report (tu_spi pg) (t_id t) (t_is_cash t) k)
    (rows_emits (settlement_es pg True True) 0 (settlements (t_id t) (current s))
      @ cash_part pg False Plain (t_is_cash t) (num_cash_txn k) (t_id t) (snapshot s) @ three_es pg True (t_id t) (snapshot s))
    (True, k\<lparr>num_cash_txn := num_cash_txn k + cash_count (t_is_cash t) (t_id t) (snapshot s)\<rparr>) s"
proof -
  have h: "histories (t_id t) (snapshot s) \<noteq> []" using assms by (simp add: tuf2_ok_def tuf2_ready_def)
  have cash: "writes TU_small TUF2_statements s (TUF2_cash (tu_spi pg) (t_id t) (t_is_cash t) n)
      (cash_part pg False Plain (t_is_cash t) n (t_id t) (snapshot s))
      (Some (n + cash_count (t_is_cash t) (t_id t) (snapshot s))) s" for n
    unfolding TUF2_cash_def by (rule writes_first_cash)
      (use tu.query_read [OF tuf2_planned(5) tuf2_sql(3)] assms tuf2_one_cash [OF assms] in \<open>auto simp: tuf2_ok_def tuf2_ready_def\<close>)
  show ?thesis
    unfolding TUF2_report_def [abs_def]
    apply (rule writes_bind [OF tuf2_settlement_writes [OF assms]], simp only: not_True_eq_False if_False)
    apply (rule writes_bind [OF cash], simp add: Let_def)
    by (rule writes_map [OF tuf2_history_writes [OF h]]) simp
qed

lemma tuf2_body:
  assumes "tuf2_ok t s"
  shows "writes TU_small TUF2_statements s (TUF2_trade (tu_spi pg) mu (account_trade_values t) k)
    (tuf2_es pg t k (tuf2_upd mu t k s)) (True, tuf2_nxt mu t k s) (tuf2_upd mu t k s)"
proof -
  let ?s = "tuf2_upd mu t k s" and ?k = "k\<lparr>trades := Suc (trades k)\<rparr>"
  have main: "writes TU_small TUF2_statements s (emit_rows TU_small TUF2_row (trades k) [account_trade_values t])
      (tuf2_row_es (trades k) t) (Suc (trades k)) s"
    using writes_rows [of "[t]" TUF2_row account_trade_values tuf2_row_es TU_small TUF2_statements s "trades k"]
    by (simp add: TUF2_row_values)
  have vals: "SPI_getvalue (account_trade_values t) 3 = bool_txt (t_is_cash t)" "SPI_getvalue (account_trade_values t) 4 = int_txt (t_id t)"
    by (simp_all add: account_trade_values_def)
  have i: "in_i64 (t_id t)" and st: "settled (t_id t) (snapshot s)" using assms by (simp_all add: tuf2_ok_def tuf2_ready_def)
  let ?step = "\<lambda>f. if int (num_updated ?k) < mu then TUF2_update (tu_spi pg) (t_id t) (t_is_cash t) ?k f else Ok ((True, ?k), f)"
  let ?k' = "?k\<lparr>num_updated := num_updated k + (if int (num_updated k) < mu then 1 else 0)\<rparr>"
  have step: "?step f = Ok ((True, ?k'), f\<lparr>session := ?s\<rparr>)" if "set TUF2_statements \<subseteq> set (plans f)" "session f = s" for f
  proof (cases "int (num_updated k) < mu")
    case True
    then show ?thesis using tuf2_update [OF assms _ that, of ?k mu pg] by simp
  next
    case False
    then have "?s = s" by (simp add: tuf2_upd_def limited_upd_def)
    with False that show ?thesis by auto
  qed
  have nxt: "tuf2_nxt mu t k s = ?k'\<lparr>num_cash_txn := num_cash_txn ?k' + cash_count (t_is_cash t) (t_id t) (snapshot s)\<rparr>"
    using st by (simp add: tuf2_nxt_def)
  have report: "writes TU_small TUF2_statements ?s (TUF2_report (tu_spi pg) (t_id t) (t_is_cash t) ?k')
    (rows_emits (settlement_es pg True True) 0 (settlements (t_id t) (current ?s))
      @ cash_part pg False Plain (t_is_cash t) (num_cash_txn k) (t_id t) (snapshot ?s) @ three_es pg True (t_id t) (snapshot ?s))
    (True, tuf2_nxt mu t k s) ?s"
    using tuf2_report [OF tuf2_upd_ok [OF assms assms, of mu k], of pg ?k'] unfolding nxt by simp
  show ?thesis
    unfolding TUF2_trade_def [abs_def] tuf2_es_def
    apply (rule writes_bind [OF main])
    apply (simp only: Let_def vals from_ptr.simps obind.simps is_t_bool atoll_show_int [OF i])
    by (rule writes_call [OF step]) (use report in simp_all)
qed


subsection \<open>Column by column\<close>

text \<open>All columns but those of the cash transaction count trades.\<close>

definition tu_counter :: "trade_col \<Rightarrow> tu_counters \<Rightarrow> nat" where
  "tu_counter c k = (if c \<in> set cash_cols then num_cash_txn k else trades k)"

definition tuf2_els :: "pgapi \<Rightarrow> trade_col \<Rightarrow> trade_row \<Rightarrow> db \<Rightarrow> db \<Rightarrow> string list" where
  "tuf2_els pg c t d cur =
     (if c \<in> set settlement_cols then settlement_els pg True True c (t_id t) cur
      else if c \<in> set cash_cols then cash_els pg False (t_is_cash t) c (t_id t) d
      else if c \<in> set history_cols then history_els pg True False ''NULL'' c (t_id t) d
      else [trade_el pg c t])"

lemma out_three_es:
  "out c (three_es pg qd i d) =
     (if c \<in> set history_cols then joined True (history_els pg qd False ''NULL'' c i d) else [])"
  by (simp add: three_es_def history_els_def out_history_rows out_history_pad joined_append)

lemma extras_three_es [simp]: "extras c (three_es pg qd i d) = 0"
  by (simp add: three_es_def)

lemma three_es_in: "\<forall>e \<in> set (three_es pg qd i d). late_in history_cols e"
  using details_in(2,5) by (simp add: three_es_def ball_Un)

lemma out_tuf2:
  assumes "c \<in> set TUF2_closes" "settlements (t_id t) (current s) \<noteq> []"
  shows "out c (tuf2_es pg t k s) = joined (tu_counter c k = 0) (tuf2_els pg c t (snapshot s) (current s))"
proof -
  have "joined False (map (settlement_el pg True True c) (settlements (t_id t) (current s))) =
      '','' @ joined True (map (settlement_el pg True True c) (settlements (t_id t) (current s)))"
    using assms(2) by (intro joined_False_nonempty) simp
  then show ?thesis
    using assms(1)
    by (auto simp: tuf2_es_def tuf2_row_es_def tuf2_els_def TUF2_closes_def trade_el_def out_settlement_rows out_cash_part
        out_three_es tu_counter_def settlement_els_def joined_False_nonempty [OF history_els_nonempty])
qed

lemma tuf2_counter:
  assumes "c \<in> set TUF2_closes" "settlements (t_id t) cur \<noteq> []"
  shows "tu_counter c (tuf2_nxt mu t k s) = 0 \<longleftrightarrow> tu_counter c k = 0 \<and> tuf2_els pg c t (snapshot s) cur = []"
  using assms
  by (auto simp: tuf2_nxt_def tuf2_els_def tu_counter_def settlement_els_def cash_els_Nil TUF2_closes_def)

definition tuf2_width :: "trade_col \<Rightarrow> nat" where
  "tuf2_width c =
     (case c of
        i_settlement_amount \<Rightarrow> 12 | i_settlement_cash_due_date \<Rightarrow> 62 | i_settlement_cash_type \<Rightarrow> 42
      | i_cash_transaction_amount \<Rightarrow> 12 | i_cash_transaction_dts \<Rightarrow> 62 | i_cash_transaction_name \<Rightarrow> 102
      | i_trade_history_dts \<Rightarrow> 62 | i_trade_history_status_id \<Rightarrow> 4 | _ \<Rightarrow> trade_width c)"

lemma tuf2_els_width:
  assumes "good_trade pg t d" "details_sized pg cur" "x \<in> set (tuf2_els pg c t d cur)"
  shows "length x \<le> tuf2_width c"
proof -
  note d = good_trade_keyed [OF assms(1)]
  consider "c \<in> set settlement_cols" "x \<in> set (settlement_els pg True True c (t_id t) cur)"
    | "c \<in> set cash_cols" "x \<in> set (cash_els pg False (t_is_cash t) c (t_id t) d)"
    | "c \<in> set history_cols" "x \<in> set (history_els pg True False ''NULL'' c (t_id t) d)"
    | "c \<notin> set settlement_cols" "c \<notin> set cash_cols" "c \<notin> set history_cols" "x = trade_el pg c t"
    using assms(3) by (auto simp: tuf2_els_def split: if_splits)
  then show ?thesis
  proof cases
    case 1
    with settlement_els_width [OF assms(2) 1(2)] show ?thesis by (auto simp: tuf2_width_def)
  next
    case 2
    with cash_els_width [OF d(2,3) _ 2(2)] show ?thesis by (auto simp: tuf2_width_def)
  next
    case 3
    with history_els_width [OF d(2) _ 3(2)] show ?thesis by (auto simp: tuf2_width_def)
  next
    case 4
    with trade_el_width [OF assms(1), of c] show ?thesis by (cases c) (auto simp: tuf2_width_def)
  qed
qed

lemma tuf2_emits_in: "\<forall>e \<in> set (tuf2_es pg t k s). late_in TUF2_closes e"
proof -
  have "\<forall>e \<in> set (tuf2_row_es n t). late_in TUF2_closes e" for n
    by (auto simp: late_in_def tuf2_row_es_def TUF2_closes_def seps_def quote_as_def split: if_splits)
  moreover have "set settlement_cols \<subseteq> set TUF2_closes" "set cash_cols \<subseteq> set TUF2_closes" "set history_cols \<subseteq> set TUF2_closes"
    by (auto simp: TUF2_closes_def)
  note late_in_mono [OF details_in(1) this(1)] late_in_mono [OF parts_in(2) this(2), of Plain] late_in_mono [OF three_es_in this(3)]
  ultimately show ?thesis by (simp add: tuf2_es_def ball_Un)
qed

lemma extras_tuf2 [simp]: "extras c (tuf2_es pg t k s) = 0"
  by (simp add: tuf2_es_def tuf2_row_es_def)

subsection \<open>All rounds\<close>

lemma num_updated_tuf2_nxt:
  "num_updated (tuf2_nxt mu t k s) = num_updated k + (if int (num_updated k) < mu \<and> settled (t_id t) (snapshot s) then 1 else 0)"
  by (simp add: tuf2_nxt_def)

lemma tuf2_els_retyped:
  assumes "t_id t \<in> U \<longleftrightarrow> t_id t \<in> V"
  shows "tuf2_els pg c t d (retyped U d) = tuf2_els pg c t d (retyped V d)"
proof -
  have "settlements (t_id t) (retyped U d) = settlements (t_id t) (retyped V d)"
    using assms unfolding settlements_retyped by (auto simp: retyped_row_def settlements_def)
  then show ?thesis by (simp add: tuf2_els_def settlement_els_def)
qed

interpretation tuf2u: limited_updates t_id settled "\<lambda>t d. set_cash_type t (new_cash_type t d)" retyped
  "\<lambda>d. distinct (map se_t_id (settlement_tbl d))" num_updated "tuf2_nxt mu" mu "tuf2_els pg" for pg mu
  by unfold_locales (simp add: touch_retyped, rule retyped_none, rule num_updated_tuf2_nxt, erule tuf2_els_retyped)


subsection \<open>The frame as a whole\<close>

definition tuf2_good :: "pgapi \<Rightarrow> trade_row \<Rightarrow> pgsession \<Rightarrow> bool" where
  "tuf2_good pg t s \<longleftrightarrow> tuf2_ok t s \<and> trades_sized pg (snapshot s)"

lemma tuf2_current_settled: "tuf2_ok t s \<Longrightarrow> settlements (t_id t) (current s) \<noteq> []"
  by (auto simp: tuf2_ok_def tuf2_ready_def settled_def settlements_retyped)

lemma tuf2_good_sized:
  assumes "tuf2_good pg t s"
  shows "good_trade pg t (snapshot s)" "details_sized pg (current s)"
proof -
  obtain U where "current s = retyped U (snapshot s)" using assms by (auto simp: tuf2_good_def tuf2_ok_def)
  then show "good_trade pg t (snapshot s)" "details_sized pg (current s)"
    using assms by (auto simp: tuf2_good_def tuf2_ok_def tuf2_ready_def good_trade_def trades_sized_def intro: details_retyped)
qed

lemma tuf2_els_le:
  assumes "tuf2_ok t s"
  shows "length (tuf2_els pg c t (snapshot s) (current s)) \<le> (if c \<in> set history_cols then 3 else 1)"
proof -
  obtain U where U: "current s = retyped U (snapshot s)" and k: "trades_keyed (snapshot s)"
    using assms by (auto simp: tuf2_ok_def tuf2_ready_def)
  show ?thesis
    using settlements_le [OF k, of "t_id t"] cash_els_le [OF k]
    by (auto simp: tuf2_els_def settlement_els_def U settlements_retyped)
qed

interpretation tuf2: array_loop TU_small "\<lambda>t. TUF2_trade (tu_spi pg) mu (account_trade_values t)"
  "\<lambda>t k s. tuf2_es pg t k (tuf2_upd mu t k s)" "tuf2_nxt mu" "tuf2_upd mu" tuf2_ok TUF2_statements TUF2_closes tu_counters0 tu_counter
  "\<lambda>c t k s. tuf2_els pg c t (snapshot s) (current (tuf2_upd mu t k s))" "tuf2_good pg"
  "\<lambda>c. if c \<in> set history_cols then 3 else 1" tuf2_width "\<lambda>_. 0" "\<lambda>_. 1"
  for pg mu
proof
  fix c t s x and k :: tu_counters
  let ?s = "tuf2_upd mu t k s"
  show "\<forall>(c, md, x) \<in> set (tuf2_es pg t k ?s). c \<in> set TUF2_closes \<and> room md x \<le> 1"
    using tuf2_emits_in [of pg t k ?s] by (fastforce simp: late_in_def room_def)
  assume good: "tuf2_good pg t s"
  then have upd: "tuf2_ok t ?s" "tuf2_good pg t ?s" by (simp_all add: tuf2_good_def tuf2_upd_ok)
  show "length (tuf2_els pg c t (snapshot s) (current ?s)) \<le> (if c \<in> set history_cols then 3 else 1)"
    using tuf2_els_le [OF upd(1), of pg c] by simp
  show "c \<in> set TUF2_closes \<Longrightarrow> x \<in> set (tuf2_els pg c t (snapshot s) (current ?s)) \<Longrightarrow> length x \<le> tuf2_width c"
    using tuf2_els_width [of pg t "snapshot s" "current ?s" x c] tuf2_good_sized [OF upd(2)] by simp
next
  fix c t s and k :: tu_counters
  assume "tuf2_ok t s" "c \<in> set TUF2_closes"
  then have ne: "settlements (t_id t) (current (tuf2_upd mu t k s)) \<noteq> []" by (intro tuf2_current_settled tuf2_upd_ok)
  show "out c (tuf2_es pg t k (tuf2_upd mu t k s)) =
      joined (tu_counter c k = 0) (tuf2_els pg c t (snapshot s) (current (tuf2_upd mu t k s)))"
    using out_tuf2 [OF \<open>c \<in> set TUF2_closes\<close> ne] by simp
  show "tu_counter c (tuf2_nxt mu t k s) = 0 \<longleftrightarrow>
      tu_counter c k = 0 \<and> tuf2_els pg c t (snapshot s) (current (tuf2_upd mu t k s)) = []"
    by (rule tuf2_counter [OF \<open>c \<in> set TUF2_closes\<close> ne])
qed (auto simp: tuf2_body tuf2_upd_ok tuf2_good_def tu_counter_def tu_counters0_def, simp add: TUF2_closes_def)

text \<open>What the frame returns: \<open>d\<close> is the database before the call, \<open>cur\<close> after it.\<close>

definition tuf2_out :: "pgapi \<Rightarrow> trade_row list \<Rightarrow> nat \<Rightarrow> db \<Rightarrow> db \<Rightarrow> spi_row" where
  "tuf2_out pg ts n d cur = map (\<lambda>c.
     if c = i_num_found then int_txt (int (length ts))
     else if c = i_num_updated then int_txt (int n)
     else Some (array_text (concat (map (\<lambda>t. tuf2_els pg c t d cur) ts)))) tuf2_order"

lemma tuf2_bufs: "fst ` set TUF2_bufs = set TUF2_closes" "distinct (map fst TUF2_bufs)"
  by (auto simp: TUF2_bufs_def TUF2_closes_def)

lemma tuf2_sizes_suffice:
  "(c, len) \<in> set TUF2_bufs \<Longrightarrow> 2 \<le> len \<and> len < 2 ^ 30 \<and>
     int (tuf2_width c + 1) * (int (if c \<in> set history_cols then 3 else 1) * 20) + 1 + int 0 * 20 + 1 \<le> len"
  by (auto simp: TUF2_bufs_def tuf2_width_def trade_width_def)

text \<open>
  C19. The second frame of Trade-Update.  Of the trades of the account in the period, in order of time,
  the first \<open>max_trades\<close> are returned; the settlements of the first \<open>max_updates\<close> of these change
  their type to the other of \<open>Cash\<close> and \<open>Cash Account\<close>, or \<open>Margin\<close> and \<open>Margin Account\<close>, as the trade
  is settled (\<open>other_type\<close>), nothing else changes, and the row shows the types as changed.
\<close>

theorem TradeUpdateFrame2_row:
  assumes "\<And>s. s \<in> set TUF2_statements \<Longrightarrow> prepare s" "session f = start_call d" "trades_sized pg d"
    and "0 \<le> max_trades" "max_trades \<le> 20" "ts = take (nat max_trades) (account_trades acct since till d)"
    and "\<forall>t \<in> set ts. tuf2_ready t d" "us = chosen (\<lambda>t. settled t d) max_updates (map t_id ts)"
  shows "\<exists>ps. TradeUpdateFrame2 prepare (tu_spi pg) acct till max_trades max_updates since f =
    Ok ([tuf2_out pg ts (length us) d (retyped (set us) d)], (set_db (retyped (set us) d) f)\<lparr>max_calls := 1, plans := ps\<rparr>)"
proof -
  let ?cur = "retyped (set us) d"
  let ?args = "[DInt64 acct, DTimestamp since, DTimestamp till, DInt32 max_trades]"
  obtain ps where ps: "plan_queries prepare TUF2_statements (f\<lparr>max_calls := Suc 0\<rparr>) = Ok (f\<lparr>max_calls := Suc 0, plans := ps\<rparr>)"
    and sub: "set TUF2_statements \<subseteq> set ps"
    using planned [of TUF2_statements prepare "f\<lparr>max_calls := Suc 0\<rparr>", OF assms(1)] by auto
  let ?g = "f\<lparr>max_calls := Suc 0, plans := ps\<rparr>"
  have sub: "set TUF2_statements \<subseteq> set (plans ?g)" using sub by simp
  have keyed: "distinct (map se_t_id (settlement_tbl d))" using assms(3) by (simp add: trades_sized_def trades_keyed_def)
  have us: "us = chosen (\<lambda>t. settled t d) (max_updates - int (num_updated tu_counters0)) (map t_id ts)"
    using assms(8) by (simp add: tu_counters0_def)
  have s: "session ?g = \<lparr>snapshot = d, current = retyped {} d\<rparr>" using assms(2) by (simp add: start_call_def retyped_none)
  have rows: "tu_sql pg ?args TUF2_1 d = Ok (SPI_OK_SELECT (map account_trade_values (take (nat max_trades) (account_trades acct since till d))), d)" for d
    using assms(4) by (simp add: tu_sql_def SQLTUF2_1_def sql_limit_def take_map)
  have first: "query (tu_spi pg) True TUF2_1 ?args ?g = Ok (Some (map account_trade_values ts), ?g)"
    using tu.query_read [where rows = "\<lambda>d. map account_trade_values (take (nat max_trades) (account_trades acct since till d))",
        OF tuf2_planned(1) rows sub refl] unfolding s assms(6) by (simp add: assms(2) start_call_def retyped_none)
  have good: "\<forall>t \<in> set ts. tuf2_good pg t (session ?g)"
    using assms(3,7) unfolding s by (auto simp: tuf2_good_def tuf2_ok_def)
  have len: "int (length ts) \<le> 20" using assms(5,6) by simp
  have pal: "pallocs TUF2_bufs = Ok ()" by (rule pallocs_ok) (auto simp: TUF2_bufs_def)
  let ?k = "loop_state (tuf2_nxt max_updates) (tuf2_upd max_updates) ts tu_counters0 (session ?g)"
  have k: "num_updated ?k = length us"
    using tuf2u.upds [OF keyed, of max_updates ts tu_counters0 "{}"] us unfolding s tuf2_upd_def by (simp add: tu_counters0_def)
  have "length us \<le> length ts" using length_chosen [of _ _ "map t_id ts"] by (simp add: assms(8))
  then have counts: "snprintf_d (INTEGER_LEN + 1) (int (length us)) = show_int (int (length us))"
    "snprintf_d (INTEGER_LEN + 1) (int (length ts)) = show_int (int (length ts))"
    using len by (intro snprintf_count, linarith)+
  have end_session: "loop_session (tuf2_nxt max_updates) (tuf2_upd max_updates) ts tu_counters0 (session ?g) = \<lparr>snapshot = d, current = ?cur\<rparr>"
    using tuf2u.session [OF keyed, of max_updates ts tu_counters0 "{}"] us unfolding s tuf2_upd_def by simp
  have els: "loop_els (\<lambda>t k s. tuf2_els pg c t (snapshot s) (current (tuf2_upd max_updates t k s))) (tuf2_nxt max_updates)
      (tuf2_upd max_updates) ts tu_counters0 (session ?g) = concat (map (\<lambda>t. tuf2_els pg c t d ?cur) ts)" for c
    using tuf2u.elements [OF keyed, of pg c max_updates ts tu_counters0 "{}"] us unfolding s tuf2_upd_def by simp
  obtain bufs bufs' where b: "open_bufs TUF2_bufs = Ok bufs"
    and run: "\<And>cont :: tu_counters \<Rightarrow> trade_col bufs \<Rightarrow> (tu_stmt, pgsession) fctx \<Rightarrow> (spi_row list \<times> (tu_stmt, pgsession) fctx) outcome.
      obind (for_each (\<lambda>t. TUF2_trade (tu_spi pg) max_updates (account_trade_values t)) ts tu_counters0 bufs ?g)
        (\<lambda>((k, bufs), f). obind (emits TU_small (closes TUF2_closes) bufs f) (\<lambda>(bufs, f). cont k bufs f)) =
      cont ?k bufs' (?g\<lparr>session := \<lparr>snapshot = d, current = ?cur\<rparr>\<rparr>)"
    and arrays: "\<forall>c \<in> set TUF2_closes. ctext (fst (bufs' c)) = array_text (concat (map (\<lambda>t. tuf2_els pg c t d ?cur) ts))"
    using tuf2.frame [OF tuf2_bufs(2,1) good len _ tuf2_sizes_suffice closing_closes sub, of max_updates] unfolding els end_session
    by (auto simp: TUF2_closes_def)
  have "TradeUpdateFrame2 prepare (tu_spi pg) acct till max_trades max_updates since f =
      srf_return (map ((buf_slots TUF2_bufs bufs' (\<lambda>_. Uninit))(i_num_found := Str (show_int (int (length ts))),
        i_num_updated := Str (show_int (int (length us))))) tuf2_order) (?g\<lparr>session := \<lparr>snapshot = d, current = ?cur\<rparr>\<rparr>)"
    using run k counts by (simp add: TradeUpdateFrame2_def pal ps first b for_each_map Let_def)
  moreover have "f\<lparr>session := \<lparr>snapshot = d, current = ?cur\<rparr>\<rparr> = set_db ?cur f"
    using assms(2) by (simp add: set_db_def start_call_def)
  ultimately show ?thesis using arrays
    by (intro exI [of _ ps]) (simp add: srf_return_def tuf2_out_def buf_slots_def tuf2_bufs tuf2_order_def TUF2_closes_def set_db_def start_call_def assms(2))
qed


theorem TradeUpdateFrame2_row_witness:
  "\<exists>ps. TradeUpdateFrame2 (\<lambda>_. True) (tu_spi sample_pg) 1 100 20 1 0 (update_ctx (update_db ''Ann'')) =
    Ok ([[Some ''{12.00}'', Some ''{360.30}'', Some ''{\"21\"}'', Some ''{\"Market-Sell 30 Shares of AB\"}'', Some ''{\"Ann\"}'',
       Some ''{1}'', Some ''1'', Some ''1'', Some ''{360.30}'', Some ''{\"41\"}'', Some ''{\"Cash\"}'',
       Some ''{\"20\",\"21\",NULL}'', Some ''{SBMT,CMPT,NULL}'', Some ''{9}'', Some ''{12.01}'']],
      (set_db (set_cash_type 9 ''Cash'' (update_db ''Ann'')) (update_ctx (update_db ''Ann'')))\<lparr>max_calls := 1, plans := ps\<rparr>)"
proof -
  let ?d = "update_db ''Ann''"
  let ?t = "sample_trade\<lparr>t_trade_price := Some 1201, t_exec_name := ''Ann''\<rparr>"
  have trades: "account_trades 1 0 100 ?d = [?t]" by (simp add: account_trades_def order_asc_def update_tables sample_rows)
  have us: "chosen (\<lambda>t. settled t ?d) 1 (map t_id [?t]) = [9]"
    by (simp add: chosen_def settled_def settlements_def update_tables lookup_tables sample_rows)
  have e: "retyped {9} ?d = set_cash_type 9 ''Cash'' ?d"
    by (simp add: retyped_def retyped_row_def set_cash_type_def update_where_def other_type_def account_kind_def trades_with_def update_tables
        lookup_tables sample_rows)
  have ready: "\<forall>t \<in> set [?t]. tuf2_ready t ?d"
    using update_sized [of "''Ann''"]
    by (simp add: trades_sized_def tuf2_ready_def named_cash_def settled_def settlements_def histories_def order_asc_def update_tables
        sample_rows cash_transactions_def lookup_tables in_i64_def)
  have out: "tuf2_out sample_pg [?t] 1 ?d (set_cash_type 9 ''Cash'' ?d) =
      [Some ''{12.00}'', Some ''{360.30}'', Some ''{\"21\"}'', Some ''{\"Market-Sell 30 Shares of AB\"}'', Some ''{\"Ann\"}'',
       Some ''{1}'', Some ''1'', Some ''1'', Some ''{360.30}'', Some ''{\"41\"}'', Some ''{\"Cash\"}'',
       Some ''{\"20\",\"21\",NULL}'', Some ''{SBMT,CMPT,NULL}'', Some ''{9}'', Some ''{12.01}'']"
    by (simp add: tuf2_out_def tuf2_order_def tuf2_els_def trade_el_def set_cash_type_def update_where_def update_tables lookup_eval)
  show ?thesis
    using TradeUpdateFrame2_row [of "\<lambda>_. True" "update_ctx ?d" ?d sample_pg 20 "[?t]" 1 0 100 "[9]" 1] us ready trades
      update_sized [of "''Ann''"] out by (simp add: update_ctx_def e)
qed

end
