(* ===== verification/LookupSymbol.thy ===== *)
theory LookupSymbol
  imports LookupAccount
begin

text \<open>
  Frames 3 and 4 of Trade-Lookup: the trades of a security within a period, and the holding
  history of the first trade of an account from a date on.
\<close>

section \<open>Frame 3: trades of a security\<close>

definition tlf3_order :: "trade_col list" where
  "tlf3_order = [i_acct_id, i_cash_transaction_amount, i_cash_transaction_dts, i_cash_transaction_name, i_exec_name,
     i_is_cash, i_num_found, i_price, i_quantity, i_settlement_amount, i_settlement_cash_due_date, i_settlement_cash_type,
     i_trade_dts, i_trade_history_dts, i_trade_history_status_id, i_trade_list, i_trade_type]"

definition TLF3_bufs :: "int \<Rightarrow> (trade_col \<times> int) list" where
  "TLF3_bufs max_trades =
     [(i_acct_id, i32 ((int IDENT_T_LEN + 1) * max_trades + 2)),
      (i_cash_transaction_amount, i32 ((int VALUE_T_LEN + 1) * max_trades + 2)),
      (i_cash_transaction_dts, i32 ((int MYMAXDATELEN + 1) * max_trades + 2)),
      (i_cash_transaction_name, i32 ((int CT_NAME_LEN + 3) * max_trades + 2)),
      (i_exec_name, i32 ((int T_EXEC_NAME_LEN + 3) * max_trades + 2)),
      (i_is_cash, i32 ((int BOOLEAN_LEN + 1) * max_trades + 2)),
      (i_price, i32 ((int S_PRICE_T_LEN + 1) * max_trades + 2)),
      (i_quantity, i32 ((int INTEGER_LEN + 1) * max_trades + 2)),
      (i_settlement_amount, i32 ((int VALUE_T_LEN + 1) * max_trades + 2)),
      (i_settlement_cash_due_date, i32 ((int MYMAXDATELEN + 1) * max_trades + 2)),
      (i_settlement_cash_type, i32 ((int SE_CASH_TYPE_LEN + 3) * max_trades + 2)),
      (i_trade_dts, i32 ((int MYMAXDATELEN * 3 + 4) * max_trades + max_trades + 2)),
      (i_trade_history_dts, i32 ((int MYMAXDATELEN * 3 + 4) * max_trades + max_trades + 2)),
      (i_trade_history_status_id, i32 ((int ST_ID_LEN + 3) * max_trades * 3 + 2)),
      (i_trade_list, i32 ((int TRADE_T_LEN + 1) * max_trades + 2)),
      (i_trade_type, i32 ((int TT_ID_LEN + 3) * max_trades + 2))]"

definition TLF3_row :: "nat \<Rightarrow> spi_row \<Rightarrow> trade_col emit list outcome" where
  "TLF3_row n row =
     obind (from_ptr (SPI_getvalue row 1)) (\<lambda>acct_id.
     obind (from_ptr (SPI_getvalue row 2)) (\<lambda>exec_name.
     obind (from_ptr (SPI_getvalue row 3)) (\<lambda>is_cash_str.
     obind (from_ptr (SPI_getvalue row 5)) (\<lambda>quantity.
     obind (from_ptr (SPI_getvalue row 6)) (\<lambda>trade_dts.
     obind (from_ptr (SPI_getvalue row 7)) (\<lambda>trade_list_str.
     obind (from_ptr (SPI_getvalue row 8)) (\<lambda>trade_type.
     Ok (seps n [i_acct_id, i_exec_name, i_is_cash, i_price, i_quantity, i_trade_dts, i_trade_list, i_trade_type]
       @ [(i_acct_id, Plain, acct_id)]
       @ quote_as Extra i_exec_name exec_name
       @ [(i_is_cash, Plain, bit_text (is_t is_cash_str)), (i_price, Plain, or_NULL (SPI_getvalue row 4)),
          (i_quantity, Plain, quantity)]
       @ quote_as Plain i_trade_dts trade_dts
       @ [(i_trade_list, Plain, trade_list_str)]
       @ quote_as Plain i_trade_type trade_type))))))))"

definition TLF3_settlement :: "nat \<Rightarrow> spi_row \<Rightarrow> trade_col emit list outcome" where
  "TLF3_settlement = settlement_cells True True"

text \<open>
  The cash transaction is looked up for every trade, and a trade that is not settled in cash gets
  its padding after whatever was found.
\<close>

definition TLF3_cash :: "(tl_stmt, 'd) spi \<Rightarrow> datum list \<Rightarrow> bool \<Rightarrow> nat \<Rightarrow> trade_col bufs \<Rightarrow> (tl_stmt, 'd) fctx \<Rightarrow>
    ((nat option \<times> trade_col bufs) \<times> (tl_stmt, 'd) fctx) outcome" where
  "TLF3_cash spi args is_cash n bufs f =
     obind (append_query TL_small spi True TLF3_3 args (cash_cells False Extra) n bufs f) (\<lambda>((r, bufs), f).
     case r of
       None \<Rightarrow> Ok ((None, bufs), f)
     | Some n \<Rightarrow>
         if is_cash then Ok ((Some n, bufs), f)
         else obind (emits TL_small (cash_pad n) bufs f) (\<lambda>(bufs, f). Ok ((Some (Suc n), bufs), f)))"

definition TLF3_history :: "(tl_stmt, 'd) spi \<Rightarrow> datum list \<Rightarrow> nat \<Rightarrow> trade_col bufs \<Rightarrow> (tl_stmt, 'd) fctx \<Rightarrow>
    ((nat option \<times> trade_col bufs) \<times> (tl_stmt, 'd) fctx) outcome" where
  "TLF3_history spi args = append_history TL_small spi True TLF3_4 args True True ''\"\"''"

definition TLF3_trade :: "(tl_stmt, 'd) spi \<Rightarrow> spi_row \<Rightarrow> counters \<Rightarrow> trade_col bufs \<Rightarrow> (tl_stmt, 'd) fctx \<Rightarrow>
    (((bool \<times> counters) \<times> trade_col bufs) \<times> (tl_stmt, 'd) fctx) outcome" where
  "TLF3_trade spi row k bufs f =
     obind (emit_rows TL_small TLF3_row (trades k) [row] bufs f) (\<lambda>((n, bufs), f).
     let k = k\<lparr>trades := n\<rparr> in
     obind (from_ptr (SPI_getvalue row 3)) (\<lambda>is_cash_str.
     obind (from_ptr (SPI_getvalue row 7)) (\<lambda>trade_list_str.
     let args = [DInt64 (atoll trade_list_str)] in
     obind (append_query TL_small spi True TLF3_2 args TLF3_settlement (num_settlement k) bufs f)
       (\<lambda>((r, bufs), f). case r of None \<Rightarrow> Ok (((False, k), bufs), f) | Some n \<Rightarrow>
     let k = k\<lparr>num_settlement := n\<rparr> in
     obind (TLF3_cash spi args (is_t is_cash_str) (num_cash_txn k) bufs f)
       (\<lambda>((r, bufs), f). case r of None \<Rightarrow> Ok (((False, k), bufs), f) | Some n \<Rightarrow>
     let k = k\<lparr>num_cash_txn := n\<rparr> in
     obind (TLF3_history spi args (num_history k) bufs f)
       (\<lambda>((r, bufs), f). case r of None \<Rightarrow> Ok (((False, k), bufs), f) | Some n \<Rightarrow>
     Ok (((True, k\<lparr>num_history := n\<rparr>), bufs), f)))))))"

text \<open>The closing brace of the column of flags is not deducted.\<close>

definition TLF3_closes :: "trade_col emit list" where
  "TLF3_closes = closes [i_acct_id, i_cash_transaction_amount, i_cash_transaction_dts, i_cash_transaction_name, i_exec_name]
     @ [(i_is_cash, Keep, ''}'')]
     @ closes [i_price, i_quantity, i_settlement_amount, i_settlement_cash_due_date, i_settlement_cash_type, i_trade_dts,
         i_trade_history_dts, i_trade_history_status_id, i_trade_list, i_trade_type]"

text \<open>
  \<open>strncpy(symbol, \<dots>, sizeof(symbol))\<close> without a terminator of its own: a text that fills the
  buffer is read past its end.
\<close>

definition copy_raw :: "nat \<Rightarrow> string \<Rightarrow> string outcome" where
  "copy_raw sz s = (if NUL \<in> set (strncpy s sz) then Ok (c_str (strncpy s sz)) else Fail Crash)"

definition TradeLookupFrame3 ::
    "(tl_stmt \<Rightarrow> bool) \<Rightarrow> (tl_stmt, 'd) spi \<Rightarrow> int \<Rightarrow> int \<Rightarrow> int \<Rightarrow> string \<Rightarrow> (tl_stmt, 'd) fctx \<Rightarrow>
     (spi_row list \<times> (tl_stmt, 'd) fctx) outcome" where
  "TradeLookupFrame3 prepare spi end_trade_dts max_trades start_trade_dts symbol_p f =
     obind (pallocs (TLF3_bufs max_trades)) (\<lambda>_.
     obind (plan_queries prepare TLF3_statements (f\<lparr>max_calls := 1\<rparr>)) (\<lambda>f.
     obind (copy_raw (S_SYMB_LEN + 1) symbol_p) (\<lambda>symbol.
     obind (query spi True TLF3_1 [DText symbol, DTimestamp start_trade_dts, DTimestamp end_trade_dts, DInt32 max_trades] f)
       (\<lambda>(r, f).
     let (rows, f) = (case r of None \<Rightarrow> ([], FAIL_FRAME_SET TLF3_1 f) | Some rows \<Rightarrow> (rows, f)) in
     obind (open_bufs (TLF3_bufs max_trades)) (\<lambda>bufs.
     obind (for_each (TLF3_trade spi) rows counters0 bufs f) (\<lambda>((k, bufs), f).
     obind (emits TL_small TLF3_closes bufs f) (\<lambda>(bufs, f).
     let vals = (buf_slots (TLF3_bufs max_trades) bufs (\<lambda>_. Uninit))
       (i_num_found := Str (snprintf_d (INTEGER_LEN + 1) (int (length rows)))) in
     srf_return (map vals tlf3_order) f)))))))"

section \<open>Frame 4: the holding history of a trade\<close>

datatype tlf4 = tlf4_holding_history_id | tlf4_holding_history_trade_id | tlf4_num_found | tlf4_num_trades_found
  | tlf4_quantity_after | tlf4_quantity_before | tlf4_trade_id

definition tlf4_order :: "tlf4 list" where
  "tlf4_order = [tlf4_holding_history_id, tlf4_holding_history_trade_id, tlf4_num_found, tlf4_num_trades_found,
     tlf4_quantity_after, tlf4_quantity_before, tlf4_trade_id]"

text \<open>The four columns in the order of the query: slots, warnings, bytes allocated.\<close>

definition TLF4_columns :: "tlf4 list" where
  "TLF4_columns = [tlf4_holding_history_id, tlf4_holding_history_trade_id, tlf4_quantity_before, tlf4_quantity_after]"

definition TLF4_warnings :: "tl_stmt list" where
  "TLF4_warnings = [TLF4_history_id_small, TLF4_trade_id_small, TLF4_before_small, TLF4_after_small]"

definition TLF4_lengths :: "int list" where
  "TLF4_lengths = [(int TRADE_T_LEN + 1) * 20 + 2, (int TRADE_T_LEN + 1) * 20 + 2, (int S_QTY_T_LEN + 1) * 20 + 2,
     (int S_QTY_T_LEN + 1) * 20 + 2]"

definition TradeLookupFrame4 ::
    "(tl_stmt \<Rightarrow> bool) \<Rightarrow> (tl_stmt, 'd) spi \<Rightarrow> int \<Rightarrow> int \<Rightarrow> (tl_stmt, 'd) fctx \<Rightarrow>
     (spi_row list \<times> (tl_stmt, 'd) fctx) outcome" where
  "TradeLookupFrame4 prepare spi acct_id start_trade_dts f =
     obind (plan_queries prepare TLF4_statements (f\<lparr>max_calls := 1\<rparr>)) (\<lambda>f.
     obind (query spi True TLF4_1 [DInt64 acct_id, DTimestamp start_trade_dts] f) (\<lambda>(r, f).
     let (trade_id, found, f) = (case r of
           None \<Rightarrow> (None, 0, FAIL_FRAME_SET TLF4_1 f)
         | Some [] \<Rightarrow> (None, 0, f)
         | Some (row # rows) \<Rightarrow> (SPI_getvalue row 1, length (row # rows), f)) in
     obind (case trade_id of
           None \<Rightarrow> Ok (Some [], f)
         | Some t \<Rightarrow> query spi True TLF4_2 [DInt64 (atoll t)] f) (\<lambda>(r, f).
     let (rows, f) = (case r of None \<Rightarrow> ([], FAIL_FRAME_SET TLF4_2 f) | Some rows \<Rightarrow> (rows, f)) in
     obind (build_arrays TLF4_warnings [False, False, False, False] TLF4_lengths rows f) (\<lambda>(arrays, f).
     let vals = set_slots TLF4_columns arrays ((\<lambda>_. Uninit)
       (tlf4_trade_id := Ptr trade_id, tlf4_num_found := Str (snprintf_d (INTEGER_LEN + 1) (int (length rows))),
        tlf4_num_trades_found := Str (snprintf_d (INTEGER_LEN + 1) (int found)))) in
     srf_return (map vals tlf4_order) f))))"

section \<open>What the loop of frame 3 writes\<close>

definition tlf3_row_es :: "pgapi \<Rightarrow> nat \<Rightarrow> trade_row \<Rightarrow> trade_col emit list" where
  "tlf3_row_es pg n t = seps n [i_acct_id, i_exec_name, i_is_cash, i_price, i_quantity, i_trade_dts, i_trade_list, i_trade_type]
     @ [(i_acct_id, Plain, show_int (t_ca_id t))] @ quote_as Extra i_exec_name (t_exec_name t)
     @ [(i_is_cash, Plain, bit_text (t_is_cash t)), (i_price, Plain, or_NULL (map_option (numeric_out 2) (t_trade_price t))),
        (i_quantity, Plain, show_int (t_qty t))]
     @ quote_as Plain i_trade_dts (timestamp_out pg (t_dts t)) @ [(i_trade_list, Plain, show_int (t_id t))]
     @ quote_as Plain i_trade_type (t_tt_id t)"

text \<open>Cash transactions are looked up whatever the flag says.\<close>

definition tlf3_cash_els :: "pgapi \<Rightarrow> trade_col \<Rightarrow> trade_row \<Rightarrow> db \<Rightarrow> string list" where
  "tlf3_cash_els pg c t d = map (cash_el pg False c) (cash_transactions (t_id t) d) @ (if t_is_cash t then [] else [cash_pad_el c])"

definition tlf3_cash_count :: "trade_row \<Rightarrow> db \<Rightarrow> nat" where
  "tlf3_cash_count t d = length (cash_transactions (t_id t) d) + (if t_is_cash t then 0 else 1)"

definition tlf3_cash_part :: "pgapi \<Rightarrow> nat \<Rightarrow> trade_row \<Rightarrow> db \<Rightarrow> trade_col emit list" where
  "tlf3_cash_part pg n t d = rows_emits (cash_es pg False Extra) n (cash_transactions (t_id t) d)
     @ (if t_is_cash t then [] else cash_pad (n + length (cash_transactions (t_id t) d)))"

definition tlf3_es :: "pgapi \<Rightarrow> trade_row \<Rightarrow> counters \<Rightarrow> db \<Rightarrow> trade_col emit list" where
  "tlf3_es pg t k d = tlf3_row_es pg (trades k) t
     @ rows_emits (settlement_es pg True True) (num_settlement k) (settlements (t_id t) d)
     @ tlf3_cash_part pg (num_cash_txn k) t d
     @ history_part pg True True ''\"\"'' (num_history k) (t_id t) d"

definition tlf3_nxt :: "trade_row \<Rightarrow> counters \<Rightarrow> db \<Rightarrow> counters" where
  "tlf3_nxt t k d = k\<lparr>trades := Suc (trades k), num_settlement := num_settlement k + length (settlements (t_id t) d),
     num_cash_txn := num_cash_txn k + tlf3_cash_count t d, num_history := num_history k + 3\<rparr>"

definition tlf3_els :: "pgapi \<Rightarrow> trade_col \<Rightarrow> trade_row \<Rightarrow> db \<Rightarrow> string list" where
  "tlf3_els pg c t d =
     (if c \<in> set settlement_cols then settlement_els pg True True c (t_id t) d
      else if c \<in> set cash_cols then tlf3_cash_els pg c t d
      else if c \<in> set history_cols then history_els pg True True ''\"\"'' c (t_id t) d
      else [trade_el pg c t])"

lemma tlf3_planned: "TLF3_1 \<in> set TLF3_statements" "TLF3_2 \<in> set TLF3_statements" "TLF3_3 \<in> set TLF3_statements"
  "TLF3_4 \<in> set TLF3_statements"
  by (simp_all add: TLF3_statements_def)

lemma tlf3_sql:
  "tl_sql pg [DInt64 i] TLF3_2 d = Ok (SPI_OK_SELECT (map (settlement_values pg) (settlements i d)), d)"
  "tl_sql pg [DInt64 i] TLF3_3 d = Ok (SPI_OK_SELECT (map (cash_values pg) (cash_transactions i d)), d)"
  "tl_sql pg [DInt64 i] TLF3_4 d = Ok (SPI_OK_SELECT (map (history_values pg) (histories i d)), d)"
  by (simp_all add: tl_sql_def SQL_settlement_def SQL_cash_transaction_def SQL_trade_history_def)

lemma TLF3_row_values: "TLF3_row n (symbol_trade_values pg t) = Ok (tlf3_row_es pg n t)"
  by (simp add: TLF3_row_def symbol_trade_values_def tlf3_row_es_def)

lemma tlf3_cash_writes:
  assumes "named_cash (t_id t) (snapshot s)"
  shows "writes TL_small TLF3_statements s (TLF3_cash (tl_spi pg) [DInt64 (t_id t)] (t_is_cash t) n)
    (tlf3_cash_part pg n t (snapshot s)) (Some (n + tlf3_cash_count t (snapshot s))) s"
proof -
  let ?cs = "cash_transactions (t_id t) (snapshot s)"
  have q: "writes TL_small TLF3_statements s (append_query TL_small (tl_spi pg) True TLF3_3 [DInt64 (t_id t)] (cash_cells False Extra) n)
      (rows_emits (cash_es pg False Extra) n ?cs) (Some (n + length ?cs)) s"
    by (rule tl.writes_read [OF tlf3_planned(3) tlf3_sql(2)])
      (use assms in \<open>auto simp: named_cash_def intro!: cash_cells_values\<close>)
  show ?thesis
  proof (cases "t_is_cash t")
    case True
    then show ?thesis
      unfolding TLF3_cash_def [abs_def] tlf3_cash_part_def tlf3_cash_count_def
      by (simp add: True) (rule writes_map [OF q], simp add: True)
  next
    case False
    then show ?thesis
      unfolding TLF3_cash_def [abs_def] tlf3_cash_part_def tlf3_cash_count_def
      by (simp add: False) (rule writes_bind [OF q], simp add: False, rule writes_emits)
  qed
qed

lemma tlf3_body:
  assumes "trade_ok t (snapshot s)"
  shows "writes TL_small TLF3_statements s (TLF3_trade (tl_spi pg) (symbol_trade_values pg t) k) (tlf3_es pg t k (snapshot s))
    (True, tlf3_nxt t k (snapshot s)) s"
proof -
  let ?d = "snapshot s" and ?args = "[DInt64 (t_id t)]"
  have main: "writes TL_small TLF3_statements s (emit_rows TL_small TLF3_row (trades k) [symbol_trade_values pg t])
      (tlf3_row_es pg (trades k) t) (Suc (trades k)) s"
    using writes_rows [of "[t]" TLF3_row "symbol_trade_values pg" "tlf3_row_es pg" TL_small TLF3_statements s "trades k"]
    by (simp add: TLF3_row_values)
  have settled: "writes TL_small TLF3_statements s (append_query TL_small (tl_spi pg) True TLF3_2 ?args TLF3_settlement n)
      (rows_emits (settlement_es pg True True) n (settlements (t_id t) ?d)) (Some (n + length (settlements (t_id t) ?d))) s" for n
    unfolding TLF3_settlement_def by (rule tl.writes_read [OF tlf3_planned(2) tlf3_sql(1)]) (rule settlement_cells_values)
  have cash: "writes TL_small TLF3_statements s (TLF3_cash (tl_spi pg) ?args (t_is_cash t) n)
      (tlf3_cash_part pg n t ?d) (Some (n + tlf3_cash_count t ?d)) s" for n
    by (rule tlf3_cash_writes) (use assms in \<open>simp add: trade_ok_def\<close>)
  have history: "writes TL_small TLF3_statements s (TLF3_history (tl_spi pg) ?args n)
      (history_part pg True True ''\"\"'' n (t_id t) ?d) (Some (n + 3)) s" for n
    unfolding TLF3_history_def by (rule writes_append_history) (use tl.query_read [OF tlf3_planned(4) tlf3_sql(3)] in auto)
  have vals: "SPI_getvalue (symbol_trade_values pg t) 3 = bool_txt (t_is_cash t)" "SPI_getvalue (symbol_trade_values pg t) 7 = int_txt (t_id t)"
    by (simp_all add: symbol_trade_values_def)
  show ?thesis
    unfolding TLF3_trade_def [abs_def] tlf3_es_def
    apply (rule writes_bind [OF main])
    using assms apply (simp add: vals Let_def trade_ok_def tlf3_nxt_def split del: if_split)
    apply (rule writes_bind [OF settled], simp add: Let_def split del: if_split)
    apply (rule writes_bind [OF cash], simp add: Let_def split del: if_split)
    by (rule writes_map [OF history]) (simp split del: if_split)
qed

text \<open>The columns in the order of their closing braces.\<close>

definition tlf3_cols :: "trade_col list" where
  "tlf3_cols = [i_acct_id, i_cash_transaction_amount, i_cash_transaction_dts, i_cash_transaction_name, i_exec_name,
     i_is_cash, i_price, i_quantity, i_settlement_amount, i_settlement_cash_due_date, i_settlement_cash_type, i_trade_dts,
     i_trade_history_dts, i_trade_history_status_id, i_trade_list, i_trade_type]"

lemma closing_TLF3: "closing tlf3_cols TLF3_closes"
  by (auto simp: closing_def TLF3_closes_def tlf3_cols_def) (auto simp: closes_def)

lemma out_tlf3_cash:
  "out c (tlf3_cash_part pg n t d) = (if c \<in> set cash_cols then joined (n = 0) (tlf3_cash_els pg c t d) else [])"
  by (simp add: tlf3_cash_part_def tlf3_cash_els_def out_cash_rows out_cash_pad joined_append)

lemma out_tlf3:
  assumes "c \<in> set tlf3_cols"
  shows "out c (tlf3_es pg t k d) = joined (counter c k = 0) (tlf3_els pg c t d)"
  using assms
  by (auto simp: tlf3_es_def tlf3_row_es_def tlf3_els_def tlf3_cols_def trade_el_def out_settlement_rows out_tlf3_cash
      out_history_part counter_def settlement_els_def)

lemma tlf3_counter:
  "c \<in> set tlf3_cols \<Longrightarrow> counter c (tlf3_nxt t k d) = 0 \<longleftrightarrow> counter c k = 0 \<and> tlf3_els pg c t d = []"
  by (auto simp: tlf3_nxt_def tlf3_els_def tlf3_cols_def counter_def settlement_els_def tlf3_cash_els_def tlf3_cash_count_def)

text \<open>Only a trade that is settled in cash has a cash transaction.\<close>

definition good_trade3 :: "pgapi \<Rightarrow> trade_row \<Rightarrow> db \<Rightarrow> bool" where
  "good_trade3 pg t d \<longleftrightarrow> good_trade pg t d \<and> (\<not> t_is_cash t \<longrightarrow> cash_transactions (t_id t) d = [])"

lemma tlf3_cash_els_eq: "good_trade3 pg t d \<Longrightarrow> tlf3_cash_els pg c t d = cash_els pg False (t_is_cash t) c (t_id t) d"
  by (simp add: tlf3_cash_els_def cash_els_def good_trade3_def)

definition tlf3_width :: "trade_col \<Rightarrow> nat" where
  "tlf3_width c =
     (case c of
        i_settlement_amount \<Rightarrow> 12 | i_settlement_cash_due_date \<Rightarrow> 62 | i_settlement_cash_type \<Rightarrow> 42
      | i_cash_transaction_amount \<Rightarrow> 12 | i_cash_transaction_dts \<Rightarrow> 62 | i_cash_transaction_name \<Rightarrow> 102
      | i_trade_history_dts \<Rightarrow> 62 | i_trade_history_status_id \<Rightarrow> 6 | _ \<Rightarrow> trade_width c)"

lemma tlf3_els_width:
  assumes "good_trade3 pg t d" "x \<in> set (tlf3_els pg c t d)"
  shows "length x \<le> tlf3_width c"
proof -
  have g: "good_trade pg t d" using assms(1) by (simp add: good_trade3_def)
  note d = good_trade_keyed [OF g]
  consider "c \<in> set settlement_cols" "x \<in> set (settlement_els pg True True c (t_id t) d)"
    | "c \<in> set cash_cols" "x \<in> set (cash_els pg False (t_is_cash t) c (t_id t) d)"
    | "c \<in> set history_cols" "x \<in> set (history_els pg True True ''\"\"'' c (t_id t) d)"
    | "c \<notin> set settlement_cols" "c \<notin> set cash_cols" "c \<notin> set history_cols" "x = trade_el pg c t"
    using assms(2) by (auto simp: tlf3_els_def tlf3_cash_els_eq [OF assms(1)] split: if_splits)
  then show ?thesis
  proof cases
    case 1
    with settlement_els_width [OF d(2) 1(2)] show ?thesis by (auto simp: tlf3_width_def)
  next
    case 2
    with cash_els_width [OF d(2,3) _ 2(2)] show ?thesis by (auto simp: tlf3_width_def)
  next
    case 3
    with history_els_width [OF d(2) _ 3(2)] show ?thesis by (auto simp: tlf3_width_def)
  next
    case 4
    with trade_el_width [OF g, of c] show ?thesis by (cases c) (auto simp: tlf3_width_def)
  qed
qed

lemma tlf3_els_le: "good_trade3 pg t d \<Longrightarrow> length (tlf3_els pg c t d) \<le> (if c \<in> set history_cols then 3 else 1)"
  using settlement_els_le [of d pg True True c "t_id t"] cash_els_le [of d pg False "t_is_cash t" c "t_id t"]
  by (auto simp: tlf3_els_def tlf3_cash_els_eq good_trade3_def dest: good_trade_keyed)

lemma tlf3_emits_in: "\<forall>e \<in> set (tlf3_es pg t k d). late_in tlf3_cols e"
proof -
  have "\<forall>e \<in> set (tlf3_row_es pg n t). late_in tlf3_cols e" for n
    by (auto simp: late_in_def tlf3_row_es_def tlf3_cols_def seps_def quote_as_def split: if_splits)
  moreover have "set settlement_cols \<subseteq> set tlf3_cols" "set cash_cols \<subseteq> set tlf3_cols" "set history_cols \<subseteq> set tlf3_cols"
    by (auto simp: tlf3_cols_def)
  note late_in_mono [OF details_in(1) this(1)] late_in_mono [OF details_in(3) this(2), of Extra]
    late_in_mono [OF details_in(4) this(2)] late_in_mono [OF parts_in(1) this(3)]
  ultimately show ?thesis by (simp add: tlf3_es_def tlf3_cash_part_def ball_Un)
qed

lemma extras_tlf3:
  "trades_keyed d \<Longrightarrow> extras c (tlf3_es pg t k d) \<le> (if c \<in> {i_exec_name, i_cash_transaction_dts} then 1 else 0)"
  using cash_transactions_le [of d "t_id t"] by (simp add: tlf3_es_def tlf3_row_es_def tlf3_cash_part_def)

interpretation tlf3: array_loop TL_small "\<lambda>t. TLF3_trade (tl_spi pg) (symbol_trade_values pg t)"
  "\<lambda>t k s. tlf3_es pg t k (snapshot s)" "\<lambda>t k s. tlf3_nxt t k (snapshot s)" "\<lambda>_ _ s. s" "\<lambda>t s. trade_ok t (snapshot s)"
  TLF3_statements tlf3_cols counters0 counter "\<lambda>c t _ s. tlf3_els pg c t (snapshot s)" "\<lambda>t s. good_trade3 pg t (snapshot s)"
  "\<lambda>c. if c \<in> set history_cols then 3 else 1" tlf3_width
  "\<lambda>c. if c \<in> {i_exec_name, i_cash_transaction_dts} then 1 else 0" "\<lambda>_. 1"
  for pg
proof
  fix t k s c
  show "\<forall>(c, md, x) \<in> set (tlf3_es pg t k (snapshot s)). c \<in> set tlf3_cols \<and> room md x \<le> 1"
    using tlf3_emits_in [of pg t k "snapshot s"] by (fastforce simp: late_in_def room_def)
  show "good_trade3 pg t (snapshot s) \<Longrightarrow> length (tlf3_els pg c t (snapshot s)) \<le> (if c \<in> set history_cols then 3 else 1)"
    by (rule tlf3_els_le)
  show "good_trade3 pg t (snapshot s) \<Longrightarrow>
      extras c (tlf3_es pg t k (snapshot s)) \<le> (if c \<in> {i_exec_name, i_cash_transaction_dts} then 1 else 0)"
    by (rule extras_tlf3) (use good_trade_keyed(1) in \<open>auto simp: good_trade3_def\<close>)
qed (auto simp: tlf3_body out_tlf3 tlf3_counter good_trade3_def intro: tlf3_els_width [unfolded good_trade3_def] good_trade_ok,
  simp add: tlf3_cols_def)

definition tlf3_out :: "pgapi \<Rightarrow> trade_row list \<Rightarrow> db \<Rightarrow> spi_row" where
  "tlf3_out pg ts d = map (\<lambda>c.
     if c = i_num_found then int_txt (int (length ts))
     else Some (array_text (concat (map (\<lambda>t. tlf3_els pg c t d) ts)))) tlf3_order"

lemma tlf3_bufs: "fst ` set (TLF3_bufs m) = set tlf3_cols" "distinct (map fst (TLF3_bufs m))"
  by (simp_all add: TLF3_bufs_def tlf3_cols_def)

lemma tlf3_bufs_sizes:
  assumes "1 \<le> m" "m \<le> 1000000"
  shows "TLF3_bufs m = [(i_acct_id, 21 * m + 2), (i_cash_transaction_amount, 13 * m + 2), (i_cash_transaction_dts, 64 * m + 2),
    (i_cash_transaction_name, 103 * m + 2), (i_exec_name, 67 * m + 2), (i_is_cash, 2 * m + 2), (i_price, 15 * m + 2),
    (i_quantity, 11 * m + 2), (i_settlement_amount, 13 * m + 2), (i_settlement_cash_due_date, 64 * m + 2),
    (i_settlement_cash_type, 43 * m + 2), (i_trade_dts, 194 * m + 2), (i_trade_history_dts, 194 * m + 2),
    (i_trade_history_status_id, 21 * m + 2), (i_trade_list, 21 * m + 2), (i_trade_type, 6 * m + 2)]"
  using assms by (simp add: TLF3_bufs_def in_i32_def)

lemma tlf3_sizes_suffice:
  assumes "1 \<le> m" "m \<le> 1000000" "(c, len) \<in> set (TLF3_bufs m)"
  shows "2 \<le> len \<and> len < 2 ^ 30 \<and> int (tlf3_width c + 1) * (int (if c \<in> set history_cols then 3 else 1) * m) + 1
    + int (if c \<in> {i_exec_name, i_cash_transaction_dts} then 1 else 0) * m + 1 \<le> len"
  using assms unfolding tlf3_bufs_sizes [OF assms(1,2)] by (auto simp: tlf3_width_def trade_width_def)

lemma copy_raw_short:
  assumes "is_cstr s" "length s < n"
  shows "copy_raw n s = Ok s"
proof -
  have s: "strncpy s n = take n s @ NUL # replicate (n - length s - 1) NUL"
    using assms(2) by (cases "n - length s") (simp_all add: strncpy_def)
  then have "c_str (strncpy s n) = s" using assms by (simp only: c_str_def takeWhile_no_NUL) simp
  with s show ?thesis by (simp add: copy_raw_def)
qed

lemma copy_raw_long: "is_cstr s \<Longrightarrow> n \<le> length s \<Longrightarrow> copy_raw n s = Fail Crash"
  by (auto simp: copy_raw_def strncpy_def is_cstr_def dest: in_set_takeD)

text \<open>
  C25. The third frame: one row with the first \<open>max_trades\<close> trades of the security in the period.  A
  symbol of more than fifteen characters is read past the end of its buffer.
\<close>

theorem TradeLookupFrame3_row:
  assumes "\<And>s. s \<in> set TLF3_statements \<Longrightarrow> prepare s" "d = snap_of f"
    and "trades_sized pg d" "\<forall>t \<in> set (trade_tbl d). \<not> t_is_cash t \<longrightarrow> cash_transactions (t_id t) d = []"
    and "1 \<le> max_trades" "max_trades \<le> 1000000" "is_cstr symb"
  shows "\<exists>ps. TradeLookupFrame3 prepare (tl_spi pg) till max_trades since symb f =
    (if length symb \<le> 15
     then Ok ([tlf3_out pg (take (nat max_trades) (symbol_trades symb since till d)) d], f\<lparr>max_calls := 1, plans := ps\<rparr>)
     else Fail Crash)"
proof -
  let ?ts = "\<lambda>d. take (nat max_trades) (symbol_trades symb since till d)"
  let ?args = "[DText symb, DTimestamp since, DTimestamp till, DInt32 max_trades]"
  obtain ps where ps: "plan_queries prepare TLF3_statements (f\<lparr>max_calls := Suc 0\<rparr>) = Ok (f\<lparr>max_calls := Suc 0, plans := ps\<rparr>)"
    and sub: "set TLF3_statements \<subseteq> set ps"
    using planned [of TLF3_statements prepare "f\<lparr>max_calls := Suc 0\<rparr>", OF assms(1)] by auto
  let ?g = "f\<lparr>max_calls := Suc 0, plans := ps\<rparr>"
  have d: "snapshot (session f) = d" using assms(2) by (simp add: snap_of_def)
  have sub: "set TLF3_statements \<subseteq> set (plans ?g)" using sub by simp
  have rows: "tl_sql pg ?args TLF3_1 d = Ok (SPI_OK_SELECT (map (symbol_trade_values pg) (?ts d)), d)" for d
    using assms(5) by (simp add: tl_sql_def SQLTLF3_1_def sql_limit_def take_map)
  have first: "query (tl_spi pg) True TLF3_1 ?args ?g = Ok (Some (map (symbol_trade_values pg) (?ts d)), ?g)"
    using tl.query_read [where rows = "\<lambda>d. map (symbol_trade_values pg) (?ts d)", OF tlf3_planned(1) rows sub refl] by (simp add: d)
  have len: "int (length (?ts d)) \<le> max_trades" using assms(5) by simp
  have good: "\<forall>t \<in> set (?ts d). good_trade3 pg t (snapshot (session ?g))"
    using assms(3,4) by (auto simp: good_trade3_def good_trade_def d dest: symbol_trades_in)
  have pal: "pallocs (TLF3_bufs max_trades) = Ok ()"
    by (rule pallocs_ok) (use assms(5,6) in \<open>auto simp: tlf3_bufs_sizes\<close>)
  obtain bufs bufs' where b: "open_bufs (TLF3_bufs max_trades) = Ok bufs"
    and run: "\<And>cont :: counters \<Rightarrow> trade_col bufs \<Rightarrow> (tl_stmt, pgsession) fctx \<Rightarrow> (spi_row list \<times> (tl_stmt, pgsession) fctx) outcome.
      obind (for_each (\<lambda>t. TLF3_trade (tl_spi pg) (symbol_trade_values pg t)) (?ts d) counters0 bufs ?g)
        (\<lambda>((k, bufs), f). obind (emits TL_small TLF3_closes bufs f) (\<lambda>(bufs, f). cont k bufs f)) =
      cont (loop_state (\<lambda>t k s. tlf3_nxt t k (snapshot s)) (\<lambda>_ _ s. s) (?ts d) counters0 (session f)) bufs' ?g"
    and arrays: "\<forall>c \<in> set tlf3_cols. ctext (fst (bufs' c)) = array_text (concat (map (\<lambda>t. tlf3_els pg c t d) (?ts d)))"
    using tlf3.frame [OF tlf3_bufs(2,1) [of max_trades] good len assms(5) tlf3_sizes_suffice [OF assms(5,6)] closing_TLF3 sub]
    by (auto simp: d loop_els_const)
  have "length (?ts d) < 1000000000" using len assms(6) by linarith
  then have "snprintf_d (INTEGER_LEN + 1) (int (length (?ts d))) = show_int (int (length (?ts d)))" by (rule snprintf_count)
  moreover have "TradeLookupFrame3 prepare (tl_spi pg) till max_trades since symb f =
      srf_return (map ((buf_slots (TLF3_bufs max_trades) bufs' (\<lambda>_. Uninit))(i_num_found :=
        Str (snprintf_d (INTEGER_LEN + 1) (int (length (?ts d)))))) tlf3_order) ?g" if "length symb \<le> 15"
    using run that assms(7) by (simp add: TradeLookupFrame3_def pal ps copy_raw_short first b for_each_map Let_def)
  moreover have "TradeLookupFrame3 prepare (tl_spi pg) till max_trades since symb f = Fail Crash" if "15 < length symb"
    using that assms(7) by (simp add: TradeLookupFrame3_def pal ps copy_raw_long)
  ultimately show ?thesis using arrays
    by (intro exI [of _ ps]) (simp add: srf_return_def tlf3_out_def buf_slots_def tlf3_bufs tlf3_order_def tlf3_cols_def)
qed

section \<open>What frame 4 returns\<close>

definition tlf4_column :: "holding_history_row list \<Rightarrow> nat \<Rightarrow> string option" where
  "tlf4_column hs j = Some (array_text (map (\<lambda>h. holding_history_values h ! j) hs))"

definition tlf4_out :: "int \<Rightarrow> int \<Rightarrow> db \<Rightarrow> spi_row" where
  "tlf4_out acct since d =
     (let ts = first_trades acct since d; hs = (case ts of [] \<Rightarrow> [] | t # _ \<Rightarrow> holding_histories (t_id t) d) in
      [tlf4_column hs 0, tlf4_column hs 1, int_txt (int (length hs)), int_txt (int (length ts)), tlf4_column hs 3, tlf4_column hs 2,
       case ts of [] \<Rightarrow> None | t # _ \<Rightarrow> int_txt (t_id t)])"

definition holdings_sized :: "db \<Rightarrow> bool" where
  "holdings_sized d \<longleftrightarrow> (\<forall>t \<in> set (trade_tbl d). in_i64 (t_id t))
     \<and> (\<forall>h \<in> set (holding_history_tbl d). in_i64 (hh_h_t_id h) \<and> in_i64 (hh_t_id h)
          \<and> length (show_int (hh_before_qty h)) \<le> 10 \<and> length (show_int (hh_after_qty h)) \<le> 10)"

lemma holding_histories_in: "h \<in> set (holding_histories t d) \<Longrightarrow> h \<in> set (holding_history_tbl d)"
  by (auto simp: holding_histories_def Let_def dest: in_set_takeD)

lemma less4: "j < 4 \<longleftrightarrow> j \<in> {0, 1, 2, 3 :: nat}"
  by auto

lemma tlf4_arrays:
  assumes "holdings_sized d" "set hs \<subseteq> set (holding_history_tbl d)" "length hs \<le> 20"
  shows "build_arrays TLF4_warnings [False, False, False, False] TLF4_lengths (map (\<lambda>h. map Some (holding_history_values h)) hs) f =
    Ok (map (\<lambda>j. array_text (map (\<lambda>h. holding_history_values h ! j) hs)) [0..<4], f)"
proof -
  let ?vss = "map holding_history_values hs" and ?qs = "[False, False, False, False]"
  have col: "column ?qs ?vss j = map (\<lambda>h. holding_history_values h ! j) hs" if "j < 4" for j
    using that by (auto simp: column_def less4)
  have fits: "length (array_text (column ?qs ?vss j)) < nat (TLF4_lengths ! j)" if j: "j < 4" for j
  proof -
    let ?w = "if j < 2 then 20 else 10 :: nat"
    have "length (holding_history_values h ! j) \<le> ?w" if "h \<in> set hs" for h
    proof -
      have "h \<in> set (holding_history_tbl d)" using that assms(2) by blast
      then show ?thesis using j assms(1) by (auto simp: holdings_sized_def holding_history_values_def less4 length_show_int_i64)
    qed
    then have "int (length (array_text (column ?qs ?vss j))) \<le> int (?w + 1) * int 20 + 1"
      using assms(3) unfolding col [OF j] by (intro array_text_width) auto
    then show ?thesis using j by (auto simp: TLF4_lengths_def less4)
  qed
  have "build_arrays TLF4_warnings ?qs TLF4_lengths (map (map Some) ?vss) f =
      Ok (map (\<lambda>j. array_text (column ?qs ?vss j)) [0..<4], f)"
    by (subst build_arrays_spec [where n = 4])
      (use fits in \<open>auto simp: TLF4_warnings_def TLF4_lengths_def holding_history_values_def\<close>)
  then show ?thesis using col by (simp add: comp_def cong: map_cong)
qed

lemma tlf4_planned: "TLF4_1 \<in> set TLF4_statements" "TLF4_2 \<in> set TLF4_statements"
  by (simp_all add: TLF4_statements_def)

lemma tlf4_sql:
  "tl_sql pg [DInt64 acct, DTimestamp since] TLF4_1 d = Ok (SPI_OK_SELECT (map (\<lambda>t. [int_txt (t_id t)]) (first_trades acct since d)), d)"
  "tl_sql pg [DInt64 i] TLF4_2 d = Ok (SPI_OK_SELECT (map (\<lambda>h. map Some (holding_history_values h)) (holding_histories i d)), d)"
  by (simp_all add: tl_sql_def SQLTLF4_1_def SQLTLF4_2_def)

text \<open>
  C26. The fourth frame: the number of the account's first trade from the date on, if there is one,
  and up to twenty entries of the holding history that share a holding with it.
\<close>

theorem TradeLookupFrame4_row:
  assumes "\<And>s. s \<in> set TLF4_statements \<Longrightarrow> prepare s" "d = snap_of f" "holdings_sized d"
  shows "\<exists>ps. TradeLookupFrame4 prepare (tl_spi pg) acct since f = Ok ([tlf4_out acct since d], f\<lparr>max_calls := 1, plans := ps\<rparr>)"
proof -
  obtain ps where ps: "plan_queries prepare TLF4_statements (f\<lparr>max_calls := Suc 0\<rparr>) = Ok (f\<lparr>max_calls := Suc 0, plans := ps\<rparr>)"
    and sub: "set TLF4_statements \<subseteq> set ps"
    using planned [of TLF4_statements prepare "f\<lparr>max_calls := Suc 0\<rparr>", OF assms(1)] by auto
  let ?g = "f\<lparr>max_calls := Suc 0, plans := ps\<rparr>"
  have d: "snapshot (session f) = d" using assms(2) by (simp add: snap_of_def)
  have sub: "set TLF4_statements \<subseteq> set (plans ?g)" using sub by simp
  let ?ts = "first_trades acct since d"
  have q1: "query (tl_spi pg) True TLF4_1 [DInt64 acct, DTimestamp since] ?g = Ok (Some (map (\<lambda>t. [int_txt (t_id t)]) ?ts), ?g)"
    using tl.query_read [OF tlf4_planned(1) tlf4_sql(1) sub refl] by (simp add: d)
  have q2: "query (tl_spi pg) True TLF4_2 [DInt64 i] ?g = Ok (Some (map (\<lambda>h. map Some (holding_history_values h)) (holding_histories i d)), ?g)"
    for i using tl.query_read [OF tlf4_planned(2) tlf4_sql(2) sub refl] by (simp add: d)
  have arr: "build_arrays TLF4_warnings [False, False, False, False] TLF4_lengths (map (\<lambda>h. map Some (holding_history_values h)) hs) ?g =
      Ok (map (\<lambda>j. array_text (map (\<lambda>h. holding_history_values h ! j) hs)) [0..<4], ?g)"
    if "set hs \<subseteq> set (holding_history_tbl d)" "length hs \<le> 20" for hs by (rule tlf4_arrays [OF assms(3) that])
  have four: "[0..<4] = [0, 1, 2, 3::nat]" by (simp add: upt_rec)
  show ?thesis
  proof (cases ?ts)
    case Nil
    then show ?thesis
      by (intro exI [of _ ps])
        (use q1 arr [of "[]"] snprintf_count [of 0] in \<open>simp add: TradeLookupFrame4_def ps four tlf4_out_def tlf4_column_def
          TLF4_columns_def tlf4_order_def srf_return_def Let_def\<close>)
  next
    case (Cons t ts)
    let ?hs = "holding_histories (t_id t) d"
    have hs: "set ?hs \<subseteq> set (holding_history_tbl d)" "length ?hs \<le> 20"
      using holding_histories_in by blast (simp add: holding_histories_def Let_def)
    have "length ?ts \<le> 1" by (simp add: first_trades_def)
    then have one: "ts = []" using Cons by simp
    have "t \<in> set ?ts" using Cons by simp
    then have "in_i64 (t_id t)"
      using assms(3) by (auto simp: first_trades_def holdings_sized_def order_asc_def dest: in_set_takeD)
    moreover have "snprintf_d 11 (int (length ?hs)) = show_int (int (length ?hs))"
      using snprintf_count [of "length ?hs"] hs(2) by simp
    moreover have "snprintf_d 11 1 = show_int 1" using snprintf_count [of 1] by simp
    ultimately show ?thesis
      by (intro exI [of _ ps])
        (use q1 q2 arr [OF hs] Cons one in \<open>simp add: TradeLookupFrame4_def ps four tlf4_out_def tlf4_column_def TLF4_columns_def
          tlf4_order_def srf_return_def Let_def\<close>)
  qed
qed

section \<open>A sample\<close>

theorem TradeLookupFrame3_row_witness:
  "(\<exists>ps. TradeLookupFrame3 (\<lambda>_. True) (tl_spi sample_pg) 100 20 0 ''AB'' lookup_ctx =
    Ok ([[Some ''{1}'', Some ''{360.30}'', Some ''{\"21\"}'', Some ''{\"Market-Sell 30 Shares of AB\"}'', Some ''{\"Ann\"}'',
       Some ''{1}'', Some ''1'', Some ''{12.01}'', Some ''{30}'', Some ''{360.30}'', Some ''{\"41\"}'', Some ''{\"Cash Account\"}'',
       Some ''{\"20\"}'', Some ''{\"20\",\"21\",NULL}'', Some ''{\"SBMT\",\"CMPT\",\"\"}'', Some ''{9}'', Some ''{\"TMS\"}'']], lookup_ctx\<lparr>max_calls := 1, plans := ps\<rparr>))
   \<and> TradeLookupFrame3 (\<lambda>_. True) (tl_spi sample_pg) 100 20 0 ''ABCDEFGHIJKLMNOP'' lookup_ctx = Fail Crash"
proof -
  have trades: "symbol_trades ''AB'' 0 100 lookup_db = [sample_trade\<lparr>t_trade_price := Some 1201\<rparr>]"
    by (simp add: symbol_trades_def order_asc_def lookup_tables sample_rows)
  have out: "tlf3_out sample_pg [sample_trade\<lparr>t_trade_price := Some 1201\<rparr>] lookup_db =
      [Some ''{1}'', Some ''{360.30}'', Some ''{\"21\"}'', Some ''{\"Market-Sell 30 Shares of AB\"}'', Some ''{\"Ann\"}'',
       Some ''{1}'', Some ''1'', Some ''{12.01}'', Some ''{30}'', Some ''{360.30}'', Some ''{\"41\"}'', Some ''{\"Cash Account\"}'',
       Some ''{\"20\"}'', Some ''{\"20\",\"21\",NULL}'', Some ''{\"SBMT\",\"CMPT\",\"\"}'', Some ''{9}'', Some ''{\"TMS\"}'']"
    by (simp add: tlf3_out_def tlf3_order_def tlf3_els_def tlf3_cash_els_def trade_el_def lookup_eval)
  have cash: "\<forall>t \<in> set (trade_tbl lookup_db). \<not> t_is_cash t \<longrightarrow> cash_transactions (t_id t) lookup_db = []"
    by (simp add: lookup_tables sample_rows)
  show ?thesis
    using TradeLookupFrame3_row [of "\<lambda>_. True" lookup_db lookup_ctx sample_pg 20 "''AB''" 100 0]
      TradeLookupFrame3_row [of "\<lambda>_. True" lookup_db lookup_ctx sample_pg 20 "''ABCDEFGHIJKLMNOP''" 100 0]
      lookup_snap lookup_sized cash
    by (simp add: trades out is_cstr_def)
qed

theorem TradeLookupFrame4_row_witness:
  "\<exists>ps. TradeLookupFrame4 (\<lambda>_. True) (tl_spi sample_pg) 1 0 lookup_ctx =
    Ok ([[Some ''{5}'', Some ''{9}'', Some ''1'', Some ''1'', Some ''{70}'', Some ''{100}'', Some ''9'']], lookup_ctx\<lparr>max_calls := 1, plans := ps\<rparr>)"
proof -
  have out: "tlf4_out 1 0 lookup_db = [Some ''{5}'', Some ''{9}'', Some ''1'', Some ''1'', Some ''{70}'', Some ''{100}'', Some ''9'']"
    by (simp add: tlf4_out_def tlf4_column_def first_trades_def holding_histories_def holding_history_values_def lookup_eval
      del: set_map set_filter)
  have "holdings_sized lookup_db"
    by (simp add: holdings_sized_def lookup_tables sample_rows lookup_texts in_i64_def)
  then show ?thesis
    using TradeLookupFrame4_row [of "\<lambda>_. True" lookup_db lookup_ctx sample_pg 1 0] lookup_snap by (simp add: out)
qed

end
