(* ===== verification/UpdateSymbol.thy ===== *)
theory UpdateSymbol
  imports "HOL-Library.Sublist" UpdateAccount LookupSymbol
begin

text \<open>
  The third frame of Trade-Update: the trades of a security within a period, of which some get the
  name of their cash transaction changed.
\<close>

section \<open>The frame\<close>

definition tuf3_order :: "trade_col list" where
  "tuf3_order = [i_acct_id, i_cash_transaction_amount, i_cash_transaction_dts, i_cash_transaction_name, i_exec_name,
     i_is_cash, i_num_found, i_num_updated, i_price, i_quantity, i_s_name, i_settlement_amount, i_settlement_cash_due_date,
     i_settlement_cash_type, i_trade_dts, i_trade_history_dts, i_trade_history_status_id, i_trade_list, i_type_name,
     i_trade_type]"

definition TUF3_bufs :: "(trade_col \<times> int) list" where
  "TUF3_bufs =
     [(i_acct_id, int BIGINT_LEN * 20 + 22),
      (i_cash_transaction_amount, int VALUE_T_LEN * 20 + 22),
      (i_cash_transaction_dts, (int MAXDATELEN + 2) * 20 + 22),
      (i_cash_transaction_name, (int CT_NAME_LEN + 2) * 20 + 22),
      (i_exec_name, (int T_EXEC_NAME_LEN + 2) * 20 + 22),
      (i_is_cash, int SMALLINT_LEN * 20 + 22),
      (i_price, int S_PRICE_T_LEN * 20 + 22),
      (i_quantity, int INTEGER_LEN * 20 + 22),
      (i_s_name, (int S_NAME_LEN + 2) * 20 + 22),
      (i_settlement_amount, int VALUE_T_LEN * 20 + 22),
      (i_settlement_cash_due_date, int MAXDATELEN * 20 + 22),
      (i_settlement_cash_type, (int SE_CASH_TYPE_LEN + 2) * 20 + 22),
      (i_trade_dts, (int MAXDATELEN + 1) * 20 + 2),
      (i_trade_history_dts, (int MAXDATELEN + 2) * 60 + 62),
      (i_trade_history_status_id, int ST_ID_LEN * 60 + 62),
      (i_trade_list, int BIGINT_LEN * 20 + 22),
      (i_type_name, (int TT_NAME_LEN + 2) * 20 + 22),
      (i_trade_type, int TT_ID_LEN * 20 + 22)]"

definition TUF3_row :: "nat \<Rightarrow> spi_row \<Rightarrow> trade_col emit list outcome" where
  "TUF3_row n row =
     obind (from_ptr (SPI_getvalue row 1)) (\<lambda>acct_id.
     obind (from_ptr (SPI_getvalue row 2)) (\<lambda>exec_name.
     obind (from_ptr (SPI_getvalue row 3)) (\<lambda>is_cash_str.
     obind (from_ptr (SPI_getvalue row 5)) (\<lambda>quantity.
     obind (from_ptr (SPI_getvalue row 6)) (\<lambda>sec_name.
     obind (from_ptr (SPI_getvalue row 7)) (\<lambda>trade_dts.
     obind (from_ptr (SPI_getvalue row 8)) (\<lambda>trade_list.
     obind (from_ptr (SPI_getvalue row 9)) (\<lambda>trade_type.
     obind (from_ptr (SPI_getvalue row 10)) (\<lambda>type_name.
     Ok (seps n [i_acct_id, i_exec_name, i_is_cash, i_price, i_quantity, i_s_name, i_trade_dts, i_trade_list, i_trade_type,
           i_type_name, i_settlement_amount, i_settlement_cash_due_date, i_settlement_cash_type, i_trade_history_dts,
           i_trade_history_status_id]
       @ [(i_acct_id, Plain, acct_id)]
       @ quote_as Plain i_exec_name exec_name
       @ [(i_is_cash, Plain, bit_text (is_t is_cash_str)), (i_price, Plain, or_NULL (SPI_getvalue row 4)),
          (i_quantity, Plain, quantity)]
       @ quote_as Plain i_s_name sec_name
       @ quote_as Plain i_trade_dts trade_dts
       @ [(i_trade_list, Plain, trade_list), (i_trade_type, Plain, trade_type)]
       @ quote_as Plain i_type_name type_name))))))))))"

text \<open>The commas between settlements belong to the row of the trade.\<close>

definition TUF3_settlement :: "(tu_stmt, 'd) spi \<Rightarrow> int \<Rightarrow> nat \<Rightarrow> trade_col bufs \<Rightarrow> (tu_stmt, 'd) fctx \<Rightarrow>
    ((nat option \<times> trade_col bufs) \<times> (tu_stmt, 'd) fctx) outcome" where
  "TUF3_settlement spi trade = append_query TU_small spi True TUF3_2 [DInt64 trade] (\<lambda>_. settlement_cells False True 0)"

text \<open>\<open>snprintf(ct_name, sizeof(ct_name), \<dots>)\<close> into a buffer of 101 bytes.\<close>

definition TUF3_cash_name :: "string \<Rightarrow> string \<Rightarrow> string \<Rightarrow> string \<Rightarrow> string" where
  "TUF3_cash_name type_name quantity sec_name old =
     take CT_NAME_LEN (type_name @ '' '' @ quantity
       @ (if strstr old '' shares of '' \<noteq> None then '' Shares of '' else '' shares of '') @ sec_name)"

definition TUF3_update :: "(tu_stmt, 'd) spi \<Rightarrow> int \<Rightarrow> string \<Rightarrow> string \<Rightarrow> string \<Rightarrow> tu_counters \<Rightarrow> (tu_stmt, 'd) fctx \<Rightarrow>
    ((bool \<times> tu_counters) \<times> (tu_stmt, 'd) fctx) outcome" where
  "TUF3_update spi trade type_name quantity sec_name k f =
     obind (first_row spi TUF3_3 [DInt64 trade] f) (\<lambda>(r, f).
     case r of
       None \<Rightarrow> Ok ((False, k), FAIL_FRAME_SET TUF3_3 f)
     | Some row \<Rightarrow>
         obind (from_ptr (SPI_getvalue row 1)) (\<lambda>old_ct_name.
         obind (SPI_execute_plan spi TUF3_4 [DText (TUF3_cash_name type_name quantity sec_name old_ct_name), DInt64 trade] False f)
           (\<lambda>(r, f).
         case r of
           SPI_OK_UPDATE n \<Rightarrow> Ok ((True, k\<lparr>num_updated := num_updated k + n\<rparr>), f)
         | _ \<Rightarrow> Ok ((False, k), FAIL_FRAME_SET TUF3_4 f))))"

text \<open>The cash transaction is read with the update of this call.\<close>

definition TUF3_cash :: "(tu_stmt, 'd) spi \<Rightarrow> int \<Rightarrow> bool \<Rightarrow> nat \<Rightarrow> trade_col bufs \<Rightarrow> (tu_stmt, 'd) fctx \<Rightarrow>
    ((nat option \<times> trade_col bufs) \<times> (tu_stmt, 'd) fctx) outcome" where
  "TUF3_cash spi trade = append_first_cash spi False TUF3_5 trade"

definition TUF3_history :: "(tu_stmt, 'd) spi \<Rightarrow> int \<Rightarrow> trade_col bufs \<Rightarrow> (tu_stmt, 'd) fctx \<Rightarrow>
    ((unit \<times> trade_col bufs) \<times> (tu_stmt, 'd) fctx) outcome" where
  "TUF3_history spi trade bufs f =
     obind (query spi True TUF3_6 [DInt64 trade] f) (\<lambda>(r, f).
     case r of
       Some (row # rows) \<Rightarrow> obind (three_rows False (take 3 (row # rows)) bufs f) (\<lambda>(bufs, f). Ok (((), bufs), f))
     | _ \<Rightarrow> Ok (((), bufs), FAIL_FRAME_SET TUF3_6 f))"

text \<open>Only a trade settled in cash is updated.\<close>

definition TUF3_trade :: "(tu_stmt, 'd) spi \<Rightarrow> int \<Rightarrow> spi_row \<Rightarrow> tu_counters \<Rightarrow> trade_col bufs \<Rightarrow> (tu_stmt, 'd) fctx \<Rightarrow>
    (((bool \<times> tu_counters) \<times> trade_col bufs) \<times> (tu_stmt, 'd) fctx) outcome" where
  "TUF3_trade spi max_updates row k bufs f =
     obind (emit_rows TU_small TUF3_row (trades k) [row] bufs f) (\<lambda>((n, bufs), f).
     let k = k\<lparr>trades := n\<rparr> in
     obind (from_ptr (SPI_getvalue row 3)) (\<lambda>is_cash_str.
     obind (from_ptr (SPI_getvalue row 5)) (\<lambda>quantity.
     obind (from_ptr (SPI_getvalue row 6)) (\<lambda>sec_name.
     obind (from_ptr (SPI_getvalue row 8)) (\<lambda>trade_list.
     obind (from_ptr (SPI_getvalue row 10)) (\<lambda>type_name.
     let trade = atoll trade_list in
     obind (TUF3_settlement spi trade 0 bufs f)
       (\<lambda>((r, bufs), f). case r of None \<Rightarrow> Ok (((True, k), bufs), f) | Some _ \<Rightarrow>
     obind (if is_t is_cash_str \<and> int (num_updated k) < max_updates then TUF3_update spi trade type_name quantity sec_name k f
            else Ok ((True, k), f)) (\<lambda>((go, k), f).
     if \<not> go then Ok (((True, k), bufs), f)
     else
     obind (TUF3_cash spi trade (is_t is_cash_str) (num_cash_txn k) bufs f)
       (\<lambda>((r, bufs), f). case r of None \<Rightarrow> Ok (((True, k), bufs), f) | Some n \<Rightarrow>
     obind (TUF3_history spi trade bufs f) (\<lambda>((_, bufs), f).
     Ok (((True, k\<lparr>num_cash_txn := n\<rparr>), bufs), f)))))))))))"

text \<open>The closing brace of the timestamps is not deducted.\<close>

definition TUF3_closes :: "trade_col emit list" where
  "TUF3_closes = closes [i_acct_id, i_cash_transaction_amount, i_cash_transaction_dts, i_cash_transaction_name, i_exec_name,
       i_is_cash, i_price, i_quantity, i_s_name, i_settlement_amount, i_settlement_cash_due_date, i_settlement_cash_type]
     @ [(i_trade_dts, Keep, ''}'')]
     @ closes [i_trade_history_dts, i_trade_history_status_id, i_trade_list, i_type_name, i_trade_type]"

definition TradeUpdateFrame3 ::
    "(tu_stmt \<Rightarrow> bool) \<Rightarrow> (tu_stmt, 'd) spi \<Rightarrow> int \<Rightarrow> int \<Rightarrow> int \<Rightarrow> int \<Rightarrow> string \<Rightarrow> (tu_stmt, 'd) fctx \<Rightarrow>
     (spi_row list \<times> (tu_stmt, 'd) fctx) outcome" where
  "TradeUpdateFrame3 prepare spi end_trade_dts max_trades max_updates start_trade_dts symbol_p f =
     obind (pallocs TUF3_bufs) (\<lambda>_.
     obind (plan_queries prepare TUF3_statements (f\<lparr>max_calls := 1\<rparr>)) (\<lambda>f.
     obind (copy_raw (S_SYMB_LEN + 1) symbol_p) (\<lambda>symbol.
     obind (query spi True TUF3_1 [DText symbol, DTimestamp start_trade_dts, DTimestamp end_trade_dts, DInt32 max_trades] f)
       (\<lambda>(r, f).
     case r of
       None \<Rightarrow> Ok ([], FAIL_FRAME_SET TUF3_1 f)
     | Some rows \<Rightarrow>
         obind (open_bufs TUF3_bufs) (\<lambda>bufs.
         obind (for_each (TUF3_trade spi max_updates) rows tu_counters0 bufs f) (\<lambda>((k, bufs), f).
         obind (emits TU_small TUF3_closes bufs f) (\<lambda>(bufs, f).
         let vals = (buf_slots TUF3_bufs bufs (\<lambda>_. Uninit))
           (i_num_found := Str (snprintf_d (INTEGER_LEN + 1) (int (length rows))),
            i_num_updated := Str (snprintf_d (INTEGER_LEN + 1) (int (num_updated k)))) in
         srf_return (map vals tuf3_order) f)))))))"

section \<open>What the frame changes\<close>

text \<open>A trade with its type and its security.\<close>

definition named_of :: "int \<Rightarrow> db \<Rightarrow> named_trade" where
  "named_of t d = (let r = hd (trades_with t d) in
     (r, hd (filter (\<lambda>ty. tt_id ty = t_tt_id r) (trade_type_tbl d)), hd (filter (\<lambda>s. s_symb s = t_s_symb r) (security_tbl d))))"

definition in_cash :: "int \<Rightarrow> db \<Rightarrow> bool" where
  "in_cash t d \<longleftrightarrow> t_is_cash (hd (trades_with t d))"

text \<open>
  The name a cash transaction gets: type, quantity and security, with \<open>Shares\<close> in capitals when the
  old name has them in small letters, and in small letters otherwise; at most 100 characters.
\<close>

definition other_name :: "string \<Rightarrow> string \<Rightarrow> string \<Rightarrow> string \<Rightarrow> string" where
  "other_name type_name quantity sec_name old =
     (let shares = (if sublist '' shares of '' old then ''Shares'' else ''shares'') in
      take 100 (concat [type_name, '' '', quantity, '' '', shares, '' of '', sec_name]))"

lemma strstr_sublist: "strstr s p \<noteq> None \<longleftrightarrow> sublist p s"
proof (induction s)
  case Nil
  then show ?case by (auto simp: strstr.simps)
next
  case (Cons c s)
  have "take (length p) (c # s) = p \<longleftrightarrow> prefix p (c # s)"
    by (metis append_eq_conv_conj prefix_def)
  with Cons show ?case by (simp add: strstr.simps [of "c # s"] sublist_Cons_right)
qed

lemma TUF3_cash_name_eq: "TUF3_cash_name type_name quantity sec_name old = other_name type_name quantity sec_name old"
  using strstr_sublist [of old "'' shares of ''"] by (simp add: TUF3_cash_name_def other_name_def)

definition new_cash_name :: "int \<Rightarrow> db \<Rightarrow> string" where
  "new_cash_name t d = (case named_of t d of (r, ty, s) \<Rightarrow>
     other_name (tt_name ty) (show_int (t_qty r)) (s_name s) (the (ct_name (hd (cash_transactions t d)))))"

definition reworded_row :: "int set \<Rightarrow> db \<Rightarrow> cash_transaction_row \<Rightarrow> cash_transaction_row" where
  "reworded_row U d r = (if ct_t_id r \<in> U then r\<lparr>ct_name := Some (new_cash_name (ct_t_id r) d)\<rparr> else r)"

text \<open>The cash transactions of the trades with the numbers in \<open>U\<close> have their name changed.\<close>

definition reworded :: "int set \<Rightarrow> db \<Rightarrow> db" where
  "reworded U d = d\<lparr>cash_transaction_tbl := map (reworded_row U d) (cash_transaction_tbl d)\<rparr>"

lemma reworded_row_simps [simp]:
  "ct_t_id (reworded_row U d r) = ct_t_id r" "ct_amt (reworded_row U d r) = ct_amt r" "ct_dts (reworded_row U d r) = ct_dts r"
  by (simp_all add: reworded_row_def)

lemma reworded_none: "reworded {} d = d"
  by (simp add: reworded_def reworded_row_def map_idI)

lemma cash_transactions_reworded: "cash_transactions t (reworded U d) = map (reworded_row U d) (cash_transactions t d)"
  by (simp add: cash_transactions_def reworded_def filter_map comp_def)

lemma touch_reworded: "set_cash_name t (new_cash_name t d) (reworded U d) = reworded (insert t U) d"
  by (auto simp: set_cash_name_def reworded_def update_where_def reworded_row_def)

lemma other_name_width: "length (other_name type_name quantity sec_name old) \<le> 100"
  unfolding other_name_def Let_def length_take by (rule min.cobounded2)

lemma new_cash_name_width: "length (new_cash_name t d) \<le> 100"
  by (simp add: new_cash_name_def other_name_width split: prod.split)

lemma details_reworded: "details_sized pg d \<Longrightarrow> details_sized pg (reworded U d)"
  by (auto simp: details_sized_def reworded_def) (auto simp: reworded_row_def new_cash_name_width)

lemma named_of_named:
  assumes "distinct (map t_id (trade_tbl d))" "distinct (map tt_id (trade_type_tbl d))" "distinct (map s_symb (security_tbl d))"
    and "x \<in> set (named_trades symb since till d)"
  shows "named_of (t_id (fst x)) d = x"
proof -
  obtain t ty s where x: "x = (t, ty, s)" by (cases x)
  then have i: "t \<in> set (trade_tbl d)" "ty \<in> set (trade_type_tbl d)" "s \<in> set (security_tbl d)"
    "tt_id ty = t_tt_id t" "s_symb s = t_s_symb t"
    using assms(4) by (auto simp: named_trades_def order_asc_def split: if_splits)
  moreover have "filter (\<lambda>y. tt_id y = tt_id ty) (trade_type_tbl d) = [ty]" "filter (\<lambda>y. s_symb y = s_symb s) (security_tbl d) = [s]"
    using keyed_filter_single [OF assms(2) i(2)] keyed_filter_single [OF assms(3) i(3)] by simp_all
  ultimately show ?thesis using trades_with_keyed [OF assms(1) i(1)] by (simp add: x named_of_def)
qed


section \<open>What the loop writes\<close>

definition tuf3_row_es :: "pgapi \<Rightarrow> nat \<Rightarrow> named_trade \<Rightarrow> trade_col emit list" where
  "tuf3_row_es pg n x = (case x of (t, ty, s) \<Rightarrow>
     seps n [i_acct_id, i_exec_name, i_is_cash, i_price, i_quantity, i_s_name, i_trade_dts, i_trade_list, i_trade_type,
       i_type_name, i_settlement_amount, i_settlement_cash_due_date, i_settlement_cash_type, i_trade_history_dts,
       i_trade_history_status_id]
     @ [(i_acct_id, Plain, show_int (t_ca_id t))] @ quote_as Plain i_exec_name (t_exec_name t)
     @ [(i_is_cash, Plain, bit_text (t_is_cash t)), (i_price, Plain, or_NULL (map_option (numeric_out 2) (t_trade_price t))),
        (i_quantity, Plain, show_int (t_qty t))]
     @ quote_as Plain i_s_name (s_name s) @ quote_as Plain i_trade_dts (timestamp_out pg (t_dts t))
     @ [(i_trade_list, Plain, show_int (t_id t)), (i_trade_type, Plain, t_tt_id t)]
     @ quote_as Plain i_type_name (tt_name ty))"

definition tuf3_upd :: "int \<Rightarrow> named_trade \<Rightarrow> tu_counters \<Rightarrow> pgsession \<Rightarrow> pgsession" where
  "tuf3_upd = limited_upd (\<lambda>x. t_id (fst x)) in_cash (\<lambda>t d. set_cash_name t (new_cash_name t d)) num_updated"

definition tuf3_es :: "pgapi \<Rightarrow> named_trade \<Rightarrow> tu_counters \<Rightarrow> pgsession \<Rightarrow> trade_col emit list" where
  "tuf3_es pg x k s = (let t = fst x; i = t_id t in
     tuf3_row_es pg (trades k) x
     @ rows_emits (\<lambda>_. settlement_es pg False True 0) 0 (settlements i (snapshot s))
     @ cash_part pg False Plain (t_is_cash t) (num_cash_txn k) i (current s)
     @ three_es pg False i (snapshot s))"

definition tuf3_nxt :: "int \<Rightarrow> named_trade \<Rightarrow> tu_counters \<Rightarrow> pgsession \<Rightarrow> tu_counters" where
  "tuf3_nxt mu x k s = (let t = fst x; i = t_id t in k\<lparr>trades := Suc (trades k),
     num_cash_txn := num_cash_txn k + cash_count (t_is_cash t) i (snapshot s),
     num_updated := num_updated k + (if int (num_updated k) < mu \<and> in_cash i (snapshot s) then 1 else 0)\<rparr>)"

text \<open>A trade that frame 3 can process: settled, with a history, and with a cash transaction if settled in cash.\<close>

definition tuf3_ready :: "trade_row \<Rightarrow> db \<Rightarrow> bool" where
  "tuf3_ready t d \<longleftrightarrow> trades_keyed d \<and> t \<in> set (trade_tbl d) \<and> in_i64 (t_id t) \<and> named_cash (t_id t) d
     \<and> settlements (t_id t) d \<noteq> [] \<and> histories (t_id t) d \<noteq> [] \<and> (t_is_cash t \<longrightarrow> cash_transactions (t_id t) d \<noteq> [])"

definition tuf3_ok :: "named_trade \<Rightarrow> pgsession \<Rightarrow> bool" where
  "tuf3_ok x s \<longleftrightarrow> (\<exists>U. current s = reworded U (snapshot s)) \<and> named_of (t_id (fst x)) (snapshot s) = x
     \<and> tuf3_ready (fst x) (snapshot s)"

lemma tuf3_planned: "TUF3_1 \<in> set TUF3_statements" "TUF3_2 \<in> set TUF3_statements" "TUF3_3 \<in> set TUF3_statements"
  "TUF3_4 \<in> set TUF3_statements" "TUF3_5 \<in> set TUF3_statements" "TUF3_6 \<in> set TUF3_statements"
  by (simp_all add: TUF3_statements_def)

lemma tuf3_sql:
  "tu_sql pg [DInt64 i] TUF3_2 d = Ok (SPI_OK_SELECT (map (settlement_values pg) (settlements i d)), d)"
  "tu_sql pg [DInt64 i] TUF3_3 d = Ok (SPI_OK_SELECT (map (\<lambda>r. [ct_name r]) (cash_transactions i d)), d)"
  "tu_sql pg [DInt64 i] TUF3_5 d = Ok (SPI_OK_SELECT (map (cash_values pg) (cash_transactions i d)), d)"
  "tu_sql pg [DInt64 i] TUF3_6 d = Ok (SPI_OK_SELECT (map (history_values pg) (histories i d)), d)"
  by (simp_all add: tu_sql_def SQLTUF3_3_def SQL_settlement_def SQL_cash_transaction_def SQL_trade_history_def)

lemma TUF3_row_values: "TUF3_row n (named_trade_values pg x) = Ok (tuf3_row_es pg n x)"
proof -
  obtain t ty s where x: "x = (t, ty, s)" by (cases x)
  show ?thesis by (simp add: x TUF3_row_def tuf3_row_es_def is_t_def)
qed

lemma snapshot_tuf3_upd [simp]: "snapshot (tuf3_upd mu x k s) = snapshot s"
  by (simp add: tuf3_upd_def limited_upd_def)

lemma tuf3_upd_counters [simp]: "tuf3_upd mu x (k\<lparr>trades := n\<rparr>) s = tuf3_upd mu x k s"
  by (simp add: tuf3_upd_def limited_upd_def)

lemma tuf3_upd_ok:
  assumes "tuf3_ok x s"
  shows "tuf3_ok x (tuf3_upd mu y k s)"
  using assms by (auto simp: tuf3_ok_def tuf3_upd_def limited_upd_def touch_reworded)

lemma tuf3_in_cash: "tuf3_ok x s \<Longrightarrow> in_cash (t_id (fst x)) (snapshot s) = t_is_cash (fst x)"
  using trades_with_keyed [of "snapshot s" "fst x"] by (simp add: tuf3_ok_def tuf3_ready_def trades_keyed_def in_cash_def)

lemma tuf3_one_cash:
  assumes "tuf3_ok x s" "t_is_cash (fst x)"
  shows "\<exists>r. cash_transactions (t_id (fst x)) (snapshot s) = [r] \<and> ct_name r \<noteq> None"
proof -
  let ?cs = "cash_transactions (t_id (fst x)) (snapshot s)"
  have "?cs \<noteq> []" "length ?cs \<le> 1" "named_cash (t_id (fst x)) (snapshot s)"
    using assms cash_transactions_le [of "snapshot s" "t_id (fst x)"] by (simp_all add: tuf3_ok_def tuf3_ready_def)
  then show ?thesis by (cases ?cs) (auto simp: named_cash_def)
qed

lemma tuf3_update:
  assumes "tuf3_ok x s" "x = (t, ty, sec)" "t_is_cash t" "int (num_updated k) < mu"
    and "set TUF3_statements \<subseteq> set (plans f)" "session f = s"
  shows "TUF3_update (tu_spi pg) (t_id t) (tt_name ty) (show_int (t_qty t)) (s_name sec) k f =
    Ok ((True, k\<lparr>num_updated := Suc (num_updated k)\<rparr>), f\<lparr>session := tuf3_upd mu x k s\<rparr>)"
proof -
  let ?d = "snapshot s" and ?i = "t_id t"
  let ?nm = "new_cash_name ?i ?d"
  obtain U where U: "current s = reworded U ?d" using assms(1) by (auto simp: tuf3_ok_def)
  obtain r old where r: "cash_transactions ?i ?d = [r]" "ct_name r = Some old"
    using tuf3_one_cash [OF assms(1)] assms(2,3) by auto
  have "named_of ?i ?d = x" using assms(1,2) by (simp add: tuf3_ok_def)
  then have nm: "TUF3_cash_name (tt_name ty) (show_int (t_qty t)) (s_name sec) old = ?nm" by (simp add: new_cash_name_def r assms(2) TUF3_cash_name_eq)
  have "cash_transactions ?i (current s) = [reworded_row U ?d r]" by (simp add: U cash_transactions_reworded r)
  then have upd: "tu_sql pg [DText ?nm, DInt64 ?i] TUF3_4 (current s) = Ok (SPI_OK_UPDATE 1, set_cash_name ?i ?nm (current s))"
    by (simp add: tu_sql_def SQLTUF3_4_def new_cash_name_width)
  have pl: "stmt \<in> set (plans f)" if "stmt \<in> set TUF3_statements" for stmt using that assms(5) by blast
  have q1: "first_row (tu_spi pg) TUF3_3 [DInt64 ?i] f = Ok (Some [Some old], f)"
    using tu.first_row_eq [OF pl [OF tuf3_planned(3)] tuf3_sql(2)] assms(6) by (simp add: snap_of_def r)
  have q2: "SPI_execute_plan (tu_spi pg) TUF3_4 [DText ?nm, DInt64 ?i] False f =
      Ok (SPI_OK_UPDATE 1, set_db (set_cash_name ?i ?nm (current s)) f)"
    by (rule tu.exec_write [OF pl [OF tuf3_planned(4)]]) (use upd assms(6) in \<open>simp add: db_of_def\<close>)
  have "tuf3_upd mu x k s = s\<lparr>current := set_cash_name ?i ?nm (current s)\<rparr>"
    using assms(2,3,4) tuf3_in_cash [OF assms(1)] by (simp add: tuf3_upd_def limited_upd_def)
  then show ?thesis
    using assms(6) by (simp add: TUF3_update_def q1 nm q2 set_db_def del: SPI_execute_plan_planned)
qed

lemma tuf3_history_writes:
  assumes "histories i (snapshot s) \<noteq> []"
  shows "writes TU_small TUF3_statements s (TUF3_history (tu_spi pg) i) (three_es pg False i (snapshot s)) () s"
proof -
  obtain h hs where h: "histories i (snapshot s) = h # hs" using assms by (cases "histories i (snapshot s)") auto
  then have "take 3 (history_values pg h # map (history_values pg) hs) = history_values pg h # map (history_values pg) hs"
    using length_histories [of i "snapshot s"] by simp
  then show ?thesis
    by (auto simp: writes_def TUF3_history_def tu.query_read [OF tuf3_planned(6) tuf3_sql(4) _ refl] h three_es_def
        three_rows_histories [of False _ "h # hs" for h hs, unfolded list.map] case_prod_unfold simp del: take_Suc_Cons)
qed


lemma tuf3_body:
  assumes "tuf3_ok x s"
  shows "writes TU_small TUF3_statements s (TUF3_trade (tu_spi pg) mu (named_trade_values pg x) k)
    (tuf3_es pg x k (tuf3_upd mu x k s)) (True, tuf3_nxt mu x k s) (tuf3_upd mu x k s)"
proof -
  obtain t ty sec where x: "x = (t, ty, sec)" by (cases x)
  let ?s = "tuf3_upd mu x k s" and ?k = "k\<lparr>trades := Suc (trades k)\<rparr>" and ?i = "t_id t" and ?d = "snapshot s"
  have rd: "tuf3_ready t ?d" using assms by (simp add: tuf3_ok_def x)
  have ok: "tuf3_ok x ?s" by (rule tuf3_upd_ok [OF assms])
  then obtain U where U: "current ?s = reworded U ?d" by (auto simp: tuf3_ok_def)
  have main: "writes TU_small TUF3_statements s (emit_rows TU_small TUF3_row (trades k) [named_trade_values pg x])
      (tuf3_row_es pg (trades k) x) (Suc (trades k)) s"
    using writes_rows [of "[x]" TUF3_row "named_trade_values pg" "tuf3_row_es pg" TU_small TUF3_statements s "trades k"]
    by (simp add: TUF3_row_values)
  have vals: "SPI_getvalue (named_trade_values pg x) 3 = bool_txt (t_is_cash t)" "SPI_getvalue (named_trade_values pg x) 5 = int_txt (t_qty t)"
    "SPI_getvalue (named_trade_values pg x) 6 = Some (s_name sec)" "SPI_getvalue (named_trade_values pg x) 8 = int_txt ?i"
    "SPI_getvalue (named_trade_values pg x) 10 = Some (tt_name ty)"
    by (simp_all add: x)
  have settled: "writes TU_small TUF3_statements s (TUF3_settlement (tu_spi pg) ?i 0)
      (rows_emits (\<lambda>_. settlement_es pg False True 0) 0 (settlements ?i ?d)) (Some (0 + length (settlements ?i ?d))) s"
    unfolding TUF3_settlement_def by (rule tu.writes_read [OF tuf3_planned(2) tuf3_sql(1)]) (rule settlement_cells_values)
  have i: "in_i64 ?i" using rd by (simp add: tuf3_ready_def)
  let ?step = "\<lambda>f. if t_is_cash t \<and> int (num_updated ?k) < mu
    then TUF3_update (tu_spi pg) ?i (tt_name ty) (show_int (t_qty t)) (s_name sec) ?k f else Ok ((True, ?k), f)"
  let ?k' = "?k\<lparr>num_updated := num_updated k + (if int (num_updated k) < mu \<and> t_is_cash t then 1 else 0)\<rparr>"
  have step: "?step f = Ok ((True, ?k'), f\<lparr>session := ?s\<rparr>)" if "set TUF3_statements \<subseteq> set (plans f)" "session f = s" for f
  proof (cases "t_is_cash t \<and> int (num_updated k) < mu")
    case True
    then show ?thesis using tuf3_update [OF assms x _ _ that, of ?k mu pg] by simp
  next
    case False
    then have "?s = s" using tuf3_in_cash [OF assms] by (auto simp: tuf3_upd_def limited_upd_def x)
    with False that show ?thesis by auto
  qed
  have fx: "fst x = t" by (simp add: x)
  have one: "length (cash_transactions ?i (current ?s)) = 1" if "t_is_cash t"
    using tuf3_one_cash [OF assms] that unfolding fx by (auto simp: U cash_transactions_reworded)
  have named: "named_cash ?i (current ?s)"
    using rd by (auto simp: tuf3_ready_def U cash_transactions_reworded named_cash_def reworded_row_def)
  have count: "cash_count (t_is_cash t) ?i (current ?s) = cash_count (t_is_cash t) ?i ?d"
    by (simp add: cash_count_def U cash_transactions_reworded)
  have cash: "writes TU_small TUF3_statements ?s (TUF3_cash (tu_spi pg) ?i (t_is_cash t) n)
      (cash_part pg False Plain (t_is_cash t) n ?i (current ?s)) (Some (n + cash_count (t_is_cash t) ?i ?d)) ?s" for n
    unfolding count [symmetric] TUF3_cash_def
    by (rule writes_first_cash) (use tu.query_now [OF tuf3_planned(5) tuf3_sql(3)] named one in auto)
  have history: "writes TU_small TUF3_statements ?s (TUF3_history (tu_spi pg) ?i) (three_es pg False ?i (snapshot ?s)) () ?s"
    by (rule tuf3_history_writes) (use rd in \<open>simp add: tuf3_ready_def\<close>)
  have nxt: "tuf3_nxt mu x k s = ?k'\<lparr>num_cash_txn := num_cash_txn k + cash_count (t_is_cash t) ?i ?d\<rparr>"
    using tuf3_in_cash [OF assms] by (simp add: tuf3_nxt_def Let_def x)
  show ?thesis
    unfolding TUF3_trade_def [abs_def] tuf3_es_def Let_def x fst_conv
    unfolding x [symmetric]
    apply (rule writes_bind [OF main])
    apply (simp only: vals from_ptr.simps obind.simps is_t_bool atoll_show_int [OF i] snapshot_tuf3_upd)
    apply (rule writes_bind [OF settled])
    apply (simp only: option.case)
    apply (rule writes_call [OF step], assumption, assumption, simp split del: if_split)
    apply (rule writes_bind [OF cash], simp split del: if_split)
    by (rule writes_map [OF history [unfolded snapshot_tuf3_upd]]) (simp add: nxt split del: if_split)
qed


subsection \<open>Column by column\<close>

text \<open>The columns in the order of their closing braces.\<close>

definition tuf3_cols :: "trade_col list" where
  "tuf3_cols = [i_acct_id, i_cash_transaction_amount, i_cash_transaction_dts, i_cash_transaction_name, i_exec_name,
     i_is_cash, i_price, i_quantity, i_s_name, i_settlement_amount, i_settlement_cash_due_date, i_settlement_cash_type,
     i_trade_dts, i_trade_history_dts, i_trade_history_status_id, i_trade_list, i_type_name, i_trade_type]"

definition tuf3_el :: "pgapi \<Rightarrow> trade_col \<Rightarrow> named_trade \<Rightarrow> string" where
  "tuf3_el pg c x = (case x of (t, ty, s) \<Rightarrow>
     if c = i_s_name then quoted (s_name s)
     else if c = i_type_name then quoted (tt_name ty)
     else if c = i_trade_type then t_tt_id t
     else trade_el pg c t)"

definition tuf3_els :: "pgapi \<Rightarrow> trade_col \<Rightarrow> named_trade \<Rightarrow> db \<Rightarrow> db \<Rightarrow> string list" where
  "tuf3_els pg c x d cur = (let t = fst x in
     if c \<in> set settlement_cols then settlement_els pg False True c (t_id t) d
     else if c \<in> set cash_cols then cash_els pg False (t_is_cash t) c (t_id t) cur
     else if c \<in> set history_cols then history_els pg False False ''NULL'' c (t_id t) d
     else [tuf3_el pg c x])"

lemma closing_TUF3: "closing tuf3_cols TUF3_closes"
  by (auto simp: closing_def TUF3_closes_def tuf3_cols_def) (auto simp: closes_def)

lemma tuf3_one_settlement: "tuf3_ok x s \<Longrightarrow> \<exists>r. settlements (t_id (fst x)) (snapshot s) = [r]"
  using settlements_le [of "snapshot s" "t_id (fst x)"]
  by (cases "settlements (t_id (fst x)) (snapshot s)") (auto simp: tuf3_ok_def tuf3_ready_def)

lemma out_settlement_once:
  "out c (settlement_es pg qd qt 0 r) = (if c \<in> set settlement_cols then settlement_el pg qd qt c r else [])"
  using out_settlement_rows [of c pg qd qt 0 "[r]"] by simp

lemma out_tuf3:
  assumes "c \<in> set tuf3_cols" "tuf3_ok x s"
  shows "out c (tuf3_es pg x k s) = joined (tu_counter c k = 0) (tuf3_els pg c x (snapshot s) (current s))"
proof -
  obtain t ty sec where x: "x = (t, ty, sec)" by (cases x)
  obtain r where r: "settlements (t_id t) (snapshot s) = [r]" using tuf3_one_settlement [OF assms(2)] by (auto simp: x)
  show ?thesis
    using assms(1)
    by (auto simp: x r tuf3_es_def tuf3_row_es_def tuf3_els_def tuf3_cols_def tuf3_el_def trade_el_def out_settlement_once
        out_cash_part out_three_es tu_counter_def settlement_els_def Let_def joined_False_nonempty [OF history_els_nonempty])
qed

lemma tuf3_counter:
  assumes "c \<in> set tuf3_cols" "tuf3_ok x s" "tuf3_ok x s'" "snapshot s' = snapshot s"
  shows "tu_counter c (tuf3_nxt mu x k s) = 0 \<longleftrightarrow> tu_counter c k = 0 \<and> tuf3_els pg c x (snapshot s) (current s') = []"
proof -
  obtain U where U: "current s' = reworded U (snapshot s)" using assms(3,4) by (auto simp: tuf3_ok_def)
  have "cash_count b i (current s') = cash_count b i (snapshot s)" for b i
    by (simp add: cash_count_def U cash_transactions_reworded)
  with tuf3_one_settlement [OF assms(2)] assms(1) show ?thesis
    by (auto simp: tuf3_nxt_def tuf3_els_def tu_counter_def settlement_els_def cash_els_Nil tuf3_cols_def Let_def)
qed

text \<open>The texts that only this frame returns fit too, and symbols are unique.\<close>

definition names_sized :: "db \<Rightarrow> bool" where
  "names_sized d \<longleftrightarrow> distinct (map s_symb (security_tbl d)) \<and> (\<forall>s \<in> set (security_tbl d). length (s_name s) \<le> 70)
     \<and> (\<forall>ty \<in> set (trade_type_tbl d). length (tt_name ty) \<le> 12)"

definition tuf3_good :: "pgapi \<Rightarrow> named_trade \<Rightarrow> pgsession \<Rightarrow> bool" where
  "tuf3_good pg x s \<longleftrightarrow> tuf3_ok x s \<and> trades_sized pg (snapshot s) \<and> length (tt_name (fst (snd x))) \<le> 12
     \<and> length (s_name (snd (snd x))) \<le> 70"

definition tuf3_width :: "trade_col \<Rightarrow> nat" where
  "tuf3_width c =
     (case c of
        i_settlement_amount \<Rightarrow> 12 | i_settlement_cash_due_date \<Rightarrow> 60 | i_settlement_cash_type \<Rightarrow> 42
      | i_cash_transaction_amount \<Rightarrow> 12 | i_cash_transaction_dts \<Rightarrow> 62 | i_cash_transaction_name \<Rightarrow> 102
      | i_trade_history_dts \<Rightarrow> 60 | i_trade_history_status_id \<Rightarrow> 4
      | i_s_name \<Rightarrow> 72 | i_type_name \<Rightarrow> 14 | i_trade_type \<Rightarrow> 3 | _ \<Rightarrow> trade_width c)"

lemma tuf3_good_trade: "tuf3_good pg x s \<Longrightarrow> good_trade pg (fst x) (snapshot s)"
  by (simp add: tuf3_good_def tuf3_ok_def tuf3_ready_def good_trade_def)

lemma tuf3_el_width:
  assumes "tuf3_good pg x s" "c \<notin> set settlement_cols" "c \<notin> set cash_cols" "c \<notin> set history_cols"
  shows "length (tuf3_el pg c x) \<le> tuf3_width c"
proof -
  obtain t ty sec where x: "x = (t, ty, sec)" by (cases x)
  have g: "good_trade pg t (snapshot s)" using tuf3_good_trade [OF assms(1)] by (simp add: x)
  then have "length (t_tt_id t) \<le> 3" by (simp add: good_trade_def trades_sized_def)
  then show ?thesis
    using assms trade_el_width [OF g, of c] by (cases c) (auto simp: x tuf3_el_def tuf3_width_def tuf3_good_def quoted_def)
qed

lemma tuf3_els_width:
  assumes "tuf3_good pg x s" "el \<in> set (tuf3_els pg c x (snapshot s) (current s))"
  shows "length el \<le> tuf3_width c"
proof -
  let ?t = "fst x" and ?d = "snapshot s"
  note d = good_trade_keyed [OF tuf3_good_trade [OF assms(1)]]
  obtain U where U: "current s = reworded U ?d" using assms(1) by (auto simp: tuf3_good_def tuf3_ok_def)
  have cur: "details_sized pg (current s)" "\<forall>r \<in> set (cash_transaction_tbl (current s)). length (numeric_out 2 (ct_amt r)) \<le> 12"
    using details_reworded [OF d(2), of U] d(3) by (auto simp: U reworded_def)
  consider "c \<in> set settlement_cols" "el \<in> set (settlement_els pg False True c (t_id ?t) ?d)"
    | "c \<in> set cash_cols" "el \<in> set (cash_els pg False (t_is_cash ?t) c (t_id ?t) (current s))"
    | "c \<in> set history_cols" "el \<in> set (history_els pg False False ''NULL'' c (t_id ?t) ?d)"
    | "c \<notin> set settlement_cols" "c \<notin> set cash_cols" "c \<notin> set history_cols" "el = tuf3_el pg c x"
    using assms(2) by (auto simp: tuf3_els_def Let_def split: if_splits)
  then show ?thesis
  proof cases
    case 1
    with settlement_els_width [OF d(2) 1(2)] show ?thesis by (auto simp: tuf3_width_def)
  next
    case 2
    with cash_els_width [OF cur _ 2(2)] show ?thesis by (auto simp: tuf3_width_def)
  next
    case 3
    with history_els_width [OF d(2) _ 3(2)] show ?thesis by (auto simp: tuf3_width_def)
  next
    case 4
    with tuf3_el_width [OF assms(1)] show ?thesis by simp
  qed
qed

lemma tuf3_els_le:
  assumes "tuf3_ok x s"
  shows "length (tuf3_els pg c x (snapshot s) (current s)) \<le> (if c \<in> set history_cols then 3 else 1)"
proof -
  obtain U where U: "current s = reworded U (snapshot s)" and k: "trades_keyed (snapshot s)"
    using assms by (auto simp: tuf3_ok_def tuf3_ready_def)
  show ?thesis
    using settlement_els_le [OF k] cash_transactions_le [OF k]
    by (auto simp: tuf3_els_def cash_els_def U cash_transactions_reworded Let_def)
qed

lemma tuf3_emits_in: "\<forall>e \<in> set (tuf3_es pg x k s). late_in tuf3_cols e"
proof -
  have "\<forall>e \<in> set (tuf3_row_es pg n x). late_in tuf3_cols e" for n
    by (auto simp: late_in_def tuf3_row_es_def tuf3_cols_def seps_def quote_as_def split: if_splits prod.splits)
  moreover have "\<forall>e \<in> set (rows_emits (\<lambda>_. settlement_es pg False True 0) n ss). late_in tuf3_cols e" for n ss
    by (rule rows_emits_all) (auto simp: late_in_def settlement_es_def tuf3_cols_def seps_def quote_as_def value_as_def split: if_splits)
  moreover have "set cash_cols \<subseteq> set tuf3_cols" "set history_cols \<subseteq> set tuf3_cols" by (auto simp: tuf3_cols_def)
  note late_in_mono [OF parts_in(2) this(1), of Plain] late_in_mono [OF three_es_in this(2)]
  ultimately show ?thesis by (simp add: tuf3_es_def ball_Un Let_def)
qed

lemma extras_tuf3 [simp]: "extras c (tuf3_es pg x k s) = 0"
proof -
  have "extras c (rows_emits (\<lambda>_. settlement_es pg False True 0) n ss) = 0 * length ss" for n ss
    by (rule extras_rows_emits) simp
  then show ?thesis by (simp add: tuf3_es_def tuf3_row_es_def Let_def split: prod.split)
qed


subsection \<open>All rounds\<close>

lemma num_updated_tuf3_nxt:
  "num_updated (tuf3_nxt mu x k s) =
     num_updated k + (if int (num_updated k) < mu \<and> in_cash (t_id (fst x)) (snapshot s) then 1 else 0)"
  by (simp add: tuf3_nxt_def Let_def)

lemma tuf3_els_reworded:
  assumes "t_id (fst x) \<in> U \<longleftrightarrow> t_id (fst x) \<in> V"
  shows "tuf3_els pg c x d (reworded U d) = tuf3_els pg c x d (reworded V d)"
proof -
  have "cash_transactions (t_id (fst x)) (reworded U d) = cash_transactions (t_id (fst x)) (reworded V d)"
    using assms unfolding cash_transactions_reworded by (auto simp: reworded_row_def cash_transactions_def)
  then show ?thesis by (simp add: tuf3_els_def cash_els_def Let_def)
qed

interpretation tuf3u: limited_updates "\<lambda>x. t_id (fst x)" in_cash "\<lambda>t d. set_cash_name t (new_cash_name t d)" reworded
  "\<lambda>_. True" num_updated "tuf3_nxt mu" mu "tuf3_els pg" for pg mu
  by unfold_locales (rule touch_reworded, rule reworded_none, rule num_updated_tuf3_nxt, erule tuf3_els_reworded)

subsection \<open>The frame as a whole\<close>

interpretation tuf3: array_loop TU_small "\<lambda>x. TUF3_trade (tu_spi pg) mu (named_trade_values pg x)"
  "\<lambda>x k s. tuf3_es pg x k (tuf3_upd mu x k s)" "tuf3_nxt mu" "tuf3_upd mu" tuf3_ok TUF3_statements tuf3_cols tu_counters0 tu_counter
  "\<lambda>c x k s. tuf3_els pg c x (snapshot s) (current (tuf3_upd mu x k s))" "tuf3_good pg"
  "\<lambda>c. if c \<in> set history_cols then 3 else 1" tuf3_width "\<lambda>_. 0" "\<lambda>_. 1"
  for pg mu
proof
  fix c x s el and k :: tu_counters
  let ?s = "tuf3_upd mu x k s"
  show "\<forall>(c, md, x) \<in> set (tuf3_es pg x k ?s). c \<in> set tuf3_cols \<and> room md x \<le> 1"
    using tuf3_emits_in [of pg x k ?s] by (fastforce simp: late_in_def room_def)
  assume good: "tuf3_good pg x s"
  then have upd: "tuf3_ok x ?s" "tuf3_good pg x ?s" by (simp_all add: tuf3_good_def tuf3_upd_ok)
  show "length (tuf3_els pg c x (snapshot s) (current ?s)) \<le> (if c \<in> set history_cols then 3 else 1)"
    using tuf3_els_le [OF upd(1), of pg c] by simp
  show "c \<in> set tuf3_cols \<Longrightarrow> el \<in> set (tuf3_els pg c x (snapshot s) (current ?s)) \<Longrightarrow> length el \<le> tuf3_width c"
    using tuf3_els_width [OF upd(2), of el c] by simp
next
  fix c x s and k :: tu_counters
  assume ok: "tuf3_ok x s" and c: "c \<in> set tuf3_cols"
  show "out c (tuf3_es pg x k (tuf3_upd mu x k s)) =
      joined (tu_counter c k = 0) (tuf3_els pg c x (snapshot s) (current (tuf3_upd mu x k s)))"
    using out_tuf3 [OF c tuf3_upd_ok [OF ok]] by simp
  show "tu_counter c (tuf3_nxt mu x k s) = 0 \<longleftrightarrow>
      tu_counter c k = 0 \<and> tuf3_els pg c x (snapshot s) (current (tuf3_upd mu x k s)) = []"
    by (rule tuf3_counter [OF c ok tuf3_upd_ok [OF ok]]) simp
qed (auto simp: tuf3_body tuf3_upd_ok tuf3_good_def tu_counter_def tu_counters0_def, simp add: tuf3_cols_def)

text \<open>What the frame returns: \<open>d\<close> is the database before the call, \<open>cur\<close> after it.\<close>

definition tuf3_out :: "pgapi \<Rightarrow> named_trade list \<Rightarrow> nat \<Rightarrow> db \<Rightarrow> db \<Rightarrow> spi_row" where
  "tuf3_out pg xs n d cur = map (\<lambda>c.
     if c = i_num_found then int_txt (int (length xs))
     else if c = i_num_updated then int_txt (int n)
     else Some (array_text (concat (map (\<lambda>x. tuf3_els pg c x d cur) xs)))) tuf3_order"

lemma tuf3_bufs: "fst ` set TUF3_bufs = set tuf3_cols" "distinct (map fst TUF3_bufs)"
  by (simp_all add: TUF3_bufs_def tuf3_cols_def)

lemma tuf3_sizes_suffice:
  "(c, len) \<in> set TUF3_bufs \<Longrightarrow> 2 \<le> len \<and> len < 2 ^ 30 \<and>
     int (tuf3_width c + 1) * (int (if c \<in> set history_cols then 3 else 1) * 20) + 1 + int 0 * 20 + 1 \<le> len"
  by (auto simp: TUF3_bufs_def tuf3_width_def trade_width_def)

lemma named_trades_good:
  assumes "trades_sized pg d" "names_sized d" "x \<in> set (take n (named_trades symb since till d))" "tuf3_ready (fst x) d"
  shows "tuf3_good pg x \<lparr>snapshot = d, current = reworded U d\<rparr>"
proof -
  have x: "x \<in> set (named_trades symb since till d)" using assms(3) by (rule in_set_takeD)
  have "named_of (t_id (fst x)) d = x"
    using assms(1,2) by (intro named_of_named [OF _ _ _ x]) (simp_all add: trades_sized_def trades_keyed_def names_sized_def)
  moreover have "fst (snd x) \<in> set (trade_type_tbl d)" "snd (snd x) \<in> set (security_tbl d)"
    using x by (auto simp: named_trades_def order_asc_def split: if_splits)
  ultimately show ?thesis using assms(1,2,4) by (auto simp: tuf3_good_def tuf3_ok_def names_sized_def)
qed

text \<open>
  C21. The third frame of Trade-Update.  Of the trades of the security in the period, in order of time,
  the first \<open>max_trades\<close> are returned; the cash transactions of the first \<open>max_updates\<close> of these
  that are settled in cash change their name to type, quantity, \<open>shares of\<close> and security, with
  \<open>Shares\<close> in capitals exactly when the name had \<open> shares of \<close> (\<open>other_name\<close>), nothing else changes,
  and the row shows the names as changed.  A symbol of more than fifteen characters is read past the end of its buffer.
\<close>

theorem TradeUpdateFrame3_row:
  assumes "\<And>s. s \<in> set TUF3_statements \<Longrightarrow> prepare s" "session f = start_call d" "trades_sized pg d" "names_sized d"
    and "0 \<le> max_trades" "max_trades \<le> 20" "xs = take (nat max_trades) (named_trades symb since till d)"
    and "\<forall>x \<in> set xs. tuf3_ready (fst x) d" "us = chosen (\<lambda>t. in_cash t d) max_updates (map (\<lambda>x. t_id (fst x)) xs)"
    and "is_cstr symb"
  shows "\<exists>ps. TradeUpdateFrame3 prepare (tu_spi pg) till max_trades max_updates since symb f =
    (if length symb \<le> 15
     then Ok ([tuf3_out pg xs (length us) d (reworded (set us) d)], (set_db (reworded (set us) d) f)\<lparr>max_calls := 1, plans := ps\<rparr>)
     else Fail Crash)"
proof -
  let ?cur = "reworded (set us) d"
  let ?args = "[DText symb, DTimestamp since, DTimestamp till, DInt32 max_trades]"
  obtain ps where ps: "plan_queries prepare TUF3_statements (f\<lparr>max_calls := Suc 0\<rparr>) = Ok (f\<lparr>max_calls := Suc 0, plans := ps\<rparr>)"
    and sub: "set TUF3_statements \<subseteq> set ps"
    using planned [of TUF3_statements prepare "f\<lparr>max_calls := Suc 0\<rparr>", OF assms(1)] by auto
  let ?g = "f\<lparr>max_calls := Suc 0, plans := ps\<rparr>"
  have sub: "set TUF3_statements \<subseteq> set (plans ?g)" using sub by simp
  have us: "us = chosen (\<lambda>t. in_cash t d) (max_updates - int (num_updated tu_counters0)) (map (\<lambda>x. t_id (fst x)) xs)"
    using assms(9) by (simp add: tu_counters0_def)
  have s: "session ?g = \<lparr>snapshot = d, current = reworded {} d\<rparr>" using assms(2) by (simp add: start_call_def reworded_none)
  have rows: "tu_sql pg ?args TUF3_1 d = Ok (SPI_OK_SELECT (map (named_trade_values pg) (take (nat max_trades) (named_trades symb since till d))), d)" for d
    using assms(5) by (simp add: tu_sql_def SQLTUF3_1_def sql_limit_def take_map)
  have first: "query (tu_spi pg) True TUF3_1 ?args ?g = Ok (Some (map (named_trade_values pg) xs), ?g)"
    using tu.query_read [where rows = "\<lambda>d. map (named_trade_values pg) (take (nat max_trades) (named_trades symb since till d))",
        OF tuf3_planned(1) rows sub refl] unfolding s assms(7) by (simp add: assms(2) start_call_def reworded_none)
  have good: "\<forall>x \<in> set xs. tuf3_good pg x (session ?g)"
    using assms(8) named_trades_good [OF assms(3,4)] unfolding s assms(7) by blast
  have len: "int (length xs) \<le> 20" using assms(6,7) by simp
  have pal: "pallocs TUF3_bufs = Ok ()" by (rule pallocs_ok) (auto simp: TUF3_bufs_def)
  let ?k = "loop_state (tuf3_nxt max_updates) (tuf3_upd max_updates) xs tu_counters0 (session ?g)"
  have k: "num_updated ?k = length us"
    using tuf3u.upds [OF TrueI, of max_updates xs tu_counters0 d "{}"] us unfolding s tuf3_upd_def by (simp add: tu_counters0_def)
  have "length us \<le> length xs" using length_chosen [of _ _ "map (\<lambda>x. t_id (fst x)) xs"] by (simp add: assms(9))
  then have counts: "snprintf_d (INTEGER_LEN + 1) (int (length us)) = show_int (int (length us))"
    "snprintf_d (INTEGER_LEN + 1) (int (length xs)) = show_int (int (length xs))"
    using len by (intro snprintf_count, linarith)+
  have end_session: "loop_session (tuf3_nxt max_updates) (tuf3_upd max_updates) xs tu_counters0 (session ?g) = \<lparr>snapshot = d, current = ?cur\<rparr>"
    using tuf3u.session [OF TrueI, of max_updates xs tu_counters0 d "{}"] us unfolding s tuf3_upd_def by simp
  have els: "loop_els (\<lambda>x k s. tuf3_els pg c x (snapshot s) (current (tuf3_upd max_updates x k s))) (tuf3_nxt max_updates)
      (tuf3_upd max_updates) xs tu_counters0 (session ?g) = concat (map (\<lambda>x. tuf3_els pg c x d ?cur) xs)" for c
    using tuf3u.elements [OF TrueI, of pg c max_updates xs tu_counters0 d "{}"] us unfolding s tuf3_upd_def by simp
  obtain bufs bufs' where b: "open_bufs TUF3_bufs = Ok bufs"
    and run: "\<And>cont :: tu_counters \<Rightarrow> trade_col bufs \<Rightarrow> (tu_stmt, pgsession) fctx \<Rightarrow> (spi_row list \<times> (tu_stmt, pgsession) fctx) outcome.
      obind (for_each (\<lambda>x. TUF3_trade (tu_spi pg) max_updates (named_trade_values pg x)) xs tu_counters0 bufs ?g)
        (\<lambda>((k, bufs), f). obind (emits TU_small TUF3_closes bufs f) (\<lambda>(bufs, f). cont k bufs f)) =
      cont ?k bufs' (?g\<lparr>session := \<lparr>snapshot = d, current = ?cur\<rparr>\<rparr>)"
    and arrays: "\<forall>c \<in> set tuf3_cols. ctext (fst (bufs' c)) = array_text (concat (map (\<lambda>x. tuf3_els pg c x d ?cur) xs))"
    using tuf3.frame [OF tuf3_bufs(2,1) good len _ tuf3_sizes_suffice closing_TUF3 sub, of max_updates] unfolding els end_session
    by auto
  show ?thesis
  proof (cases "length symb \<le> 15")
    case True
    then have "TradeUpdateFrame3 prepare (tu_spi pg) till max_trades max_updates since symb f =
        srf_return (map ((buf_slots TUF3_bufs bufs' (\<lambda>_. Uninit))(i_num_found := Str (show_int (int (length xs))),
          i_num_updated := Str (show_int (int (length us))))) tuf3_order) (?g\<lparr>session := \<lparr>snapshot = d, current = ?cur\<rparr>\<rparr>)"
      using run k counts assms(10) by (simp add: TradeUpdateFrame3_def pal ps copy_raw_short first b for_each_map Let_def)
    moreover have "f\<lparr>session := \<lparr>snapshot = d, current = ?cur\<rparr>\<rparr> = set_db ?cur f"
      using assms(2) by (simp add: set_db_def start_call_def)
    ultimately show ?thesis using arrays True
      by (intro exI [of _ ps]) (simp add: srf_return_def tuf3_out_def buf_slots_def tuf3_bufs tuf3_order_def tuf3_cols_def
          set_db_def start_call_def assms(2))
  next
    case False
    then show ?thesis using assms(10) by (simp add: TradeUpdateFrame3_def pal ps copy_raw_long)
  qed
qed

theorem TradeUpdateFrame3_row_witness:
  "\<exists>ps. TradeUpdateFrame3 (\<lambda>_. True) (tu_spi sample_pg) 100 20 1 0 ''AB'' (update_ctx (update_db ''Ann'')) =
    Ok ([[Some ''{1}'', Some ''{360.30}'', Some ''{\"21\"}'', Some ''{\"Market-Sell 30 shares of AB of Alphabeta\"}'', Some ''{\"Ann\"}'',
       Some ''{1}'', Some ''1'', Some ''1'', Some ''{12.01}'', Some ''{30}'', Some ''{\"AB of Alphabeta\"}'', Some ''{360.30}'',
       Some ''{41}'', Some ''{\"Cash Account\"}'', Some ''{\"20\"}'', Some ''{20,21,NULL}'', Some ''{SBMT,CMPT,NULL}'', Some ''{9}'',
       Some ''{\"Market-Sell\"}'', Some ''{TMS}'']],
      (set_db (set_cash_name 9 ''Market-Sell 30 shares of AB of Alphabeta'' (update_db ''Ann'')) (update_ctx (update_db ''Ann'')))
        \<lparr>max_calls := 1, plans := ps\<rparr>)"
proof -
  let ?d = "update_db ''Ann''" and ?nm = "''Market-Sell 30 shares of AB of Alphabeta''"
  let ?t = "sample_trade\<lparr>t_trade_price := Some 1201, t_exec_name := ''Ann''\<rparr>"
  let ?x = "(?t, sample_type, sample_security)"
  have trades: "named_trades ''AB'' 0 100 ?d = [?x]"
    by (simp add: named_trades_def order_asc_def update_tables lookup_tables sample_rows)
  have us: "chosen (\<lambda>t. in_cash t ?d) 1 (map (\<lambda>x. t_id (fst x)) [?x]) = [9]"
    by (simp add: chosen_def in_cash_def trades_with_def update_tables sample_rows)
  have nm: "new_cash_name 9 ?d = ?nm"
    by (simp add: new_cash_name_def named_of_def trades_with_def update_tables lookup_tables sample_rows cash_transactions_def
        TUF3_cash_name_eq [symmetric] TUF3_cash_name_def lookup_texts strstr.simps)
  then have e: "reworded {9} ?d = set_cash_name 9 ?nm ?d"
    by (simp add: reworded_def reworded_row_def set_cash_name_def update_where_def update_tables lookup_tables)
  have ready: "\<forall>x \<in> set [?x]. tuf3_ready (fst x) ?d"
    using update_sized [of "''Ann''"]
    by (simp add: trades_sized_def tuf3_ready_def named_cash_def settlements_def histories_def order_asc_def update_tables
        sample_rows cash_transactions_def lookup_tables in_i64_def)
  have names: "names_sized ?d" by (simp add: names_sized_def update_tables lookup_tables sample_rows)
  have out: "tuf3_out sample_pg [?x] 1 ?d (set_cash_name 9 ?nm ?d) =
      [Some ''{1}'', Some ''{360.30}'', Some ''{\"21\"}'', Some ''{\"Market-Sell 30 shares of AB of Alphabeta\"}'', Some ''{\"Ann\"}'',
       Some ''{1}'', Some ''1'', Some ''1'', Some ''{12.01}'', Some ''{30}'', Some ''{\"AB of Alphabeta\"}'', Some ''{360.30}'',
       Some ''{41}'', Some ''{\"Cash Account\"}'', Some ''{\"20\"}'', Some ''{20,21,NULL}'', Some ''{SBMT,CMPT,NULL}'', Some ''{9}'',
       Some ''{\"Market-Sell\"}'', Some ''{TMS}'']"
    by (simp add: tuf3_out_def tuf3_order_def tuf3_els_def tuf3_el_def trade_el_def set_cash_name_def update_where_def update_tables
        lookup_eval)
  show ?thesis
    using TradeUpdateFrame3_row [of "\<lambda>_. True" "update_ctx ?d" ?d sample_pg 20 "[?x]" "''AB''" 0 100 "[9]" 1] us ready trades names
      update_sized [of "''Ann''"] out by (simp add: update_ctx_def e is_cstr_def)
qed

end
