(* ===== verification/Connection.thy ===== *)
theory Connection
  imports Schema
begin

text \<open>
  The database connection of the brokerage house
  (\<^verbatim>\<open>src/transactions/pgsql/DBConnection.cpp\<close>): \<open>begin\<close>, \<open>commit\<close>, \<open>rollback\<close> and \<open>exec\<close> with
  its two kinds of exceptions, and the loop of \<^verbatim>\<open>BrokerageHouse.cpp\<close> that repeats a
  transaction after a retryable one.

  \<^item> \<open>server\<close> is the environment: for every command of the connection, counted from 0,
    whether PostgreSQL refuses it for a reason that lies outside the session (a
    serialization failure, a deadlock, a lost connection) and with which SQLSTATE, and the
    time at which it is given.  Nothing is assumed of it: the theorems hold for every
    pattern of refusals.
  \<^item> \<open>conn\<close> is the connection: the committed contents of the database, the contents the open
    transaction sees, and the requests sent to the market.  What other sessions write is not
    part of it; a conflict with them is a refused command.  A refused \<open>COMMIT\<close> has not
    committed.
  \<^item> An operation returns \<open>Inr\<close> of its result or leaves with \<open>Inl\<close> of the exception, and in
    both cases with a connection: what was committed before an exception stays.
\<close>

section \<open>State and exceptions\<close>

datatype thrown =
    CDBRetryableError \<comment> \<open>safe to retry\<close>
  | Error_string \<comment> \<open>any other error, thrown as a plain string\<close>

record server =
  refuses :: "nat \<Rightarrow> string option option" \<comment> \<open>\<open>Some s\<close>: refused, with SQLSTATE \<open>s\<close> if there is one\<close>
  time_at :: "nat \<Rightarrow> int"

text \<open>\<open>m_TriggeredLimitOrders\<close>: the texts are arrays of characters.\<close>

record TTradeRequest =
  req_symbol :: "char list"
  req_trade_id :: int
  req_price_quote :: double
  req_trade_type_id :: "char list"
  req_trade_qty :: int

record conn =
  stored :: db
  working :: db
  in_txn :: bool
  txn_time :: int \<comment> \<open>\<open>CURRENT_TIMESTAMP\<close>: when the transaction was opened\<close>
  commands :: nat
  m_TriggeredLimitOrders :: TTradeRequest
  sent :: "TTradeRequest list"

type_synonym 'a db_op = "conn \<Rightarrow> (thrown + 'a) \<times> conn"

definition ret :: "'a \<Rightarrow> 'a db_op" where
  "ret x c = (Inr x, c)"

definition dbind :: "'a db_op \<Rightarrow> ('a \<Rightarrow> 'b db_op) \<Rightarrow> 'b db_op" where
  "dbind m k c = (case m c of (Inl e, c) \<Rightarrow> (Inl e, c) | (Inr x, c) \<Rightarrow> k x c)"

primrec for_each :: "('x \<Rightarrow> unit db_op) \<Rightarrow> 'x list \<Rightarrow> unit db_op" where
  "for_each f [] = ret ()"
| "for_each f (x # xs) = dbind (f x) (\<lambda>_. for_each f xs)"

section \<open>Transactions and statements\<close>

text \<open>A \<open>BEGIN\<close> inside a transaction is a warning of the server; its result is not checked.\<close>

definition begin_txn :: "server \<Rightarrow> unit db_op" where
  "begin_txn srv c = (Inr (), if in_txn c then c
     else c\<lparr>in_txn := True, working := stored c, txn_time := time_at srv (commands c)\<rparr>)"

definition rollback :: "conn \<Rightarrow> conn" where
  "rollback c = c\<lparr>in_txn := False, working := stored c\<rparr>"

definition error_for :: "string option \<Rightarrow> thrown" where
  "error_for sqlstate = (if sqlstate = Some ''40001'' \<or> sqlstate = Some ''40P01''
     then CDBRetryableError else Error_string)"

definition commit :: "server \<Rightarrow> unit db_op" where
  "commit srv c = (let c1 = c\<lparr>commands := commands c + 1\<rparr> in
     case refuses srv (commands c) of
       Some s \<Rightarrow> (Inl (error_for s), rollback c1)
     | None \<Rightarrow> (Inr (), c1\<lparr>in_txn := False, stored := working c\<rparr>))"

text \<open>
  A statement may also fail by itself, on a constraint or an overflow; such errors are never
  retryable.  Outside a transaction a statement is its own transaction.
\<close>

definition exec :: "server \<Rightarrow> (int \<Rightarrow> sql) \<Rightarrow> spi_result db_op" where
  "exec srv q c = (let c1 = c\<lparr>commands := commands c + 1\<rparr>;
       ts = (if in_txn c then txn_time c else time_at srv (commands c)) in
     case refuses srv (commands c) of
       Some s \<Rightarrow> (Inl (error_for s), rollback c1)
     | None \<Rightarrow> (case q ts (working c) of
           Fail _ \<Rightarrow> (Inl Error_string, rollback c1)
         | Ok (r, d) \<Rightarrow> (Inr r, if in_txn c then c1\<lparr>working := d\<rparr> else c1\<lparr>working := d, stored := d\<rparr>)))"

text \<open>The rows of a result, \<open>PQgetvalue\<close> (an SQL null reads as the empty text) and \<open>PQcmdTuples\<close>.\<close>

fun PQrows :: "spi_result \<Rightarrow> spi_row list" where
  "PQrows (SPI_OK_SELECT rows) = rows"
| "PQrows (SPI_OK_INSERT_RETURNING rows) = rows"
| "PQrows _ = []"

definition PQgetvalue :: "spi_row \<Rightarrow> nat \<Rightarrow> string" where
  "PQgetvalue row j = (case row ! j of Some s \<Rightarrow> s | None \<Rightarrow> '''')"

definition PQcmdTuples :: "spi_result \<Rightarrow> string" where
  "PQcmdTuples r = show_int (SPI_processed r)"

section \<open>The worker\<close>

text \<open>
  The loop of \<open>workerThread\<close> around one transaction: after \<open>++nRetries\<close> the transaction is
  run again while \<open>nRetries \<le> iMaxRetries\<close>; every other exception, and the last retryable
  one, becomes the status \<open>EXPECTED_ROLLBACK\<close>.  \<open>left\<close> counts the retries that remain.
\<close>

abbreviation (input) "iMaxRetries \<equiv> 10 :: nat"

fun run_txn :: "nat \<Rightarrow> 'a db_op \<Rightarrow> conn \<Rightarrow> 'a option \<times> conn" where
  "run_txn left txn c = (case txn c of
      (Inr x, c) \<Rightarrow> (Some x, c)
    | (Inl Error_string, c) \<Rightarrow> (None, c)
    | (Inl CDBRetryableError, c) \<Rightarrow>
        (case left of 0 \<Rightarrow> (None, c) | Suc n \<Rightarrow> run_txn n txn c))"

declare run_txn.simps [simp del]

definition workerThread_run :: "'a db_op \<Rightarrow> conn \<Rightarrow> 'a option \<times> conn" where
  "workerThread_run = run_txn iMaxRetries"

section \<open>Facts\<close>

definition idle :: "conn \<Rightarrow> bool" where
  "idle c \<longleftrightarrow> \<not> in_txn c \<and> working c = stored c"

lemma ret_simps [simp]: "ret x c = (Inr x, c)"
  by (simp add: ret_def)

lemma dbind_Inr: "m c = (Inr x, c') \<Longrightarrow> dbind m k c = k x c'"
  by (simp add: dbind_def)

lemma dbind_cases:
  assumes "dbind m k c = (r, c')"
  obtains (thrown) e where "m c = (Inl e, c')" "r = Inl e"
    | (goes_on) x c1 where "m c = (Inr x, c1)" "k x c1 = (r, c')"
  using assms by (auto simp: dbind_def split: prod.splits sum.splits)

lemma idle_rollback [simp]: "idle (rollback c)"
  by (simp add: idle_def rollback_def)

lemma rollback_simps [simp]:
  "stored (rollback c) = stored c" "sent (rollback c) = sent c"
  "m_TriggeredLimitOrders (rollback c) = m_TriggeredLimitOrders c" "commands (rollback c) = commands c"
  by (simp_all add: rollback_def)

lemma PQgetvalue_simps [simp]:
  "PQgetvalue (Some s # row) 0 = s" "PQgetvalue (v # row) (Suc j) = PQgetvalue row j"
  by (simp_all add: PQgetvalue_def)

text \<open>What the operations inside an open transaction keep.\<close>

definition same_txn :: "conn \<Rightarrow> conn \<Rightarrow> bool" where
  "same_txn c c' \<longleftrightarrow> stored c' = stored c \<and> sent c' = sent c \<and>
     m_TriggeredLimitOrders c' = m_TriggeredLimitOrders c"

definition willing :: "server \<Rightarrow> bool" where
  "willing srv \<longleftrightarrow> (\<forall>n. refuses srv n = None)"

text \<open>
  \<open>works srv m f\<close>: inside a transaction the operation \<open>m\<close> either throws, and then everything
  the transaction did is gone, or stays inside it and changes what it sees as \<open>f\<close> says, with
  the result that \<open>f\<close> says.  \<open>f\<close> gets the time of the transaction.  Where the server refuses
  nothing, \<open>m\<close> only throws when \<open>f\<close> fails.
\<close>

definition works :: "server \<Rightarrow> 'a db_op \<Rightarrow> (int \<Rightarrow> db \<Rightarrow> ('a \<times> db) outcome) \<Rightarrow> bool" where
  "works srv m f \<longleftrightarrow> (\<forall>c r c'. in_txn c \<longrightarrow> m c = (r, c') \<longrightarrow> same_txn c c' \<and>
     (case r of Inl e \<Rightarrow> idle c' \<and> (willing srv \<longrightarrow> (\<exists>x. f (txn_time c) (working c) = Fail x))
      | Inr x \<Rightarrow> in_txn c' \<and> txn_time c' = txn_time c \<and> f (txn_time c) (working c) = Ok (x, working c')))"

named_theorems works_intros \<open>operations inside a transaction\<close>

lemma worksD: "works srv m f \<Longrightarrow> in_txn c \<Longrightarrow> m c = (r, c') \<Longrightarrow> same_txn c c' \<and>
     (case r of Inl e \<Rightarrow> idle c' \<and> (willing srv \<longrightarrow> (\<exists>x. f (txn_time c) (working c) = Fail x))
      | Inr x \<Rightarrow> in_txn c' \<and> txn_time c' = txn_time c \<and> f (txn_time c) (working c) = Ok (x, working c'))"
  by (simp add: works_def)

lemma works_exec [works_intros]: "works srv (exec srv q) q"
  by (auto simp: works_def willing_def exec_def Let_def same_txn_def split: option.splits outcome.splits)

lemma works_ret [works_intros]: "works srv (ret x) (\<lambda>ts d. Ok (x, d))"
  by (simp add: works_def same_txn_def)

lemma works_bind [works_intros]:
  assumes "works srv m f" "\<And>x. works srv (k x) (g x)"
  shows "works srv (dbind m k) (\<lambda>ts d. obind (f ts d) (\<lambda>(x, d). g x ts d))"
  unfolding works_def
proof (intro allI impI)
  fix c r c' assume c: "in_txn c" and e: "dbind m k c = (r, c')"
  from e show "same_txn c c' \<and> (case r of
        Inl e \<Rightarrow> idle c' \<and> (willing srv \<longrightarrow>
          (\<exists>y. obind (f (txn_time c) (working c)) (\<lambda>(x, d). g x (txn_time c) d) = Fail y))
      | Inr x \<Rightarrow> in_txn c' \<and> txn_time c' = txn_time c \<and>
          obind (f (txn_time c) (working c)) (\<lambda>(x, d). g x (txn_time c) d) = Ok (x, working c'))"
  proof (cases rule: dbind_cases)
    case (thrown e)
    from worksD [OF assms(1) c thrown(1)] thrown(2) show ?thesis by auto
  next
    case (goes_on x c1)
    from worksD [OF assms(1) c goes_on(1)] have 1: "same_txn c c1" "in_txn c1" "txn_time c1 = txn_time c"
      "f (txn_time c) (working c) = Ok (x, working c1)" by simp_all
    from worksD [OF assms(2) 1(2) goes_on(2)] 1 show ?thesis
      by (cases r) (simp_all add: same_txn_def)
  qed
qed

primrec sql_for_each :: "('x \<Rightarrow> int \<Rightarrow> db \<Rightarrow> (unit \<times> db) outcome) \<Rightarrow> 'x list \<Rightarrow> int \<Rightarrow> db \<Rightarrow> (unit \<times> db) outcome" where
  "sql_for_each f [] ts d = Ok ((), d)"
| "sql_for_each f (x # xs) ts d = obind (f x ts d) (\<lambda>(u, d). sql_for_each f xs ts d)"

lemma works_for_each [works_intros]:
  assumes "\<And>x. works srv (g x) (f x)"
  shows "works srv (for_each g xs) (sql_for_each f xs)"
proof (induction xs)
  case Nil
  have "sql_for_each f [] = (\<lambda>ts d. Ok ((), d))" by (simp add: fun_eq_iff)
  with works_ret [of srv "()"] show ?case by (simp del: ret_simps)
next
  case (Cons x xs)
  have "sql_for_each f (x # xs) = (\<lambda>ts d. obind (f x ts d) (\<lambda>(u, d). sql_for_each f xs ts d))"
    by (simp add: fun_eq_iff)
  with works_bind [OF assms, of "\<lambda>_. for_each g xs" "\<lambda>_. sql_for_each f xs" x] Cons show ?case by simp
qed

lemma works_thrown: "works srv m f \<Longrightarrow> in_txn c \<Longrightarrow> m c = (Inl e, c') \<Longrightarrow> same_txn c c' \<and> idle c' \<and>
   (willing srv \<longrightarrow> (\<exists>x. f (txn_time c) (working c) = Fail x))"
  by (fastforce simp: works_def)

lemma works_done:
  "works srv m f \<Longrightarrow> in_txn c \<Longrightarrow> m c = (Inr x, c') \<Longrightarrow> same_txn c c' \<and> in_txn c' \<and>
   txn_time c' = txn_time c \<and> f (txn_time c) (working c) = Ok (x, working c')"
  by (fastforce simp: works_def)

text \<open>A whole transaction: it commits what its statements say, or leaves nothing behind.\<close>

lemma txn_cases:
  assumes m: "works srv m f" and c: "idle c"
    and e: "dbind (begin_txn srv) (\<lambda>_. dbind m (\<lambda>x. dbind (commit srv) (\<lambda>_. k x))) c = (r, c')"
  obtains (thrown) err where "r = Inl err" "idle c'" "same_txn c c'"
        "willing srv \<Longrightarrow> \<exists>x. f (time_at srv (commands c)) (stored c) = Fail x"
    | (committed) x d c1 where "f (time_at srv (commands c)) (stored c) = Ok (x, d)" "idle c1"
        "stored c1 = d" "sent c1 = sent c" "m_TriggeredLimitOrders c1 = m_TriggeredLimitOrders c"
        "k x c1 = (r, c')"
proof -
  let ?c = "c\<lparr>in_txn := True, working := stored c, txn_time := time_at srv (commands c)\<rparr>"
  have b: "begin_txn srv c = (Inr (), ?c)" using c by (simp add: begin_txn_def idle_def)
  from e have "dbind m (\<lambda>x. dbind (commit srv) (\<lambda>_. k x)) ?c = (r, c')" by (simp only: dbind_Inr [where m = "begin_txn srv", OF b])
  then show ?thesis
  proof (cases rule: dbind_cases)
    case (thrown err)
    with works_thrown [OF m _ thrown(1)] show ?thesis by (intro that(1)) (auto simp: same_txn_def)
  next
    case (goes_on x c1)
    from works_done [OF m _ goes_on(1)] have w: "same_txn c c1"
      "f (time_at srv (commands c)) (stored c) = Ok (x, working c1)" by (auto simp: same_txn_def)
    show ?thesis
    proof (cases "refuses srv (commands c1)")
      case None
      with goes_on(2) w show ?thesis
        by (intro that(2) [of x "working c1" "c1\<lparr>commands := commands c1 + 1, in_txn := False, stored := working c1\<rparr>"])
          (auto simp: dbind_def commit_def idle_def same_txn_def)
    next
      case (Some s)
      with goes_on(2) w show ?thesis
        by (intro that(1)) (auto simp: dbind_def commit_def same_txn_def Let_def willing_def)
    qed
  qed
qed

text \<open>
  A property of connections that every attempt keeps is kept by the worker, whatever
  happens; and the worker attempts a transaction at most \<open>iMaxRetries + 1\<close> times.
\<close>

lemma run_txn_keeps:
  assumes "\<And>c r c'. P c \<Longrightarrow> txn c = (r, c') \<Longrightarrow> P c'"
  shows "P c \<Longrightarrow> P (snd (run_txn n txn c))"
proof (induction n arbitrary: c)
  case 0
  then show ?case using assms by (subst run_txn.simps) (auto split: prod.splits sum.splits thrown.splits)
next
  case (Suc n)
  obtain r c' where t: "txn c = (r, c')" by fastforce
  with assms Suc.prems have "P c'" by blast
  with t Suc.IH show ?case by (subst run_txn.simps) (auto split: sum.splits thrown.splits)
qed


text \<open>The attempts of the worker, one after the other: the connection before each.\<close>

definition attempt :: "'a db_op \<Rightarrow> conn \<Rightarrow> nat \<Rightarrow> conn" where
  "attempt txn c i = ((\<lambda>c. snd (txn c)) ^^ i) c"

lemma attempt_simps [simp]: "attempt txn c 0 = c" "attempt txn (snd (txn c)) i = attempt txn c (Suc i)"
  by (simp_all add: attempt_def funpow_Suc_right del: funpow.simps(2))

lemma run_txn_attempts:
  "\<exists>k \<le> n. (\<forall>i < k. fst (txn (attempt txn c i)) = Inl CDBRetryableError) \<and>
     (k < n \<longrightarrow> fst (txn (attempt txn c k)) \<noteq> Inl CDBRetryableError) \<and>
     run_txn n txn c = (case fst (txn (attempt txn c k)) of Inr x \<Rightarrow> Some x | Inl _ \<Rightarrow> None, attempt txn c (Suc k))"
proof (induction n arbitrary: c)
  case 0
  show ?case by (simp add: run_txn.simps attempt_def split: prod.splits sum.splits thrown.splits)
next
  case (Suc n)
  show ?case
  proof (cases "fst (txn c) = Inl CDBRetryableError")
    case True
    from Suc.IH [of "snd (txn c)"] obtain k where k: "k \<le> n"
      "\<forall>i < k. fst (txn (attempt txn c (Suc i))) = Inl CDBRetryableError"
      "k < n \<longrightarrow> fst (txn (attempt txn c (Suc k))) \<noteq> Inl CDBRetryableError"
      "run_txn n txn (snd (txn c)) =
        (case fst (txn (attempt txn c (Suc k))) of Inr x \<Rightarrow> Some x | Inl _ \<Rightarrow> None, attempt txn c (Suc (Suc k)))"
      by auto
    have "run_txn (Suc n) txn c = run_txn n txn (snd (txn c))"
      using True by (cases "txn c") (simp add: run_txn.simps [of "Suc n"])
    moreover have "\<forall>i < Suc k. fst (txn (attempt txn c i)) = Inl CDBRetryableError"
      using True k(2) by (simp add: All_less_Suc2)
    ultimately show ?thesis using k by (intro exI [of _ "Suc k"]) simp
  next
    case False
    then have "run_txn (Suc n) txn c =
        (case fst (txn c) of Inr x \<Rightarrow> Some x | Inl _ \<Rightarrow> None, attempt txn c (Suc 0))"
      by (cases "txn c") (simp add: run_txn.simps [of "Suc n"] attempt_def split: sum.splits thrown.splits)
    with False show ?thesis by (intro exI [of _ 0]) simp
  qed
qed


text \<open>
  C16. The worker ends after at most eleven attempts of any transaction: it repeats one exactly as
  long as it throws retryable errors, ten times at most, and reports the last attempt.
\<close>

theorem worker_attempts:
  "\<exists>k \<le> 10. (\<forall>i < k. fst (txn (attempt txn c i)) = Inl CDBRetryableError) \<and>
     (k < 10 \<longrightarrow> fst (txn (attempt txn c k)) \<noteq> Inl CDBRetryableError) \<and>
     workerThread_run txn c =
       (case fst (txn (attempt txn c k)) of Inr x \<Rightarrow> Some x | Inl _ \<Rightarrow> None, attempt txn c (Suc k))"
  unfolding workerThread_run_def by (rule run_txn_attempts)

text \<open>A transaction that the server always refuses is run eleven times and given up.\<close>

definition always_refused :: "unit db_op" where
  "always_refused c = (Inl CDBRetryableError, c\<lparr>commands := commands c + 1\<rparr>)"

lemma always_refused_attempts: "commands (attempt always_refused c i) = commands c + i"
  by (induction i) (simp_all add: attempt_def always_refused_def)

definition first_conn :: conn where
  "first_conn = \<lparr>stored = empty_db, working = empty_db, in_txn = False, txn_time = 0, commands = 0,
     m_TriggeredLimitOrders = \<lparr>req_symbol = [], req_trade_id = 0, req_price_quote = 0, req_trade_type_id = [],
       req_trade_qty = 0\<rparr>, sent = []\<rparr>"

theorem worker_attempts_witness:
  "fst (workerThread_run always_refused first_conn) = None \<and>
   commands (snd (workerThread_run always_refused first_conn)) = 11"
proof -
  have f: "fst (always_refused c) = Inl CDBRetryableError" for c by (simp add: always_refused_def)
  from worker_attempts [of always_refused first_conn] obtain k where "k \<le> 10" "\<not> k < 10"
    and r: "workerThread_run always_refused first_conn = (None, attempt always_refused first_conn (Suc k))"
    by (auto simp: f)
  then have "k = 10" by simp
  with r show ?thesis by (simp add: always_refused_attempts first_conn_def)
qed

end
