(* ===== verification/MarketFeed.thy ===== *)
theory MarketFeed
  imports Connection
begin

text \<open>
  Market-Feed (\<open>CDBConnection::execute(const TMarketFeedFrame1Input *, \<dots>)\<close> in
  \<^verbatim>\<open>src/transactions/pgsql/DBConnection.cpp\<close>): for every entry of the ticker, in a transaction
  of its own, the last trade of the security is updated and the limit orders that the new
  price triggers are taken out of \<open>trade_request\<close> and marked as submitted; after the commit
  they are sent to the market.

  The record types of the input are those of the benchmark's EGen headers, with the fields
  that the code uses; \<open>max_feed_len\<close> is 20 there and in the code's loop.
\<close>

section \<open>Data\<close>

record TStatusAndTradeType =
  status_submitted :: string
  type_limit_buy :: string
  type_limit_sell :: string
  type_stop_loss :: string

record TTickerEntry =
  entry_price_quote :: double
  entry_trade_qty :: int
  entry_symbol :: string

record TMarketFeedFrame1Input =
  StatusAndTradeType :: TStatusAndTradeType
  Entries :: "TTickerEntry list"

record TMarketFeedFrame1Output =
  num_updated :: int
  send_len :: int

text \<open>The widths \<open>cSYMBOL_len\<close> and \<open>cTT_ID_len\<close> of the EGen headers.\<close>

abbreviation (input) "cSYMBOL_len \<equiv> 15 :: nat"
abbreviation (input) "cTT_ID_len \<equiv> 3 :: nat"

section \<open>The price as text\<close>

text \<open>\<open>%f\<close>, then \<open>snprintf(price_quote, 13, "%f", \<dots>)\<close>.\<close>

definition fmt_6f :: "double \<Rightarrow> string" where
  "fmt_6f x = (let c = nat \<bar>rne (x * 10 ^ 6)\<bar> in
     (if x < 0 then ''-'' else '''') @ show_nat (c div 10 ^ 6) @ ''.'' @ frac_digits 6 (c mod 10 ^ 6))"

definition price_quote_text :: "double \<Rightarrow> string" where
  "price_quote_text x = take 12 (fmt_6f x)"

text \<open>A \<open>NUMERIC\<close> value assigned to a column with two decimals: ties are rounded away from zero.\<close>

definition numeric_round2 :: "rat \<Rightarrow> int" where
  "numeric_round2 r = (if r < 0 then - \<lfloor>1 / 2 - r * 100\<rfloor> else \<lfloor>r * 100 + 1 / 2\<rfloor>)"

section \<open>Statements\<close>

definition MFF1Q1 :: "string \<Rightarrow> int \<Rightarrow> string \<Rightarrow> int \<Rightarrow> sql" where
  "MFF1Q1 price qty symb ts d =
     (let p = numeric_round2 (strtod_exact price) in
      sql_check (numeric_ok 12 p \<and>
          list_all (\<lambda>r. lt_s_symb r = symb \<longrightarrow> in_i64 (lt_vol r + qty)) (last_trade_tbl d))
        (Ok (SPI_OK_UPDATE (length (filter (\<lambda>r. lt_s_symb r = symb) (last_trade_tbl d))),
             d\<lparr>last_trade_tbl := update_where (\<lambda>r. lt_s_symb r = symb)
                (\<lambda>r. r\<lparr>lt_price := p, lt_vol := lt_vol r + qty, lt_dts := ts\<rparr>) (last_trade_tbl d)\<rparr>)))"

text \<open>A bid price is compared with the text's value, which is not rounded to cents.\<close>

definition MFF1Q2_where :: "string \<Rightarrow> string \<Rightarrow> rat \<Rightarrow> string \<Rightarrow> string \<Rightarrow> trade_request_row \<Rightarrow> bool" where
  "MFF1Q2_where symb stop_loss price limit_sell limit_buy r \<longleftrightarrow> tr_s_symb r = symb \<and>
     (tr_tt_id r = stop_loss \<and> of_int (tr_bid_price r) / 100 \<ge> price
      \<or> tr_tt_id r = limit_sell \<and> of_int (tr_bid_price r) / 100 \<le> price
      \<or> tr_tt_id r = limit_buy \<and> of_int (tr_bid_price r) / 100 \<ge> price)"

definition MFF1Q2 :: "string \<Rightarrow> string \<Rightarrow> string \<Rightarrow> string \<Rightarrow> string \<Rightarrow> int \<Rightarrow> sql" where
  "MFF1Q2 symb stop_loss price limit_sell limit_buy ts d = sql_select
     (map (\<lambda>r. [int_txt (tr_t_id r), num_txt 2 (tr_bid_price r), Some (tr_tt_id r), int_txt (tr_qty r)])
       (filter (MFF1Q2_where symb stop_loss (strtod_exact price) limit_sell limit_buy) (trade_request_tbl d))) d"

definition MFF1Q3 :: "string \<Rightarrow> int \<Rightarrow> int \<Rightarrow> sql" where
  "MFF1Q3 st t ts d = sql_check (length st \<le> 4)
     (Ok (SPI_OK_UPDATE (length (filter (\<lambda>r. t_id r = t) (trade_tbl d))),
          d\<lparr>trade_tbl := update_where (\<lambda>r. t_id r = t) (\<lambda>r. r\<lparr>t_dts := ts, t_st_id := st\<rparr>) (trade_tbl d)\<rparr>))"

definition MFF1Q4 :: "int \<Rightarrow> int \<Rightarrow> sql" where
  "MFF1Q4 t ts d = Ok (SPI_OK_DELETE (length (filter (\<lambda>r. tr_t_id r = t) (trade_request_tbl d))),
     d\<lparr>trade_request_tbl := delete_where (\<lambda>r. tr_t_id r = t) (trade_request_tbl d)\<rparr>)"

definition MFF1Q5 :: "int \<Rightarrow> string \<Rightarrow> int \<Rightarrow> sql" where
  "MFF1Q5 t st ts d =
     sql_check ((t, st) \<notin> (\<lambda>r. (th_t_id r, th_st_id r)) ` set (trade_history_tbl d) \<and> length st \<le> 4)
       (Ok (SPI_OK_INSERT 1, d\<lparr>trade_history_tbl := trade_history_tbl d @
              [\<lparr>th_t_id = t, th_dts = ts, th_st_id = st\<rparr>]\<rparr>))"

section \<open>The frame\<close>

text \<open>The three statements for one triggered order.\<close>

definition MFF1_submit :: "server \<Rightarrow> string \<Rightarrow> spi_row \<Rightarrow> unit db_op" where
  "MFF1_submit srv st row =
     (let trade_id = i64 (atoll (PQgetvalue row 0)) in
      dbind (exec srv (MFF1Q3 st trade_id)) (\<lambda>_.
      dbind (exec srv (MFF1Q4 trade_id)) (\<lambda>_.
      dbind (exec srv (MFF1Q5 trade_id st)) (\<lambda>_. ret ()))))"

text \<open>
  \<open>strncpy\<close> into an array that is longer than the bound: what lies behind keeps its
  contents.  \<open>SendToMarketFromFrame\<close> gets the member; its result only matters for a warning.
\<close>

definition strncpy_into :: "char list \<Rightarrow> string \<Rightarrow> nat \<Rightarrow> char list" where
  "strncpy_into buf s n = strncpy s n @ drop n buf"

definition MFF1_request :: "string \<Rightarrow> spi_row \<Rightarrow> TTradeRequest \<Rightarrow> TTradeRequest" where
  "MFF1_request symb row m = m\<lparr>
     req_symbol := strncpy_into (req_symbol m) symb cSYMBOL_len,
     req_trade_id := i64 (atoll (PQgetvalue row 0)),
     req_price_quote := atof (PQgetvalue row 1),
     req_trade_type_id := strncpy_into (req_trade_type_id m) (PQgetvalue row 2) cTT_ID_len,
     req_trade_qty := atoi (PQgetvalue row 3)\<rparr>"

primrec MFF1_send :: "string \<Rightarrow> spi_row list \<Rightarrow> TMarketFeedFrame1Output \<Rightarrow> TMarketFeedFrame1Output db_op" where
  "MFF1_send symb [] out c = (Inr out, c)"
| "MFF1_send symb (row # rows) out c =
     (let m = MFF1_request symb row (m_TriggeredLimitOrders c) in
      MFF1_send symb rows (out\<lparr>send_len := i32 (send_len out + 1)\<rparr>)
        (c\<lparr>m_TriggeredLimitOrders := m, sent := sent c @ [m]\<rparr>))"

text \<open>One round of the loop: the work inside the transaction, the commit, the messages.\<close>

definition MFF1_work :: "server \<Rightarrow> TStatusAndTradeType \<Rightarrow> TTickerEntry \<Rightarrow> TMarketFeedFrame1Output \<Rightarrow>
    (TMarketFeedFrame1Output \<times> spi_row list) db_op" where
  "MFF1_work srv tt e out =
     (let price_quote = price_quote_text (entry_price_quote e); trade_qty = i32 (entry_trade_qty e) in
      dbind (exec srv (MFF1Q1 price_quote trade_qty (entry_symbol e))) (\<lambda>res.
      dbind (exec srv (MFF1Q2 (entry_symbol e) (type_stop_loss tt) price_quote (type_limit_sell tt) (type_limit_buy tt))) (\<lambda>res2.
      dbind (for_each (MFF1_submit srv (status_submitted tt)) (PQrows res2)) (\<lambda>_.
      ret (out\<lparr>num_updated := i32 (num_updated out + atoi (PQcmdTuples res))\<rparr>, PQrows res2)))))"

definition MFF1_entry :: "server \<Rightarrow> TStatusAndTradeType \<Rightarrow> TTickerEntry \<Rightarrow> TMarketFeedFrame1Output \<Rightarrow>
    TMarketFeedFrame1Output db_op" where
  "MFF1_entry srv tt e out =
     dbind (begin_txn srv) (\<lambda>_.
     dbind (MFF1_work srv tt e out) (\<lambda>(out, res).
     dbind (commit srv) (\<lambda>_. MFF1_send (entry_symbol e) res out)))"

primrec MFF1_loop :: "server \<Rightarrow> TStatusAndTradeType \<Rightarrow> TTickerEntry list \<Rightarrow> TMarketFeedFrame1Output \<Rightarrow>
    TMarketFeedFrame1Output db_op" where
  "MFF1_loop srv tt [] out = ret out"
| "MFF1_loop srv tt (e # es) out = dbind (MFF1_entry srv tt e out) (MFF1_loop srv tt es)"

definition execute_MarketFeedFrame1 :: "server \<Rightarrow> TMarketFeedFrame1Input \<Rightarrow> TMarketFeedFrame1Output db_op" where
  "execute_MarketFeedFrame1 srv pIn =
     MFF1_loop srv (StatusAndTradeType pIn) (take 20 (Entries pIn)) \<lparr>num_updated = 0, send_len = 0\<rparr>"


section \<open>The price reaches SQL\<close>

lemma take_frac_digits: "k \<le> j \<Longrightarrow> take k (frac_digits j m) = frac_digits k (m div 10 ^ (j - k))"
proof (induction j arbitrary: k)
  case 0
  then show ?case by simp
next
  case (Suc j)
  show ?case
  proof (cases k)
    case 0
    then show ?thesis by simp
  next
    case (Suc i)
    with Suc.prems have i: "i \<le> j" by simp
    have "m div 10 ^ (j - i) div 10 ^ i = m div 10 ^ j"
      using i by (simp add: div_mult2_eq [symmetric] power_add [symmetric])
    with Suc Suc.IH [OF i] show ?thesis by simp
  qed
qed

text \<open>
  Twelve characters hold the cents of every price below a thousand million; what the cut
  drops behind them are zeros.
\<close>


lemma rnd64_cents:
  assumes "0 \<le> c" "c < 10 ^ 11"
  shows "\<bar>rnd64 (of_int c / 100) - of_int c / 100\<bar> < 1 / 2000000"
proof (cases "c = 0")
  case True
  then show ?thesis by simp
next
  case False
  with assms(1) have "1 \<le> c" by simp
  then have c: "(1 :: rat) \<le> of_int c" by simp
  have "pow2 (- 1022) \<le> pow2 (- 7)" by (rule pow2_mono) simp
  also have "pow2 (- 7) \<le> of_int c / 100" using c by (simp add: pow2_def)
  finally have "pow2 (- 1022) \<le> \<bar>of_int c / 100\<bar>" by linarith
  from rnd64_error [OF this] have "\<bar>rnd64 (of_int c / 100) - of_int c / 100\<bar> \<le> of_int c / 100 / 2 ^ 53"
    using c by (simp add: pow2_def)
  moreover have "(of_int c :: rat) < of_int (10 ^ 11)" using assms(2) by (simp only: of_int_less_iff)
  ultimately show ?thesis by simp
qed

lemma fmt_6f_cents:
  assumes "0 \<le> c" "c < 10 ^ 11"
  shows "fmt_6f (rnd64 (of_int c / 100)) =
    show_nat (nat c div 100) @ ''.'' @ frac_digits 6 (nat c mod 100 * 10 ^ 4)"
proof -
  let ?x = "rnd64 (of_int c / 100)"
  note err = rnd64_cents [OF assms]
  have "?x * 10 ^ 6 - of_int (c * 10 ^ 4) = (?x - of_int c / 100) * 10 ^ 6" by (simp add: left_diff_distrib)
  then have "\<bar>?x * 10 ^ 6 - of_int (c * 10 ^ 4)\<bar> < 1 / 2" using err by (simp only: abs_mult) simp
  then have r: "rne (?x * 10 ^ 6) = c * 10 ^ 4" by (rule rne_unique)
  have p: "\<not> ?x < 0"
  proof (cases "c = 0")
    case False
    with assms(1) have "1 \<le> c" by simp
    then have "(1 :: rat) \<le> of_int c" by simp
    with err show ?thesis unfolding abs_diff_less_iff by linarith
  qed simp
  have n: "nat \<bar>c * 10 ^ 4\<bar> = nat c * 10 ^ 4" using assms(1) by (simp add: nat_mult_distrib abs_mult)
  have "nat c * 10 ^ 4 div 10 ^ 6 = nat c div 100" "nat c * 10 ^ 4 mod 10 ^ 6 = nat c mod 100 * 10 ^ 4"
    using div_mult2_eq [of "nat c * 10 ^ 4" "10 ^ 4" 100] mult_mod_right [of "10 ^ 4" "nat c" 100]
    by (simp_all add: mult.commute)
  with r p n show ?thesis by (simp only: fmt_6f_def Let_def if_False append_Nil)
qed

text \<open>
  Twelve characters hold the cents of every price below a thousand million; what the cut
  drops behind them are zeros.
\<close>

theorem price_text_exact:
  assumes "0 \<le> c" "c < 10 ^ 11"
  shows "strtod_exact (price_quote_text (rnd64 (of_int c / 100))) = of_int c / 100"
proof -
  let ?q = "nat c div 100" and ?f = "nat c mod 100"
  define k where "k = min 6 (11 - length (show_nat ?q))"
  have "nat c < 10 ^ 11" using assms by (simp add: nat_less_iff)
  then have "?q < 10 ^ 9" by (simp add: less_mult_imp_div_less)
  then have l: "length (show_nat ?q) \<le> 9" by (rule length_show_nat) simp
  then have k: "2 \<le> k" "k \<le> 6" by (simp_all add: k_def)
  obtain i where i: "k = 2 + i" "i \<le> 4" using k by (intro that [of "k - 2"]) simp_all
  have "take 12 (fmt_6f (rnd64 (of_int c / 100))) = show_nat ?q @ ''.'' @ take k (frac_digits 6 (?f * 10 ^ 4))"
    using l by (simp add: fmt_6f_cents [OF assms] k_def take_Cons' min_def)
  also have "take k (frac_digits 6 (?f * 10 ^ 4)) = frac_digits k (?f * 10 ^ i)"
  proof -
    have "(10 :: nat) ^ 4 = 10 ^ i * 10 ^ (6 - k)" using i by (simp add: power_add [symmetric])
    then have "?f * 10 ^ 4 div 10 ^ (6 - k) = ?f * 10 ^ i" by (simp only: mult.assoc [symmetric]) simp
    then show ?thesis using take_frac_digits [OF k(2), of "?f * 10 ^ 4"] by simp
  qed
  finally have t: "price_quote_text (rnd64 (of_int c / 100)) =
      (if (0 :: int) < 0 then ''-'' else '''') @ show_nat ?q @ ''.'' @ frac_digits k (?f * 10 ^ i)"
    by (simp add: price_quote_text_def)
  have "?f * 10 ^ i < 10 ^ k" by (simp add: i(1) power_add)
  from strtod_decimal [OF this, of "0 :: int" ?q]
  have "strtod_exact (price_quote_text (rnd64 (of_int c / 100))) = of_nat (?q * 10 ^ k + ?f * 10 ^ i) / 10 ^ k"
    unfolding t by simp
  also have "?q * 10 ^ k + ?f * 10 ^ i = (?q * 100 + ?f) * 10 ^ i"
    by (simp only: i(1) power_add algebra_simps) simp
  also have "?q * 100 + ?f = nat c" by (rule div_mult_mod_eq)
  also have "of_nat (nat c * 10 ^ i) / 10 ^ k = (of_int c / 100 :: rat)"
    using assms(1) by (simp add: i(1) power_add)
  finally show ?thesis .
qed

theorem price_text_exact_witness:
  "strtod_exact (price_quote_text (rnd64 (of_int 99999999999 / 100))) = (of_int 99999999999 / 100 :: rat)"
  by (rule price_text_exact) simp_all

end
