(* ===== verification/Ticker.thy ===== *)
theory Ticker
  imports MarketFeed Samples
begin

text \<open>
  What Market-Feed does, stated without the connection: \<open>feed_entry\<close> is the effect of one
  entry on the tables, \<open>triggered\<close> the orders it triggers, \<open>feed_run\<close> and \<open>feed_orders\<close> the
  same for a sequence of entries.  The theorems relate the frame, and the worker that
  retries it, to these for every pattern of refusals of the server.
\<close>

section \<open>The effect of an entry\<close>

definition triggered :: "TStatusAndTradeType \<Rightarrow> TTickerEntry \<Rightarrow> db \<Rightarrow> trade_request_row list" where
  "triggered tt e d = filter (MFF1Q2_where (entry_symbol e) (type_stop_loss tt)
     (strtod_exact (price_quote_text (entry_price_quote e))) (type_limit_sell tt) (type_limit_buy tt))
     (trade_request_tbl d)"

definition order_ids :: "TStatusAndTradeType \<Rightarrow> TTickerEntry \<Rightarrow> db \<Rightarrow> int set" where
  "order_ids tt e d = tr_t_id ` set (triggered tt e d)"

definition feed_entry :: "TStatusAndTradeType \<Rightarrow> TTickerEntry \<Rightarrow> int \<Rightarrow> db \<Rightarrow> db" where
  "feed_entry tt e ts d = d\<lparr>
     last_trade_tbl := update_where (\<lambda>r. lt_s_symb r = entry_symbol e)
       (\<lambda>r. r\<lparr>lt_price := numeric_round2 (strtod_exact (price_quote_text (entry_price_quote e))),
            lt_vol := lt_vol r + i32 (entry_trade_qty e), lt_dts := ts\<rparr>) (last_trade_tbl d),
     trade_tbl := update_where (\<lambda>r. t_id r \<in> order_ids tt e d)
       (\<lambda>r. r\<lparr>t_dts := ts, t_st_id := status_submitted tt\<rparr>) (trade_tbl d),
     trade_request_tbl := delete_where (\<lambda>r. tr_t_id r \<in> order_ids tt e d) (trade_request_tbl d),
     trade_history_tbl := trade_history_tbl d @
       map (\<lambda>r. \<lparr>th_t_id = tr_t_id r, th_dts = ts, th_st_id = status_submitted tt\<rparr>) (triggered tt e d)\<rparr>"

primrec feed_run :: "TStatusAndTradeType \<Rightarrow> (int \<times> TTickerEntry) list \<Rightarrow> db \<Rightarrow> db" where
  "feed_run tt [] d = d"
| "feed_run tt (x # xs) d = feed_run tt xs (feed_entry tt (snd x) (fst x) d)"

primrec feed_orders :: "TStatusAndTradeType \<Rightarrow> (int \<times> TTickerEntry) list \<Rightarrow> db \<Rightarrow> trade_request_row list" where
  "feed_orders tt [] d = []"
| "feed_orders tt (x # xs) d = triggered tt (snd x) d @ feed_orders tt xs (feed_entry tt (snd x) (fst x) d)"

text \<open>The request table within its column types, with its key.\<close>

definition requests_typed :: "db \<Rightarrow> bool" where
  "requests_typed d \<longleftrightarrow> distinct (map tr_t_id (trade_request_tbl d)) \<and>
     (\<forall>r \<in> set (trade_request_tbl d). in_i64 (tr_t_id r) \<and> in_i32 (tr_qty r) \<and>
        length (tr_s_symb r) \<le> 15 \<and> is_cstr (tr_s_symb r) \<and> length (tr_tt_id r) \<le> 3 \<and> is_cstr (tr_tt_id r))"

lemma feed_entry_tables [simp]:
  "trade_request_tbl (feed_entry tt e ts d) =
     delete_where (\<lambda>r. tr_t_id r \<in> order_ids tt e d) (trade_request_tbl d)"
  "trade_history_tbl (feed_entry tt e ts d) = trade_history_tbl d @
       map (\<lambda>r. \<lparr>th_t_id = tr_t_id r, th_dts = ts, th_st_id = status_submitted tt\<rparr>) (triggered tt e d)"
  "last_trade_tbl (feed_entry tt e ts d) = update_where (\<lambda>r. lt_s_symb r = entry_symbol e)
       (\<lambda>r. r\<lparr>lt_price := numeric_round2 (strtod_exact (price_quote_text (entry_price_quote e))),
            lt_vol := lt_vol r + i32 (entry_trade_qty e), lt_dts := ts\<rparr>) (last_trade_tbl d)"
  by (simp_all add: feed_entry_def)

lemma requests_typed_entry: "requests_typed d \<Longrightarrow> requests_typed (feed_entry tt e ts d)"
  by (auto simp: requests_typed_def distinct_map_delete_where)

lemma requests_typed_run: "requests_typed d \<Longrightarrow> requests_typed (feed_run tt tes d)"
  by (induction tes arbitrary: d) (simp_all add: requests_typed_entry)

text \<open>With unique identifiers exactly the triggered orders leave the table.\<close>

lemma delete_triggered:
  assumes "distinct (map tr_t_id (trade_request_tbl d))"
  shows "mset (trade_request_tbl (feed_entry tt e ts d)) + mset (triggered tt e d) = mset (trade_request_tbl d)"
proof -
  have "tr_t_id r \<in> order_ids tt e d \<longleftrightarrow> r \<in> set (triggered tt e d)" if "r \<in> set (trade_request_tbl d)" for r
    using assms that by (auto simp: order_ids_def triggered_def distinct_map inj_on_def)
  then have "delete_where (\<lambda>r. tr_t_id r \<in> order_ids tt e d) (trade_request_tbl d) =
      filter (\<lambda>r. r \<notin> set (triggered tt e d)) (trade_request_tbl d)"
    unfolding delete_where_def by (intro filter_cong) auto
  moreover have "triggered tt e d = filter (\<lambda>r. r \<in> set (triggered tt e d)) (trade_request_tbl d)"
    unfolding triggered_def by (intro filter_cong) auto
  ultimately show ?thesis
    using multiset_partition [of "mset (trade_request_tbl d)" "\<lambda>r. r \<in> set (triggered tt e d)"]
    by (metis (no_types, lifting) feed_entry_tables(1) mset_filter union_commute)
qed

lemma feed_orders_conserved:
  "requests_typed d \<Longrightarrow>
   mset (trade_request_tbl (feed_run tt tes d)) + mset (feed_orders tt tes d) = mset (trade_request_tbl d)"
proof (induction tes arbitrary: d)
  case Nil
  then show ?case by simp
next
  case (Cons x tes)
  have "mset (trade_request_tbl (feed_entry tt (snd x) (fst x) d)) + mset (triggered tt (snd x) d) =
      mset (trade_request_tbl d)"
    using Cons.prems by (intro delete_triggered) (simp add: requests_typed_def)
  then show ?case using Cons.IH [OF requests_typed_entry [OF Cons.prems]]
    by (simp add: ac_simps)
qed

section \<open>The statements of an entry\<close>

text \<open>Rewriting and deleting row by row is rewriting and deleting at once.\<close>

definition request_txt :: "trade_request_row \<Rightarrow> spi_row" where
  "request_txt r = [int_txt (tr_t_id r), num_txt 2 (tr_bid_price r), Some (tr_tt_id r), int_txt (tr_qty r)]"

definition submit_sql :: "string \<Rightarrow> spi_row \<Rightarrow> int \<Rightarrow> db \<Rightarrow> (unit \<times> db) outcome" where
  "submit_sql st row ts d = (let t = i64 (atoll (PQgetvalue row 0)) in
     obind (MFF1Q3 st t ts d) (\<lambda>(r, d). obind (MFF1Q4 t ts d) (\<lambda>(r, d).
     obind (MFF1Q5 t st ts d) (\<lambda>(r, d). Ok ((), d)))))"

lemma submit_works: "works srv (MFF1_submit srv st row) (submit_sql st row)"
  unfolding MFF1_submit_def submit_sql_def Let_def by (intro works_intros)

definition submitted :: "string \<Rightarrow> int \<Rightarrow> trade_request_row list \<Rightarrow> db \<Rightarrow> db" where
  "submitted st ts rs d = d\<lparr>
     trade_tbl := update_where (\<lambda>r. t_id r \<in> tr_t_id ` set rs) (\<lambda>r. r\<lparr>t_dts := ts, t_st_id := st\<rparr>) (trade_tbl d),
     trade_request_tbl := delete_where (\<lambda>r. tr_t_id r \<in> tr_t_id ` set rs) (trade_request_tbl d),
     trade_history_tbl := trade_history_tbl d @ map (\<lambda>r. \<lparr>th_t_id = tr_t_id r, th_dts = ts, th_st_id = st\<rparr>) rs\<rparr>"

lemma submitted_Nil [simp]: "submitted st ts [] d = d"
  by (simp add: submitted_def update_where_none delete_where_none)

lemma submitted_Cons:
  "submitted st ts rs (submitted st ts [r] d) = submitted st ts (r # rs) d"
proof -
  have "update_where (\<lambda>x. t_id x \<in> S) f (update_where (\<lambda>x. t_id x \<in> {i}) f ts') =
      update_where (\<lambda>x. t_id x \<in> insert i S) f ts'"
    if "f = (\<lambda>r. r\<lparr>t_dts := ts, t_st_id := st\<rparr>)" for S i f and ts' :: "trade_row list"
    using that by (induction ts') auto
  moreover have "delete_where (\<lambda>x. tr_t_id x \<in> S) (delete_where (\<lambda>x. tr_t_id x \<in> {i}) ts') =
      delete_where (\<lambda>x. tr_t_id x \<in> insert i S) ts'" for S i and ts' :: "trade_request_row list"
    by (induction ts') auto
  ultimately show ?thesis by (simp add: submitted_def)
qed

lemma submit_sql_eq:
  assumes "in_i64 (tr_t_id r)"
  shows "submit_sql st (request_txt r) ts d =
    (if length st \<le> 4 \<and> (tr_t_id r, st) \<notin> (\<lambda>r. (th_t_id r, th_st_id r)) ` set (trade_history_tbl d)
     then Ok ((), submitted st ts [r] d) else Fail Sql_Error)"
  using assms by (simp add: submit_sql_def request_txt_def MFF1Q3_def MFF1Q4_def MFF1Q5_def submitted_def Let_def sql_check_def)

lemma submits_done:
  assumes "\<And>r. r \<in> set rs \<Longrightarrow> in_i64 (tr_t_id r)"
    and "sql_for_each (submit_sql st) (map request_txt rs) ts d = Ok (u, d')"
  shows "d' = submitted st ts rs d"
  using assms
proof (induction rs arbitrary: d)
  case Nil
  then show ?case by simp
next
  case (Cons r rs)
  then have "sql_for_each (submit_sql st) (map request_txt rs) ts (submitted st ts [r] d) = Ok (u, d')"
    by (simp add: submit_sql_eq split: if_splits)
  with Cons.IH [of "submitted st ts [r] d"] Cons.prems(1) show ?case by (simp add: submitted_Cons)
qed

definition work_sql :: "TStatusAndTradeType \<Rightarrow> TTickerEntry \<Rightarrow> TMarketFeedFrame1Output \<Rightarrow> int \<Rightarrow> db \<Rightarrow>
    ((TMarketFeedFrame1Output \<times> spi_row list) \<times> db) outcome" where
  "work_sql tt e out ts d = (let p = price_quote_text (entry_price_quote e); q = i32 (entry_trade_qty e) in
     obind (MFF1Q1 p q (entry_symbol e) ts d) (\<lambda>(res, d).
     obind (MFF1Q2 (entry_symbol e) (type_stop_loss tt) p (type_limit_sell tt) (type_limit_buy tt) ts d) (\<lambda>(res2, d).
     obind (sql_for_each (submit_sql (status_submitted tt)) (PQrows res2) ts d) (\<lambda>(u, d).
     Ok ((out\<lparr>num_updated := i32 (num_updated out + atoi (PQcmdTuples res))\<rparr>, PQrows res2), d)))))"

lemma work_works: "works srv (MFF1_work srv tt e out) (work_sql tt e out)"
  unfolding MFF1_work_def work_sql_def Let_def by (intro works_intros submit_works)

definition entry_ok :: "TTickerEntry \<Rightarrow> db \<Rightarrow> bool" where
  "entry_ok e d \<longleftrightarrow> numeric_ok 12 (numeric_round2 (strtod_exact (price_quote_text (entry_price_quote e)))) \<and>
     list_all (\<lambda>r. lt_s_symb r = entry_symbol e \<longrightarrow> in_i64 (lt_vol r + i32 (entry_trade_qty e))) (last_trade_tbl d)"

definition updates :: "TTickerEntry \<Rightarrow> db \<Rightarrow> int" where
  "updates e d = atoi (show_int (int (length (filter (\<lambda>r. lt_s_symb r = entry_symbol e) (last_trade_tbl d)))))"

lemma work_sql_eq:
  "work_sql tt e out ts d = (if entry_ok e d then
     obind (sql_for_each (submit_sql (status_submitted tt)) (map request_txt (triggered tt e d)) ts
              (d\<lparr>last_trade_tbl := last_trade_tbl (feed_entry tt e ts d)\<rparr>))
       (\<lambda>(u, d1). Ok ((out\<lparr>num_updated := i32 (num_updated out + updates e d)\<rparr>, map request_txt (triggered tt e d)), d1))
     else Fail Sql_Error)"
  by (simp add: work_sql_def Let_def MFF1Q1_def MFF1Q2_def entry_ok_def updates_def sql_check_def PQcmdTuples_def
      triggered_def request_txt_def [abs_def])

lemma work_done:
  assumes t: "requests_typed d" and w: "work_sql tt e out ts d = Ok ((out', rows), d')"
  shows "d' = feed_entry tt e ts d" "rows = map request_txt (triggered tt e d)"
    "out' = out\<lparr>num_updated := i32 (num_updated out + updates e d)\<rparr>"
proof -
  let ?d1 = "d\<lparr>last_trade_tbl := last_trade_tbl (feed_entry tt e ts d)\<rparr>"
  let ?s = "sql_for_each (submit_sql (status_submitted tt)) (map request_txt (triggered tt e d)) ts ?d1"
  have ok: "entry_ok e d" using w by (simp add: work_sql_eq split: if_splits)
  obtain u d2 where s2: "?s = Ok (u, d2)"
    using w ok by (cases ?s) (auto simp: work_sql_eq simp del: feed_entry_tables)
  have e: "((out\<lparr>num_updated := i32 (num_updated out + updates e d)\<rparr>, map request_txt (triggered tt e d)), d2) =
      ((out', rows), d')"
    using w ok s2 by (simp add: work_sql_eq del: feed_entry_tables)
  have s: "?s = Ok (u, d')" and rows: "rows = map request_txt (triggered tt e d)"
    and o: "out\<lparr>num_updated := i32 (num_updated out + updates e d)\<rparr> = out'"
    using s2 e by (simp_all del: feed_entry_tables)
  have "in_i64 (tr_t_id r)" if "r \<in> set (triggered tt e d)" for r
    using t that by (auto simp: requests_typed_def triggered_def)
  from submits_done [OF this s] have "d' = submitted (status_submitted tt) ts (triggered tt e d) ?d1" .
  also have "\<dots> = feed_entry tt e ts d"
    by (simp add: submitted_def feed_entry_def order_ids_def)
  finally show "d' = feed_entry tt e ts d" .
  show "rows = map request_txt (triggered tt e d)" by (fact rows)
  show "out' = out\<lparr>num_updated := i32 (num_updated out + updates e d)\<rparr>" using o by simp
qed

section \<open>The messages\<close>

text \<open>A message carries the data of an order, and its texts end inside their arrays.\<close>

definition buffers_ok :: "TTradeRequest \<Rightarrow> bool" where
  "buffers_ok m \<longleftrightarrow> length (req_symbol m) = 16 \<and> req_symbol m ! 15 = NUL \<and>
     length (req_trade_type_id m) = 4 \<and> req_trade_type_id m ! 3 = NUL"

definition message_of :: "TTradeRequest \<Rightarrow> trade_request_row \<Rightarrow> bool" where
  "message_of m r \<longleftrightarrow> c_str (req_symbol m) = tr_s_symb r \<and> req_trade_id m = tr_t_id r \<and>
     req_price_quote m = rnd64 (of_int (tr_bid_price r) / 100) \<and>
     c_str (req_trade_type_id m) = tr_tt_id r \<and> req_trade_qty m = tr_qty r"

lemma strncpy_into:
  assumes "length buf = Suc n" "buf ! n = NUL" "length s \<le> n" "is_cstr s"
  shows "c_str (strncpy_into buf s n) = s" "length (strncpy_into buf s n) = Suc n" "strncpy_into buf s n ! n = NUL"
proof -
  have d: "drop n buf = [NUL]" using assms(1,2)
    by (metis Cons_nth_drop_Suc drop_all le_refl lessI)
  then have e: "strncpy_into buf s n = strncpy s n @ [NUL]" by (simp add: strncpy_into_def)
  then show "length (strncpy_into buf s n) = Suc n" "strncpy_into buf s n ! n = NUL" by (simp_all add: nth_append)
  show "c_str (strncpy_into buf s n) = s"
    using copy_len_eq [OF assms(4), of n] assms(3) by (simp add: e copy_len_def)
qed

lemma request_message:
  assumes "buffers_ok m" "tr_s_symb r = symb" "in_i64 (tr_t_id r)" "in_i32 (tr_qty r)"
    "length symb \<le> 15" "is_cstr symb" "length (tr_tt_id r) \<le> 3" "is_cstr (tr_tt_id r)"
  shows "message_of (MFF1_request symb (request_txt r) m) r" "buffers_ok (MFF1_request symb (request_txt r) m)"
proof -
  have 1: "length (req_symbol m) = Suc 15" "req_symbol m ! 15 = NUL"
    and 2: "length (req_trade_type_id m) = Suc 3" "req_trade_type_id m ! 3 = NUL"
    using assms(1) by (simp_all add: buffers_ok_def)
  note 3 = strncpy_into [OF 1 assms(5,6)] strncpy_into [OF 2 assms(7,8)]
  show "buffers_ok (MFF1_request symb (request_txt r) m)"
    using 3 by (simp add: MFF1_request_def buffers_ok_def request_txt_def PQgetvalue_def)
  show "message_of (MFF1_request symb (request_txt r) m) r"
    using 3 assms(2-4) by (simp add: MFF1_request_def message_of_def request_txt_def PQgetvalue_def atof_numeric_out)
qed

lemma i32_i32_add [simp]: "i32 (i32 a + b) = i32 (a + b)" "i32 (b + i32 a) = i32 (b + a)"
  by (simp_all add: i32_def algebra_simps mod_simps)

definition sendable :: "string \<Rightarrow> trade_request_row \<Rightarrow> bool" where
  "sendable symb r \<longleftrightarrow> tr_s_symb r = symb \<and> in_i64 (tr_t_id r) \<and> in_i32 (tr_qty r) \<and>
     length symb \<le> 15 \<and> is_cstr symb \<and> length (tr_tt_id r) \<le> 3 \<and> is_cstr (tr_tt_id r)"

lemma send_messages:
  assumes "MFF1_send symb (map request_txt rs) out c = (res, c')" "buffers_ok (m_TriggeredLimitOrders c)"
    and "list_all (sendable symb) rs" "in_i32 (send_len out)"
  shows "\<exists>ms out'. res = Inr out' \<and> sent c' = sent c @ ms \<and> list_all2 message_of ms rs \<and>
     buffers_ok (m_TriggeredLimitOrders c') \<and> stored c' = stored c \<and> idle c' = idle c \<and> commands c' = commands c \<and>
     out' = out\<lparr>send_len := i32 (send_len out + int (length rs))\<rparr>"
  using assms
proof (induction rs arbitrary: out c)
  case Nil
  then show ?case by simp
next
  case (Cons r rs)
  let ?m = "MFF1_request symb (request_txt r) (m_TriggeredLimitOrders c)"
  let ?c = "c\<lparr>m_TriggeredLimitOrders := ?m, sent := sent c @ [?m]\<rparr>"
  let ?out = "out\<lparr>send_len := i32 (send_len out + 1)\<rparr>"
  have "sendable symb r" using Cons.prems(3) by simp
  then have m: "message_of ?m r" "buffers_ok ?m"
    by (simp_all add: sendable_def request_message [OF Cons.prems(2)])
  have "MFF1_send symb (map request_txt rs) ?out ?c = (res, c')"
    using Cons.prems(1) by (simp add: Let_def)
  from Cons.IH [OF this] m(2) Cons.prems(3) obtain ms where
    "res = Inr (?out\<lparr>send_len := i32 (send_len ?out + int (length rs))\<rparr>)" "sent c' = sent ?c @ ms"
    "list_all2 message_of ms rs" "buffers_ok (m_TriggeredLimitOrders c')" "stored c' = stored ?c"
    "idle c' = idle ?c" "commands c' = commands ?c" by auto
  with m(1) show ?case
    by (intro exI [of _ "?m # ms"]) (simp add: idle_def ac_simps)
qed


section \<open>The frame\<close>

text \<open>
  A connection between two transactions, and how it changes when some entries have been
  fed: \<open>tes\<close> are those entries with the times of their transactions.
\<close>

definition ready :: "conn \<Rightarrow> bool" where
  "ready c \<longleftrightarrow> idle c \<and> buffers_ok (m_TriggeredLimitOrders c) \<and> requests_typed (stored c)"

definition fed :: "TStatusAndTradeType \<Rightarrow> (int \<times> TTickerEntry) list \<Rightarrow> conn \<Rightarrow> conn \<Rightarrow> bool" where
  "fed tt tes c c' \<longleftrightarrow> idle c' \<and> buffers_ok (m_TriggeredLimitOrders c') \<and>
     stored c' = feed_run tt tes (stored c) \<and>
     (\<exists>ms. sent c' = sent c @ ms \<and> list_all2 message_of ms (feed_orders tt tes (stored c)))"

lemma feed_append:
  "feed_run tt (xs @ ys) d = feed_run tt ys (feed_run tt xs d)"
  "feed_orders tt (xs @ ys) d = feed_orders tt xs d @ feed_orders tt ys (feed_run tt xs d)"
  by (induction xs arbitrary: d) simp_all

lemma fed_trans: "fed tt xs c c1 \<Longrightarrow> fed tt ys c1 c2 \<Longrightarrow> fed tt (xs @ ys) c c2"
  unfolding fed_def by (auto simp: feed_append intro!: list_all2_appendI)

lemma fed_ready: "ready c \<Longrightarrow> fed tt tes c c' \<Longrightarrow> ready c'"
  by (simp add: ready_def fed_def requests_typed_run)

lemma ready_fed_Nil: "ready c \<Longrightarrow> same_txn c c' \<Longrightarrow> idle c' \<Longrightarrow> fed tt [] c c'"
  by (simp add: ready_def fed_def same_txn_def)

lemma triggered_sendable:
  "requests_typed d \<Longrightarrow> list_all (sendable (entry_symbol e)) (triggered tt e d)"
  by (auto simp: requests_typed_def triggered_def MFF1Q2_where_def sendable_def list_all_iff)

lemma entry_cases:
  assumes c: "ready c" "in_i32 (send_len out)" and e: "MFF1_entry srv tt e out c = (r, c')"
  obtains (thrown) err where "r = Inl err" "fed tt [] c c'"
        "willing srv \<Longrightarrow> \<exists>ts x. work_sql tt e out ts (stored c) = Fail x"
    | (entry_fed) ts where "fed tt [(ts, e)] c c'"
        "r = Inr (out\<lparr>num_updated := i32 (num_updated out + updates e (stored c)),
                      send_len := i32 (send_len out + int (length (triggered tt e (stored c))))\<rparr>)"
proof -
  have i: "idle c" and b: "buffers_ok (m_TriggeredLimitOrders c)" and t: "requests_typed (stored c)"
    using c(1) by (simp_all add: ready_def)
  have "dbind (begin_txn srv) (\<lambda>_. dbind (MFF1_work srv tt e out) (\<lambda>x. dbind (commit srv)
      (\<lambda>_. MFF1_send (entry_symbol e) (snd x) (fst x)))) c = (r, c')"
    using e by (simp add: MFF1_entry_def split_def)
  then show ?thesis
  proof (cases rule: txn_cases [OF work_works i, consumes 1, case_names thrown committed])
    case (thrown err)
    then show ?thesis using ready_fed_Nil [OF c(1)] by (intro that(1)) blast+
  next
    case (committed x d c1)
    obtain out1 rows where x: "x = (out1, rows)" by fastforce
    from work_done [OF t committed(1) [unfolded x]]
    have d: "d = feed_entry tt e (time_at srv (commands c)) (stored c)"
      and rows: "rows = map request_txt (triggered tt e (stored c))"
      and out1: "out1 = out\<lparr>num_updated := i32 (num_updated out + updates e (stored c))\<rparr>" by auto
    have b1: "buffers_ok (m_TriggeredLimitOrders c1)" and l: "in_i32 (send_len out1)"
      using b c(2) committed(5) out1 by simp_all
    have "MFF1_send (entry_symbol e) (map request_txt (triggered tt e (stored c))) out1 c1 = (r, c')"
      using committed(6) by (simp add: x rows)
    from send_messages [OF this b1 triggered_sendable [OF t] l] show ?thesis
      using committed(2-4) by (elim exE conjE, intro that(2) [of "time_at srv (commands c)"])
        (auto simp: fed_def d out1)
  qed
qed

lemma loop_fed:
  assumes "ready c" "in_i32 (send_len out)" "MFF1_loop srv tt es out c = (r, c')"
  shows "\<exists>tes. map snd tes = take (length tes) es \<and> fed tt tes c c' \<and>
     (case r of Inl _ \<Rightarrow> length tes < length es
      | Inr out' \<Rightarrow> length tes = length es \<and>
          send_len out' = i32 (send_len out + int (length (feed_orders tt tes (stored c)))))"
  using assms
proof (induction es arbitrary: out c)
  case Nil
  then have "r = Inr out" "fed tt [] c c'" by (simp_all add: ready_fed_Nil ready_def fed_def)
  with Nil show ?case by (intro exI [of _ "[]"]) simp
next
  case (Cons e es)
  from Cons.prems(3) have "dbind (MFF1_entry srv tt e out) (MFF1_loop srv tt es) c = (r, c')" by simp
  then show ?case
  proof (cases rule: dbind_cases)
    case (thrown err)
    with entry_cases [OF Cons.prems(1,2) thrown(1)] show ?thesis
      by (intro exI [of _ "[]"]) fastforce
  next
    case (goes_on out1 c1)
    obtain ts where f: "fed tt [(ts, e)] c c1"
      and o: "send_len out1 = i32 (send_len out + int (length (triggered tt e (stored c))))"
    proof (cases rule: entry_cases [OF Cons.prems(1,2) goes_on(1), case_names thrown entry_fed])
      case (entry_fed ts)
      from entry_fed(2) have "out1 = out\<lparr>num_updated := i32 (num_updated out + updates e (stored c)),
          send_len := i32 (send_len out + int (length (triggered tt e (stored c))))\<rparr>" by (rule sum.inject(2) [THEN iffD1])
      with entry_fed(1) that show ?thesis by simp
    qed simp
    have st: "stored c1 = feed_entry tt e ts (stored c)" using f by (simp add: fed_def)
    from Cons.IH [OF fed_ready [OF Cons.prems(1) f] _ goes_on(2)] o obtain tes where
      1: "map snd tes = take (length tes) es" "fed tt tes c1 c'"
         "case r of Inl _ \<Rightarrow> length tes < length es
          | Inr out' \<Rightarrow> length tes = length es \<and>
              send_len out' = i32 (send_len out1 + int (length (feed_orders tt tes (stored c1))))" by auto
    have "fed tt ((ts, e) # tes) c c'" using fed_trans [OF f 1(2)] by simp
    moreover have "map snd ((ts, e) # tes) = take (length ((ts, e) # tes)) (e # es)" using 1(1) by simp
    moreover have "case r of Inl _ \<Rightarrow> length ((ts, e) # tes) < length (e # es)
      | Inr out' \<Rightarrow> length ((ts, e) # tes) = length (e # es) \<and>
          send_len out' = i32 (send_len out + int (length (feed_orders tt ((ts, e) # tes) (stored c))))"
      using 1(3) by (cases r) (simp_all add: o st ac_simps)
    ultimately show ?thesis by blast
  qed
qed


lemma frame_fed:
  assumes "ready c" "execute_MarketFeedFrame1 srv pIn c = (r, c')"
  shows "\<exists>tes. map snd tes = take (length tes) (take 20 (Entries pIn)) \<and> fed (StatusAndTradeType pIn) tes c c' \<and>
     (case r of Inl _ \<Rightarrow> length tes < length (take 20 (Entries pIn))
      | Inr out \<Rightarrow> length tes = length (take 20 (Entries pIn)) \<and>
          send_len out = i32 (int (length (feed_orders (StatusAndTradeType pIn) tes (stored c)))))"
  using loop_fed [OF assms(1) _ assms(2) [unfolded execute_MarketFeedFrame1_def]]
  by (cases r) (simp_all add: in_i32_def)

text \<open>
  C7. However it ends, a call of Market-Feed has fed a beginning of the ticker: for these entries
  prices, volumes, trades, requests and history are as \<open>feed_entry\<close> says and the triggered orders
  have been sent, in their order; for the others nothing has been stored or sent.  A call that
  returns has fed all of them and counts the messages.
\<close>

theorem market_feed_prefix:
  assumes "ready c" "execute_MarketFeedFrame1 srv pIn c = (r, c')"
  shows "\<exists>tes ms. map snd tes = take (length tes) (take 20 (Entries pIn)) \<and>
     stored c' = feed_run (StatusAndTradeType pIn) tes (stored c) \<and> sent c' = sent c @ ms \<and>
     list_all2 message_of ms (feed_orders (StatusAndTradeType pIn) tes (stored c)) \<and> ready c' \<and>
     (case r of Inl _ \<Rightarrow> length tes < length (take 20 (Entries pIn))
      | Inr out \<Rightarrow> length tes = length (take 20 (Entries pIn)) \<and> send_len out = i32 (int (length ms)))"
proof -
  from frame_fed [OF assms] obtain tes where t: "map snd tes = take (length tes) (take 20 (Entries pIn))"
    and f: "fed (StatusAndTradeType pIn) tes c c'"
    and r: "case r of Inl _ \<Rightarrow> length tes < length (take 20 (Entries pIn))
      | Inr out \<Rightarrow> length tes = length (take 20 (Entries pIn)) \<and>
          send_len out = i32 (int (length (feed_orders (StatusAndTradeType pIn) tes (stored c))))" by blast
  from f obtain ms where "sent c' = sent c @ ms"
    "list_all2 message_of ms (feed_orders (StatusAndTradeType pIn) tes (stored c))" by (auto simp: fed_def)
  with t f r fed_ready [OF assms(1) f] list_all2_lengthD [OF this(2)] show ?thesis
    by (intro exI [of _ tes] exI [of _ ms]) (cases r, simp_all add: fed_def)
qed

section \<open>The worker\<close>

text \<open>A worker feeds a beginning of the entries in every attempt, and all of them in the one that succeeds.\<close>

lemma run_txn_fed:
  assumes "ready c" "run_txn n (execute_MarketFeedFrame1 srv pIn) c = (res, c')"
  shows "\<exists>tess. fed (StatusAndTradeType pIn) (concat tess) c c' \<and> tess \<noteq> [] \<and> length tess \<le> Suc n \<and>
     (\<forall>tes \<in> set tess. map snd tes = take (length tes) (take 20 (Entries pIn))) \<and>
     (res \<noteq> None \<longrightarrow> length (last tess) = length (take 20 (Entries pIn)))"
  using assms
proof (induction n arbitrary: c)
  case 0
  obtain r c1 where t: "execute_MarketFeedFrame1 srv pIn c = (r, c1)" by fastforce
  from frame_fed [OF 0(1) t] obtain tes where "map snd tes = take (length tes) (take 20 (Entries pIn))"
    "fed (StatusAndTradeType pIn) tes c c1"
    "case r of Inl _ \<Rightarrow> True | Inr out \<Rightarrow> length tes = length (take 20 (Entries pIn))"
    by (cases r) auto
  moreover have "c' = c1 \<and> (res \<noteq> None \<longrightarrow> (\<exists>x. r = Inr x))"
    using 0(2) t by (subst (asm) run_txn.simps) (auto split: sum.splits thrown.splits)
  ultimately show ?case by (intro exI [of _ "[tes]"]) (auto split: sum.splits)
next
  case (Suc n)
  obtain r c1 where t: "execute_MarketFeedFrame1 srv pIn c = (r, c1)" by fastforce
  from frame_fed [OF Suc.prems(1) t] obtain tes where f: "map snd tes = take (length tes) (take 20 (Entries pIn))"
    "fed (StatusAndTradeType pIn) tes c c1"
    "case r of Inl _ \<Rightarrow> True | Inr out \<Rightarrow> length tes = length (take 20 (Entries pIn))"
    by (cases r) auto
  show ?case
  proof (cases "r = Inl CDBRetryableError")
    case True
    with t Suc.prems(2) have "run_txn n (execute_MarketFeedFrame1 srv pIn) c1 = (res, c')"
      by (subst (asm) run_txn.simps) simp
    from Suc.IH [OF fed_ready [OF Suc.prems(1) f(2)] this] obtain tess where
      "fed (StatusAndTradeType pIn) (concat tess) c1 c'" "tess \<noteq> []" "length tess \<le> Suc n"
      "\<forall>tes \<in> set tess. map snd tes = take (length tes) (take 20 (Entries pIn))"
      "res \<noteq> None \<longrightarrow> length (last tess) = length (take 20 (Entries pIn))" by blast
    with f fed_trans [OF f(2)] show ?thesis by (intro exI [of _ "tes # tess"]) simp
  next
    case False
    have "c' = c1 \<and> (res \<noteq> None \<longrightarrow> (\<exists>x. r = Inr x))"
      using Suc.prems(2) t False by (subst (asm) run_txn.simps) (auto split: sum.splits thrown.splits)
    with f show ?thesis by (intro exI [of _ "[tes]"]) (auto split: sum.splits)
  qed
qed

lemma worker_fed:
  assumes "ready c" "workerThread_run (execute_MarketFeedFrame1 srv pIn) c = (res, c')"
  shows "\<exists>tess. fed (StatusAndTradeType pIn) (concat tess) c c' \<and> tess \<noteq> [] \<and> length tess \<le> 11 \<and>
     (\<forall>tes \<in> set tess. map snd tes = take (length tes) (take 20 (Entries pIn))) \<and>
     (res \<noteq> None \<longrightarrow> length (last tess) = length (take 20 (Entries pIn)))"
  using run_txn_fed [OF assms(1), of iMaxRetries srv pIn res c'] assms(2) by (simp add: workerThread_run_def)

text \<open>The trades whose status changes are those of the orders that are sent.\<close>

lemma feed_run_status:
  "map (\<lambda>r. (t_id r, t_st_id r)) (trade_tbl (feed_run tt tes d)) =
   map (\<lambda>r. (t_id r, if t_id r \<in> tr_t_id ` set (feed_orders tt tes d) then status_submitted tt else t_st_id r))
     (trade_tbl d)"
proof (induction tes arbitrary: d)
  case Nil
  show ?case by simp
next
  case (Cons x tes)
  have "map (\<lambda>r. (t_id r, t_st_id r)) (trade_tbl (feed_run tt (x # tes) d)) =
      map (\<lambda>r. (t_id r, if t_id r \<in> tr_t_id ` set (feed_orders tt tes (feed_entry tt (snd x) (fst x) d))
          then status_submitted tt else t_st_id r)) (trade_tbl (feed_entry tt (snd x) (fst x) d))"
    by (simp add: Cons.IH)
  also have "\<dots> = map (\<lambda>r. (t_id r, if t_id r \<in> tr_t_id ` set (feed_orders tt (x # tes) d)
      then status_submitted tt else t_st_id r)) (trade_tbl d)"
    by (auto simp: feed_entry_def update_where_def order_ids_def)
  finally show ?case .
qed

text \<open>
  C3. No order is lost and none is sent twice.  Whatever the server refuses and however often the
  worker retries: an order that was pending is afterwards either still in \<open>trade_request\<close>, or
  exactly one message with its data has been sent to the market and its trade is marked as
  submitted; no other trade changes its status.
\<close>

theorem orders_sent_once:
  assumes "ready c" "workerThread_run (execute_MarketFeedFrame1 srv pIn) c = (res, c')"
  shows "\<exists>ms rs. sent c' = sent c @ ms \<and> list_all2 message_of ms rs \<and>
     mset (trade_request_tbl (stored c')) + mset rs = mset (trade_request_tbl (stored c)) \<and>
     map (\<lambda>r. (t_id r, t_st_id r)) (trade_tbl (stored c')) =
       map (\<lambda>r. (t_id r, if t_id r \<in> tr_t_id ` set rs then status_submitted (StatusAndTradeType pIn) else t_st_id r))
         (trade_tbl (stored c))"
proof -
  from worker_fed [OF assms] obtain tes where "fed (StatusAndTradeType pIn) tes c c'" by blast
  then show ?thesis using assms(1)
    by (auto simp: fed_def ready_def feed_orders_conserved feed_run_status
        intro!: exI [of _ "feed_orders (StatusAndTradeType pIn) tes (stored c)"])
qed

text \<open>The volume of a security grows by what is traded of it, in every attempt anew.\<close>

definition traded :: "string \<Rightarrow> TTickerEntry list \<Rightarrow> int" where
  "traded symb es = sum_list (map (\<lambda>e. i32 (entry_trade_qty e)) (filter (\<lambda>e. entry_symbol e = symb) es))"

lemma traded_simps [simp]:
  "traded symb [] = 0"
  "traded symb (e # es) = (if entry_symbol e = symb then i32 (entry_trade_qty e) else 0) + traded symb es"
  "traded symb (xs @ ys) = traded symb xs + traded symb ys"
  by (simp_all add: traded_def)

lemma feed_run_volumes:
  "map (\<lambda>r. (lt_s_symb r, lt_vol r)) (last_trade_tbl (feed_run tt tes d)) =
   map (\<lambda>r. (lt_s_symb r, lt_vol r + traded (lt_s_symb r) (map snd tes))) (last_trade_tbl d)"
proof (induction tes arbitrary: d)
  case Nil
  show ?case by simp
next
  case (Cons x tes)
  have "map (\<lambda>r. (lt_s_symb r, lt_vol r)) (last_trade_tbl (feed_run tt (x # tes) d)) =
      map (\<lambda>r. (lt_s_symb r, lt_vol r + traded (lt_s_symb r) (map snd tes)))
        (last_trade_tbl (feed_entry tt (snd x) (fst x) d))"
    by (simp add: Cons.IH)
  then show ?case by (auto simp: update_where_def)
qed

lemma traded_concat:
  "traded symb (map snd (concat tess)) = (\<Sum>tes \<leftarrow> tess. traded symb (map snd tes))"
  by (induction tess) simp_all

text \<open>
  C6. The traded volumes, in contrast, are added once per attempt: every attempt of the worker
  adds the quantities of the entries it gets to, because each entry is committed on its own,
  and the successful attempt adds those of all entries.  When an attempt fails after \<open>k\<close> entries
  with a retryable error, the volumes of these are counted again; the witness has such a run.
\<close>

theorem worker_feed_volumes:
  assumes "ready c" "workerThread_run (execute_MarketFeedFrame1 srv pIn) c = (res, c')"
  shows "\<exists>ks. ks \<noteq> [] \<and> length ks \<le> 11 \<and> list_all (\<lambda>k. k \<le> length (take 20 (Entries pIn))) ks \<and>
     (res \<noteq> None \<longrightarrow> last ks = length (take 20 (Entries pIn))) \<and>
     map (\<lambda>r. (lt_s_symb r, lt_vol r)) (last_trade_tbl (stored c')) =
       map (\<lambda>r. (lt_s_symb r, lt_vol r + (\<Sum>k \<leftarrow> ks. traded (lt_s_symb r) (take k (take 20 (Entries pIn))))))
         (last_trade_tbl (stored c))"
proof -
  from worker_fed [OF assms] obtain tess where f: "fed (StatusAndTradeType pIn) (concat tess) c c'"
    and n: "tess \<noteq> []" "length tess \<le> 11"
    and p: "\<forall>tes \<in> set tess. map snd tes = take (length tes) (take 20 (Entries pIn))"
    and l: "res \<noteq> None \<longrightarrow> length (last tess) = length (take 20 (Entries pIn))" by blast
  have v: "traded symb (map snd (concat tess)) =
      (\<Sum>k \<leftarrow> map length tess. traded symb (take k (take 20 (Entries pIn))))" for symb
    unfolding traded_concat using p by (simp add: o_def cong: map_cong)
  have "length tes \<le> length (take 20 (Entries pIn))" if "tes \<in> set tess" for tes
    using p that by (metis length_map length_take min.cobounded1 min_def)
  then have k: "list_all (\<lambda>k. k \<le> length (take 20 (Entries pIn))) (map length tess)"
    by (simp add: list_all_iff)
  have "stored c' = feed_run (StatusAndTradeType pIn) (concat tess) (stored c)" using f by (simp add: fed_def)
  then have "map (\<lambda>r. (lt_s_symb r, lt_vol r)) (last_trade_tbl (stored c')) =
      map (\<lambda>r. (lt_s_symb r, lt_vol r + (\<Sum>k \<leftarrow> map length tess. traded (lt_s_symb r) (take k (take 20 (Entries pIn))))))
         (last_trade_tbl (stored c))"
    by (simp only: feed_run_volumes v)
  with n k l show ?thesis
    by (intro exI [of _ "map length tess"]) (simp only: list.map_disc_iff length_map last_map simp_thms)
qed


section \<open>A server that refuses nothing\<close>

text \<open>
  The entries can be fed: the status fits its column and is new in the histories of the
  pending orders, the prices fit theirs, and the volumes stay within 64 bits.
\<close>

definition feedable :: "TStatusAndTradeType \<Rightarrow> TTickerEntry list \<Rightarrow> db \<Rightarrow> bool" where
  "feedable tt es d \<longleftrightarrow> length (status_submitted tt) \<le> 4 \<and>
     (\<forall>r \<in> set (trade_request_tbl d).
        (tr_t_id r, status_submitted tt) \<notin> (\<lambda>h. (th_t_id h, th_st_id h)) ` set (trade_history_tbl d)) \<and>
     (\<forall>e \<in> set es. numeric_ok 12 (numeric_round2 (strtod_exact (price_quote_text (entry_price_quote e))))) \<and>
     (\<forall>r \<in> set (last_trade_tbl d). \<forall>k \<le> length es. in_i64 (lt_vol r + traded (lt_s_symb r) (take k es)))"

lemma feedable_entry:
  assumes "feedable tt (e # es) d"
  shows "entry_ok e d"
proof -
  have "\<forall>k \<le> length (e # es). in_i64 (lt_vol r + traded (lt_s_symb r) (take k (e # es)))"
    if "r \<in> set (last_trade_tbl d)" for r
    using assms that unfolding feedable_def by blast
  from spec [OF this, of _ "Suc 0"] have "in_i64 (lt_vol r + traded (lt_s_symb r) (take (Suc 0) (e # es)))"
    if "r \<in> set (last_trade_tbl d)" for r
    using that by simp
  moreover have "numeric_ok 12 (numeric_round2 (strtod_exact (price_quote_text (entry_price_quote e))))"
    using assms by (simp add: feedable_def)
  ultimately show ?thesis by (fastforce simp: entry_ok_def list_all_iff)
qed

lemma feedable_next:
  assumes "feedable tt (e # es) d"
  shows "feedable tt es (feed_entry tt e ts d)"
proof -
  have "in_i64 (lt_vol r' + traded (lt_s_symb r') (take k es))"
    if r': "r' \<in> set (last_trade_tbl (feed_entry tt e ts d))" and k: "k \<le> length es" for r' k
  proof -
    from r' obtain r where r: "r \<in> set (last_trade_tbl d)" "lt_s_symb r' = lt_s_symb r"
      "lt_vol r' = lt_vol r + traded (lt_s_symb r) [e]"
      by (auto simp: set_update_where)
    with assms k have "in_i64 (lt_vol r + traded (lt_s_symb r) (take (Suc k) (e # es)))"
      unfolding feedable_def by (metis Suc_le_mono length_Cons)
    with r show ?thesis by (simp add: ac_simps)
  qed
  with assms show ?thesis
    by (auto simp: feedable_def order_ids_def)
qed

lemma submits_ok:
  assumes "length st \<le> 4" "distinct (map tr_t_id rs)"
    "\<And>r. r \<in> set rs \<Longrightarrow> in_i64 (tr_t_id r) \<and>
       (tr_t_id r, st) \<notin> (\<lambda>h. (th_t_id h, th_st_id h)) ` set (trade_history_tbl d)"
  shows "sql_for_each (submit_sql st) (map request_txt rs) ts d = Ok ((), submitted st ts rs d)"
  using assms
proof (induction rs arbitrary: d)
  case Nil
  then show ?case by simp
next
  case (Cons r rs)
  have "sql_for_each (submit_sql st) (map request_txt rs) ts (submitted st ts [r] d) =
      Ok ((), submitted st ts rs (submitted st ts [r] d))"
    using Cons.prems by (intro Cons.IH) (auto simp: submitted_def image_iff)
  then show ?case using Cons.prems by (simp add: submit_sql_eq submitted_Cons)
qed

lemma work_ok:
  assumes "requests_typed d" "feedable tt (e # es) d"
  shows "\<exists>y. work_sql tt e out ts d = Ok y"
proof -
  have "sql_for_each (submit_sql (status_submitted tt)) (map request_txt (triggered tt e d)) ts
      (d\<lparr>last_trade_tbl := last_trade_tbl (feed_entry tt e ts d)\<rparr>) =
      Ok ((), submitted (status_submitted tt) ts (triggered tt e d) (d\<lparr>last_trade_tbl := last_trade_tbl (feed_entry tt e ts d)\<rparr>))"
    using assms by (intro submits_ok)
      (auto simp: feedable_def requests_typed_def triggered_def distinct_map_filter)
  then show ?thesis using feedable_entry [OF assms(2)] by (simp add: work_sql_eq del: feed_entry_tables)
qed

text \<open>Every security of the ticker has one row.\<close>

definition listed :: "TTickerEntry list \<Rightarrow> db \<Rightarrow> bool" where
  "listed es d \<longleftrightarrow> distinct (map lt_s_symb (last_trade_tbl d)) \<and>
     (\<forall>e \<in> set es. entry_symbol e \<in> lt_s_symb ` set (last_trade_tbl d))"

lemma listed_updates: "listed (e # es) d \<Longrightarrow> updates e d = 1"
proof -
  assume l: "listed (e # es) d"
  then obtain r where "r \<in> set (last_trade_tbl d)" "lt_s_symb r = entry_symbol e" by (auto simp: listed_def)
  with l keyed_filter_single [of lt_s_symb "last_trade_tbl d" r]
  have "length (filter (\<lambda>r. lt_s_symb r = entry_symbol e) (last_trade_tbl d)) = 1" by (simp add: listed_def)
  then show ?thesis by (simp add: updates_def in_i32_def del: length_filter_conv_card)
qed

lemma listed_next: "listed (e # es) d \<Longrightarrow> listed es (feed_entry tt e ts d)"
proof -
  have "map lt_s_symb (last_trade_tbl (feed_entry tt e ts d)) = map lt_s_symb (last_trade_tbl d)"
    by (simp add: map_update_where)
  moreover from this have "lt_s_symb ` set (last_trade_tbl (feed_entry tt e ts d)) = lt_s_symb ` set (last_trade_tbl d)"
    by (metis set_map)
  ultimately show "listed (e # es) d \<Longrightarrow> listed es (feed_entry tt e ts d)" by (simp add: listed_def)
qed

lemma loop_completes:
  assumes "willing srv" "ready c" "in_i32 (send_len out)" "feedable tt es (stored c)" "listed es (stored c)"
    and "MFF1_loop srv tt es out c = (r, c')"
  shows "\<exists>out'. r = Inr out' \<and> (0 \<le> num_updated out \<and> num_updated out + int (length es) < 100 \<longrightarrow>
    num_updated out' = num_updated out + int (length es))"
  using assms(2-)
proof (induction es arbitrary: out c)
  case Nil
  then have "r = Inr out" by auto
  then show ?case by simp
next
  case (Cons e es)
  from Cons.prems(5) have "dbind (MFF1_entry srv tt e out) (MFF1_loop srv tt es) c = (r, c')" by simp
  then show ?case
  proof (cases rule: dbind_cases)
    case (thrown err)
    have "requests_typed (stored c)" using Cons.prems(1) by (simp add: ready_def)
    from work_ok [OF this Cons.prems(3)] entry_cases [OF Cons.prems(1,2) thrown(1)] assms(1)
    show ?thesis by (metis outcome.distinct(1) sum.distinct(1))
  next
    case (goes_on out1 c1)
    obtain ts where f: "fed tt [(ts, e)] c c1"
      and o: "out1 = out\<lparr>num_updated := i32 (num_updated out + updates e (stored c)),
          send_len := i32 (send_len out + int (length (triggered tt e (stored c))))\<rparr>"
      using entry_cases [OF Cons.prems(1,2) goes_on(1)] by (metis sum.distinct(1) sum.inject(2))
    have st: "stored c1 = feed_entry tt e ts (stored c)" using f by (simp add: fed_def)
    have "\<exists>out'. r = Inr out' \<and> (0 \<le> num_updated out1 \<and> num_updated out1 + int (length es) < 100 \<longrightarrow>
        num_updated out' = num_updated out1 + int (length es))"
      using Cons.prems o st by (intro Cons.IH [OF fed_ready [OF Cons.prems(1) f] _ _ _ goes_on(2)])
        (simp_all add: feedable_next listed_next)
    then show ?thesis using listed_updates [OF Cons.prems(4)] by (auto simp: o in_i32_def)
  qed
qed

text \<open>
  C9. A call of Market-Feed returns when the server refuses nothing and the entries can be fed;
  where each security of the ticker is listed once, the number of updated rows is the number
  of entries.
\<close>

theorem market_feed_completes:
  assumes "willing srv" "ready c" "feedable (StatusAndTradeType pIn) (take 20 (Entries pIn)) (stored c)"
    "listed (take 20 (Entries pIn)) (stored c)"
  shows "\<exists>out c'. execute_MarketFeedFrame1 srv pIn c = (Inr out, c') \<and>
     num_updated out = int (length (take 20 (Entries pIn)))"
proof -
  obtain r c' where e: "execute_MarketFeedFrame1 srv pIn c = (r, c')" by fastforce
  from loop_completes [OF assms(1,2) _ assms(3,4) e [unfolded execute_MarketFeedFrame1_def]] e
  show ?thesis by (auto simp: in_i32_def)
qed


section \<open>Samples\<close>

definition feed_types :: TStatusAndTradeType where
  "feed_types = \<lparr>status_submitted = ''SBMT'', type_limit_buy = ''TLB'', type_limit_sell = ''TLS'', type_stop_loss = ''TSL''\<rparr>"

definition feed_ticker :: TMarketFeedFrame1Input where
  "feed_ticker = \<lparr>StatusAndTradeType = feed_types,
     Entries = [\<lparr>entry_price_quote = 12, entry_trade_qty = 100, entry_symbol = ''AB''\<rparr>,
                \<lparr>entry_price_quote = 13, entry_trade_qty = 50, entry_symbol = ''AB''\<rparr>]\<rparr>"

definition feed_db :: db where
  "feed_db = sample_db\<lparr>trade_request_tbl :=
     [\<lparr>tr_t_id = 9, tr_tt_id = ''TLB'', tr_s_symb = ''AB'', tr_qty = 30, tr_bid_price = 1250, tr_b_id = 2\<rparr>]\<rparr>"

definition feed_conn :: conn where
  "feed_conn = \<lparr>stored = feed_db, working = feed_db, in_txn = False, txn_time = 0, commands = 0,
     m_TriggeredLimitOrders = \<lparr>req_symbol = replicate 16 NUL, req_trade_id = 0, req_price_quote = 0,
       req_trade_type_id = replicate 4 NUL, req_trade_qty = 0\<rparr>, sent = []\<rparr>"

definition busy_server :: "nat \<Rightarrow> server" where
  "busy_server k = \<lparr>refuses = (\<lambda>n. if n = k then Some (Some ''40001'') else None), time_at = int\<rparr>"

definition free_server :: server where
  "free_server = \<lparr>refuses = (\<lambda>n. None), time_at = int\<rparr>"

lemma rne_quote [simp]: "rne (numeral n) = numeral n"
  using rne_of_int [of "numeral n"] by simp

lemma numeral_6_eq_6: "(6::nat) = Suc (Suc (Suc (Suc (Suc (Suc 0)))))"
  by simp

lemma frac_digits_6_0: "frac_digits 6 0 = ''000000''"
  by (simp add: numeral_6_eq_6 digit_char_def)

lemma sample_price_texts:
  "price_quote_text 12 = ''12.000000''" "price_quote_text 13 = ''13.000000''"
  by (simp_all add: price_quote_text_def fmt_6f_def digit_char_def show_nat.simps [of 12] show_nat.simps [of 13]
      show_nat.simps [of "Suc 0"] frac_digits_6_0)

lemma sample_prices: "strtod_exact ''12.000000'' = 12" "strtod_exact ''13.000000'' = 13"
  by (simp_all add: strtod_exact_def skip_space_def is_space_def digit_val_def)

lemma sample_rounded: "numeric_round2 12 = 1200" "numeric_round2 13 = 1300"
  by (simp_all add: numeric_round2_def floor_unique)

lemmas feed_samples = feed_types_def feed_ticker_def feed_conn_def busy_server_def free_server_def feed_db_def

lemmas feed_eval = execute_MarketFeedFrame1_def MFF1_entry_def MFF1_work_def MFF1_submit_def dbind_def begin_txn_def
  exec_def commit_def rollback_def error_for_def MFF1Q1_def MFF1Q2_def MFF1Q2_where_def MFF1Q3_def MFF1Q4_def MFF1Q5_def
  sample_price_texts sample_prices sample_rounded Let_def numeric_ok_def in_i64_def in_i32_def sample_rows

text \<open>
  The server refuses the first statement of the second entry: the first attempt has fed the
  first entry, and the second attempt feeds it again.
\<close>

lemma sample_first_attempt:
  "\<exists>m. execute_MarketFeedFrame1 (busy_server 6) feed_ticker feed_conn =
     (Inl CDBRetryableError, feed_conn\<lparr>stored := feed_entry feed_types (hd (Entries feed_ticker)) 0 feed_db,
        working := feed_entry feed_types (hd (Entries feed_ticker)) 0 feed_db, txn_time := 6, commands := 7,
        sent := [m], m_TriggeredLimitOrders := m\<rparr>)"
  by (simp add: feed_samples feed_eval feed_entry_def triggered_def order_ids_def)

lemma sample_second_attempt:
  "\<exists>c'. execute_MarketFeedFrame1 (busy_server 6) feed_ticker
       (feed_conn\<lparr>stored := feed_entry feed_types (hd (Entries feed_ticker)) 0 feed_db,
        working := feed_entry feed_types (hd (Entries feed_ticker)) 0 feed_db, txn_time := 6, commands := 7,
        sent := [m], m_TriggeredLimitOrders := m\<rparr>) = (Inr \<lparr>num_updated = 2, send_len = 0\<rparr>, c') \<and>
     map (\<lambda>r. (lt_s_symb r, lt_vol r)) (last_trade_tbl (stored c')) = [(''AB'', 5 + 100 + 100 + 50)] \<and>
     trade_request_tbl (stored c') = [] \<and> sent c' = [m]"
  by (simp add: feed_samples feed_eval feed_entry_def triggered_def order_ids_def PQcmdTuples_def)

lemma sample_retried:
  "\<exists>c' m. workerThread_run (execute_MarketFeedFrame1 (busy_server 6) feed_ticker) feed_conn =
     (Some \<lparr>num_updated = 2, send_len = 0\<rparr>, c') \<and>
     map (\<lambda>r. (lt_s_symb r, lt_vol r)) (last_trade_tbl (stored c')) = [(''AB'', 5 + 100 + 100 + 50)] \<and>
     trade_request_tbl (stored c') = [] \<and> sent c' = [m]"
proof -
  obtain m where 1: "execute_MarketFeedFrame1 (busy_server 6) feed_ticker feed_conn =
     (Inl CDBRetryableError, feed_conn\<lparr>stored := feed_entry feed_types (hd (Entries feed_ticker)) 0 feed_db,
        working := feed_entry feed_types (hd (Entries feed_ticker)) 0 feed_db, txn_time := 6, commands := 7,
        sent := [m], m_TriggeredLimitOrders := m\<rparr>)"
    using sample_first_attempt by blast
  from sample_second_attempt [of m] show ?thesis
    by (auto simp: workerThread_run_def run_txn.simps [of 10] run_txn.simps [of 9] 1)
qed

lemma feed_conn_ready: "ready feed_conn"
  by (simp add: feed_conn_def ready_def idle_def buffers_ok_def requests_typed_def feed_db_def is_cstr_def
      in_i64_def in_i32_def)

lemma feed_sels:
  "StatusAndTradeType feed_ticker = feed_types" "take 20 (Entries feed_ticker) = Entries feed_ticker"
  "length (Entries feed_ticker) = 2" "stored feed_conn = feed_db"
  by (simp_all add: feed_ticker_def feed_conn_def)

theorem market_feed_prefix_witness:
  "\<exists>c' tes ms. execute_MarketFeedFrame1 (busy_server 6) feed_ticker feed_conn = (Inl CDBRetryableError, c') \<and>
     stored c' = feed_run feed_types tes feed_db \<and> sent c' = sent feed_conn @ ms \<and>
     list_all2 message_of ms (feed_orders feed_types tes feed_db) \<and> length tes < 2"
proof -
  obtain c' where e: "execute_MarketFeedFrame1 (busy_server 6) feed_ticker feed_conn = (Inl CDBRetryableError, c')"
    using sample_first_attempt by blast
  from market_feed_prefix [OF feed_conn_ready this] e show ?thesis
    unfolding feed_sels sum.case by blast
qed

theorem orders_sent_once_witness:
  "\<exists>out c' ms rs. workerThread_run (execute_MarketFeedFrame1 (busy_server 6) feed_ticker) feed_conn = (Some out, c') \<and>
     sent c' = ms \<and> list_all2 message_of ms rs \<and> mset rs = mset (trade_request_tbl feed_db)"
proof -
  obtain c' m where e: "workerThread_run (execute_MarketFeedFrame1 (busy_server 6) feed_ticker) feed_conn =
      (Some \<lparr>num_updated = 2, send_len = 0\<rparr>, c')" "trade_request_tbl (stored c') = []"
    using sample_retried by blast
  from orders_sent_once [OF feed_conn_ready e(1)] e show ?thesis by (auto simp: feed_conn_def)
qed

theorem worker_feed_volumes_witness:
  "\<exists>out c' ks. workerThread_run (execute_MarketFeedFrame1 (busy_server 6) feed_ticker) feed_conn = (Some out, c') \<and>
     map (\<lambda>r. (lt_s_symb r, lt_vol r)) (last_trade_tbl (stored c')) = [(''AB'', 5 + 100 + 100 + 50)] \<and>
     map (\<lambda>r. (lt_s_symb r, lt_vol r)) (last_trade_tbl (stored c')) =
       map (\<lambda>r. (lt_s_symb r, lt_vol r + (\<Sum>k \<leftarrow> ks. traded (lt_s_symb r) (take k (Entries feed_ticker)))))
         (last_trade_tbl feed_db) \<and> last ks = 2"
proof -
  obtain c' m where e: "workerThread_run (execute_MarketFeedFrame1 (busy_server 6) feed_ticker) feed_conn =
      (Some \<lparr>num_updated = 2, send_len = 0\<rparr>, c')"
      "map (\<lambda>r. (lt_s_symb r, lt_vol r)) (last_trade_tbl (stored c')) = [(''AB'', 5 + 100 + 100 + 50)]"
    using sample_retried by (elim exE conjE, intro that)
  from worker_feed_volumes [OF feed_conn_ready e(1)] obtain ks where "last ks = 2"
    "map (\<lambda>r. (lt_s_symb r, lt_vol r)) (last_trade_tbl (stored c')) =
       map (\<lambda>r. (lt_s_symb r, lt_vol r + (\<Sum>k \<leftarrow> ks. traded (lt_s_symb r) (take k (Entries feed_ticker)))))
         (last_trade_tbl feed_db)"
    unfolding feed_sels by auto
  with e show ?thesis by (intro exI [of _ c'] exI [of _ ks] exI [of _ "\<lparr>num_updated = 2, send_len = 0\<rparr>"] conjI)
qed

theorem market_feed_completes_witness:
  "\<exists>out c'. execute_MarketFeedFrame1 free_server feed_ticker feed_conn = (Inr out, c') \<and> num_updated out = 2"
proof -
  have "willing free_server" by (simp add: willing_def free_server_def)
  moreover have "feedable (StatusAndTradeType feed_ticker) (take 20 (Entries feed_ticker)) (stored feed_conn)"
    by (simp add: feedable_def feed_samples sample_price_texts sample_prices sample_rounded numeric_ok_def
        in_i64_def in_i32_def sample_rows le_Suc_eq numeral_2_eq_2 conj_disj_distribL all_conj_distrib)
  moreover have "listed (take 20 (Entries feed_ticker)) (stored feed_conn)"
    by (simp add: listed_def feed_samples sample_rows)
  ultimately show ?thesis using market_feed_completes [OF _ feed_conn_ready, of free_server feed_ticker]
    by (simp add: feed_ticker_def)
qed

end
