(* ===== verification/TradeCleanup.thy ===== *)
theory TradeCleanup
  imports Connection Samples
begin

text \<open>
  Trade-Cleanup (\<open>CDBConnection::execute(const TTradeCleanupFrame1Input *)\<close> in
  \<^verbatim>\<open>src/transactions/pgsql/DBConnection.cpp\<close>, called by \<^verbatim>\<open>src/transactions/TradeCleanupDB.cpp\<close>):
  the pending orders and the trades that were submitted and never completed are cancelled
  before a run, in one transaction.
\<close>

section \<open>Data and statements\<close>

record TTradeCleanupFrame1Input =
  start_trade_id :: int
  st_canceled_id :: string
  st_pending_id :: string
  st_submitted_id :: string

definition TCF1Q1 :: "int \<Rightarrow> sql" where
  "TCF1Q1 ts d = sql_select (map (\<lambda>r. [int_txt (tr_t_id r)]) (order_asc tr_t_id (trade_request_tbl d))) d"

text \<open>\<open>INSERT INTO trade_history \<dots> ON CONFLICT DO NOTHING\<close>; the key is the trade and the status.\<close>

definition log_status :: "string \<Rightarrow> int \<Rightarrow> int \<Rightarrow> trade_history_row list \<Rightarrow> trade_history_row list" where
  "log_status st ts t hs = (if (t, st) \<in> (\<lambda>h. (th_t_id h, th_st_id h)) ` set hs then hs
     else hs @ [\<lparr>th_t_id = t, th_dts = ts, th_st_id = st\<rparr>])"

definition TCF1Q2 :: "int \<Rightarrow> string \<Rightarrow> int \<Rightarrow> sql" where
  "TCF1Q2 t st ts d = sql_check (length st \<le> 4)
     (let hs = log_status st ts t (trade_history_tbl d) in
      Ok (SPI_OK_INSERT (length hs - length (trade_history_tbl d)), d\<lparr>trade_history_tbl := hs\<rparr>))"

definition TCF1Q3 :: "string \<Rightarrow> int \<Rightarrow> int \<Rightarrow> sql" where
  "TCF1Q3 st t ts d = sql_check (length st \<le> 4)
     (Ok (SPI_OK_UPDATE (length (filter (\<lambda>r. t_id r = t) (trade_tbl d))),
          d\<lparr>trade_tbl := update_where (\<lambda>r. t_id r = t) (\<lambda>r. r\<lparr>t_st_id := st, t_dts := ts\<rparr>) (trade_tbl d)\<rparr>))"

text \<open>Another text for the same insertion, with \<open>now()\<close>.\<close>

definition TCF1Q4 :: "int \<Rightarrow> string \<Rightarrow> int \<Rightarrow> sql" where
  "TCF1Q4 t st ts d = sql_check (length st \<le> 4)
     (let hs = log_status st ts t (trade_history_tbl d) in
      Ok (SPI_OK_INSERT (length hs - length (trade_history_tbl d)), d\<lparr>trade_history_tbl := hs\<rparr>))"

definition TCF1Q5 :: "int \<Rightarrow> sql" where
  "TCF1Q5 ts d = Ok (SPI_OK_DELETE (length (trade_request_tbl d)), d\<lparr>trade_request_tbl := []\<rparr>)"

definition TCF1Q6 :: "int \<Rightarrow> string \<Rightarrow> int \<Rightarrow> sql" where
  "TCF1Q6 start st ts d = sql_select
     (map (\<lambda>r. [int_txt (t_id r)]) (filter (\<lambda>r. t_id r \<ge> start \<and> t_st_id r = st) (trade_tbl d))) d"

definition TCF1Q7 :: "string \<Rightarrow> int \<Rightarrow> int \<Rightarrow> sql" where
  "TCF1Q7 st t ts d = sql_check (length st \<le> 4)
     (Ok (SPI_OK_UPDATE (length (filter (\<lambda>r. t_id r = t) (trade_tbl d))),
          d\<lparr>trade_tbl := update_where (\<lambda>r. t_id r = t) (\<lambda>r. r\<lparr>t_st_id := st, t_dts := ts\<rparr>) (trade_tbl d)\<rparr>))"

definition TCF1Q8 :: "int \<Rightarrow> string \<Rightarrow> int \<Rightarrow> sql" where
  "TCF1Q8 t st ts d = sql_check (length st \<le> 4)
     (let hs = log_status st ts t (trade_history_tbl d) in
      Ok (SPI_OK_INSERT (length hs - length (trade_history_tbl d)), d\<lparr>trade_history_tbl := hs\<rparr>))"

section \<open>The frame\<close>

definition TCF1_request :: "server \<Rightarrow> TTradeCleanupFrame1Input \<Rightarrow> spi_row \<Rightarrow> unit db_op" where
  "TCF1_request srv pIn row =
     (let tr_t_id = i64 (atoll (PQgetvalue row 0)) in
      dbind (exec srv (TCF1Q2 tr_t_id (st_submitted_id pIn))) (\<lambda>_.
      dbind (exec srv (TCF1Q3 (st_canceled_id pIn) tr_t_id)) (\<lambda>_.
      dbind (exec srv (TCF1Q4 tr_t_id (st_canceled_id pIn))) (\<lambda>_. ret ()))))"

definition TCF1_submitted :: "server \<Rightarrow> TTradeCleanupFrame1Input \<Rightarrow> spi_row \<Rightarrow> unit db_op" where
  "TCF1_submitted srv pIn row =
     (let tr_t_id = i64 (atoll (PQgetvalue row 0)) in
      dbind (exec srv (TCF1Q7 (st_canceled_id pIn) tr_t_id)) (\<lambda>_.
      dbind (exec srv (TCF1Q8 tr_t_id (st_canceled_id pIn))) (\<lambda>_. ret ())))"

definition execute_TradeCleanupFrame1 :: "server \<Rightarrow> TTradeCleanupFrame1Input \<Rightarrow> unit db_op" where
  "execute_TradeCleanupFrame1 srv pIn =
     dbind (exec srv TCF1Q1) (\<lambda>res.
     dbind (for_each (TCF1_request srv pIn) (PQrows res)) (\<lambda>_.
     dbind (exec srv TCF1Q5) (\<lambda>_.
     dbind (exec srv (TCF1Q6 (i64 (start_trade_id pIn)) (st_submitted_id pIn))) (\<lambda>res.
     for_each (TCF1_submitted srv pIn) (PQrows res)))))"

definition DoTradeCleanupFrame1 :: "server \<Rightarrow> TTradeCleanupFrame1Input \<Rightarrow> unit db_op" where
  "DoTradeCleanupFrame1 srv pIn =
     dbind (begin_txn srv) (\<lambda>_.
     dbind (execute_TradeCleanupFrame1 srv pIn) (\<lambda>_.
     dbind (commit srv) (\<lambda>_. ret ())))"

section \<open>What it does\<close>

definition id_row :: "int \<Rightarrow> spi_row" where
  "id_row t = [int_txt t]"

definition cancel :: "string \<Rightarrow> int \<Rightarrow> int set \<Rightarrow> trade_row list \<Rightarrow> trade_row list" where
  "cancel st ts ids = update_where (\<lambda>r. t_id r \<in> ids) (\<lambda>r. r\<lparr>t_st_id := st, t_dts := ts\<rparr>)"

lemma cancel_simps:
  "cancel st ts {} rs = rs" "cancel st ts A (cancel st ts B rs) = cancel st ts (A \<union> B) rs"
  "update_where (\<lambda>r. t_id r = t) (\<lambda>r. r\<lparr>t_st_id := st, t_dts := ts\<rparr>) rs = cancel st ts {t} rs"
  unfolding cancel_def by (induction rs) auto

definition history_keys :: "trade_history_row list \<Rightarrow> (int \<times> string) set" where
  "history_keys hs = (\<lambda>h. (th_t_id h, th_st_id h)) ` set hs"

lemma history_keys_append: "history_keys (xs @ ys) = history_keys xs \<union> history_keys ys"
  by (simp add: history_keys_def image_Un)

lemma history_keys_empty [simp]: "history_keys hs = {} \<longleftrightarrow> hs = []"
  by (simp add: history_keys_def)

text \<open>\<open>hs'\<close> extends \<open>hs\<close> by rows of time \<open>ts\<close> with the keys \<open>K\<close>, none of them twice.\<close>

definition logged :: "int \<Rightarrow> (int \<times> string) set \<Rightarrow> trade_history_row list \<Rightarrow> trade_history_row list \<Rightarrow> bool" where
  "logged ts K hs hs' \<longleftrightarrow> (\<exists>new. hs' = hs @ new \<and> history_keys new = K - history_keys hs \<and>
     distinct (map (\<lambda>h. (th_t_id h, th_st_id h)) new) \<and> (\<forall>h \<in> set new. th_dts h = ts))"

lemma logged_refl: "logged ts {} hs hs"
  by (simp add: logged_def history_keys_def)

lemma logged_one: "logged ts {(t, st)} hs (log_status st ts t hs)"
  by (auto simp: logged_def log_status_def history_keys_def)

lemma logged_trans: "logged ts K hs hs1 \<Longrightarrow> logged ts L hs1 hs2 \<Longrightarrow> logged ts (K \<union> L) hs hs2"
proof -
  assume "logged ts K hs hs1" "logged ts L hs1 hs2"
  then obtain n1 n2 where n: "hs1 = hs @ n1" "history_keys n1 = K - history_keys hs"
    "distinct (map (\<lambda>h. (th_t_id h, th_st_id h)) n1)" "\<forall>h \<in> set n1. th_dts h = ts"
    "hs2 = hs1 @ n2" "history_keys n2 = L - history_keys hs1"
    "distinct (map (\<lambda>h. (th_t_id h, th_st_id h)) n2)" "\<forall>h \<in> set n2. th_dts h = ts"
    unfolding logged_def by blast
  have h1: "history_keys hs1 = history_keys hs \<union> history_keys n1" by (simp add: n(1) history_keys_append)
  have k: "history_keys (n1 @ n2) = K \<union> L - history_keys hs"
    unfolding history_keys_append n(2,6) h1 by blast
  have "history_keys n1 \<inter> history_keys n2 = {}" unfolding n(6) h1 by blast
  then have dist: "distinct (map (\<lambda>h. (th_t_id h, th_st_id h)) (n1 @ n2))"
    using n(3,7) by (simp add: history_keys_def)
  have "hs2 = hs @ n1 @ n2" by (simp add: n(1,5))
  moreover have "\<forall>h \<in> set (n1 @ n2). th_dts h = ts" using n(4,8) by auto
  ultimately show ?thesis using k dist unfolding logged_def by blast
qed

lemma logged_nothing: "logged ts K hs hs' \<Longrightarrow> K \<subseteq> history_keys hs \<Longrightarrow> hs' = hs"
proof -
  assume "logged ts K hs hs'" and K: "K \<subseteq> history_keys hs"
  then obtain new where "hs' = hs @ new" "history_keys new = K - history_keys hs" by (auto simp: logged_def)
  moreover from K have "K - history_keys hs = {}" by blast
  ultimately show ?thesis by simp
qed

definition request_sql :: "TTradeCleanupFrame1Input \<Rightarrow> spi_row \<Rightarrow> int \<Rightarrow> db \<Rightarrow> (unit \<times> db) outcome" where
  "request_sql pIn row ts d = (let t = i64 (atoll (PQgetvalue row 0)) in
     obind (TCF1Q2 t (st_submitted_id pIn) ts d) (\<lambda>(r, d). obind (TCF1Q3 (st_canceled_id pIn) t ts d) (\<lambda>(r, d).
     obind (TCF1Q4 t (st_canceled_id pIn) ts d) (\<lambda>(r, d). Ok ((), d)))))"

definition submitted_sql :: "TTradeCleanupFrame1Input \<Rightarrow> spi_row \<Rightarrow> int \<Rightarrow> db \<Rightarrow> (unit \<times> db) outcome" where
  "submitted_sql pIn row ts d = (let t = i64 (atoll (PQgetvalue row 0)) in
     obind (TCF1Q7 (st_canceled_id pIn) t ts d) (\<lambda>(r, d).
     obind (TCF1Q8 t (st_canceled_id pIn) ts d) (\<lambda>(r, d). Ok ((), d))))"

definition cleanup_sql :: "TTradeCleanupFrame1Input \<Rightarrow> int \<Rightarrow> db \<Rightarrow> (unit \<times> db) outcome" where
  "cleanup_sql pIn ts d =
     obind (TCF1Q1 ts d) (\<lambda>(res, d).
     obind (sql_for_each (request_sql pIn) (PQrows res) ts d) (\<lambda>(u, d).
     obind (TCF1Q5 ts d) (\<lambda>(r, d).
     obind (TCF1Q6 (i64 (start_trade_id pIn)) (st_submitted_id pIn) ts d) (\<lambda>(res, d).
     sql_for_each (submitted_sql pIn) (PQrows res) ts d))))"

lemma cleanup_works: "works srv (execute_TradeCleanupFrame1 srv pIn) (cleanup_sql pIn)"
proof -
  have 1: "works srv (TCF1_request srv pIn row) (request_sql pIn row)" for row
    unfolding TCF1_request_def request_sql_def Let_def by (intro works_intros)
  have 2: "works srv (TCF1_submitted srv pIn row) (submitted_sql pIn row)" for row
    unfolding TCF1_submitted_def submitted_sql_def Let_def by (intro works_intros)
  have 3: "works srv (for_each (TCF1_submitted srv pIn) rows) (\<lambda>ts d. sql_for_each (submitted_sql pIn) rows ts d)" for rows
    by (rule works_for_each) (rule 2)
  show ?thesis unfolding execute_TradeCleanupFrame1_def cleanup_sql_def by (intro works_intros 1 3)
qed

definition widths_ok :: "TTradeCleanupFrame1Input \<Rightarrow> bool" where
  "widths_ok pIn \<longleftrightarrow> length (st_submitted_id pIn) \<le> 4 \<and> length (st_canceled_id pIn) \<le> 4"


lemma requests_effect:
  assumes w: "widths_ok pIn" and "\<And>t. t \<in> set ids \<Longrightarrow> in_i64 t"
  shows "\<exists>hs. sql_for_each (request_sql pIn) (map id_row ids) ts d =
      Ok ((), d\<lparr>trade_tbl := cancel (st_canceled_id pIn) ts (set ids) (trade_tbl d), trade_history_tbl := hs\<rparr>) \<and>
      logged ts (set ids \<times> {st_submitted_id pIn, st_canceled_id pIn}) (trade_history_tbl d) hs"
  using assms(2)
proof (induction ids arbitrary: d)
  case Nil
  show ?case by (intro exI [of _ "trade_history_tbl d"]) (simp add: cancel_simps logged_refl)
next
  case (Cons t ids)
  let ?s = "st_submitted_id pIn" and ?c = "st_canceled_id pIn"
  let ?h = "log_status ?c ts t (log_status ?s ts t (trade_history_tbl d))"
  let ?d = "d\<lparr>trade_tbl := cancel ?c ts {t} (trade_tbl d), trade_history_tbl := ?h\<rparr>"
  have 1: "request_sql pIn (id_row t) ts d = Ok ((), ?d)"
    using w Cons.prems [of t]
    by (simp add: request_sql_def id_row_def TCF1Q2_def TCF1Q3_def TCF1Q4_def widths_ok_def cancel_simps Let_def)
  from Cons.IH [of ?d] Cons.prems obtain hs where
    2: "sql_for_each (request_sql pIn) (map id_row ids) ts ?d =
        Ok ((), ?d\<lparr>trade_tbl := cancel ?c ts (set ids) (trade_tbl ?d), trade_history_tbl := hs\<rparr>)"
    and 3: "logged ts (set ids \<times> {?s, ?c}) ?h hs" by auto
  have K: "{(t, ?s)} \<union> {(t, ?c)} \<union> set ids \<times> {?s, ?c} = set (t # ids) \<times> {?s, ?c}" by auto
  have "logged ts (set (t # ids) \<times> {?s, ?c}) (trade_history_tbl d) hs"
    using logged_trans [OF logged_trans [OF logged_one logged_one] 3] by (simp only: K)
  moreover have "cancel ?c ts (set ids) (trade_tbl ?d) = cancel ?c ts (set (t # ids)) (trade_tbl d)"
    by (simp add: cancel_simps)
  ultimately show ?case using 1 2 by (intro exI [of _ hs] conjI) simp_all
qed

lemma submitted_effect:
  assumes w: "widths_ok pIn" and "\<And>t. t \<in> set ids \<Longrightarrow> in_i64 t"
  shows "\<exists>hs. sql_for_each (submitted_sql pIn) (map id_row ids) ts d =
      Ok ((), d\<lparr>trade_tbl := cancel (st_canceled_id pIn) ts (set ids) (trade_tbl d), trade_history_tbl := hs\<rparr>) \<and>
      logged ts (set ids \<times> {st_canceled_id pIn}) (trade_history_tbl d) hs"
  using assms(2)
proof (induction ids arbitrary: d)
  case Nil
  show ?case by (intro exI [of _ "trade_history_tbl d"]) (simp add: cancel_simps logged_refl)
next
  case (Cons t ids)
  let ?c = "st_canceled_id pIn"
  let ?h = "log_status ?c ts t (trade_history_tbl d)"
  let ?d = "d\<lparr>trade_tbl := cancel ?c ts {t} (trade_tbl d), trade_history_tbl := ?h\<rparr>"
  have 1: "submitted_sql pIn (id_row t) ts d = Ok ((), ?d)"
    using w Cons.prems [of t]
    by (simp add: submitted_sql_def id_row_def TCF1Q7_def TCF1Q8_def widths_ok_def cancel_simps Let_def)
  from Cons.IH [of ?d] Cons.prems obtain hs where
    2: "sql_for_each (submitted_sql pIn) (map id_row ids) ts ?d =
        Ok ((), ?d\<lparr>trade_tbl := cancel ?c ts (set ids) (trade_tbl ?d), trade_history_tbl := hs\<rparr>)"
    and 3: "logged ts (set ids \<times> {?c}) ?h hs" by auto
  have K: "{(t, ?c)} \<union> set ids \<times> {?c} = set (t # ids) \<times> {?c}" by auto
  have "logged ts (set (t # ids) \<times> {?c}) (trade_history_tbl d) hs"
    using logged_trans [OF logged_one 3] by (simp only: K)
  moreover have "cancel ?c ts (set ids) (trade_tbl ?d) = cancel ?c ts (set (t # ids)) (trade_tbl d)"
    by (simp add: cancel_simps)
  ultimately show ?case using 1 2 by (intro exI [of _ hs] conjI) simp_all
qed

text \<open>
  The trades of the pending orders, and the trades from the given one on that are
  submitted.
\<close>

definition requested :: "db \<Rightarrow> int set" where
  "requested d = tr_t_id ` set (trade_request_tbl d)"

definition unfinished :: "TTradeCleanupFrame1Input \<Rightarrow> db \<Rightarrow> int set" where
  "unfinished pIn d = t_id ` {r \<in> set (trade_tbl d). start_trade_id pIn \<le> t_id r \<and> t_st_id r = st_submitted_id pIn}"

definition ids_typed :: "TTradeCleanupFrame1Input \<Rightarrow> db \<Rightarrow> bool" where
  "ids_typed pIn d \<longleftrightarrow> in_i64 (start_trade_id pIn) \<and> (\<forall>t \<in> requested d. in_i64 t) \<and> (\<forall>r \<in> set (trade_tbl d). in_i64 (t_id r))"

definition cleaned :: "TTradeCleanupFrame1Input \<Rightarrow> int \<Rightarrow> db \<Rightarrow> db \<Rightarrow> bool" where
  "cleaned pIn ts d d' \<longleftrightarrow>
     d' = d\<lparr>trade_tbl := cancel (st_canceled_id pIn) ts (requested d \<union> unfinished pIn d) (trade_tbl d),
            trade_request_tbl := [], trade_history_tbl := trade_history_tbl d'\<rparr> \<and>
     logged ts (requested d \<times> {st_submitted_id pIn, st_canceled_id pIn} \<union> unfinished pIn d \<times> {st_canceled_id pIn})
       (trade_history_tbl d) (trade_history_tbl d')"

lemma unfinished_after:
  assumes "st_canceled_id pIn \<noteq> st_submitted_id pIn"
  shows "unfinished pIn (d\<lparr>trade_tbl := cancel (st_canceled_id pIn) ts A (trade_tbl d)\<rparr>) = unfinished pIn d - A"
  using assms by (auto simp: unfinished_def cancel_def set_update_where)

lemma cleanup_effect:
  assumes w: "widths_ok pIn" and t: "ids_typed pIn d" and n: "st_canceled_id pIn \<noteq> st_submitted_id pIn"
  shows "\<exists>d'. cleanup_sql pIn ts d = Ok ((), d') \<and> cleaned pIn ts d d'"
proof -
  let ?s = "st_submitted_id pIn" and ?c = "st_canceled_id pIn"
  let ?ids = "map tr_t_id (order_asc tr_t_id (trade_request_tbl d))"
  have ids: "set ?ids = requested d" by (simp add: requested_def order_asc_def)
  have q1: "TCF1Q1 ts d = Ok (SPI_OK_SELECT (map id_row ?ids), d)"
    by (simp add: TCF1Q1_def id_row_def)
  from requests_effect [OF w, of ?ids ts d] t obtain hs where
    1: "sql_for_each (request_sql pIn) (map id_row ?ids) ts d =
      Ok ((), d\<lparr>trade_tbl := cancel ?c ts (requested d) (trade_tbl d), trade_history_tbl := hs\<rparr>)"
    and h1: "logged ts (requested d \<times> {?s, ?c}) (trade_history_tbl d) hs"
    unfolding ids by (auto simp: ids_typed_def)
  let ?d1 = "d\<lparr>trade_tbl := cancel ?c ts (requested d) (trade_tbl d), trade_history_tbl := hs, trade_request_tbl := []\<rparr>"
  let ?sel = "map t_id (filter (\<lambda>r. t_id r \<ge> start_trade_id pIn \<and> t_st_id r = ?s) (trade_tbl ?d1))"
  have sel: "set ?sel = unfinished pIn d - requested d"
    using n by (auto simp: unfinished_def cancel_def set_update_where)
  have q6: "TCF1Q6 (i64 (start_trade_id pIn)) ?s ts ?d1 = Ok (SPI_OK_SELECT (map id_row ?sel), ?d1)"
    using t by (simp add: TCF1Q6_def id_row_def ids_typed_def)
  have "\<And>x. x \<in> set ?sel \<Longrightarrow> in_i64 x"
    unfolding sel using t by (auto simp: ids_typed_def unfinished_def)
  from submitted_effect [of pIn ?sel ts ?d1, OF w this] obtain hs2 where
    2: "sql_for_each (submitted_sql pIn) (map id_row ?sel) ts ?d1 =
      Ok ((), ?d1\<lparr>trade_tbl := cancel ?c ts (unfinished pIn d - requested d) (trade_tbl ?d1), trade_history_tbl := hs2\<rparr>)"
    and h2: "logged ts ((unfinished pIn d - requested d) \<times> {?c}) hs hs2"
    unfolding sel by auto
  let ?d2 = "?d1\<lparr>trade_tbl := cancel ?c ts (unfinished pIn d - requested d) (trade_tbl ?d1), trade_history_tbl := hs2\<rparr>"
  have "cleanup_sql pIn ts d = Ok ((), ?d2)"
    using 1 2 q1 q6 by (simp add: cleanup_sql_def TCF1Q5_def)
  moreover have K: "requested d \<times> {?s, ?c} \<union> (unfinished pIn d - requested d) \<times> {?c} =
      requested d \<times> {?s, ?c} \<union> unfinished pIn d \<times> {?c}" by auto
  have "cleaned pIn ts d ?d2"
    using logged_trans [OF h1 h2] unfolding K by (simp add: cleaned_def cancel_simps Un_commute)
  ultimately show ?thesis by blast
qed

lemma cleanup_runs:
  assumes "idle c" "widths_ok pIn" "ids_typed pIn (stored c)" "st_canceled_id pIn \<noteq> st_submitted_id pIn"
    and "DoTradeCleanupFrame1 srv pIn c = (r, c')"
  shows "idle c' \<and> sent c' = sent c \<and>
    (case r of Inl _ \<Rightarrow> stored c' = stored c
     | Inr _ \<Rightarrow> cleaned pIn (time_at srv (commands c)) (stored c) (stored c')) \<and>
    (willing srv \<longrightarrow> r = Inr ())"
proof -
  let ?ts = "time_at srv (commands c)"
  from cleanup_effect [OF assms(2-4)] obtain d' where
    d: "cleanup_sql pIn ?ts (stored c) = Ok ((), d')" "cleaned pIn ?ts (stored c) d'" by blast
  show ?thesis
  proof (cases rule: txn_cases [OF cleanup_works assms(1) assms(5) [unfolded DoTradeCleanupFrame1_def],
      case_names thrown committed])
    case (thrown err)
    with d(1) show ?thesis by (auto simp: same_txn_def)
  next
    case (committed x d1 c1)
    with d show ?thesis by auto
  qed
qed


text \<open>
  C11. Trade-Cleanup does everything or nothing, whatever the server refuses.  When it returns, no
  request is pending, exactly the trades that were pending or submitted from the given one on
  are cancelled, and the history has grown by the rows that were missing for them, none twice;
  nothing else has changed.  It returns when the server refuses nothing.
\<close>

theorem trade_cleanup_all_or_nothing:
  assumes "idle c" "widths_ok pIn" "ids_typed pIn (stored c)" "st_canceled_id pIn \<noteq> st_submitted_id pIn"
    and "DoTradeCleanupFrame1 srv pIn c = (r, c')"
  shows "idle c' \<and> sent c' = sent c \<and>
    (case r of Inl _ \<Rightarrow> stored c' = stored c
     | Inr _ \<Rightarrow> cleaned pIn (time_at srv (commands c)) (stored c) (stored c')) \<and>
    (willing srv \<longrightarrow> r = Inr ())"
  using assms by (rule cleanup_runs)

lemma cleanedD:
  assumes "cleaned pIn ts d d'"
  shows "trade_tbl d' = cancel (st_canceled_id pIn) ts (requested d \<union> unfinished pIn d) (trade_tbl d)"
    "trade_request_tbl d' = []"
proof -
  have e: "d' = d\<lparr>trade_tbl := cancel (st_canceled_id pIn) ts (requested d \<union> unfinished pIn d) (trade_tbl d),
      trade_request_tbl := [], trade_history_tbl := trade_history_tbl d'\<rparr>"
    using assms unfolding cleaned_def by (rule conjunct1)
  show "trade_tbl d' = cancel (st_canceled_id pIn) ts (requested d \<union> unfinished pIn d) (trade_tbl d)"
    using arg_cong [where f = trade_tbl, OF e] by simp
  show "trade_request_tbl d' = []" using arg_cong [where f = trade_request_tbl, OF e] by simp
qed

lemma cleaned_again:
  assumes n: "st_canceled_id pIn \<noteq> st_submitted_id pIn" and c: "cleaned pIn ts d d1"
  shows "cleaned pIn ts' d1 d2 \<Longrightarrow> d2 = d1" and "ids_typed pIn d \<Longrightarrow> ids_typed pIn d1"
proof -
  note d1 = cleanedD [OF c]
  have e: "requested d1 = {}" "unfinished pIn d1 = {}"
    using n by (auto simp: requested_def unfinished_def d1 cancel_def set_update_where)
  show "d2 = d1" if "cleaned pIn ts' d1 d2"
  proof -
    from that have l: "logged ts' {} (trade_history_tbl d1) (trade_history_tbl d2)"
      and d2: "d2 = d1\<lparr>trade_tbl := trade_tbl d1, trade_request_tbl := [], trade_history_tbl := trade_history_tbl d2\<rparr>"
      unfolding cleaned_def e by (simp_all only: cancel_simps Un_empty_left Sigma_empty1)
    from l have h: "trade_history_tbl d2 = trade_history_tbl d1" by (rule logged_nothing) (rule empty_subsetI)
    have "d2 = d1\<lparr>trade_tbl := trade_tbl d1, trade_request_tbl := trade_request_tbl d1,
        trade_history_tbl := trade_history_tbl d1\<rparr>"
      using d2 unfolding h d1(2) .
    then show ?thesis by simp
  qed
  show "ids_typed pIn d1" if "ids_typed pIn d"
    using that by (auto simp: ids_typed_def e d1 cancel_def set_update_where)
qed

text \<open>
  C38. Cleaning up again changes nothing, not even a time.
\<close>

theorem trade_cleanup_twice:
  assumes "idle c" "widths_ok pIn" "ids_typed pIn (stored c)" "st_canceled_id pIn \<noteq> st_submitted_id pIn"
    and "DoTradeCleanupFrame1 srv pIn c = (Inr (), c1)" "DoTradeCleanupFrame1 srv pIn c1 = (r, c2)"
  shows "stored c2 = stored c1"
proof -
  from cleanup_runs [OF assms(1-5)] have i: "idle c1"
    and c1: "cleaned pIn (time_at srv (commands c)) (stored c) (stored c1)" by simp_all
  note again = cleaned_again [OF assms(4) c1]
  from cleanup_runs [OF i assms(2) again(2) [OF assms(3)] assms(4,6)] show ?thesis
    using again(1) by (cases r) auto
qed

section \<open>Samples\<close>

definition cleanup_input :: TTradeCleanupFrame1Input where
  "cleanup_input = \<lparr>start_trade_id = 5, st_canceled_id = ''CNCL'', st_pending_id = ''PNDG'', st_submitted_id = ''SBMT''\<rparr>"

definition cleanup_conn :: conn where
  "cleanup_conn = \<lparr>stored = sample_db, working = sample_db, in_txn = False, txn_time = 0, commands = 0,
     m_TriggeredLimitOrders = \<lparr>req_symbol = [], req_trade_id = 0, req_price_quote = 0, req_trade_type_id = [],
       req_trade_qty = 0\<rparr>, sent = []\<rparr>"

definition cleanup_server :: server where
  "cleanup_server = \<lparr>refuses = (\<lambda>n. None), time_at = int\<rparr>"

lemma cleanup_samples:
  "idle cleanup_conn" "widths_ok cleanup_input" "ids_typed cleanup_input (stored cleanup_conn)"
  "st_canceled_id cleanup_input \<noteq> st_submitted_id cleanup_input" "willing cleanup_server"
  by (simp_all add: idle_def widths_ok_def ids_typed_def requested_def cleanup_conn_def cleanup_input_def
      cleanup_server_def willing_def in_i64_def sample_trade_def)

theorem trade_cleanup_all_or_nothing_witness:
  "\<exists>c'. DoTradeCleanupFrame1 cleanup_server cleanup_input cleanup_conn = (Inr (), c') \<and>
     cleaned cleanup_input 0 sample_db (stored c') \<and> unfinished cleanup_input sample_db = {9}"
proof -
  obtain r c' where e: "DoTradeCleanupFrame1 cleanup_server cleanup_input cleanup_conn = (r, c')" by fastforce
  have "t_id sample_trade = 9" "t_st_id sample_trade = ''SBMT''" by (simp_all add: sample_trade_def)
  then have "unfinished cleanup_input sample_db = {9}"
    by (auto simp: unfinished_def cleanup_input_def)
  moreover note a = trade_cleanup_all_or_nothing [OF cleanup_samples(1-4) e]
  moreover have r: "r = Inr ()" using a cleanup_samples(5) by blast
  moreover have "time_at cleanup_server (commands cleanup_conn) = 0" "stored cleanup_conn = sample_db"
    by (simp_all add: cleanup_conn_def cleanup_server_def)
  ultimately show ?thesis using e by (intro exI [of _ c']) (simp only: sum.case)
qed

theorem trade_cleanup_twice_witness:
  "\<exists>c1 c2. DoTradeCleanupFrame1 cleanup_server cleanup_input cleanup_conn = (Inr (), c1) \<and>
     DoTradeCleanupFrame1 cleanup_server cleanup_input c1 = (Inr (), c2) \<and> stored c2 = stored c1"
proof -
  obtain r c1 where 1: "DoTradeCleanupFrame1 cleanup_server cleanup_input cleanup_conn = (r, c1)" by fastforce
  note a = cleanup_runs [OF cleanup_samples(1-4) 1]
  then have r: "r = Inr ()" using cleanup_samples(5) by blast
  obtain r2 c2 where 2: "DoTradeCleanupFrame1 cleanup_server cleanup_input c1 = (r2, c2)" by fastforce
  have "cleaned cleanup_input (time_at cleanup_server (commands cleanup_conn)) (stored cleanup_conn) (stored c1)"
    using a by (simp add: r)
  from cleaned_again(2) [OF cleanup_samples(4) this cleanup_samples(3)] a
  have "r2 = Inr ()" using cleanup_runs [OF _ cleanup_samples(2) _ cleanup_samples(4) 2]
      cleanup_samples(5) by blast
  with 1 2 trade_cleanup_twice [OF cleanup_samples(1-4) 1 [unfolded r] 2] show ?thesis by (auto simp: r)
qed

end
