(* ===== verification/Epoch.thy ===== *)
theory Epoch
  imports C_Runtime "HOL-Library.Signed_Division"
begin

text \<open>
  The conversion of calendar values to PostgreSQL's binary dates and timestamps
  (\<open>daysFromPgEpoch\<close> and \<open>usecFromPgEpoch\<close> in \<^verbatim>\<open>src/transactions/pgsql/DBConnection.cpp\<close>): days and
  microseconds from 2000-01-01.  \<open>sdiv\<close> is the division of C.
\<close>

section \<open>The code\<close>

definition daysFromPgEpoch :: "int \<Rightarrow> int \<Rightarrow> int \<Rightarrow> int" where
  "daysFromPgEpoch year month day =
     (let year = year - (if month \<le> 2 then 1 else 0);
          era = (if year \<ge> 0 then year else year - 399) sdiv 400;
          yoe = year - era * 400;
          doy = (153 * (month + (if month > 2 then - 3 else 9)) + 2) sdiv 5 + day - 1;
          doe = yoe * 365 + yoe sdiv 4 - yoe sdiv 100 + doy
      in era * 146097 + doe - 730425)"

record TIMESTAMP_STRUCT =
  ts_year :: int
  ts_month :: int
  ts_day :: int
  ts_hour :: int
  ts_minute :: int
  ts_second :: int

text \<open>The result is unsigned: it is the sum modulo \<open>2 ^ 64\<close>.\<close>

definition usecFromPgEpoch :: "TIMESTAMP_STRUCT \<Rightarrow> int" where
  "usecFromPgEpoch ts = ((((daysFromPgEpoch (ts_year ts) (ts_month ts) (ts_day ts) * 24 + ts_hour ts) * 60
     + ts_minute ts) * 60 + ts_second ts) * 1000000) mod 2 ^ 64"

section \<open>The calendar\<close>

definition leap_year :: "int \<Rightarrow> bool" where
  "leap_year y \<longleftrightarrow> y mod 4 = 0 \<and> (y mod 100 \<noteq> 0 \<or> y mod 400 = 0)"

definition month_length :: "int \<Rightarrow> int \<Rightarrow> int" where
  "month_length y m = (if m = 2 then if leap_year y then 29 else 28
     else if m \<in> {4, 6, 9, 11} then 30 else 31)"

definition valid_date :: "int \<Rightarrow> int \<Rightarrow> int \<Rightarrow> bool" where
  "valid_date y m d \<longleftrightarrow> 1 \<le> m \<and> m \<le> 12 \<and> 1 \<le> d \<and> d \<le> month_length y m"

definition next_day :: "int \<Rightarrow> int \<Rightarrow> int \<Rightarrow> int \<times> int \<times> int" where
  "next_day y m d = (if d < month_length y m then (y, m, d + 1)
     else if m < 12 then (y, m + 1, 1) else (y + 1, 1, 1))"

section \<open>Facts\<close>

lemma sdiv_nonneg: "0 \<le> a \<Longrightarrow> 0 \<le> b \<Longrightarrow> a sdiv b = a div b" for a b :: int
  by (simp add: signed_divide_int_def sgn_if)

text \<open>The era is the year divided by 400, rounded down; then the four-hundred-year cycles telescope.\<close>

lemma div_shift: "0 < k \<Longrightarrow> 0 \<le> r \<Longrightarrow> r < k \<Longrightarrow> (r + q * k) div k = q" for r k q :: int
  by simp

lemma era_floor: "(if y \<ge> 0 then y else y - 399) sdiv 400 = y div 400" for y :: int
proof (cases "y \<ge> 0")
  case True
  then show ?thesis by (simp add: sdiv_nonneg)
next
  case False
  then have "(y - 399) sdiv 400 = - ((399 - y) div 400)"
    by (simp add: signed_divide_int_def sgn_if)
  also have "399 - y = (399 - y mod 400) + (- (y div 400)) * 400"
    using div_mult_mod_eq [of y 400] by linarith
  also have "\<dots> div 400 = - (y div 400)"
    using pos_mod_bound [of 400 y] by (intro div_shift) simp_all
  finally show ?thesis using False by simp
qed

definition leaps :: "int \<Rightarrow> int" where
  "leaps y = y div 4 - y div 100 + y div 400"

lemma cycle:
  fixes y :: int
  shows "y div 400 * 146097 + ((y mod 400) * 365 + (y mod 400) div 4 - (y mod 400) div 100) =
    365 * y + leaps y"
proof -
  let ?e = "y div 400" and ?r = "y mod 400"
  have y: "y = ?r + ?e * 400" by simp
  have 4: "y div 4 = ?e * 100 + ?r div 4" using div_mult_self1 [of 4 ?r "?e * 100"] y by simp
  have 100: "y div 100 = ?e * 4 + ?r div 100" using div_mult_self1 [of 100 ?r "?e * 4"] y by simp
  have "365 * (r + e * 400) = 365 * r + 146000 * e" for r e :: int by simp
  from this [of ?r ?e] have "365 * y = 365 * ?r + 146000 * ?e" by (simp only: y [symmetric])
  then show ?thesis unfolding leaps_def 4 100 by simp
qed

lemma days_eq:
  assumes "1 \<le> m" "m \<le> 12"
  shows "daysFromPgEpoch y m d =
    (let y = (if m \<le> 2 then y - 1 else y) in
     365 * y + leaps y + (153 * (if m > 2 then m - 3 else m + 9) + 2) div 5 + d - 730426)"
proof -
  define y' where "y' = y - (if m \<le> 2 then 1 else 0)"
  have yoe: "y' - y' div 400 * 400 = y' mod 400" by (simp add: minus_div_mult_eq_mod)
  have doy: "(153 * (m + (if m > 2 then - 3 else 9)) + 2) sdiv 5 =
      (153 * (if m > 2 then m - 3 else m + 9) + 2) div 5"
    using assms by (cases "m > 2") (simp_all add: sdiv_nonneg)
  define k where "k = (153 * (if m > 2 then m - 3 else m + 9) + 2) div 5"
  define b where "b = (y' mod 400) * 365 + (y' mod 400) div 4 - (y' mod 400) div 100"
  have "daysFromPgEpoch y m d = y' div 400 * 146097 + (b + (k + d - 1)) - 730425"
    unfolding daysFromPgEpoch_def Let_def era_floor y'_def [symmetric] yoe doy k_def b_def
    by (simp add: sdiv_nonneg)
  also have "\<dots> = (y' div 400 * 146097 + b) + (k + d - 1) - 730425" by simp
  also have "\<dots> = (365 * y' + leaps y') + (k + d - 1) - 730425" unfolding b_def cycle ..
  finally show ?thesis by (simp add: y'_def k_def Let_def)
qed

lemma div_step:
  fixes y k :: int
  assumes "0 < k"
  shows "y div k = (y - 1) div k + (if y mod k = 0 then 1 else 0)"
proof (cases "y mod k = 0")
  case True
  then have e: "y - 1 = (k - 1) + (y div k - 1) * k" using div_mult_mod_eq [of y k] by (simp add: algebra_simps)
  have "((k - 1) + (y div k - 1) * k) div k = y div k - 1" using assms by (intro div_shift) simp_all
  then have "(y - 1) div k = y div k - 1" unfolding e [symmetric] .
  with True show ?thesis by simp
next
  case False
  then have "0 < y mod k" using assms pos_mod_sign [of k y] by (simp add: order_less_le)
  then have "((y mod k - 1) + y div k * k) div k = y div k"
    using assms pos_mod_bound [OF assms, of y] by (intro div_shift) linarith+
  moreover have "(y mod k - 1) + y div k * k = y - 1" by simp
  ultimately have "(y - 1) div k = y div k" by (simp only:)
  with False show ?thesis by simp
qed

lemma leap_flags:
  "(C \<Longrightarrow> B) \<Longrightarrow> (B \<Longrightarrow> A) \<Longrightarrow>
   (if A then 1 else 0) - (if B then 1 else 0) + (if C then 1 else 0) = (if A \<and> (\<not> B \<or> C) then 1 else (0 :: int))"
  by (cases A; cases B; cases C) simp_all

lemma leap_step: "leaps y = leaps (y - 1) + (if leap_year y then 1 else 0)"
proof -
  have s: "y div 4 = (y - 1) div 4 + (if y mod 4 = 0 then 1 else 0)"
    "y div 100 = (y - 1) div 100 + (if y mod 100 = 0 then 1 else 0)"
    "y div 400 = (y - 1) div 400 + (if y mod 400 = 0 then 1 else 0)"
    by (rule div_step, simp)+
  have l: "(if leap_year y then 1 else 0) = (if y mod 4 = 0 then 1 else 0) - (if y mod 100 = 0 then 1 else 0) +
      (if y mod 400 = 0 then 1 else (0 :: int))"
    unfolding leap_year_def
    using mod_mod_cancel [of 4 100 y] mod_mod_cancel [of 100 400 y] by (intro leap_flags [symmetric]) simp_all
  show ?thesis unfolding l leaps_def s by (simp only: algebra_simps)
qed

lemma months:
  assumes "1 \<le> m" "m \<le> 12"
  obtains "m = 1" | "m = 2" | "m = 3" | "m = 4" | "m = 5" | "m = 6" | "m = 7" | "m = 8" | "m = 9" | "m = 10"
    | "m = 11" | "m = (12 :: int)"
proof -
  have "m \<in> set [1..12]" using assms by simp
  then have "m = 1 \<or> m = 2 \<or> m = 3 \<or> m = 4 \<or> m = 5 \<or> m = 6 \<or> m = 7 \<or> m = 8 \<or> m = 9 \<or> m = 10 \<or> m = 11 \<or> m = 12"
    by (simp add: upto_rec1 del: set_upto)
  then show thesis using that by blast
qed

text \<open>
  C30. \<open>daysFromPgEpoch\<close> counts the days of the Gregorian calendar from 2000-01-01: that day is 0, and
  the day after any valid date, whatever its year, has the next number.
\<close>

theorem days_count_up:
  assumes "valid_date y m d"
  shows "daysFromPgEpoch 2000 1 1 = 0 \<and>
    (case next_day y m d of (y', m', d') \<Rightarrow>
       valid_date y' m' d' \<and> daysFromPgEpoch y' m' d' = daysFromPgEpoch y m d + 1)"
proof -
  have m: "1 \<le> m" "m \<le> 12" and d: "1 \<le> d" "d \<le> month_length y m"
    using assms by (simp_all add: valid_date_def)
  have len: "1 \<le> month_length y' m'" for y' m' by (simp add: month_length_def)
  have 0: "daysFromPgEpoch 2000 1 1 = 0" by (simp add: days_eq leaps_def)
  show ?thesis
  proof (cases "d < month_length y m")
    case True
    with m d 0 show ?thesis by (simp add: next_day_def valid_date_def days_eq Let_def)
  next
    case False
    with d have e: "d = month_length y m" by simp
    show ?thesis
    proof (cases "m = 2")
      case True
      then show ?thesis unfolding 0
        by (simp add: next_day_def valid_date_def days_eq e month_length_def leap_step [of y])
    next
      case False
      with m show ?thesis unfolding 0
        by (cases rule: months) (simp_all add: next_day_def valid_date_def days_eq e month_length_def)
    qed
  qed
qed

theorem days_count_up_witness:
  "daysFromPgEpoch 2024 2 29 = daysFromPgEpoch 2024 2 28 + 1 \<and> daysFromPgEpoch 1900 3 1 = daysFromPgEpoch 1900 2 28 + 1"
  using days_count_up [of 2024 2 28] days_count_up [of 1900 2 28]
  by (simp add: valid_date_def next_day_def month_length_def leap_year_def)

text \<open>Years of 16 bits do not make the microseconds wrap around.\<close>

definition valid_timestamp :: "TIMESTAMP_STRUCT \<Rightarrow> bool" where
  "valid_timestamp ts \<longleftrightarrow> - 32768 \<le> ts_year ts \<and> ts_year ts \<le> 32767 \<and>
     valid_date (ts_year ts) (ts_month ts) (ts_day ts) \<and> 0 \<le> ts_hour ts \<and> ts_hour ts < 24 \<and>
     0 \<le> ts_minute ts \<and> ts_minute ts < 60 \<and> 0 \<le> ts_second ts \<and> ts_second ts < 60"

lemma days_bound:
  assumes "valid_date y m d" "- 32768 \<le> y" "y \<le> 32767"
  shows "- 14000000 \<le> daysFromPgEpoch y m d \<and> daysFromPgEpoch y m d \<le> 14000000"
proof -
  have m: "1 \<le> m" "m \<le> 12" and d: "1 \<le> d" "d \<le> 31"
    using assms(1) by (auto simp: valid_date_def month_length_def split: if_splits)
  define y' where "y' = (if m \<le> 2 then y - 1 else y)"
  define k where "k = (153 * (if m > 2 then m - 3 else m + 9) + 2) div 5"
  have k: "0 \<le> k" "k \<le> 400" using m by (auto simp: k_def)
  have y': "- 32769 \<le> y'" "y' \<le> 32767" using assms(2,3) by (auto simp: y'_def)
  have "daysFromPgEpoch y m d = 365 * y' + y' div 4 - y' div 100 + y' div 400 + k + d - 730426"
    unfolding days_eq [OF m] y'_def k_def Let_def leaps_def by simp
  moreover have "- 9000 \<le> y' div 4" "y' div 4 \<le> 9000" "- 400 \<le> y' div 100" "y' div 100 \<le> 400"
    "- 100 \<le> y' div 400" "y' div 400 \<le> 100" using y' by linarith+
  ultimately show ?thesis using y' k d by linarith
qed

theorem usec_signed:
  assumes "valid_timestamp ts"
  shows "i64 (usecFromPgEpoch ts) div 86400000000 = daysFromPgEpoch (ts_year ts) (ts_month ts) (ts_day ts) \<and>
    i64 (usecFromPgEpoch ts) mod 86400000000 = ((ts_hour ts * 60 + ts_minute ts) * 60 + ts_second ts) * 1000000"
proof -
  define D where "D = daysFromPgEpoch (ts_year ts) (ts_month ts) (ts_day ts)"
  define s where "s = ((ts_hour ts * 60 + ts_minute ts) * 60 + ts_second ts) * 1000000"
  have D: "- 14000000 \<le> D" "D \<le> 14000000"
    using days_bound assms by (simp_all add: D_def valid_timestamp_def)
  have s: "0 \<le> s" "s < 86400000000" using assms by (simp_all add: s_def valid_timestamp_def)
  have v: "usecFromPgEpoch ts = (s + D * 86400000000) mod 2 ^ 64"
    by (simp add: usecFromPgEpoch_def D_def s_def algebra_simps)
  have "i64 (usecFromPgEpoch ts) = i64 (s + D * 86400000000)"
    unfolding v i64_def by (simp add: mod_simps)
  also have "\<dots> = s + D * 86400000000"
    using D s by (intro i64_id) (simp add: in_i64_def)
  finally show ?thesis unfolding D_def [symmetric] s_def [symmetric] using s by simp
qed

theorem usec_signed_witness:
  "i64 (usecFromPgEpoch \<lparr>ts_year = 1999, ts_month = 12, ts_day = 31, ts_hour = 23, ts_minute = 59, ts_second = 59\<rparr>)
     div 86400000000 = - 1"
  using usec_signed [of "\<lparr>ts_year = 1999, ts_month = 12, ts_day = 31, ts_hour = 23, ts_minute = 59, ts_second = 59\<rparr>"]
  by (simp add: valid_timestamp_def valid_date_def month_length_def days_eq leaps_def)

end
