(* ===== verification/Spec2Isabelle.thy ===== *)
theory Spec2Isabelle
  imports Ordering MarketWatch TradeStatus Harness DataMaintenance CustomerPosition SecurityDetail UpdateSymbol
    Ticker TradeCleanup Epoch
begin

text \<open>
  A verification of the stored procedures of DBT-5 (\<^verbatim>\<open>storedproc/pgsql/c\<close>), the C functions that
  run the transactions of the TPC-E brokerage workload inside a PostgreSQL server, of the two
  transactions that the C++ harness runs by itself (Market-Feed and Trade-Cleanup) with the worker
  that retries them, and of the text formats through which the harness exchanges arrays with the
  procedures.

  \<^bold>\<open>The program.\<close>  A driver emulates customers and sends requests to the brokerage house, which
  runs each request as a transaction: a sequence of frames, one call of a stored procedure
  each.  A frame prepares its SQL statements once (\<^verbatim>\<open>plan_queries\<close>), executes them through the
  server programming interface (SPI), computes in C and returns one row of texts, with arrays
  assembled in buffers of computed size.  Failures are reported as warnings (\<^verbatim>\<open>FAIL_FRAME\<close>), by
  returning no row (\<^verbatim>\<open>FAIL_FRAME_SET\<close>) or as errors of the server.  Between the harness and a
  frame travel array literals, taken apart by \<^verbatim>\<open>TokenizeSmart\<close>.

  \<^bold>\<open>Foundations.\<close>
  \<^item> \<open>Prelude\<close>: outcomes (\<open>Ok\<close>, or \<open>Fail\<close> with a server error or a crash), their sequencing, rows
    updated or deleted by condition.
  \<^item> \<open>C_Runtime\<close>: integers of 32 and 64 bits with wrap-around, C strings, \<^verbatim>\<open>strncpy\<close>, decimal texts,
    \<^verbatim>\<open>atoi\<close>, \<^verbatim>\<open>atoll\<close>, \<^verbatim>\<open>snprintf\<close>.  \<open>Doubles\<close>: IEEE doubles as rationals rounded to nearest even after
    every operation, \<^verbatim>\<open>atof\<close>, \<^verbatim>\<open>%.2f\<close>, the text of \<^verbatim>\<open>NUMERIC\<close>.  \<open>CTime\<close>: \<^verbatim>\<open>struct tm\<close>, \<^verbatim>\<open>strptime\<close>.
  \<^item> \<open>SPI\<close>: \<^verbatim>\<open>frame.h\<close> and \<^verbatim>\<open>dbt5common.h\<close>: widths, the plan cache, the macros, statement results, slots of
    the returned row (unassigned until written), set-returning calls.
  \<^item> \<open>Schema\<close>: the 33 tables of \<^verbatim>\<open>dbt5-pgsql-create-tables.in\<close>, the session (a snapshot for statements
    run read-only, the current contents for the others), and the locale \<open>sql_provider\<close>, the contract
    between a frame and its statements, interpreted by every transaction on its own statements.
  \<^item> \<open>ArrayBuf\<close>: \<^verbatim>\<open>strncat\<close> into a buffer with a remaining length that may become negative, arrays
    built column by column, value by value or record by record; they succeed exactly if the whole text fits.
  \<^item> \<open>Appends\<close>: frames that fill a dozen buffers side by side, as lists of appends; the locale
    \<open>array_loop\<close>, the contract between a loop and its buffers, from which the arrays of a whole frame
    follow.  \<open>TradeRows\<close>: settlements, cash transactions and histories, which Trade-Lookup and
    Trade-Update return alike.  \<open>LimitedUpdates\<close>: the locale \<open>limited_updates\<close>, loops that change at most
    a given number of rows.
  \<^item> \<open>Samples\<close>: a concrete server and rows, at which the theorems are instantiated.

  \<^bold>\<open>Transactions\<close>, a theory with the statements as functions on tables and the frames as they
  are written:
  \<^item> \<open>TradeResult\<close> (\<^verbatim>\<open>trade_result.c\<close>, six frames), \<open>Positions\<close> (the consistency of holdings and summaries,
    the specification of using up lots) and \<open>Settlement\<close>: frame 2 refines the specification, keeps
    the invariant, accounts for the whole quantity and respects the order of the lots; the other
    frames on every branch, errors included.
  \<^item> \<open>TradeOrder\<close> (\<^verbatim>\<open>trade_order.c\<close>, four frames) and \<open>Ordering\<close>: the estimate, the lookup of account and
    permission, the entered order, and that frame 3 never writes.  Frame 3 stores pointers to arrays
    of the block of its first call and reads them when the block has ended: its properties are about
    the values at the end of the block (\<open>TOF3_first_call\<close>), from which no row with a defined meaning
    is built (\<open>frame3_no_row\<close>).
  \<^item> \<open>MarketWatch\<close> (\<^verbatim>\<open>market_watch.c\<close>): the change of the capitalisation over the selected securities.
  \<^item> \<open>BrokerVolume\<close> (\<^verbatim>\<open>broker_volume.c\<close>), \<open>TradeStatus\<close> (\<^verbatim>\<open>trade_status.c\<close>), \<open>CustomerPosition\<close>
    (\<^verbatim>\<open>customer_position.c\<close>), \<open>SecurityDetail\<close> (\<^verbatim>\<open>security_detail.c\<close>): which rows are reported in which order, when the arrays fit, and two
    sharp bounds beyond which a frame writes past its buffer.
  \<^item> \<open>TradeLookup\<close>, \<open>LookupAccount\<close>, \<open>LookupSymbol\<close> (\<^verbatim>\<open>trade_lookup.c\<close>, four frames): the row each frame
    returns on every database within the widths, the lengths of its columns, which are aligned only
    when every trade has its settlement and cash transaction, and a bound beyond which frame 1 overflows.
  \<^item> \<open>TradeUpdate\<close>, \<open>UpdateAccount\<close>, \<open>UpdateSymbol\<close> (\<^verbatim>\<open>trade_update.c\<close>, three frames): which rows change,
    to which values, and that a row shows the trades as the whole call leaves them; two calls of
    frame 1 cancel out.
  \<^item> \<open>DataMaintenance\<close> (\<^verbatim>\<open>data_maintenance.c\<close>): only the named table changes, watch lists stay free of
    duplicates, the change of the quarters is undone by the next one.
  \<^item> \<open>Connection\<close> (\<^verbatim>\<open>DBConnection.cpp\<close>, the loop of \<^verbatim>\<open>workerThread\<close> in \<^verbatim>\<open>BrokerageHouse.cpp\<close>): begin, commit, rollback,
    exec with its exceptions, over an arbitrary server that may refuse any command; the predicate
    \<open>works\<close> and its rules, from which the effect of a whole transaction follows; at most eleven attempts.
  \<^item> \<open>MarketFeed\<close> and \<open>Ticker\<close> (\<^verbatim>\<open>DBConnection.cpp\<close>, Market-Feed): the effect of the ticker entries as a
    specification on tables, which every call implements for a beginning of the ticker, however it
    ends; no order is lost or sent twice, but retried entries count their volumes again.  The price
    reaches SQL exactly below a thousand million.
  \<^item> \<open>TradeCleanup\<close> (\<^verbatim>\<open>DBConnection.cpp\<close>, \<^verbatim>\<open>TradeCleanupDB.cpp\<close>): everything or nothing, and idempotent.
  \<^item> \<open>Epoch\<close> (\<^verbatim>\<open>DBConnection.cpp\<close>): binary dates and timestamps.
  \<^item> \<open>Wire\<close> and \<open>Harness\<close> (\<^verbatim>\<open>DBConnectionServerSide.cpp\<close>): tokenizing undoes the array and composite texts,
    and a Broker-Volume request from the harness to the frame and back, through array input and output
    of the server as documented (\<open>array_io\<close>).
  \<^item> This theory: Trade-Order and Trade-Result together, from the order to the settlement.

  \<^bold>\<open>Conventions.\<close>  Statement texts are constructors; their meaning is a function on tables, in
  which rows that an \<^verbatim>\<open>ORDER BY\<close> leaves tied keep their storage order, as do rows without one.
  Functions of the server that are not in the repository (casts of \<^verbatim>\<open>float8\<close>, texts of dates, the
  clock) are the record \<open>pgapi\<close>, on which no theorem assumes more than it states.  \<open>prepare\<close> stands
  for \<^verbatim>\<open>SPI_prepare\<close>.  Uninitialised slots, pointers to arrays that no longer exist, null pointers
  handed to C string functions and writes past a buffer are the outcome \<open>Fail Crash\<close>.  All loops are over the rows of a query or a list, or
  count up to a constant, and all functions are total; no fuel is needed.

  \<^bold>\<open>Not modelled.\<close>  Foreign keys; the \<^verbatim>\<open>DEBUG\<close> dumps and the check of the tuple descriptor; memory
  contexts; collations other than the order of characters; the input functions of the result
  types, which read the array texts of a row.  On a connection: other sessions, except as refused
  commands, the isolation levels, and a commit whose outcome is lost with the connection.  Of \<^verbatim>\<open>DBConnectionServerSide.cpp\<close> only the tokenizers and
  one \<^verbatim>\<open>execute\<close> method are modelled.  Left out: the PL/pgSQL versions of the procedures and the
  client-side connection, which implement the same frames again; the socket servers, threads and
  driver in C++, which are input and output around EGen, not part of the repository; the loader
  and the shell scripts.
\<close>

section \<open>From the order to the settlement\<close>

text \<open>
  C22. A trade entered by Trade-Order frame 4 is the trade Trade-Result frame 1 finds: called
  with the identifier the order returned, on the tables the order left, it reports exactly
  one trade with the account, symbol, quantity and flags of the order, and the current
  position.
\<close>

theorem placed_trade_found:
  assumes "\<And>s. s \<in> set TOF4_statements \<Longrightarrow> prepare4 s" "\<And>s. s \<in> set TRF1_statements \<Longrightarrow> prepare1 s"
    and "place_ready pg chrg comm ename price st symb q tt (db_of f)" "length ename \<le> 49" "in_i64 ca"
    and "filter (\<lambda>y. tt_id y = take 3 tt) (trade_type_tbl (db_of f)) = ty # tys"
  shows "\<exists>t f'. TradeOrderFrame4 prepare4 (tof_spi pg) ca b chrg comm ename is_cash is_lifo price st symb q tt is_market f = Ok (t, f')
    \<and> (\<exists>g. TradeResultFrame1 prepare1 (trf_spi pg) t
          \<lparr>session = start_call (db_of f'), plans = [], warnings = [], max_calls = 0\<rparr> =
        Ok ([trf1_out (placed_trade pg ca chrg comm ename is_cash is_lifo price st symb q tt t) ty
               (summary ca (take 15 symb) (db_of f))], g))"
proof -
  let ?t = "seq_trade_id (db_of f)"
  let ?d = "placed_db pg ca b chrg comm ename is_cash is_lifo price st symb q tt is_market (db_of f)"
  let ?g = "\<lparr>session = start_call ?d, plans = [], warnings = [], max_calls = 0\<rparr> :: (trf_stmt, pgsession) fctx"
  let ?r = "placed_trade pg ca chrg comm ename is_cash is_lifo price st symb q tt ?t"
  obtain ps where run: "TradeOrderFrame4 prepare4 (tof_spi pg) ca b chrg comm ename is_cash is_lifo price st symb q tt is_market f =
      Ok (?t, set_db ?d (f\<lparr>plans := ps\<rparr>))"
    using frame4_runs [of prepare4, OF assms(1) assms(3,4)] by blast
  have sel: "t_id ?r = ?t" "t_ca_id ?r = ca" "t_tt_id ?r = take 3 tt" "t_s_symb ?r = take 15 symb"
    by (simp_all add: placed_trade_def)
  have sn: "snap_of ?g = ?d" by (simp add: snap_of_def)
  have "?t \<notin> t_id ` set (trade_tbl (db_of f))"
    using seq_fresh_ids assms(3) by (auto simp: place_ready_def)
  then have one: "filter (\<lambda>r. t_id r = ?t) (trade_tbl ?d) = [?r]"
    using keyed_filter_none [of ?t t_id "trade_tbl (db_of f)"] by (simp add: placed_db_def Let_def sel)
  have "\<exists>qs. TradeResultFrame1 prepare1 (trf_spi pg) ?t ?g =
      Ok ([trf1_out ?r ty (summary ca (take 15 symb) ?d)], ?g\<lparr>max_calls := 1, plans := qs\<rparr>)"
    using frame1_runs [of prepare1 ?t ?g ?r ty tys pg, OF assms(2)] one assms(5,6) sel
    by (simp add: sn) (simp add: placed_db_def Let_def)
  moreover have "summary ca (take 15 symb) ?d = summary ca (take 15 symb) (db_of f)"
    by (simp add: summary_def summary_rows_def placed_db_def Let_def)
  ultimately show ?thesis using run by auto
qed

theorem placed_trade_found_witness:
  "\<exists>t f'. TradeOrderFrame4 (\<lambda>_. True) (tof_spi sample_pg) 1 2 1 8 ''Ann'' 1 0 12 ''PNDG'' ''AB'' 30 ''TMS'' 0 sample_order_ctx = Ok (t, f')
    \<and> (\<exists>g. TradeResultFrame1 (\<lambda>_. True) (trf_spi sample_pg) t
          \<lparr>session = start_call (db_of f'), plans = [], warnings = [], max_calls = 0\<rparr> =
        Ok ([trf1_out (placed_trade sample_pg 1 1 8 ''Ann'' 1 0 12 ''PNDG'' ''AB'' 30 ''TMS'' t) sample_type 100], g))"
proof -
  have "place_ready sample_pg 1 8 ''Ann'' 12 ''PNDG'' ''AB'' 30 ''TMS'' (db_of sample_order_ctx)"
    using sample_place_ready by (simp add: place_ready_def is_cstr_def sample_order_ctx_def)
  then show ?thesis
    using placed_trade_found [of "\<lambda>_. True" "\<lambda>_. True" sample_pg 1 8 "''Ann''" 12 "''PNDG''" "''AB''" 30 "''TMS''"
        sample_order_ctx 1 sample_type "[]" 2 1 0 0]
    by (simp add: sample_order_ctx_def in_i64_def summary_def summary_rows_def sample_type_def)
qed

text \<open>
  C23. The estimate of an order is what the settlement will compute.  On the same tables and at
  the same price, the cost and proceeds that the first call of Trade-Order frame 3 prints into
  its values and those that Trade-Result frame 2 returns in its row are the same two numbers
  (frame 3 pads them to eight columns).
\<close>

theorem estimate_is_settlement:
  assumes "\<And>s. s \<in> set TOF3_statements \<Longrightarrow> prepare3 s" "\<And>s. s \<in> set TRF2_statements \<Longrightarrow> prepare2 s"
    and "order_ready ca tier symb tt q c s l ty r ch a (snap_of f)" "is_cstr st1" "is_cstr st2"
    and "db_of g = snap_of f" "price = (if tt_is_mrkt ty then of_int (lt_price l) / 10 ^ 2 else req)"
    and "frame2_pre pg ca symb t price q (if tt_is_sell ty then 1 else 0) ts (db_of g)"
  shows "\<exists>buy sell vals row3 f' row2 g'.
      TOF3_first_call prepare3 (tof_spi pg) ca cu tier is_lifo issue st1 st2 tax_status q tt margin name req symb f = Ok (Some vals, f')
    \<and> BuildTupleFromCStrings (map vals tof3_order) = Ok row3
    \<and> TradeResultFrame2 prepare2 (trf_spi pg) pg ca (summary ca symb (db_of g)) is_lifo symb t price q
        (if tt_is_sell ty then 1 else 0) g = Ok ([row2], g')
    \<and> SPI_getvalue row3 4 = Some (snprintf_2f 15 8 buy) \<and> SPI_getvalue row3 10 = Some (snprintf_2f 15 8 sell)
    \<and> SPI_getvalue row2 2 = Some (snprintf_2f 15 0 buy) \<and> SPI_getvalue row2 4 = Some (snprintf_2f 15 0 sell)"
proof -
  let ?is = "if tt_is_sell ty then 1 else 0 :: int"
  let ?est = "estimate ca is_lifo symb (tt_is_sell ty) q (order_price ty l req) (snap_of f)"
  have pr: "order_price ty l req = rnd64 price" by (simp add: order_price_def assms(7))
  have a: "account_row ca (db_of g) = Some a" using assms(3,6) by (simp add: order_ready_def)
  obtain vals row3 f' where r3: "TOF3_first_call prepare3 (tof_spi pg) ca cu tier is_lifo issue st1 st2 tax_status q tt margin name req symb f = Ok (Some vals, f')"
      "BuildTupleFromCStrings (map vals tof3_order) = Ok row3"
    and v3: "SPI_getvalue row3 4 = Some (snprintf_2f 15 8 (fst ?est))" "SPI_getvalue row3 10 = Some (snprintf_2f 15 8 (snd ?est))"
    using frame3_runs [of prepare3, OF assms(1) assms(3-5)] by (fastforce simp: tof3_out_def)
  obtain row2 g' where r2: "TradeResultFrame2 prepare2 (trf_spi pg) pg ca (summary ca symb (db_of g)) is_lifo symb t price q ?is g = Ok ([row2], g')"
    and o2: "row2 = frame2_out pg ca symb price q is_lifo ?is a (db_of g)"
    using frame2_on_tables [of prepare2, OF assms(2) assms(8) a, of is_lifo] by auto
  have "SPI_getvalue row2 2 = Some (snprintf_2f 15 0 (fst ?est))" "SPI_getvalue row2 4 = Some (snprintf_2f 15 0 (snd ?est))"
    by (simp_all add: o2 frame2_out_def trf2_out_def estimate_def Let_def pr assms(6) case_prod_unfold)
  with r3 v3 r2 show ?thesis by blast
qed

theorem estimate_is_settlement_witness:
  "\<exists>buy sell vals row3 f' row2 g'.
      TOF3_first_call (\<lambda>_. True) (tof_spi sample_pg) 1 3 2 0 [] ''PNDG'' ''SBMT'' 1 30 ''TMS'' 0 [] 11 ''AB'' sample_ctx = Ok (Some vals, f')
    \<and> BuildTupleFromCStrings (map vals tof3_order) = Ok row3
    \<and> TradeResultFrame2 (\<lambda>_. True) (trf_spi sample_pg) sample_pg 1 100 0 ''AB'' 9 (1200 / 10 ^ 2) 30 1 sample_ctx = Ok ([row2], g')
    \<and> SPI_getvalue row3 4 = Some (snprintf_2f 15 8 buy) \<and> SPI_getvalue row3 10 = Some (snprintf_2f 15 8 sell)
    \<and> SPI_getvalue row2 2 = Some (snprintf_2f 15 0 buy) \<and> SPI_getvalue row2 4 = Some (snprintf_2f 15 0 sell)"
proof -
  have "frame2_pre sample_pg 1 ''AB'' 9 (1200 / 10 ^ 2) 30 1 sample_ts sample_db"
    using sample_frame2_pre by simp
  then show ?thesis
    using estimate_is_settlement [of "\<lambda>_. True" "\<lambda>_. True" 1 2 "''AB''" "''TMS''" 30 sample_company sample_security sample_last_trade
        sample_type sample_rate sample_charge sample_account sample_ctx "''PNDG''" "''SBMT''" sample_ctx "1200 / 10 ^ 2" 11
        sample_pg 9 sample_ts 3 0 "[]" 1 0 "[]"] sample_order_ready
    by (simp add: is_cstr_def summary_def summary_rows_def sample_type_def sample_last_trade_def)
qed

end
